(* ===== verification/Go_Prelude.thy ===== *)
theory Go_Prelude
  imports Main "HOL-Library.Finite_Map" "HOL-Library.FSet" "HOL-Library.List_Lexorder"
    "HOL-Library.Char_ord" "HOL-Library.Sublist"
begin

text \<open>
  Shared vocabulary of the development. A Go string is a \<open>string\<close>, that is a list of
  bytes (\<open>len\<close> counts bytes, \<open>strings.Compare\<close> and \<open>slices.Sort\<close> are the lexicographic
  byte order of \<open>List_Lexorder\<close> over \<open>Char_ord\<close>). A Go map is a finite map, a set-valued
  map (\<open>map[K]struct{}\<close>) a finite set, a pointer that may be nil an \<open>option\<close>, a
  \<open>time.Time\<close> the number of nanoseconds since Go's zero time (so \<open>IsZero\<close> is \<open>= 0\<close>), an
  operation that may return an error a sum with the error on the left.
  The theory also models the functions of package \<open>strings\<close> that the code uses
  (\<open>TrimSpace\<close>, \<open>Cut\<close>, \<open>HasPrefix\<close>, \<open>TrimPrefix\<close>, \<open>ToLower\<close>) and holds the generic lemmas
  on lists and finite maps that the components share.
\<close>

named_theorems store_defs \<open>definitions of the store operations\<close>
named_theorems frame_simps \<open>fields that an operation leaves unchanged\<close>

section \<open>Types\<close>

type_synonym time = int
type_synonym duration = int
type_synonym 'v strmap = "(string, 'v) fmap"
type_synonym strset = "string fset"

section \<open>Package strings\<close>

text \<open>
  \<open>strings.TrimSpace\<close> strips code points with the Unicode property White Space. On the
  bytes of a string these are the following UTF-8 encodings: U+0009 to U+000D, U+0020,
  U+0085, U+00A0, U+1680, U+2000 to U+200A, U+2028, U+2029, U+202F, U+205F, U+3000. A byte
  sequence that is not one of them, malformed UTF-8 included, is not stripped.
\<close>

definition space_encodings :: "string list" where
  "space_encodings =
     map (\<lambda>c. [c]) [CHR 0x09, CHR 0x0A, CHR 0x0B, CHR 0x0C, CHR 0x0D, CHR 0x20] @
     map (\<lambda>c. [CHR 0xC2, c]) [CHR 0x85, CHR 0xA0] @
     [[CHR 0xE1, CHR 0x9A, CHR 0x80]] @
     map (\<lambda>c. [CHR 0xE2, CHR 0x80, c])
       [CHR 0x80, CHR 0x81, CHR 0x82, CHR 0x83, CHR 0x84, CHR 0x85, CHR 0x86, CHR 0x87,
        CHR 0x88, CHR 0x89, CHR 0x8A, CHR 0xA8, CHR 0xA9, CHR 0xAF] @
     [[CHR 0xE2, CHR 0x81, CHR 0x9F], [CHR 0xE3, CHR 0x80, CHR 0x80]]"

fun trim_prefixes :: "string list \<Rightarrow> nat \<Rightarrow> string \<Rightarrow> string" where
  "trim_prefixes es 0 s = s"
| "trim_prefixes es (Suc n) s =
     (case find (\<lambda>e. prefix e s) es of
        None \<Rightarrow> s
      | Some e \<Rightarrow> trim_prefixes es n (drop (length e) s))"

definition trim_left :: "string \<Rightarrow> string" where
  "trim_left s = trim_prefixes space_encodings (length s) s"

definition trim_right :: "string \<Rightarrow> string" where
  "trim_right s = rev (trim_prefixes (map rev space_encodings) (length s) (rev s))"

definition trim_space :: "string \<Rightarrow> string" where
  "trim_space s = trim_right (trim_left s)"

fun go_cut :: "string \<Rightarrow> string \<Rightarrow> (string \<times> string) option" where
  "go_cut sep [] = (if sep = [] then Some ([], []) else None)"
| "go_cut sep (c # cs) =
     (if prefix sep (c # cs) then Some ([], drop (length sep) (c # cs))
      else (case go_cut sep cs of None \<Rightarrow> None | Some (l, r) \<Rightarrow> Some (c # l, r)))"

definition has_prefix :: "string \<Rightarrow> string \<Rightarrow> bool" where
  "has_prefix s p = prefix p s"

definition trim_prefix :: "string \<Rightarrow> string \<Rightarrow> string" where
  "trim_prefix s p = (if prefix p s then drop (length p) s else s)"

text \<open>
  \<open>strings.ToLower\<close> on the ASCII letters. No code point outside ASCII has a lower case
  among the letters the callers look for (\<open>f\<close>, \<open>o\<close>, \<open>l\<close>, \<open>w\<close>, \<open>s\<close>, \<open>h\<close> and the hex digits),
  so leaving other bytes alone does not change what the callers decide.
\<close>

definition byte_lower :: "char \<Rightarrow> char" where
  "byte_lower c =
     (if CHR ''A'' \<le> c \<and> c \<le> CHR ''Z'' then char_of ((of_char c :: nat) + 32) else c)"

definition to_lower :: "string \<Rightarrow> string" where
  "to_lower s = map byte_lower s"

section \<open>Trimming\<close>

lemma trim_prefixes_none:
  "(\<And>e. e \<in> set es \<Longrightarrow> \<not> prefix e s) \<Longrightarrow> trim_prefixes es n s = s"
  by (cases n) (auto split: option.splits simp: find_Some_iff dest!: nth_mem)

lemma trim_prefixes_suffix: "\<exists>u. s = u @ trim_prefixes es n s"
proof (induction n arbitrary: s)
  case (Suc n)
  show ?case
  proof (cases "find (\<lambda>e. prefix e s) es")
    case (Some e)
    then have "prefix e s" by (auto simp: find_Some_iff)
    then have split: "s = e @ drop (length e) s" by (auto simp: prefix_def)
    obtain u where "drop (length e) s = u @ trim_prefixes es n (drop (length e) s)"
      using Suc.IH by blast
    with split Some have "s = (e @ u) @ trim_prefixes es (Suc n) s" by simp
    then show ?thesis by blast
  qed simp
qed simp

lemma trim_prefixes_done:
  assumes "[] \<notin> set es" and "length s \<le> n" and "e \<in> set es"
  shows "\<not> prefix e (trim_prefixes es n s)"
  using assms(2)
proof (induction n arbitrary: s)
  case 0
  with assms show ?case by (auto simp: prefix_def)
next
  case (Suc n)
  show ?case
  proof (cases "find (\<lambda>x. prefix x s) es")
    case None
    then have "trim_prefixes es (Suc n) s = s" by simp
    with None assms(3) show ?thesis by (auto simp: find_None_iff)
  next
    case (Some x)
    then have x: "x \<in> set es" "prefix x s" by (auto simp: find_Some_iff)
    with assms(1) have "length (drop (length x) s) \<le> n"
      using Suc.prems by (cases x) (auto simp: prefix_def)
    with Suc.IH Some show ?thesis by simp
  qed
qed

lemma space_encodings_nonempty: "[] \<notin> set space_encodings"
  by (simp add: space_encodings_def)

lemma trim_left_done: "e \<in> set space_encodings \<Longrightarrow> \<not> prefix e (trim_left s)"
  unfolding trim_left_def using space_encodings_nonempty by (rule trim_prefixes_done) simp_all

lemma trim_right_done: "e \<in> set space_encodings \<Longrightarrow> \<not> suffix e (trim_right s)"
proof -
  assume e: "e \<in> set space_encodings"
  have "\<not> prefix (rev e) (trim_prefixes (map rev space_encodings) (length s) (rev s))"
    by (rule trim_prefixes_done) (use e space_encodings_nonempty in auto)
  then show ?thesis by (simp add: trim_right_def suffix_to_prefix)
qed

lemma trim_right_prefix: "\<exists>u. s = trim_right s @ u"
proof -
  obtain u where "rev s = u @ trim_prefixes (map rev space_encodings) (length s) (rev s)"
    using trim_prefixes_suffix by blast
  then have "s = trim_right s @ rev u"
    by (metis rev_append rev_rev_ident trim_right_def)
  then show ?thesis by blast
qed

lemma trim_space_no_leading: "e \<in> set space_encodings \<Longrightarrow> \<not> prefix e (trim_space s)"
  unfolding trim_space_def
  by (metis trim_left_done trim_right_prefix prefix_append)

lemma trim_space_no_trailing: "e \<in> set space_encodings \<Longrightarrow> \<not> suffix e (trim_space s)"
  by (simp add: trim_space_def trim_right_done)

lemma trim_space_id:
  assumes "\<And>e. e \<in> set space_encodings \<Longrightarrow> \<not> prefix e s \<and> \<not> suffix e s"
  shows "trim_space s = s"
proof -
  have "trim_left s = s"
    unfolding trim_left_def by (rule trim_prefixes_none) (use assms in blast)
  moreover have "trim_right s = s"
    unfolding trim_right_def
    by (subst trim_prefixes_none) (use assms in \<open>auto simp: suffix_to_prefix\<close>)
  ultimately show ?thesis by (simp add: trim_space_def)
qed

lemma trim_space_idem [simp]: "trim_space (trim_space s) = trim_space s"
  by (rule trim_space_id) (simp add: trim_space_no_leading trim_space_no_trailing)

lemma trim_space_Nil [simp]: "trim_space [] = []"
  by (simp add: trim_space_def trim_left_def trim_right_def)

text \<open>A string of printable ASCII bytes has no white space at either end.\<close>

definition graphic :: "char \<Rightarrow> bool" where
  "graphic c \<longleftrightarrow> CHR 0x21 \<le> c \<and> c \<le> CHR 0x7E"

lemma space_encodings_not_graphic:
  "e \<in> set space_encodings \<Longrightarrow> \<not> graphic (hd e) \<and> \<not> graphic (last e)"
  by (auto simp: space_encodings_def graphic_def less_eq_char_def)

lemma trim_space_graphic:
  assumes "\<forall>c \<in> set s. graphic c"
  shows "trim_space s = s"
proof (rule trim_space_id)
  fix e assume e: "e \<in> set space_encodings"
  then have ne: "e \<noteq> []" using space_encodings_nonempty by auto
  note ng = space_encodings_not_graphic [OF e]
  show "\<not> prefix e s \<and> \<not> suffix e s"
    using assms ne ng by (auto simp: prefix_def suffix_def)
qed

lemma trim_space_ends:
  assumes "s \<noteq> []" and "graphic (hd s)" and "graphic (last s)"
  shows "trim_space s = s"
proof (rule trim_space_id)
  fix e assume e: "e \<in> set space_encodings"
  then have ne: "e \<noteq> []" using space_encodings_nonempty by auto
  with space_encodings_not_graphic [OF e] assms show "\<not> prefix e s \<and> \<not> suffix e s"
    by (auto simp: prefix_def suffix_def)
qed

section \<open>Cutting\<close>

lemma go_cut_Some: "go_cut sep s = Some (l, r) \<Longrightarrow> s = l @ sep @ r"
proof (induction s arbitrary: l r)
  case (Cons c cs)
  then show ?case
    by (auto simp: prefix_def split: if_splits option.splits)
qed (simp split: if_splits)

lemma go_cut_single:
  "c \<notin> set l \<Longrightarrow> go_cut [c] (l @ c # r) = Some (l, r)"
  by (induction l) auto

lemma go_cut_sep: "c \<notin> set l \<Longrightarrow> go_cut (c # sep) (l @ (c # sep) @ r) = Some (l, r)"
  by (induction l) auto

lemma go_cut_single_left: "go_cut [c] s = Some (l, r) \<Longrightarrow> c \<notin> set l"
  by (induction s arbitrary: l r) (auto split: if_splits option.splits)

lemma go_cut_single_None: "go_cut [c] s = None \<longleftrightarrow> c \<notin> set s"
  by (induction s) (auto split: option.splits)

section \<open>Finite maps\<close>

definition fmget :: "'v \<Rightarrow> 'v strmap \<Rightarrow> string \<Rightarrow> 'v" where
  "fmget d m k = (case fmlookup m k of None \<Rightarrow> d | Some v \<Rightarrow> v)"

text \<open>Reading a missing key of a Go map yields the zero value: \<open>fmget zero m k\<close>.\<close>

lemma fmget_upd [simp]: "fmget d (fmupd k v m) k' = (if k = k' then v else fmget d m k')"
  by (simp add: fmget_def)

lemma fmget_empty [simp]: "fmget d fmempty k = d"
  by (simp add: fmget_def)

definition fmvalues :: "'v strmap \<Rightarrow> 'v list" where
  "fmvalues m = map snd (sorted_list_of_fmap m)"

text \<open>
  The values of a map in key order. Go iterates in an unspecified order; the code sorts
  what it collected, so the order chosen here is not observable where it matters.
\<close>

lemma sorted_list_of_fmap_fst: "map fst (sorted_list_of_fmap m) = sorted_list_of_fset (fmdom m)"
  by (simp add: sorted_list_of_fmap_def comp_def)

lemma set_sorted_list_of_fmap: "set (sorted_list_of_fmap m) = {(k, v). fmlookup m k = Some v}"
proof -
  have "set (sorted_list_of_fmap m) = (\<lambda>k. (k, the (fmlookup m k))) ` fset (fmdom m)"
    by (simp add: sorted_list_of_fmap_def)
  also have "\<dots> = {(k, v). fmlookup m k = Some v}"
    by (force simp: fmlookup_dom_iff image_iff)
  finally show ?thesis .
qed

lemma set_fmvalues: "set (fmvalues m) = {v. \<exists>k. fmlookup m k = Some v}"
  by (auto simp: fmvalues_def set_sorted_list_of_fmap image_iff)

lemma distinct_sorted_list_of_fset [simp]: "distinct (sorted_list_of_fset A)"
  by (simp add: sorted_list_of_fset.rep_eq)

lemma sorted_sorted_list_of_fset [simp]: "sorted (sorted_list_of_fset A)"
  by (simp add: sorted_list_of_fset.rep_eq)


end
