(* ===== verification/Protocol_Types.thy ===== *)
theory Protocol_Types
  imports Go_Prelude
begin

text \<open>
  The wire types of \<open>pkg/protocol\<close>: one record per struct with the source's fields in the
  source's order, each field prefixed by an abbreviation of its struct so that records do
  not share selectors. A pointer field is an \<open>option\<close>. A \<open>SecretString\<close> is its plaintext.
  An arbitrary decoded JSON value (\<open>map[string]any\<close> in \<open>Part.Data\<close>) is a \<open>json\<close>.
\<close>

section \<open>JSON values\<close>

text \<open>
  A \<open>float64\<close> by its value: an integral finite value, a fraction \<open>m / 2 ^ k\<close> (with \<open>m\<close> odd
  and \<open>0 < k\<close>), negative zero, or a non-finite value.
\<close>

datatype float64 = Integral int | Fraction int nat | NegZero | NonFinite

datatype json =
    JNull
  | JBool bool
  | JNum float64
  | JStr string
  | JArr "json list"
  | JObj "(string \<times> json) list"

section \<open>Messages\<close>

abbreviation TargetKindRoom :: string where "TargetKindRoom \<equiv> ''room''"
abbreviation TargetKindThread :: string where "TargetKindThread \<equiv> ''thread''"
abbreviation TargetKindDM :: string where "TargetKindDM \<equiv> ''dm''"
abbreviation RoomVisibilityPrivate :: string where "RoomVisibilityPrivate \<equiv> ''private''"
abbreviation RoomVisibilityPublic :: string where "RoomVisibilityPublic \<equiv> ''public''"
abbreviation RoomWritePolicyMembers :: string where "RoomWritePolicyMembers \<equiv> ''members''"
abbreviation RoomWritePolicyRegisteredAgents :: string where
  "RoomWritePolicyRegisteredAgents \<equiv> ''registered_agents''"
abbreviation RoomWritePolicyOperators :: string where "RoomWritePolicyOperators \<equiv> ''operators''"
abbreviation PartKindText :: string where "PartKindText \<equiv> ''text''"
abbreviation EventTypeReplayGap :: string where "EventTypeReplayGap \<equiv> ''stream.replay_gap''"
abbreviation EventTypeMessageCreated :: string where
  "EventTypeMessageCreated \<equiv> ''message.created''"

record actor =
  act_type :: string
  act_id :: string
  act_name :: string
  act_network_id :: string
  act_fqid :: string
  act_credential_bound :: bool

record message_origin =
  org_claimed_author :: "actor option"
  org_claimed_network_id :: string
  org_claimed_message_id :: string
  org_claimed_discovery_network_id :: string
  org_network_id :: string
  org_message_id :: string
  org_received_via :: string

record target =
  tgt_kind :: string
  tgt_room_id :: string
  tgt_thread_id :: string
  tgt_parent_message_id :: string
  tgt_dm_id :: string
  tgt_participant_ids :: "string list"

record part =
  part_kind :: string
  part_text :: string
  part_media_type :: string
  part_url :: string
  part_filename :: string
  part_data :: "(string \<times> json) list"

record message =
  msg_id :: string
  msg_network_id :: string
  msg_origin :: message_origin
  msg_target :: target
  msg_from :: actor
  msg_parts :: "part list"
  msg_mentions :: "string list"
  msg_created_at :: time

section \<open>Rooms, threads, conversations, agents\<close>

record room_federation =
  fed_mode :: string
  fed_pairings :: "string list"

record room_follow =
  rf_id :: string
  rf_remote_base_url :: string
  rf_remote_room_id :: string

record room_access =
  acc_can_read :: bool
  acc_can_write :: bool
  acc_reason :: string

record room =
  rm_follow :: "room_follow option"
  rm_id :: string
  rm_network_id :: string
  rm_fqid :: string
  rm_name :: string
  rm_members :: "string list"
  rm_visibility :: string
  rm_write_policy :: string
  rm_federation :: "room_federation option"
  rm_access :: "room_access option"
  rm_created_at :: time
  rm_last_message_at :: "time option"

record thread =
  thr_id :: string
  thr_network_id :: string
  thr_fqid :: string
  thr_room_id :: string
  thr_parent_message_id :: string
  thr_message_count :: nat
  thr_last_message_at :: time

record direct_conversation =
  dc_id :: string
  dc_network_id :: string
  dc_fqid :: string
  dc_participant_ids :: "string list"
  dc_message_count :: nat
  dc_last_message_at :: time

record agent_summary =
  as_id :: string
  as_name :: string
  as_actor_uid :: string
  as_fqid :: string
  as_network_id :: string
  as_rooms :: "string list"
  as_connected :: bool

record agent_registration =
  reg_network_id :: string
  reg_agent_id :: string
  reg_actor_uid :: string
  reg_actor_uri :: string
  reg_display_name :: string
  reg_agent_token :: string
  reg_credential_key :: string
  reg_created_at :: time
  reg_updated_at :: time

section \<open>Pairings\<close>

record pairing_relay =
  prl_url :: string
  prl_room :: string
  prl_token :: string

record network_protocols =
  np_http :: "string list"
  np_attach :: "string list"
  np_pair :: "string list"

record pairing_diagnostics =
  pdg_checked_at :: time
  pdg_remote_version :: string
  pdg_remote_network_id :: string
  pdg_remote_protocols :: network_protocols
  pdg_reason :: string
  pdg_message :: string

record pairing_delivery_status =
  pds_pending :: nat
  pds_oldest_pending_age_seconds :: float64
  pds_last_error :: string
  pds_rejected :: int
  pds_last_rejection_reason :: string
  pds_dropped :: int

record pairing_limits_config =
  plc_max_age_seconds :: int
  plc_max_pending :: int

record pairing =
  pr_id :: string
  pr_remote_network_id :: string
  pr_remote_network_name :: string
  pr_remote_base_url :: string
  pr_relay :: "pairing_relay option"
  pr_status :: string
  pr_diagnostics :: "pairing_diagnostics option"
  pr_delivery :: "pairing_delivery_status option"
  pr_delivery_limits :: "pairing_limits_config option"
  pr_token :: string
  pr_scope :: string

definition IsRoomLink :: "pairing \<Rightarrow> bool" where
  "IsRoomLink p \<longleftrightarrow> trim_space (pr_scope p) = ''rooms''"

section \<open>Events\<close>

record replay_gap =
  gap_requested_event_id :: string
  gap_oldest_event_id :: string
  gap_newest_event_id :: string

record agent_event =
  ae_agent_id :: string
  ae_network_id :: string
  ae_fqid :: string
  ae_name :: string
  ae_message_id :: string
  ae_reason :: string
  ae_target :: "target option"
  ae_error :: string
  ae_attempts :: int
  ae_classification :: string

record event =
  evt_id :: string
  evt_type :: string
  evt_network_id :: string
  evt_agent :: "agent_event option"
  evt_message :: "message option"
  evt_room :: "room option"
  evt_thread :: "thread option"
  evt_dm :: "direct_conversation option"
  evt_pairing :: "pairing option"
  evt_replay_gap :: "replay_gap option"
  evt_created_at :: time

section \<open>Requests and pages\<close>

record page_request =
  pg_before :: string
  pg_after :: string
  pg_limit :: int

record page_info =
  pi_has_more :: bool
  pi_next_before :: string
  pi_next_after :: string

definition no_page_info :: page_info where
  "no_page_info = \<lparr>pi_has_more = False, pi_next_before = [], pi_next_after = []\<rparr>"

record artifact =
  art_id :: string
  art_network_id :: string
  art_fqid :: string
  art_message_id :: string
  art_target :: target
  art_part_index :: nat
  art_kind :: string
  art_media_type :: string
  art_filename :: string
  art_url :: string
  art_created_at :: time

record artifact_filter =
  af_room_id :: string
  af_thread_id :: string
  af_dm_id :: string

record signed_envelope =
  se_envelope :: string
  se_public_key :: string
  se_signature :: string

record signed_room_receipt =
  srr_receipt :: string
  srr_signature :: string

record signed_room_control =
  src_control :: string
  src_signature :: string

record send_message_request =
  smr_id :: string
  smr_origin :: message_origin
  smr_target :: target
  smr_from :: actor
  smr_parts :: "part list"
  smr_mentions :: "string list"
  smr_cause_event_ids :: "string list"
  smr_envelope :: "signed_envelope option"
  smr_receipt :: "signed_room_receipt option"

record create_room_request =
  crr_id :: string
  crr_name :: string
  crr_members :: "string list"
  crr_visibility :: string
  crr_write_policy :: string
  crr_federation :: "room_federation option"
  crr_credential :: string

record update_room_members_request =
  urm_add :: "string list"
  urm_remove :: "string list"

end
