(* ===== verification/Store_Types.thy ===== *)
theory Store_Types
  imports Protocol_Types
begin

text \<open>
  The data of \<open>internal/store\<close>: the error values (\<open>errors.go\<close>, \<open>message_envelope.go\<close>,
  \<open>hub.go\<close>, \<open>hub_sync.go\<close>), each with the reason its text gives, the rows of the delivery queue
  (\<open>pairing_delivery.go\<close>), stored envelopes, hub rooms, control records, receipts and sync
  cursors, and the store itself: the fields of \<open>MemoryStore\<close> (\<open>memory.go\<close>) in the source's
  order without its mutex. Every operation of the store holds the mutex for its whole body,
  so an operation is a function on this record. \<open>int64\<close> counters are \<open>int\<close>: they are
  incremented by one per stored record.
\<close>

section \<open>Errors\<close>

datatype receipt_conflict =
    SeqTaken
  | EventPlaced
  | PrevChain
  | NextChain
  | EpochBefore int
  | EpochAfter int
  | NoMessage string
  | UnknownReceiptRoom string

datatype control_conflict =
    NotGenesis
  | DifferentEvent
  | LogGap
  | UnknownHubRoom

datatype sync_rollback = SeqBackwards | DifferentReceipt | EpochBackwards

datatype store_error =
    ErrMessageIDConflict
  | ErrDuplicateMessage "string option"
  | ErrDMTopologyConflict
  | ErrRoomExists string
  | ErrRoomNotFound string
  | ErrInvalidCursor
  | ErrAgentCredential
  | ErrEnvelopeConflict message_origin string string
  | ErrHubRoomExists string
  | ErrHubControlConflict string int control_conflict
  | ErrHubReceiptConflict receipt_conflict
  | ErrHubSyncRollback sync_rollback
  | ErrNoOutboundEnvelope string
  | ErrContext
  | Panic

text \<open>
  \<open>ErrDuplicateMessage (Some id)\<close> is a \<open>DuplicateMessageError\<close>, which unwraps to
  \<open>ErrDuplicateMessage\<close>; \<open>errors.Is(err, ErrDuplicateMessage)\<close> is the following test. \<open>ErrContext\<close> is
  the error of a cancelled context, \<open>Panic\<close> a run-time panic (an index out of range).
\<close>

fun is_duplicate :: "store_error \<Rightarrow> bool" where
  "is_duplicate (ErrDuplicateMessage _) = True"
| "is_duplicate _ = False"

section \<open>Rows\<close>

record pairing_delivery =
  pd_sequence :: int
  pd_pairing_id :: string
  pd_remote_network_id :: string
  pd_message_id :: string
  pd_message :: message
  pd_attempts :: int
  pd_next_attempt :: time
  pd_created_at :: time

record pairing_delivery_state =
  ps_remote_network_id :: string
  ps_pending :: int
  ps_oldest_pending_at :: time
  ps_last_error :: string
  ps_dropped :: int
  ps_rejected :: int
  ps_last_rejection_reason :: string

definition no_delivery_state :: pairing_delivery_state where
  "no_delivery_state = \<lparr>ps_remote_network_id = [], ps_pending = 0, ps_oldest_pending_at = 0,
     ps_last_error = [], ps_dropped = 0, ps_rejected = 0, ps_last_rejection_reason = []\<rparr>"

record pairing_delivery_result =
  pdr_delivery :: pairing_delivery
  pdr_last_error :: string
  pdr_rejected_reason :: string
  pdr_retry :: bool

record pairing_delivery_limits =
  pdl_remote_network_id :: string
  pdl_max_age :: duration
  pdl_max_pending :: int

record message_envelope_record =
  env_message_id :: string
  env_origin_network_id :: string
  env_origin_message_id :: string
  env_digest :: string
  env_state :: string
  env_fingerprint :: string
  env_envelope :: signed_envelope

record hub_room =
  hr_global_room_id :: string
  hr_local_room_id :: string
  hr_home_network_id :: string
  hr_home_pairing_id :: string
  hr_created_at :: time

definition IsHome :: "hub_room \<Rightarrow> bool" where
  "IsHome r \<longleftrightarrow> hr_home_pairing_id r = []"

record hub_control_record =
  hc_global_room_id :: string
  hc_seq :: int
  hc_digest :: string
  hc_control :: signed_room_control

record hub_receipt_record =
  hx_global_room_id :: string
  hx_hub_epoch :: int
  hx_membership_epoch :: int
  hx_room_seq :: int
  hx_event_id :: string
  hx_digest :: string
  hx_prev_digest :: string
  hx_message_id :: string
  hx_receipt :: signed_room_receipt
  hx_withheld :: string

record hub_sync_cursor =
  cur_global_room_id :: string
  cur_seq :: int
  cur_digest :: string
  cur_membership_epoch :: int

definition zero_cursor :: hub_sync_cursor where
  "zero_cursor = \<lparr>cur_global_room_id = [], cur_seq = 0, cur_digest = [],
     cur_membership_epoch = 0\<rparr>"

record hub_state =
  hs_rooms :: "hub_room strmap"
  hs_control :: "hub_control_record list strmap"
  hs_receipts :: "hub_receipt_record list"
  hs_origin_seqs :: "int strmap"
  hs_cursors :: "hub_sync_cursor strmap"

definition newHubState :: hub_state where
  "newHubState = \<lparr>hs_rooms = fmempty, hs_control = fmempty, hs_receipts = [],
     hs_origin_seqs = fmempty, hs_cursors = fmempty\<rparr>"

record checkpoint =
  ck_cursor :: string
  ck_initialized :: bool
  ck_count :: int
  ck_latest_at :: time

definition zero_checkpoint :: checkpoint where
  "zero_checkpoint = \<lparr>ck_cursor = [], ck_initialized = False, ck_count = 0, ck_latest_at = 0\<rparr>"

record append_lifecycle =
  al_pairing_deliveries_dropped :: "int strmap"
  al_thread :: "thread option"
  al_dm :: "direct_conversation option"

definition no_lifecycle :: append_lifecycle where
  "no_lifecycle = \<lparr>al_pairing_deliveries_dropped = fmempty, al_thread = None, al_dm = None\<rparr>"

section \<open>The store\<close>

record memory_store =
  pairingDeliveries :: "pairing_delivery list"
  pairingDeliverySequence :: int
  pairingDeliveryStates :: "pairing_delivery_state strmap"
  originReceipts :: "string strmap"
  originDigests :: "string strmap"
  envelopes :: "message_envelope_record strmap"
  hub :: hub_state
  messageOrigins :: "string strmap"
  followCheckpoints :: "checkpoint strmap"
  deliveryCursors :: "int strmap"
  deliveryEvents :: "event list"
  messageIDs :: strset
  rooms :: "room strmap"
  removedRooms :: strset
  roomMessages :: "message list strmap"
  roomActivity :: "time strmap"
  threads :: "thread strmap"
  roomThreads :: "strset strmap"
  threadMessages :: "message list strmap"
  directMessages :: "message list strmap"
  directMembers :: "strset strmap"
  agents :: "agent_registration strmap"

definition NewMemoryStore :: memory_store where
  "NewMemoryStore = \<lparr>
     pairingDeliveries = [], pairingDeliverySequence = 0, pairingDeliveryStates = fmempty,
     originReceipts = fmempty, originDigests = fmempty, envelopes = fmempty,
     hub = newHubState, messageOrigins = fmempty, followCheckpoints = fmempty,
     deliveryCursors = fmempty, deliveryEvents = [], messageIDs = {||},
     rooms = fmempty, removedRooms = {||}, roomMessages = fmempty, roomActivity = fmempty,
     threads = fmempty, roomThreads = fmempty, threadMessages = fmempty,
     directMessages = fmempty, directMembers = fmempty, agents = fmempty\<rparr>"

end
