(* ===== verification/Protocol_Identity.thy ===== *)
theory Protocol_Identity
  imports Protocol_Types
begin

text \<open>
  Identifiers of \<open>pkg/protocol\<close>: the identifier grammar (\<open>validate.go\<close>), fully qualified
  ids (\<open>ids.go\<close>), scoped and fully qualified agent ids with their parsers and the matching
  of an actor against a member id (\<open>identity.go\<close>), and the normal forms of string lists and
  room settings (\<open>normalize.go\<close>). Shown: parsing inverts printing, the three spellings of an
  agent id denote the same identity, list normalisation yields the canonical listing of the
  set of trimmed entries.
\<close>

section \<open>Errors and the identifier grammar\<close>

text \<open>
  An \<open>error\<close> built by \<open>fmt.Errorf\<close>: a fixed text, a text quoting one value, or a text that
  wraps another error, possibly at an index. \<open>nil\<close> is \<open>None\<close>.
\<close>

datatype validation_error =
    Msg string
  | MsgQ string string
  | Wrap string validation_error
  | WrapIndex string nat validation_error

text \<open>\<open>if err := check; err != nil { return err }; rest\<close> is \<open>check_then check rest\<close>.\<close>

definition check_then :: "'e option \<Rightarrow> 'e option \<Rightarrow> 'e option" where
  "check_then check rest = (case check of Some e \<Rightarrow> Some e | None \<Rightarrow> rest)"

lemma check_then_None [simp]: "check_then c r = None \<longleftrightarrow> c = None \<and> r = None"
  by (simp add: check_then_def split: option.splits)

lemma check_then_simps [simp]: "check_then None r = r" "check_then (Some e) r = Some e"
  by (simp_all add: check_then_def)

abbreviation MaxMessageIDLength :: nat where "MaxMessageIDLength \<equiv> 128"
abbreviation MaxMembersPerRequest :: nat where "MaxMembersPerRequest \<equiv> 256"

definition id_first :: "char \<Rightarrow> bool" where
  "id_first c \<longleftrightarrow> (CHR ''A'' \<le> c \<and> c \<le> CHR ''Z'') \<or> (CHR ''a'' \<le> c \<and> c \<le> CHR ''z'') \<or>
     (CHR ''0'' \<le> c \<and> c \<le> CHR ''9'')"

definition id_char :: "char \<Rightarrow> bool" where
  "id_char c \<longleftrightarrow> id_first c \<or> c = CHR ''.'' \<or> c = CHR ''_'' \<or> c = CHR '':'' \<or> c = CHR ''-''"

definition messageIDPattern :: "string \<Rightarrow> bool" where
  "messageIDPattern s =
     (case s of [] \<Rightarrow> False
      | c # cs \<Rightarrow> id_first c \<and> list_all id_char cs \<and> length cs \<le> 127)"

definition ValidateMessageID :: "string \<Rightarrow> validation_error option" where
  "ValidateMessageID s =
     (if length s > MaxMessageIDLength then Some (Msg ''id must be 128 characters or fewer'')
      else if \<not> messageIDPattern s
      then Some (Msg ''id must match [A-Za-z0-9][A-Za-z0-9._:-]{0,127}'')
      else None)"

definition ValidateRoomID :: "string \<Rightarrow> validation_error option" where
  "ValidateRoomID s =
     (case ValidateMessageID s of None \<Rightarrow> None | Some e \<Rightarrow> Some (Wrap ''room id'' e))"

section \<open>Fully qualified ids\<close>

definition RoomFQID :: "string \<Rightarrow> string \<Rightarrow> string" where
  "RoomFQID network room = ''molt://'' @ network @ ''/rooms/'' @ room"

definition DMFQID :: "string \<Rightarrow> string \<Rightarrow> string" where
  "DMFQID network dm = ''molt://'' @ network @ ''/dms/'' @ dm"

definition AgentFQID :: "string \<Rightarrow> string \<Rightarrow> string" where
  "AgentFQID network agent = ''molt://'' @ network @ ''/agents/'' @ agent"

definition ThreadFQID :: "string \<Rightarrow> string \<Rightarrow> string" where
  "ThreadFQID network thread = ''molt://'' @ network @ ''/threads/'' @ thread"

definition ArtifactFQID :: "string \<Rightarrow> string \<Rightarrow> string" where
  "ArtifactFQID network artifact = ''molt://'' @ network @ ''/artifacts/'' @ artifact"

section \<open>Agent identities\<close>

definition ScopedAgentID :: "string \<Rightarrow> string \<Rightarrow> string" where
  "ScopedAgentID networkID agentID =
     (let network = trim_space networkID; agent = trim_space agentID
      in if network = [] \<or> agent = [] then agent else network @ '':'' @ agent)"

definition ParseScopedAgentID :: "string \<Rightarrow> (string \<times> string) option" where
  "ParseScopedAgentID value =
     (let trimmed = trim_space value
      in if trimmed = [] \<or> prefix ''molt://'' trimmed then None
         else (case go_cut '':'' trimmed of
                 None \<Rightarrow> None
               | Some (left, right) \<Rightarrow>
                   if trim_space left = [] \<or> trim_space right = [] then None
                   else Some (left, right)))"

definition ParseAgentFQID :: "string \<Rightarrow> (string \<times> string) option" where
  "ParseAgentFQID value =
     (let trimmed = trim_space value
      in if \<not> prefix ''molt://'' trimmed then None
         else (case go_cut ''/agents/'' (drop (length ''molt://'') trimmed) of
                 None \<Rightarrow> None
               | Some (networkID, remainder) \<Rightarrow>
                   if trim_space networkID = [] \<or> trim_space remainder = [] then None
                   else Some (networkID, remainder)))"

definition NormalizeActor :: "string \<Rightarrow> actor \<Rightarrow> actor" where
  "NormalizeActor defaultNetworkID a0 =
     (let a = (if trim_space (act_network_id a0) = []
               then a0\<lparr>act_network_id := trim_space defaultNetworkID\<rparr> else a0)
      in if trim_space (act_fqid a) = [] \<and> trim_space (act_id a) \<noteq> [] \<and>
            trim_space (act_network_id a) \<noteq> []
         then a\<lparr>act_fqid := AgentFQID (act_network_id a) (act_id a)\<rparr> else a)"

definition ActorMatches :: "string \<Rightarrow> string \<Rightarrow> string \<Rightarrow> bool" where
  "ActorMatches networkID actorID candidate =
     (let a = trim_space actorID; c = trim_space candidate
      in if a = [] \<or> c = [] then False
         else if c = a then True
         else if c = ScopedAgentID networkID a then True
         else if c = AgentFQID networkID a then True
         else False)"

definition ActorMatchesIdentity :: "string \<Rightarrow> actor \<Rightarrow> string \<Rightarrow> bool" where
  "ActorMatchesIdentity defaultNetworkID a candidate =
     (let normalized = NormalizeActor defaultNetworkID a;
          actorNetworkID = trim_space (act_network_id normalized);
          actorID = trim_space (act_id normalized)
      in if actorNetworkID = [] \<or> actorID = [] then False
         else
           (let candidateID = trim_space candidate;
                (cn, ci) =
                  (case ParseScopedAgentID candidateID of
                     Some (n, i) \<Rightarrow> (n, i)
                   | None \<Rightarrow>
                       (case ParseAgentFQID candidateID of
                          Some (n, i) \<Rightarrow> (n, i)
                        | None \<Rightarrow> (trim_space defaultNetworkID, candidateID)))
            in actorNetworkID = trim_space cn \<and> actorID = trim_space ci))"

definition RemoteParticipantID :: "string \<Rightarrow> actor \<Rightarrow> string" where
  "RemoteParticipantID currentNetworkID a =
     (let n = NormalizeActor currentNetworkID a
      in if act_network_id n \<noteq> [] \<and> act_network_id n \<noteq> currentNetworkID
         then ScopedAgentID (act_network_id n) (act_id n) else act_id n)"

definition ValidateMemberID :: "string \<Rightarrow> validation_error option" where
  "ValidateMemberID value =
     (let trimmed = trim_space value;
          both = (\<lambda>networkID agentID.
            case ValidateMessageID networkID of
              Some e \<Rightarrow> Some (Wrap ''network id'' e)
            | None \<Rightarrow> (case ValidateMessageID agentID of
                Some e \<Rightarrow> Some (Wrap ''agent id'' e) | None \<Rightarrow> None))
      in if trimmed = [] then Some (Msg ''is required'')
         else (case ParseScopedAgentID trimmed of
                 Some (networkID, agentID) \<Rightarrow> both networkID agentID
               | None \<Rightarrow>
                   (case ParseAgentFQID trimmed of
                      Some (networkID, agentID) \<Rightarrow> both networkID agentID
                    | None \<Rightarrow> ValidateMessageID trimmed)))"

section \<open>Normal forms\<close>

fun unique_trimmed_loop :: "strset \<Rightarrow> string list \<Rightarrow> string list" where
  "unique_trimmed_loop seen [] = []"
| "unique_trimmed_loop seen (value # values) =
     (let trimmed = trim_space value
      in if trimmed = [] then unique_trimmed_loop seen values
         else if trimmed |\<in>| seen then unique_trimmed_loop seen values
         else trimmed # unique_trimmed_loop (finsert trimmed seen) values)"

definition UniqueTrimmedStrings :: "string list \<Rightarrow> string list" where
  "UniqueTrimmedStrings values = unique_trimmed_loop {||} values"

definition SortedUniqueTrimmedStrings :: "string list \<Rightarrow> string list" where
  "SortedUniqueTrimmedStrings values = sort (UniqueTrimmedStrings values)"

definition NormalizeRoomVisibility :: "string \<Rightarrow> string" where
  "NormalizeRoomVisibility value =
     (if trim_space value = RoomVisibilityPublic then RoomVisibilityPublic
      else RoomVisibilityPrivate)"

definition NormalizeRoomWritePolicy :: "string \<Rightarrow> string" where
  "NormalizeRoomWritePolicy value =
     (if trim_space value = RoomWritePolicyRegisteredAgents then RoomWritePolicyRegisteredAgents
      else if trim_space value = RoomWritePolicyOperators then RoomWritePolicyOperators
      else RoomWritePolicyMembers)"

section \<open>Facts about identifiers\<close>

lemma id_first_graphic: "id_first c \<Longrightarrow> graphic c"
  by (auto simp: id_first_def graphic_def less_eq_char_def)

lemma id_char_graphic: "id_char c \<Longrightarrow> graphic c"
  using id_first_graphic by (auto simp: id_char_def graphic_def less_eq_char_def)

lemma ValidateMessageID_None: "ValidateMessageID s = None \<longleftrightarrow> messageIDPattern s"
  by (auto simp: ValidateMessageID_def messageIDPattern_def split: list.splits)

lemma messageIDPattern_chars: "messageIDPattern s \<Longrightarrow> c \<in> set s \<Longrightarrow> id_char c"
  by (auto simp: messageIDPattern_def id_char_def list_all_iff split: list.splits)

lemma messageIDPattern_Nil [simp]: "\<not> messageIDPattern []"
  by (simp add: messageIDPattern_def)

lemma valid_id_nonempty: "messageIDPattern s \<Longrightarrow> s \<noteq> []"
  by (auto simp: messageIDPattern_def)

lemma valid_id_length: "messageIDPattern s \<Longrightarrow> length s \<le> MaxMessageIDLength"
  by (auto simp: messageIDPattern_def split: list.splits)

lemma valid_id_trim: "messageIDPattern s \<Longrightarrow> trim_space s = s"
  by (rule trim_space_graphic) (auto dest: messageIDPattern_chars simp: id_char_graphic)

lemma valid_id_no_slash: "messageIDPattern s \<Longrightarrow> CHR ''/'' \<notin> set s"
proof
  assume "messageIDPattern s" and "CHR ''/'' \<in> set s"
  then have "id_char (CHR ''/'')" by (rule messageIDPattern_chars)
  then show False by (simp add: id_char_def id_first_def less_eq_char_def)
qed

lemma valid_id_not_fq: "messageIDPattern s \<Longrightarrow> \<not> prefix ''molt://'' s"
  using valid_id_no_slash [of s] by (auto simp: prefix_def)

section \<open>List normalisation\<close>

lemma set_unique_trimmed_loop:
  "set (unique_trimmed_loop seen xs) = trim_space ` set xs - {[]} - fset seen"
  by (induction seen xs rule: unique_trimmed_loop.induct) (auto simp: Let_def)

lemma distinct_unique_trimmed_loop: "distinct (unique_trimmed_loop seen xs)"
  by (induction seen xs rule: unique_trimmed_loop.induct)
     (auto simp: Let_def set_unique_trimmed_loop)

lemma set_UniqueTrimmedStrings: "set (UniqueTrimmedStrings xs) = trim_space ` set xs - {[]}"
  by (simp add: UniqueTrimmedStrings_def set_unique_trimmed_loop)

lemma distinct_UniqueTrimmedStrings [simp]: "distinct (UniqueTrimmedStrings xs)"
  by (simp add: UniqueTrimmedStrings_def distinct_unique_trimmed_loop)

lemma unique_trimmed_loop_fix:
  "distinct xs \<Longrightarrow> (\<forall>x \<in> set xs. trim_space x = x \<and> x \<noteq> [] \<and> x |\<notin>| seen) \<Longrightarrow>
   unique_trimmed_loop seen xs = xs"
  by (induction seen xs rule: unique_trimmed_loop.induct) (auto simp: Let_def)

lemma UniqueTrimmedStrings_idem [simp]:
  "UniqueTrimmedStrings (UniqueTrimmedStrings xs) = UniqueTrimmedStrings xs"
  unfolding UniqueTrimmedStrings_def [of "UniqueTrimmedStrings xs"]
  by (rule unique_trimmed_loop_fix) (auto simp: set_UniqueTrimmedStrings)

lemma set_SortedUniqueTrimmedStrings:
  "set (SortedUniqueTrimmedStrings xs) = trim_space ` set xs - {[]}"
  by (simp add: SortedUniqueTrimmedStrings_def set_UniqueTrimmedStrings)

lemma SortedUniqueTrimmedStrings_sorted_list:
  "SortedUniqueTrimmedStrings xs = sorted_list_of_set (trim_space ` set xs - {[]})"
proof -
  have "sorted_list_of_set (set (UniqueTrimmedStrings xs)) = sort (UniqueTrimmedStrings xs)"
    by (simp add: sorted_list_of_set_sort_remdups distinct_remdups_id)
  then show ?thesis by (simp add: SortedUniqueTrimmedStrings_def set_UniqueTrimmedStrings)
qed

lemma sorted_SortedUniqueTrimmedStrings [simp]: "sorted (SortedUniqueTrimmedStrings xs)"
  by (simp add: SortedUniqueTrimmedStrings_def)

lemma distinct_SortedUniqueTrimmedStrings [simp]: "distinct (SortedUniqueTrimmedStrings xs)"
  by (simp add: SortedUniqueTrimmedStrings_def)

lemma SortedUniqueTrimmedStrings_idem [simp]:
  "SortedUniqueTrimmedStrings (SortedUniqueTrimmedStrings xs) = SortedUniqueTrimmedStrings xs"
proof -
  have "trim_space ` (trim_space ` set xs - {[]}) - {[]} = trim_space ` set xs - {[]}"
  proof (intro equalityI subsetI)
    fix x assume "x \<in> trim_space ` set xs - {[]}"
    then show "x \<in> trim_space ` (trim_space ` set xs - {[]}) - {[]}"
      using trim_space_idem by (metis (no_types, lifting) Diff_iff imageE imageI)
  qed auto
  then show ?thesis
    using SortedUniqueTrimmedStrings_sorted_list [of "SortedUniqueTrimmedStrings xs"]
      SortedUniqueTrimmedStrings_sorted_list [of xs]
    by simp
qed

section \<open>Parsing inverts printing\<close>

lemma FQID_graphic:
  "messageIDPattern n \<Longrightarrow> messageIDPattern a \<Longrightarrow> c \<in> set (AgentFQID n a) \<Longrightarrow> graphic c"
  by (auto simp: AgentFQID_def graphic_def less_eq_char_def
      dest!: messageIDPattern_chars id_char_graphic)

lemma ParseAgentFQID_AgentFQID:
  assumes "messageIDPattern n" and "messageIDPattern a"
  shows "ParseAgentFQID (AgentFQID n a) = Some (n, a)"
proof -
  have trim: "trim_space (AgentFQID n a) = AgentFQID n a"
    by (rule trim_space_graphic) (use FQID_graphic assms in blast)
  have "go_cut ''/agents/'' (n @ ''/agents/'' @ a) = Some (n, a)"
    using go_cut_sep [OF valid_id_no_slash [OF assms(1)], of "''agents/''" a] by simp
  with trim show ?thesis
    using assms valid_id_nonempty
    by (simp add: ParseAgentFQID_def Let_def AgentFQID_def valid_id_trim)
qed

lemma ScopedAgentID_valid:
  "messageIDPattern n \<Longrightarrow> messageIDPattern a \<Longrightarrow> ScopedAgentID n a = n @ '':'' @ a"
  using valid_id_nonempty by (auto simp: ScopedAgentID_def valid_id_trim)

lemma scoped_not_fq: "messageIDPattern n \<Longrightarrow> messageIDPattern a \<Longrightarrow> \<not> prefix ''molt://'' (n @ '':'' @ a)"
proof
  assume n: "messageIDPattern n" and a: "messageIDPattern a" and "prefix ''molt://'' (n @ '':'' @ a)"
  then have "set ''molt://'' \<subseteq> set (n @ '':'' @ a)" using set_mono_prefix by blast
  then have "CHR ''/'' \<in> set n \<or> CHR ''/'' \<in> set a" by auto
  with n a show False using valid_id_no_slash by blast
qed

lemma scoped_trim:
  assumes "messageIDPattern n" and "messageIDPattern a"
  shows "trim_space (n @ '':'' @ a) = n @ '':'' @ a"
  by (rule trim_space_graphic)
     (use assms in \<open>auto simp: graphic_def less_eq_char_def dest!: messageIDPattern_chars id_char_graphic\<close>)

lemma ParseScopedAgentID_ScopedAgentID:
  assumes "messageIDPattern n" and "messageIDPattern a" and "CHR '':'' \<notin> set n"
  shows "ParseScopedAgentID (ScopedAgentID n a) = Some (n, a)"
  using assms scoped_not_fq [of n a] scoped_trim [of n a] go_cut_single [of "CHR '':''" n a]
    valid_id_nonempty
  by (simp add: ParseScopedAgentID_def ScopedAgentID_valid valid_id_trim)

lemma ParseScopedAgentID_AgentFQID [simp]:
  "messageIDPattern n \<Longrightarrow> messageIDPattern a \<Longrightarrow> ParseScopedAgentID (AgentFQID n a) = None"
proof -
  assume "messageIDPattern n" "messageIDPattern a"
  then have "trim_space (AgentFQID n a) = AgentFQID n a"
    by (intro trim_space_graphic) (use FQID_graphic in blast)
  then show ?thesis by (simp add: ParseScopedAgentID_def Let_def AgentFQID_def)
qed

text \<open>
  Printing an agent id and parsing it back yields the network and agent it was built
  from, in both spellings. The fully qualified spelling needs nothing but valid identifiers;
  the scoped spelling \<open>network:agent\<close> needs a network id without a colon, which the identifier
  grammar does not exclude.
\<close>
lemma agent_id_roundtrip:
  assumes "ValidateMessageID n = None" and "ValidateMessageID a = None"
  shows "ParseAgentFQID (AgentFQID n a) = Some (n, a) \<and>
    (CHR '':'' \<notin> set n \<longrightarrow> ParseScopedAgentID (ScopedAgentID n a) = Some (n, a)) \<and>
    ParseScopedAgentID (AgentFQID n a) = None"
  using assms ParseAgentFQID_AgentFQID ParseScopedAgentID_ScopedAgentID
  by (simp add: ValidateMessageID_None)

theorem agent_id_roundtrip_witness:
  "ParseAgentFQID (AgentFQID ''net.one'' ''ada:2'') = Some (''net.one'', ''ada:2'') \<and>
   ParseScopedAgentID (ScopedAgentID ''net.one'' ''ada:2'') = Some (''net.one'', ''ada:2'')"
  using agent_id_roundtrip [of "''net.one''" "''ada:2''"]
  by (simp add: ValidateMessageID_None messageIDPattern_def id_char_def id_first_def
      less_eq_char_def)

section \<open>Matching an actor against a member id\<close>

lemma NormalizeActor_network:
  "trim_space (act_network_id (NormalizeActor d x)) =
     (if trim_space (act_network_id x) = [] then trim_space d else trim_space (act_network_id x))"
  by (simp add: NormalizeActor_def Let_def)

lemma NormalizeActor_id [simp]: "act_id (NormalizeActor d x) = act_id x"
  by (simp add: NormalizeActor_def Let_def)

lemma ScopedAgentID_trim:
  "messageIDPattern n \<Longrightarrow> messageIDPattern a \<Longrightarrow>
   trim_space (ScopedAgentID n a) = ScopedAgentID n a"
  using ScopedAgentID_valid [of n a] scoped_trim [of n a] by simp

lemma AgentFQID_trim:
  "messageIDPattern n \<Longrightarrow> messageIDPattern a \<Longrightarrow> trim_space (AgentFQID n a) = AgentFQID n a"
  by (rule trim_space_graphic) (use FQID_graphic in blast)

lemma ParseScopedAgentID_bare:
  "messageIDPattern a \<Longrightarrow> CHR '':'' \<notin> set a \<Longrightarrow> ParseScopedAgentID a = None"
  by (simp add: ParseScopedAgentID_def Let_def valid_id_trim
      go_cut_single_None [THEN iffD2] split: option.splits)

lemma ParseAgentFQID_bare: "messageIDPattern a \<Longrightarrow> ParseAgentFQID a = None"
  by (simp add: ParseAgentFQID_def Let_def valid_id_trim valid_id_not_fq)

text \<open>
  An actor is the member named by a scoped or fully qualified id exactly when its network
  (the local one when it names none) and its id are the ones the member id was built from;
  a bare id names the agent of the local network.
\<close>
lemma ActorMatchesIdentity_spellings:
  assumes "ValidateMessageID n = None" and "ValidateMessageID a = None" and "CHR '':'' \<notin> set n"
    and "ValidateMessageID (act_id x) = None" and "ValidateMessageID d = None"
  shows "(ActorMatchesIdentity d x (ScopedAgentID n a) \<longleftrightarrow>
            trim_space (act_network_id (NormalizeActor d x)) = n \<and> act_id x = a) \<and>
         (ActorMatchesIdentity d x (AgentFQID n a) \<longleftrightarrow>
            trim_space (act_network_id (NormalizeActor d x)) = n \<and> act_id x = a) \<and>
         (CHR '':'' \<notin> set a \<longrightarrow> (ActorMatchesIdentity d x a \<longleftrightarrow>
            trim_space (act_network_id (NormalizeActor d x)) = d \<and> act_id x = a))"
proof -
  note v = assms [unfolded ValidateMessageID_None]
  have nonempty: "trim_space (act_network_id (NormalizeActor d x)) \<noteq> []"
    using valid_id_nonempty [OF v(5)] by (simp add: NormalizeActor_network valid_id_trim v)
  show ?thesis
    using nonempty v valid_id_nonempty [OF v(4)]
      ParseScopedAgentID_ScopedAgentID [OF v(1,2,3)] ParseAgentFQID_AgentFQID [OF v(1,2)]
    by (auto simp: ActorMatchesIdentity_def Let_def valid_id_trim ScopedAgentID_trim
        ParseScopedAgentID_bare ParseAgentFQID_bare AgentFQID_trim)
qed

theorem ActorMatchesIdentity_spellings_witness:
  "ActorMatchesIdentity ''home'' \<lparr>act_type = ''agent'', act_id = ''ada'', act_name = [],
     act_network_id = [], act_fqid = [], act_credential_bound = False\<rparr>
     (ScopedAgentID ''home'' ''ada'')"
  using ActorMatchesIdentity_spellings [of "''home''" "''ada''"
      "\<lparr>act_type = ''agent'', act_id = ''ada'', act_name = [],
         act_network_id = [], act_fqid = [], act_credential_bound = False\<rparr>" "''home''"]
  by (simp add: ValidateMessageID_None messageIDPattern_def id_char_def id_first_def
      less_eq_char_def NormalizeActor_network valid_id_trim)

text \<open>
  Normalising a member list twice is normalising it once, and two lists have the same
  normal form exactly when they name the same non-blank members up to surrounding white
  space: the normal form is the sorted, duplicate-free listing of that set.
\<close>
lemma SortedUniqueTrimmedStrings_canonical:
  "SortedUniqueTrimmedStrings (SortedUniqueTrimmedStrings xs) = SortedUniqueTrimmedStrings xs \<and>
   sorted (SortedUniqueTrimmedStrings xs) \<and> distinct (SortedUniqueTrimmedStrings xs) \<and>
   (SortedUniqueTrimmedStrings xs = SortedUniqueTrimmedStrings ys \<longleftrightarrow>
    trim_space ` set xs - {[]} = trim_space ` set ys - {[]})"
  by (simp add: SortedUniqueTrimmedStrings_sorted_list [of ys]
      SortedUniqueTrimmedStrings_sorted_list [of xs, symmetric])
     (metis SortedUniqueTrimmedStrings_sorted_list set_SortedUniqueTrimmedStrings)

end
