(* ===== verification/Protocol_Validate.thy ===== *)
theory Protocol_Validate
  imports Protocol_Identity
begin

text \<open>
  Request validation of \<open>pkg/protocol\<close> (\<open>types.go\<close>, \<open>validate.go\<close>, \<open>parts.go\<close>,
  \<open>paging.go\<close>, \<open>federation.go\<close>) and the identity strings of hub rooms: key fingerprints
  (\<open>network_identity.go\<close>) and global room ids with roles and history policies (\<open>hub.go\<close>).
  A validator returns \<open>None\<close> where the code returns \<open>nil\<close>. Shown: what an accepted request
  guarantees, that a room's federation setting admits exactly the pairings it names, and
  that printing and parsing fingerprints and global room ids are inverse.
\<close>

section \<open>Parts, targets and requests\<close>

definition IsKnownPartKind :: "string \<Rightarrow> bool" where
  "IsKnownPartKind kind \<longleftrightarrow>
     kind \<in> set [''text'', ''url'', ''data'', ''file'', ''image'', ''audio'']"

text \<open>
  \<open>url.Parse\<close> is an argument: it yields the scheme and the host of the parsed URL, or
  \<open>None\<close> for a parse error.
\<close>

definition ValidatePartURL ::
  "(string \<Rightarrow> (string \<times> string) option) \<Rightarrow> string \<Rightarrow> validation_error option" where
  "ValidatePartURL url_parse value =
     (case url_parse (trim_space value) of
        None \<Rightarrow> Some (Msg ''is invalid'')
      | Some (scheme, host) \<Rightarrow>
          if scheme \<notin> set [''http'', ''https'', ''molt'']
          then Some (MsgQ ''scheme is unsupported'' scheme)
          else if trim_space host = [] \<and> scheme \<noteq> ''molt'' then Some (Msg ''host is required'')
          else None)"

definition ValidatePart ::
  "(string \<Rightarrow> (string \<times> string) option) \<Rightarrow> part \<Rightarrow> validation_error option" where
  "ValidatePart url_parse p =
     (if \<not> IsKnownPartKind (trim_space (part_kind p))
      then Some (MsgQ ''unsupported part kind'' (part_kind p))
      else if trim_space (part_url p) \<noteq> []
      then (case ValidatePartURL url_parse (trim_space (part_url p)) of
              Some e \<Rightarrow> Some (Wrap ''url'' e) | None \<Rightarrow> None)
      else None)"

fun first_error :: "('a \<Rightarrow> validation_error option) \<Rightarrow> string \<Rightarrow> nat \<Rightarrow> 'a list \<Rightarrow>
    validation_error option" where
  "first_error v name i [] = None"
| "first_error v name i (x # xs) =
     (case v x of Some e \<Rightarrow> Some (WrapIndex name i e) | None \<Rightarrow> first_error v name (Suc i) xs)"

definition validateMembers :: "string \<Rightarrow> string list \<Rightarrow> validation_error option" where
  "validateMembers name values =
     (let members = UniqueTrimmedStrings values
      in if length members > MaxMembersPerRequest
         then Some (MsgQ ''must contain 256 IDs or fewer'' name)
         else first_error ValidateMemberID name 0 members)"

definition wrap_error :: "string \<Rightarrow> validation_error option \<Rightarrow> validation_error option" where
  "wrap_error text e = map_option (Wrap text) e"

definition ValidateTarget :: "target \<Rightarrow> validation_error option" where
  "ValidateTarget t =
     (if tgt_kind t = TargetKindRoom then
        (if trim_space (tgt_room_id t) = []
         then Some (Msg ''target.room_id is required for room messages'')
         else wrap_error ''target.room_id'' (ValidateRoomID (trim_space (tgt_room_id t))))
      else if tgt_kind t = TargetKindThread then
        (if trim_space (tgt_thread_id t) = []
         then Some (Msg ''target.thread_id is required for thread messages'')
         else if trim_space (tgt_room_id t) = []
         then Some (Msg ''target.room_id is required for thread messages'')
         else
           check_then (wrap_error ''target.room_id'' (ValidateRoomID (trim_space (tgt_room_id t))))
           (check_then
              (wrap_error ''target.thread_id'' (ValidateMessageID (trim_space (tgt_thread_id t))))
              (if trim_space (tgt_parent_message_id t) \<noteq> []
               then wrap_error ''target.parent_message_id''
                      (ValidateMessageID (trim_space (tgt_parent_message_id t)))
               else None)))
      else if tgt_kind t = TargetKindDM then
        (if trim_space (tgt_dm_id t) = []
         then Some (Msg ''target.dm_id is required for direct messages'')
         else
           (let participants = UniqueTrimmedStrings (tgt_participant_ids t)
            in if length participants < 2
               then Some (Msg ''target.participant_ids must declare at least two direct-message participants'')
               else
                 check_then (wrap_error ''target.dm_id'' (ValidateMessageID (trim_space (tgt_dm_id t))))
                 (if length participants > MaxMembersPerRequest
                  then Some (Msg ''target.participant_ids must contain 256 IDs or fewer'')
                  else first_error ValidateMemberID ''target.participant_ids'' 0 participants)))
      else Some (MsgQ ''unsupported target kind'' (tgt_kind t)))"

definition ValidateSendMessageRequest ::
  "(string \<Rightarrow> (string \<times> string) option) \<Rightarrow> send_message_request \<Rightarrow> validation_error option" where
  "ValidateSendMessageRequest url_parse r =
     (case ValidateMemberID (trim_space (act_id (smr_from r))) of
        Some e \<Rightarrow>
          if trim_space (act_id (smr_from r)) = [] then Some (Msg ''from.id is required'')
          else Some (Wrap ''from.id'' e)
      | None \<Rightarrow>
          if smr_parts r = [] then Some (Msg ''parts must not be empty'')
          else
            check_then (first_error (ValidatePart url_parse) ''parts'' 0 (smr_parts r))
            (check_then
               (if trim_space (smr_id r) \<noteq> [] then ValidateMessageID (trim_space (smr_id r))
                else None)
               (ValidateTarget (smr_target r))))"

definition ValidateRoomVisibility :: "string \<Rightarrow> validation_error option" where
  "ValidateRoomVisibility value =
     (if trim_space value \<in> set [[], RoomVisibilityPrivate, RoomVisibilityPublic] then None
      else Some (MsgQ ''unsupported room visibility'' value))"

definition ValidateRoomWritePolicy :: "string \<Rightarrow> validation_error option" where
  "ValidateRoomWritePolicy value =
     (if trim_space value \<in> set [[], RoomWritePolicyMembers, RoomWritePolicyRegisteredAgents,
                                 RoomWritePolicyOperators] then None
      else Some (MsgQ ''unsupported room write_policy'' value))"

section \<open>Room federation\<close>

abbreviation RoomFederationNone :: string where "RoomFederationNone \<equiv> ''none''"
abbreviation RoomFederationAll :: string where "RoomFederationAll \<equiv> ''all''"
abbreviation RoomFederationList :: string where "RoomFederationList \<equiv> ''list''"

definition NormalizeRoomFederation :: "room_federation option \<Rightarrow> room_federation" where
  "NormalizeRoomFederation federation =
     (case federation of
        None \<Rightarrow> \<lparr>fed_mode = RoomFederationNone, fed_pairings = []\<rparr>
      | Some f \<Rightarrow> \<lparr>fed_mode = trim_space (fed_mode f),
                   fed_pairings = SortedUniqueTrimmedStrings (fed_pairings f)\<rparr>)"

fun federation_pairings_error :: "string list \<Rightarrow> validation_error option" where
  "federation_pairings_error [] = None"
| "federation_pairings_error (p # ps) =
     (case ValidateMessageID p of
        Some e \<Rightarrow> Some (Wrap (''federation pairing '' @ p) e)
      | None \<Rightarrow> federation_pairings_error ps)"

definition ValidateRoomFederation :: "room_federation option \<Rightarrow> validation_error option" where
  "ValidateRoomFederation federation =
     (case federation of
        None \<Rightarrow> None
      | Some _ \<Rightarrow>
          (let n = NormalizeRoomFederation federation
           in if fed_mode n = RoomFederationNone \<or> fed_mode n = RoomFederationAll then
                (if fed_pairings n \<noteq> []
                 then Some (MsgQ ''federation cannot name pairings'' (fed_mode n)) else None)
              else if fed_mode n = RoomFederationList then
                (if fed_pairings n = []
                 then Some (Msg ''federation list must name at least one pairing'')
                 else federation_pairings_error (fed_pairings n))
              else Some (MsgQ ''unsupported federation'' (fed_mode n))))"

definition RoomFederationAllows :: "room_federation option \<Rightarrow> string \<Rightarrow> bool" where
  "RoomFederationAllows federation pairingID =
     (let n = NormalizeRoomFederation federation
      in if fed_mode n = RoomFederationAll then True
         else if fed_mode n = RoomFederationList
         then list_ex (\<lambda>allowed. allowed = trim_space pairingID) (fed_pairings n)
         else False)"

definition ValidateCreateRoomRequest :: "create_room_request \<Rightarrow> validation_error option" where
  "ValidateCreateRoomRequest r =
     check_then (ValidateRoomID (trim_space (crr_id r)))
     (check_then (validateMembers ''members'' (crr_members r))
     (check_then (ValidateRoomVisibility (crr_visibility r))
     (check_then (ValidateRoomWritePolicy (crr_write_policy r))
     (ValidateRoomFederation (crr_federation r)))))"

definition ValidateUpdateRoomMembersRequest ::
  "update_room_members_request \<Rightarrow> validation_error option" where
  "ValidateUpdateRoomMembersRequest r =
     check_then (validateMembers ''add'' (urm_add r)) (validateMembers ''remove'' (urm_remove r))"

definition ValidatePageRequest :: "page_request \<Rightarrow> validation_error option" where
  "ValidatePageRequest p =
     (if pg_before p \<noteq> [] \<and> pg_after p \<noteq> []
      then Some (Msg ''before and after cannot both be set'')
      else
        check_then
          (if pg_before p \<noteq> [] then wrap_error ''before'' (ValidateMessageID (pg_before p)) else None)
          (if pg_after p \<noteq> [] then wrap_error ''after'' (ValidateMessageID (pg_after p)) else None))"

section \<open>Fingerprints and global room ids\<close>

abbreviation FingerprintPrefix :: string where "FingerprintPrefix \<equiv> ''sha256:''"

definition hex_digit :: "char \<Rightarrow> bool" where
  "hex_digit c \<longleftrightarrow> (CHR ''0'' \<le> c \<and> c \<le> CHR ''9'') \<or> (CHR ''a'' \<le> c \<and> c \<le> CHR ''f'') \<or>
     (CHR ''A'' \<le> c \<and> c \<le> CHR ''F'')"

definition NormalizeFingerprint :: "string \<Rightarrow> validation_error + string" where
  "NormalizeFingerprint value =
     (let lowered = to_lower (trim_space value);
          bare = trim_prefix lowered FingerprintPrefix;
          trimmed = filter (\<lambda>c. c \<notin> {CHR '' '', CHR '':'', CHR ''-''}) bare
      in if length trimmed \<noteq> 64 then Inl (Msg ''fingerprint must be 64 hex digits'')
         else if \<not> list_all hex_digit trimmed then Inl (Msg ''fingerprint is not hex'')
         else Inr (FingerprintPrefix @ trimmed))"

fun groups_of_4 :: "string \<Rightarrow> string list" where
  "groups_of_4 (a # b # c # d # rest) = [a, b, c, d] # groups_of_4 rest"
| "groups_of_4 [] = []"
| "groups_of_4 s = [s]"

fun join_space :: "string list \<Rightarrow> string" where
  "join_space [] = []"
| "join_space [x] = x"
| "join_space (x # xs) = x @ '' '' @ join_space xs"

definition DisplayFingerprint :: "string \<Rightarrow> string" where
  "DisplayFingerprint fingerprint =
     (case NormalizeFingerprint fingerprint of
        Inl _ \<Rightarrow> fingerprint
      | Inr normalized \<Rightarrow>
          FingerprintPrefix @ join_space (groups_of_4 (trim_prefix normalized FingerprintPrefix)))"

definition GlobalRoomID :: "string \<Rightarrow> string \<Rightarrow> string" where
  "GlobalRoomID homeFingerprint roomID = homeFingerprint @ ''/'' @ roomID"

definition ParseGlobalRoomID :: "string \<Rightarrow> validation_error + (string \<times> string)" where
  "ParseGlobalRoomID value =
     (case go_cut ''/'' value of
        None \<Rightarrow> Inl (MsgQ ''global room id has no room part'' value)
      | Some (fingerprint, roomID) \<Rightarrow>
          if NormalizeFingerprint fingerprint \<noteq> Inr fingerprint
          then Inl (MsgQ ''global room id has a non-canonical home fingerprint'' value)
          else (case ValidateRoomID roomID of
                  Some e \<Rightarrow> Inl (Wrap (''global room id '' @ value) e)
                | None \<Rightarrow> Inr (fingerprint, roomID)))"

definition RoomRoleCanWrite :: "string \<Rightarrow> bool" where
  "RoomRoleCanWrite role \<longleftrightarrow> role \<in> set [''owner'', ''admin'', ''writer'']"

definition ValidMemberRole :: "string \<Rightarrow> bool" where
  "ValidMemberRole role \<longleftrightarrow> role \<in> set [''admin'', ''writer'', ''reader'']"

definition ValidRoomHistory :: "string \<Rightarrow> bool" where
  "ValidRoomHistory policy \<longleftrightarrow> policy = ''from_join'' \<or> policy = ''full_history''"

section \<open>What validation guarantees\<close>

lemma first_error_None: "first_error v name i xs = None \<longleftrightarrow> (\<forall>x \<in> set xs. v x = None)"
  by (induction v name i xs rule: first_error.induct) (auto split: option.splits)

lemma wrap_error_None [simp]: "wrap_error t e = None \<longleftrightarrow> e = None"
  by (simp add: wrap_error_def)

lemma wrap_error_simps [simp]:
  "wrap_error t None = None" "wrap_error t (Some e) = Some (Wrap t e)"
  by (simp_all add: wrap_error_def)

lemma valid_id_ok [simp]: "messageIDPattern s \<Longrightarrow> ValidateMessageID s = None"
  by (simp add: ValidateMessageID_None)

lemma ValidateRoomID_None: "ValidateRoomID s = None \<longleftrightarrow> messageIDPattern s"
  by (auto simp: ValidateRoomID_def ValidateMessageID_None [symmetric] split: option.splits)

lemma federation_pairings_error_None:
  "federation_pairings_error ps = None \<longleftrightarrow> (\<forall>p \<in> set ps. messageIDPattern p)"
  by (induction ps) (auto simp: ValidateMessageID_None [symmetric] split: option.splits)

lemma ValidatePageRequest_None:
  "ValidatePageRequest p = None \<longleftrightarrow>
     \<not> (pg_before p \<noteq> [] \<and> pg_after p \<noteq> []) \<and>
     (pg_before p \<noteq> [] \<longrightarrow> messageIDPattern (pg_before p)) \<and>
     (pg_after p \<noteq> [] \<longrightarrow> messageIDPattern (pg_after p))"
  by (auto simp: ValidatePageRequest_def ValidateMessageID_None split: option.splits)

lemma trim_nonempty_valid: "messageIDPattern (trim_space s) \<Longrightarrow> trim_space s \<noteq> []"
  using valid_id_nonempty by blast

text \<open>
  A target is accepted exactly when its kind is one of the three kinds and the ids that
  kind needs are present and well formed: a room id for a room; room and thread id, and a
  well-formed parent when there is one, for a thread; for a direct message an id and between
  two and 256 distinct well-formed participants.
\<close>
lemma ValidateTarget_iff:
  "ValidateTarget t = None \<longleftrightarrow>
     (tgt_kind t = TargetKindRoom \<and> messageIDPattern (trim_space (tgt_room_id t))) \<or>
     (tgt_kind t = TargetKindThread \<and> messageIDPattern (trim_space (tgt_room_id t)) \<and>
        messageIDPattern (trim_space (tgt_thread_id t)) \<and>
        (trim_space (tgt_parent_message_id t) = [] \<or>
         messageIDPattern (trim_space (tgt_parent_message_id t)))) \<or>
     (tgt_kind t = TargetKindDM \<and> messageIDPattern (trim_space (tgt_dm_id t)) \<and>
        2 \<le> card (trim_space ` set (tgt_participant_ids t) - {[]}) \<and>
        card (trim_space ` set (tgt_participant_ids t) - {[]}) \<le> MaxMembersPerRequest \<and>
        list_all (\<lambda>p. ValidateMemberID p = None) (UniqueTrimmedStrings (tgt_participant_ids t)))"
proof -
  have len: "length (UniqueTrimmedStrings xs) = card (trim_space ` set xs - {[]})" for xs
    by (metis distinct_UniqueTrimmedStrings distinct_card set_UniqueTrimmedStrings)
  consider "tgt_kind t = TargetKindRoom" | "tgt_kind t = TargetKindThread"
    | "tgt_kind t = TargetKindDM"
    | "tgt_kind t \<notin> {TargetKindRoom, TargetKindThread, TargetKindDM}" by blast
  then show ?thesis
  proof cases
    case 3
    then show ?thesis
      by (auto simp: ValidateTarget_def Let_def len first_error_None list_all_iff
          set_UniqueTrimmedStrings ValidateMessageID_None dest: trim_nonempty_valid split: option.splits)
  qed (auto simp: ValidateTarget_def ValidateRoomID_None ValidateMessageID_None
        dest: trim_nonempty_valid split: option.splits)
qed

section \<open>Federation\<close>

lemma NormalizeRoomFederation_idem [simp]:
  "NormalizeRoomFederation (Some (NormalizeRoomFederation f)) = NormalizeRoomFederation f"
proof -
  have "SortedUniqueTrimmedStrings [] = []"
    by (simp add: SortedUniqueTrimmedStrings_def UniqueTrimmedStrings_def)
  moreover have "trim_space RoomFederationNone = RoomFederationNone"
    by (rule trim_space_graphic) (simp add: graphic_def less_eq_char_def)
  ultimately show ?thesis by (simp add: NormalizeRoomFederation_def split: option.splits)
qed

lemma RoomFederationAllows_Some:
  "RoomFederationAllows (Some g) p \<longleftrightarrow>
     trim_space (fed_mode g) = RoomFederationAll \<or>
     trim_space (fed_mode g) = RoomFederationList \<and>
     trim_space p \<in> trim_space ` set (fed_pairings g) - {[]}"
  by (auto simp: RoomFederationAllows_def NormalizeRoomFederation_def list_ex_iff
      set_SortedUniqueTrimmedStrings)

text \<open>
  A room admits a pairing exactly when its federation setting is \<open>all\<close>, or is a list
  that names the pairing; a room with no setting admits none. Normalising the setting, as
  the store does, does not change who is admitted.
\<close>
lemma RoomFederationAllows_iff:
  "(RoomFederationAllows f p \<longleftrightarrow>
     (\<exists>g. f = Some g \<and> (trim_space (fed_mode g) = RoomFederationAll \<or>
        trim_space (fed_mode g) = RoomFederationList \<and>
        trim_space p \<in> trim_space ` set (fed_pairings g) - {[]}))) \<and>
   (RoomFederationAllows (Some (NormalizeRoomFederation f)) p \<longleftrightarrow> RoomFederationAllows f p)"
proof
  show "RoomFederationAllows (Some (NormalizeRoomFederation f)) p \<longleftrightarrow> RoomFederationAllows f p"
    by (simp only: RoomFederationAllows_def NormalizeRoomFederation_idem)
next
  have "\<not> RoomFederationAllows None p"
    by (simp add: RoomFederationAllows_def NormalizeRoomFederation_def)
  then show "RoomFederationAllows f p \<longleftrightarrow>
     (\<exists>g. f = Some g \<and> (trim_space (fed_mode g) = RoomFederationAll \<or>
        trim_space (fed_mode g) = RoomFederationList \<and>
        trim_space p \<in> trim_space ` set (fed_pairings g) - {[]}))"
    by (cases f) (simp_all add: RoomFederationAllows_Some)
qed

section \<open>Fingerprints and global room ids are canonical\<close>

definition lower_hex :: "char \<Rightarrow> bool" where
  "lower_hex c \<longleftrightarrow> (CHR ''0'' \<le> c \<and> c \<le> CHR ''9'') \<or> (CHR ''a'' \<le> c \<and> c \<le> CHR ''f'')"

definition canonical_fingerprint :: "string \<Rightarrow> bool" where
  "canonical_fingerprint s \<longleftrightarrow>
     (\<exists>h. s = FingerprintPrefix @ h \<and> length h = 64 \<and> list_all lower_hex h)"

lemma byte_lower_hex: "hex_digit (byte_lower c) \<Longrightarrow> lower_hex (byte_lower c)"
  by (cases "CHR ''A'' \<le> c \<and> c \<le> CHR ''Z''")
     (auto simp: byte_lower_def hex_digit_def lower_hex_def less_eq_char_def)

lemma lower_hex_facts:
  assumes "lower_hex c"
  shows "graphic c" "byte_lower c = c" "hex_digit c" "c \<noteq> CHR '' ''" "c \<noteq> CHR '':''"
    "c \<noteq> CHR ''-''" "c \<noteq> CHR ''/''"
  using assms by (auto simp: lower_hex_def graphic_def byte_lower_def hex_digit_def less_eq_char_def)

lemma prefix_graphic: "c \<in> set FingerprintPrefix \<Longrightarrow> graphic c"
  by (auto simp: graphic_def less_eq_char_def)

lemma list_all_imp: "list_all P xs \<Longrightarrow> (\<And>x. P x \<Longrightarrow> Q x) \<Longrightarrow> list_all Q xs"
  by (simp add: list_all_iff)

lemma to_lower_prefix [simp]: "to_lower FingerprintPrefix = FingerprintPrefix"
  by (simp add: to_lower_def byte_lower_def less_eq_char_def)

lemma to_lower_hex: "list_all lower_hex h \<Longrightarrow> to_lower h = h"
  by (simp add: to_lower_def list_all_iff map_idI lower_hex_facts)

lemma filter_hex:
  "list_all lower_hex h \<Longrightarrow> filter (\<lambda>c. c \<noteq> CHR '' '' \<and> c \<noteq> CHR '':'' \<and> c \<noteq> CHR ''-'') h = h"
  by (auto simp: list_all_iff filter_id_conv dest: lower_hex_facts)

lemma to_lower_append [simp]: "to_lower (a @ b) = to_lower a @ to_lower b"
  by (simp add: to_lower_def)

lemma NormalizeFingerprint_canonical:
  assumes "NormalizeFingerprint v = Inr s"
  shows "canonical_fingerprint s"
proof -
  let ?t = "filter (\<lambda>c. c \<notin> {CHR '' '', CHR '':'', CHR ''-''})
    (trim_prefix (to_lower (trim_space v)) FingerprintPrefix)"
  from assms have s: "s = FingerprintPrefix @ ?t" "length ?t = 64" "list_all hex_digit ?t"
    by (auto simp: NormalizeFingerprint_def Let_def split: if_splits)
  have "c \<in> set ?t \<Longrightarrow> \<exists>d. c = byte_lower d" for c
    using in_set_dropD by (fastforce simp: trim_prefix_def to_lower_def split: if_splits)
  with s(3) have "list_all lower_hex ?t"
    unfolding list_all_iff using byte_lower_hex by blast
  with s show ?thesis by (auto simp: canonical_fingerprint_def)
qed

lemma NormalizeFingerprint_grouped:
  assumes "length h = 64" and "list_all lower_hex h"
    and g: "filter (\<lambda>c. c \<noteq> CHR '' '' \<and> c \<noteq> CHR '':'' \<and> c \<noteq> CHR ''-'') g = h" "to_lower g = g"
      "trim_space (FingerprintPrefix @ g) = FingerprintPrefix @ g"
  shows "NormalizeFingerprint (FingerprintPrefix @ g) = Inr (FingerprintPrefix @ h)"
proof -
  have "list_all hex_digit h" using assms(2) by (rule list_all_imp) (rule lower_hex_facts)
  moreover have "trim_prefix (FingerprintPrefix @ g) FingerprintPrefix = g"
    by (simp add: trim_prefix_def)
  moreover have "to_lower (trim_space (FingerprintPrefix @ g)) = FingerprintPrefix @ g"
    using g by (simp only: to_lower_append to_lower_prefix)
  ultimately show ?thesis using assms(1) g(1)
    by (simp only: NormalizeFingerprint_def Let_def) simp
qed

lemma canonical_fingerprint_iff:
  "canonical_fingerprint s \<longleftrightarrow> NormalizeFingerprint s = Inr s"
proof
  assume "canonical_fingerprint s"
  then obtain h where h: "s = FingerprintPrefix @ h" "length h = 64" "list_all lower_hex h"
    by (auto simp: canonical_fingerprint_def)
  have "trim_space s = s"
    by (rule trim_space_graphic)
       (use h prefix_graphic lower_hex_facts(1) in \<open>auto simp: list_all_iff\<close>)
  with h show "NormalizeFingerprint s = Inr s"
    using NormalizeFingerprint_grouped [of h h] filter_hex [of h] to_lower_hex [of h] by simp
qed (rule NormalizeFingerprint_canonical)

lemma groups_join:
  "list_all lower_hex h \<Longrightarrow>
   filter (\<lambda>c. c \<noteq> CHR '' '' \<and> c \<noteq> CHR '':'' \<and> c \<noteq> CHR ''-'') (join_space (groups_of_4 h)) = h"
proof (induction h rule: groups_of_4.induct)
  case (1 a b c d rest)
  then show ?case
    using lower_hex_facts(4-6) [of a] lower_hex_facts(4-6) [of b] lower_hex_facts(4-6) [of c]
      lower_hex_facts(4-6) [of d]
    by (cases "groups_of_4 rest") auto
qed (auto dest: lower_hex_facts)

lemma set_join_groups: "set (join_space (groups_of_4 h)) \<subseteq> insert (CHR '' '') (set h)"
proof (induction h rule: groups_of_4.induct)
  case (1 a b c d rest)
  then show ?case by (cases "groups_of_4 rest") auto
qed auto

lemma last_join_groups: "h \<noteq> [] \<Longrightarrow> join_space (groups_of_4 h) \<noteq> [] \<and>
    last (join_space (groups_of_4 h)) = last h"
proof (induction h rule: groups_of_4.induct)
  case (1 a b c d rest)
  then show ?case by (cases rest; cases "groups_of_4 rest") auto
qed auto

lemma DisplayFingerprint_canonical:
  assumes "length h = 64" and "list_all lower_hex h"
  shows "NormalizeFingerprint (DisplayFingerprint (FingerprintPrefix @ h)) = Inr (FingerprintPrefix @ h)"
proof -
  let ?g = "join_space (groups_of_4 h)"
  have canon: "NormalizeFingerprint (FingerprintPrefix @ h) = Inr (FingerprintPrefix @ h)"
    using assms by (auto simp: canonical_fingerprint_iff [symmetric] canonical_fingerprint_def)
  have disp: "DisplayFingerprint (FingerprintPrefix @ h) = FingerprintPrefix @ ?g"
    unfolding DisplayFingerprint_def canon by (simp add: trim_prefix_def)
  have h: "h \<noteq> []" using assms(1) by auto
  have "graphic (last h)" using assms h by (auto simp: list_all_iff intro: lower_hex_facts(1))
  with h have "trim_space (FingerprintPrefix @ ?g) = FingerprintPrefix @ ?g"
    by (intro trim_space_ends) (auto simp: last_join_groups graphic_def less_eq_char_def)
  moreover have "to_lower ?g = ?g"
  proof -
    have "byte_lower c = c" if "c \<in> set ?g" for c
      using that set_join_groups [of h] assms(2) lower_hex_facts(2)
      by (fastforce simp: list_all_iff byte_lower_def less_eq_char_def)
    then show ?thesis by (simp add: to_lower_def map_idI)
  qed
  ultimately show ?thesis unfolding disp
    using assms groups_join by (intro NormalizeFingerprint_grouped) auto
qed

text \<open>
  Normalising a fingerprint yields its canonical spelling: \<open>sha256:\<close> and 64 lowercase hex
  digits, fixed by normalising again, and recovered from the grouped spelling shown to
  humans.
\<close>
lemma fingerprint_roundtrip:
  assumes "NormalizeFingerprint v = Inr f"
  shows "canonical_fingerprint f \<and> NormalizeFingerprint f = Inr f \<and>
    NormalizeFingerprint (DisplayFingerprint v) = Inr f"
proof -
  have canon: "canonical_fingerprint f" using assms by (rule NormalizeFingerprint_canonical)
  then obtain h where h: "f = FingerprintPrefix @ h" "length h = 64" "list_all lower_hex h"
    by (auto simp: canonical_fingerprint_def)
  have f: "NormalizeFingerprint f = Inr f" using canon by (simp add: canonical_fingerprint_iff)
  have "DisplayFingerprint v = DisplayFingerprint f"
    by (simp add: DisplayFingerprint_def assms f)
  with canon f h DisplayFingerprint_canonical [of h] show ?thesis by simp
qed

theorem fingerprint_roundtrip_witness:
  "NormalizeFingerprint (DisplayFingerprint (replicate 64 (CHR ''A''))) =
     Inr (FingerprintPrefix @ replicate 64 (CHR ''a''))"
proof -
  have "NormalizeFingerprint (replicate 64 (CHR ''A'')) =
      Inr (FingerprintPrefix @ replicate 64 (CHR ''a''))"
    by code_simp
  then show ?thesis using fingerprint_roundtrip by blast
qed

lemma canonical_fingerprint_no_slash: "canonical_fingerprint f \<Longrightarrow> CHR ''/'' \<notin> set f"
  using lower_hex_facts(7) [of "CHR ''/''"] by (auto simp: canonical_fingerprint_def list_all_iff)

text \<open>
  A global room id parses exactly when it is the canonical fingerprint of a home, a slash
  and a valid room id, and then into those two parts: distinct (home, room) pairs have
  distinct global ids and every accepted id is one of these.
\<close>
lemma ParseGlobalRoomID_iff:
  "ParseGlobalRoomID v = Inr (f, r) \<longleftrightarrow>
     v = GlobalRoomID f r \<and> canonical_fingerprint f \<and> ValidateRoomID r = None"
proof
  assume "ParseGlobalRoomID v = Inr (f, r)"
  then show "v = GlobalRoomID f r \<and> canonical_fingerprint f \<and> ValidateRoomID r = None"
    by (auto simp: ParseGlobalRoomID_def GlobalRoomID_def canonical_fingerprint_iff
        dest!: go_cut_Some split: option.splits if_splits)
next
  assume a: "v = GlobalRoomID f r \<and> canonical_fingerprint f \<and> ValidateRoomID r = None"
  then have "go_cut ''/'' v = Some (f, r)"
    using go_cut_single [of "CHR ''/''" f r] canonical_fingerprint_no_slash
    by (simp add: GlobalRoomID_def)
  with a show "ParseGlobalRoomID v = Inr (f, r)"
    by (simp add: ParseGlobalRoomID_def canonical_fingerprint_iff)
qed

end
