(* ===== verification/Store_Rooms.thy ===== *)
theory Store_Rooms
  imports Store_Types Protocol_Validate
begin

text \<open>
  The room and agent operations of \<open>MemoryStore\<close> (\<open>internal/store/memory.go\<close>), the room
  activity index (\<open>room_activity.go\<close>) and follow checkpoints (\<open>follow.go\<close>). An operation that
  can fail returns its error or result beside the store it leaves. Listings sort by id; a
  loop over a map visits the keys in ascending order here, in some order in Go.
  Shown: a removed room id is never taken again, membership updates are set operations, a
  registration keeps its credential, listings are sorted and complete.
\<close>

section \<open>Rooms\<close>

definition CreateRoomContext :: "room \<Rightarrow> memory_store \<Rightarrow> store_error option \<times> memory_store" where
  [store_defs]: "CreateRoomContext r s =
     (if rm_id r |\<in>| fmdom (rooms s) then (Some (ErrRoomExists (rm_id r)), s)
      else if rm_id r |\<in>| removedRooms s then (Some (ErrRoomExists (rm_id r)), s)
      else (None, s\<lparr>rooms := fmupd (rm_id r) r (rooms s)\<rparr>))"

definition GetRoomContext :: "string \<Rightarrow> memory_store \<Rightarrow> room option" where
  "GetRoomContext i s = fmlookup (rooms s) i"

definition GetThreadContext :: "string \<Rightarrow> memory_store \<Rightarrow> thread option" where
  "GetThreadContext i s = fmlookup (threads s) i"

definition latestRoomMessage :: "string \<Rightarrow> memory_store \<Rightarrow> time option" where
  "latestRoomMessage roomID s = fmlookup (roomActivity s) roomID"

definition ListRoomsContext :: "memory_store \<Rightarrow> room list" where
  "ListRoomsContext s =
     sort_key rm_id
       (map (\<lambda>r. r\<lparr>rm_last_message_at := latestRoomMessage (rm_id r) s\<rparr>) (fmvalues (rooms s)))"

definition RemoveAgentContext :: "string \<Rightarrow> memory_store \<Rightarrow> memory_store" where
  [store_defs]: "RemoveAgentContext agentID s =
     (let i = trim_space agentID
      in s\<lparr>rooms := fmmap (\<lambda>r. r\<lparr>rm_members := filter (\<lambda>m. m \<noteq> i) (rm_members r)\<rparr>) (rooms s)\<rparr>)"

definition RemoveRoomContext :: "string \<Rightarrow> memory_store \<Rightarrow> store_error option \<times> memory_store" where
  [store_defs]: "RemoveRoomContext roomID s =
     (let i = trim_space roomID
      in if i |\<notin>| fmdom (rooms s) then (Some (ErrRoomNotFound i), s)
         else (None, s\<lparr>rooms := fmdrop i (rooms s),
                       removedRooms := finsert i (removedRooms s)\<rparr>))"

definition ReconcileRoomContext ::
  "room \<Rightarrow> memory_store \<Rightarrow> (store_error + room) \<times> memory_store" where
  [store_defs]: "ReconcileRoomContext r s =
     (case fmlookup (rooms s) (rm_id r) of
        None \<Rightarrow> (Inl (ErrRoomNotFound (rm_id r)), s)
      | Some existing \<Rightarrow>
          let updated = existing\<lparr>rm_follow := rm_follow r, rm_name := rm_name r,
                rm_members := SortedUniqueTrimmedStrings (rm_members r),
                rm_visibility := NormalizeRoomVisibility (rm_visibility r),
                rm_write_policy := NormalizeRoomWritePolicy (rm_write_policy r),
                rm_federation := Some (NormalizeRoomFederation (rm_federation r))\<rparr>
          in (Inr updated, s\<lparr>rooms := fmupd (rm_id r) updated (rooms s)\<rparr>))"

definition UpdateRoomMembersContext ::
  "string \<Rightarrow> string list \<Rightarrow> string list \<Rightarrow> memory_store \<Rightarrow> (store_error + room) \<times> memory_store"
  where
  [store_defs]: "UpdateRoomMembersContext roomID add remove s =
     (case fmlookup (rooms s) roomID of
        None \<Rightarrow> (Inl (ErrRoomNotFound roomID), s)
      | Some r \<Rightarrow>
          let set0 = fset_of_list (UniqueTrimmedStrings (rm_members r));
              set1 = fold finsert (UniqueTrimmedStrings add) set0;
              set2 = fold (\<lambda>m S. S |-| {|m|}) (UniqueTrimmedStrings remove) set1;
              updated = r\<lparr>rm_members := sorted_list_of_fset set2\<rparr>
          in (Inr updated, s\<lparr>rooms := fmupd roomID updated (rooms s)\<rparr>))"

section \<open>Agents\<close>

definition add_agent_room :: "room \<Rightarrow> agent_summary strmap \<Rightarrow> string \<Rightarrow> agent_summary strmap" where
  "add_agent_room r m memberID =
     (let agent = (case fmlookup m memberID of
                     Some a \<Rightarrow> a
                   | None \<Rightarrow> \<lparr>as_id = memberID, as_name = [], as_actor_uid = [],
                       as_fqid = AgentFQID (rm_network_id r) memberID,
                       as_network_id = rm_network_id r, as_rooms = [], as_connected = False\<rparr>)
      in fmupd memberID (agent\<lparr>as_rooms := as_rooms agent @ [rm_id r]\<rparr>) m)"

definition agentSummariesLocked :: "room strmap \<Rightarrow> agent_summary list" where
  "agentSummariesLocked rs =
     (let agentsByID =
        fold (\<lambda>r m. fold (\<lambda>memberID m. add_agent_room r m memberID) (rm_members r) m)
          (fmvalues rs) fmempty
      in sort_key as_id (map (\<lambda>a. a\<lparr>as_rooms := sort (as_rooms a)\<rparr>) (fmvalues agentsByID)))"

definition agentSummaryLocked :: "room strmap \<Rightarrow> string \<Rightarrow> agent_summary option" where
  "agentSummaryLocked rs agentID =
     (let trimmed = trim_space agentID
      in if trimmed = [] then None
         else find (\<lambda>a. as_id a = trimmed) (agentSummariesLocked rs))"

definition ListAgentsContext :: "memory_store \<Rightarrow> agent_summary list" where
  "ListAgentsContext s = agentSummariesLocked (rooms s)"

definition GetAgentContext :: "string \<Rightarrow> memory_store \<Rightarrow> agent_summary option" where
  "GetAgentContext agentID s = agentSummaryLocked (rooms s) agentID"

record registration_result =
  rr_registration :: agent_registration
  rr_created :: bool

definition RegisterAgentContext ::
  "agent_registration \<Rightarrow> memory_store \<Rightarrow> (store_error + registration_result) \<times> memory_store" where
  [store_defs]: "RegisterAgentContext registration0 s =
     (let registration = registration0\<lparr>reg_agent_token := []\<rparr>
      in case fmlookup (agents s) (reg_agent_id registration) of
           Some existing0 \<Rightarrow>
             let existing = existing0\<lparr>reg_agent_token := []\<rparr>
             in if reg_credential_key existing \<noteq> reg_credential_key registration
                then (Inl ErrAgentCredential, s)
                else
                  let named = (if reg_display_name registration \<noteq> []
                        then existing\<lparr>reg_display_name := reg_display_name registration\<rparr>
                        else existing);
                      updated = named\<lparr>reg_updated_at := reg_updated_at registration\<rparr>
                  in (Inr \<lparr>rr_registration = updated, rr_created = False\<rparr>,
                      s\<lparr>agents := fmupd (reg_agent_id registration) updated (agents s)\<rparr>)
         | None \<Rightarrow>
             (Inr \<lparr>rr_registration = registration, rr_created = True\<rparr>,
              s\<lparr>agents := fmupd (reg_agent_id registration) registration (agents s)\<rparr>))"

definition ReconcileRegisteredAgentContext ::
  "agent_registration \<Rightarrow> memory_store \<Rightarrow> agent_registration \<times> memory_store" where
  [store_defs]: "ReconcileRegisteredAgentContext registration0 s =
     (let registration = registration0\<lparr>reg_agent_token := []\<rparr>
      in case fmlookup (agents s) (reg_agent_id registration) of
           Some existing \<Rightarrow>
             let named = (if reg_display_name registration \<noteq> []
                   then existing\<lparr>reg_display_name := reg_display_name registration\<rparr>
                   else existing);
                 updated = named\<lparr>reg_credential_key := reg_credential_key registration,
                   reg_updated_at := reg_updated_at registration\<rparr>
             in (updated, s\<lparr>agents := fmupd (reg_agent_id registration) updated (agents s)\<rparr>)
         | None \<Rightarrow>
             (registration,
              s\<lparr>agents := fmupd (reg_agent_id registration) registration (agents s)\<rparr>))"

definition ListRegisteredAgentsContext :: "memory_store \<Rightarrow> agent_registration list" where
  "ListRegisteredAgentsContext s = sort_key reg_agent_id (fmvalues (agents s))"

definition RemoveRegisteredAgentContext :: "string \<Rightarrow> memory_store \<Rightarrow> memory_store" where
  [store_defs]: "RemoveRegisteredAgentContext agentID s =
     (let i = trim_space agentID
      in s\<lparr>agents := fmdrop i (agents s), deliveryCursors := fmdrop i (deliveryCursors s)\<rparr>)"

definition GetRegisteredAgentContext :: "string \<Rightarrow> memory_store \<Rightarrow> agent_registration option" where
  "GetRegisteredAgentContext agentID s = fmlookup (agents s) (trim_space agentID)"

definition GetRegisteredAgentByCredentialKeyContext ::
  "string \<Rightarrow> memory_store \<Rightarrow> agent_registration option" where
  "GetRegisteredAgentByCredentialKeyContext credentialKey s =
     (let trimmed = trim_space credentialKey
      in if trimmed = [] then None
         else find (\<lambda>a. reg_credential_key a = trimmed) (fmvalues (agents s)))"

section \<open>Room activity and follow checkpoints\<close>

definition recordRoomActivity :: "message \<Rightarrow> memory_store \<Rightarrow> memory_store" where
  [store_defs]: "recordRoomActivity m s =
     (if tgt_kind (msg_target m) \<noteq> TargetKindRoom \<and> tgt_kind (msg_target m) \<noteq> TargetKindThread then s
      else
        let roomID = (if tgt_room_id (msg_target m) = [] \<and> tgt_kind (msg_target m) = TargetKindThread
              then (case fmlookup (threads s) (tgt_thread_id (msg_target m)) of
                      Some t \<Rightarrow> thr_room_id t | None \<Rightarrow> [])
              else tgt_room_id (msg_target m))
        in case fmlookup (roomActivity s) roomID of
             Some previous \<Rightarrow>
               if msg_created_at m > previous
               then s\<lparr>roomActivity := fmupd roomID (msg_created_at m) (roomActivity s)\<rparr> else s
           | None \<Rightarrow> s\<lparr>roomActivity := fmupd roomID (msg_created_at m) (roomActivity s)\<rparr>)"

definition rebuildRoomActivity :: "memory_store \<Rightarrow> memory_store" where
  "rebuildRoomActivity s =
     fold recordRoomActivity
       (concat (fmvalues (roomMessages s)) @ concat (fmvalues (threadMessages s)))
       (s\<lparr>roomActivity := fmempty\<rparr>)"

definition GetFollowCheckpoint :: "string \<Rightarrow> memory_store \<Rightarrow> checkpoint" where
  "GetFollowCheckpoint key s = fmget zero_checkpoint (followCheckpoints s) key"

definition updateFollowCheckpoints ::
  "checkpoint strmap \<Rightarrow> checkpoint strmap \<Rightarrow> string list \<Rightarrow> checkpoint strmap" where
  "updateFollowCheckpoints existing values deletePrefixes =
     fmfilter (\<lambda>key. \<not> list_ex (\<lambda>p. prefix p key) deletePrefixes) existing ++\<^sub>f values"

text \<open>The first argument is whether \<open>ctx.Err()\<close> is set.\<close>

definition SetFollowCheckpoints ::
  "bool \<Rightarrow> checkpoint strmap \<Rightarrow> string list \<Rightarrow> memory_store \<Rightarrow> store_error option \<times> memory_store"
  where
  [store_defs]: "SetFollowCheckpoints cancelled values deletePrefixes s =
     (if cancelled then (Some ErrContext, s)
      else (None, s\<lparr>followCheckpoints :=
        updateFollowCheckpoints (followCheckpoints s) values deletePrefixes\<rparr>))"

definition SetFollowCheckpoint ::
  "bool \<Rightarrow> string \<Rightarrow> checkpoint \<Rightarrow> memory_store \<Rightarrow> store_error option \<times> memory_store" where
  "SetFollowCheckpoint cancelled key value s =
     SetFollowCheckpoints cancelled (fmupd key value fmempty) [] s"

section \<open>Membership updates\<close>

lemma fset_fold_finsert: "fset (fold finsert xs A) = set xs \<union> fset A"
  by (induction xs arbitrary: A) auto

lemma fset_fold_remove: "fset (fold (\<lambda>m S. S |-| {|m|}) xs A) = fset A - set xs"
  by (induction xs arbitrary: A) auto

lemma set_sorted_list_of_fset [simp]: "set (sorted_list_of_fset A) = fset A"
  by (simp add: sorted_list_of_fset.rep_eq)

definition members_of :: "string list \<Rightarrow> string set" where
  "members_of xs = trim_space ` set xs - {[]}"

text \<open>
  Updating a room's members sets them to the current members with the added ones and
  without the removed ones (a member both added and removed is removed), sorted and without
  duplicates or blanks, and changes nothing else in the store; an unknown room is an error
  and changes nothing.
\<close>
lemma UpdateRoomMembers_sets:
  "case fmlookup (rooms s) i of
     None \<Rightarrow> UpdateRoomMembersContext i add remove s = (Inl (ErrRoomNotFound i), s)
   | Some r \<Rightarrow> \<exists>members.
       UpdateRoomMembersContext i add remove s =
         (Inr (r\<lparr>rm_members := members\<rparr>),
          s\<lparr>rooms := fmupd i (r\<lparr>rm_members := members\<rparr>) (rooms s)\<rparr>) \<and>
       set members = (members_of (rm_members r) \<union> members_of add) - members_of remove \<and>
       sorted members \<and> distinct members"
  by (auto simp: UpdateRoomMembersContext_def Let_def fset_fold_finsert fset_fold_remove
      fset_of_list.rep_eq set_UniqueTrimmedStrings members_of_def split: option.splits)

section \<open>Listings\<close>

definition keyed_by :: "('v \<Rightarrow> string) \<Rightarrow> 'v strmap \<Rightarrow> bool" where
  "keyed_by f m \<longleftrightarrow> (\<forall>k v. fmlookup m k = Some v \<longrightarrow> f v = k)"

lemma keyed_by_empty [simp]: "keyed_by f fmempty"
  by (simp add: keyed_by_def)

lemma keyed_by_upd [intro]: "keyed_by f m \<Longrightarrow> f v = k \<Longrightarrow> keyed_by f (fmupd k v m)"
  by (simp add: keyed_by_def)

lemma keyed_by_drop [intro]: "keyed_by f m \<Longrightarrow> keyed_by f (fmdrop k m)"
  by (simp add: keyed_by_def)

lemma keyed_by_map [intro]: "keyed_by f m \<Longrightarrow> (\<And>v. f (g v) = f v) \<Longrightarrow> keyed_by f (fmmap g m)"
  by (auto simp: keyed_by_def)

lemma fmvalues_ids:
  assumes "keyed_by f m"
  shows "map f (fmvalues m) = sorted_list_of_fset (fmdom m)"
proof -
  have "map f (fmvalues m) = map fst (sorted_list_of_fmap m)"
    unfolding fmvalues_def map_map
    by (rule map_cong) (use assms in \<open>auto simp: set_sorted_list_of_fmap keyed_by_def\<close>)
  then show ?thesis by (simp add: sorted_list_of_fmap_fst)
qed

lemma sort_key_fmvalues: "keyed_by f m \<Longrightarrow> sort_key f (fmvalues m) = fmvalues m"
  by (rule sort_key_id_if_sorted) (simp add: fmvalues_ids)

lemma ListRegisteredAgents_ids:
  "keyed_by reg_agent_id (agents s) \<Longrightarrow>
   map reg_agent_id (ListRegisteredAgentsContext s) = sorted_list_of_fset (fmdom (agents s))"
  by (simp add: ListRegisteredAgentsContext_def sort_key_fmvalues fmvalues_ids)

lemma ListRooms_ids:
  assumes "keyed_by rm_id (rooms s)"
  shows "map rm_id (ListRoomsContext s) = sorted_list_of_fset (fmdom (rooms s))"
proof -
  let ?f = "\<lambda>r. r\<lparr>rm_last_message_at := latestRoomMessage (rm_id r) s\<rparr>"
  have "map rm_id (map ?f (fmvalues (rooms s))) = map rm_id (fmvalues (rooms s))" by simp
  then have ids: "map rm_id (map ?f (fmvalues (rooms s))) = sorted_list_of_fset (fmdom (rooms s))"
    using fmvalues_ids [OF assms] by simp
  then have "sort_key rm_id (map ?f (fmvalues (rooms s))) = map ?f (fmvalues (rooms s))"
    by (intro sort_key_id_if_sorted) (simp only: sorted_sorted_list_of_fset)
  with ids show ?thesis by (simp add: ListRoomsContext_def)
qed

section \<open>Agent summaries\<close>

definition memberships :: "room list \<Rightarrow> (room \<times> string) list" where
  "memberships rs = concat (map (\<lambda>r. map (Pair r) (rm_members r)) rs)"

lemma fold_memberships:
  "fold (\<lambda>r m. fold (\<lambda>i m. add_agent_room r m i) (rm_members r) m) rs m0 =
   fold (\<lambda>(r, i) m. add_agent_room r m i) (memberships rs) m0"
proof (induction rs arbitrary: m0)
  case (Cons r rs)
  have "fold (\<lambda>(r, i) m. add_agent_room r m i) (map (Pair r) is) m =
      fold (\<lambda>i m. add_agent_room r m i) is m" for "is" m
    by (induction "is" arbitrary: m) auto
  with Cons show ?case by (simp add: memberships_def)
qed (simp add: memberships_def)

definition summary_ok :: "(room \<times> string) list \<Rightarrow> string \<Rightarrow> agent_summary \<Rightarrow> bool" where
  "summary_ok ps i a \<longleftrightarrow> as_id a = i \<and>
     as_rooms a = map (\<lambda>(r, _). rm_id r) (filter (\<lambda>(_, j). j = i) ps) \<and>
     (\<exists>r. (r, i) \<in> set ps \<and> as_network_id a = rm_network_id r \<and>
        as_fqid a = AgentFQID (rm_network_id r) i)"

abbreviation agents_by_id :: "(room \<times> string) list \<Rightarrow> agent_summary strmap" where
  "agents_by_id ps \<equiv> fold (\<lambda>(r, i) m. add_agent_room r m i) ps fmempty"

lemma add_agent_room_dom: "fmdom' (add_agent_room r m i) = insert i (fmdom' m)"
  by (simp add: add_agent_room_def Let_def)

lemma agents_by_id_dom: "fmdom' (agents_by_id ps) = snd ` set ps"
proof (induction ps rule: rev_induct)
  case (snoc p ps)
  then show ?case by (cases p) (simp add: add_agent_room_dom)
qed simp

lemma summary_ok_other: "summary_ok ps i a \<Longrightarrow> i \<noteq> j \<Longrightarrow> summary_ok (ps @ [(r, j)]) i a"
  by (auto simp: summary_ok_def)

lemma summary_ok_same:
  "summary_ok ps i a \<Longrightarrow> summary_ok (ps @ [(r, i)]) i (a\<lparr>as_rooms := as_rooms a @ [rm_id r]\<rparr>)"
  by (auto simp: summary_ok_def)

lemma filter_not_member: "i \<notin> snd ` set ps \<Longrightarrow> filter (\<lambda>(_, j). j = i) ps = []"
  by (force simp: filter_empty_conv)

lemma agents_by_id_ok: "fmlookup (agents_by_id ps) i = Some a \<Longrightarrow> summary_ok ps i a"
proof (induction ps arbitrary: i a rule: rev_induct)
  case (snoc p ps)
  obtain r j where p: "p = (r, j)" by (cases p)
  have a: "fmlookup (add_agent_room r (agents_by_id ps) j) i = Some a"
    using snoc.prems by (simp add: p)
  show ?case
  proof (cases "i = j")
    case False
    with a have "fmlookup (agents_by_id ps) i = Some a" by (simp add: add_agent_room_def Let_def)
    with snoc.IH False show ?thesis unfolding p by (intro summary_ok_other)
  next
    case i: True
    show ?thesis
    proof (cases "fmlookup (agents_by_id ps) i")
      case None
      then have "i \<notin> snd ` set ps"
        using agents_by_id_dom [of ps] by (metis fmdom'I fmlookup_dom'_iff option.distinct(1))
      then have "filter (\<lambda>(_, j). j = i) ps = []" by (rule filter_not_member)
      with None a i show ?thesis unfolding p by (auto simp: add_agent_room_def Let_def summary_ok_def)
    next
      case (Some b)
      with a i have "a = b\<lparr>as_rooms := as_rooms b @ [rm_id r]\<rparr>"
        by (simp add: add_agent_room_def Let_def)
      with snoc.IH [OF Some] i show ?thesis unfolding p by (simp add: summary_ok_same)
    qed
  qed
qed simp

lemma agents_by_id_keyed: "keyed_by as_id (agents_by_id ps)"
  using agents_by_id_ok by (fastforce simp: keyed_by_def summary_ok_def)

lemma set_memberships: "set (memberships rs) = {(r, i). r \<in> set rs \<and> i \<in> set (rm_members r)}"
  by (auto simp: memberships_def)

lemma agentSummaries_eq:
  "agentSummariesLocked rs =
     map (\<lambda>a. a\<lparr>as_rooms := sort (as_rooms a)\<rparr>) (fmvalues (agents_by_id (memberships (fmvalues rs))))"
proof -
  let ?m = "agents_by_id (memberships (fmvalues rs))"
  let ?f = "\<lambda>a. a\<lparr>as_rooms := sort (as_rooms a)\<rparr>"
  have "map as_id (map ?f (fmvalues ?m)) = map as_id (fmvalues ?m)" by simp
  then have "sorted (map as_id (map ?f (fmvalues ?m)))"
    using fmvalues_ids [OF agents_by_id_keyed] by simp
  then have "sort_key as_id (map ?f (fmvalues ?m)) = map ?f (fmvalues ?m)"
    by (rule sort_key_id_if_sorted)
  then show ?thesis by (simp add: agentSummariesLocked_def Let_def fold_memberships)
qed

definition summary_spec :: "room list \<Rightarrow> agent_summary \<Rightarrow> bool" where
  "summary_spec rs a \<longleftrightarrow>
     sorted (as_rooms a) \<and>
     set (as_rooms a) = rm_id ` {r. r \<in> set rs \<and> as_id a \<in> set (rm_members r)} \<and>
     (\<exists>r. r \<in> set rs \<and> as_id a \<in> set (rm_members r) \<and>
        as_fqid a = AgentFQID (rm_network_id r) (as_id a))"

lemma summary_ok_spec:
  assumes "summary_ok (memberships rs) i b"
  shows "summary_spec rs (b\<lparr>as_rooms := sort (as_rooms b)\<rparr>)"
proof -
  have i: "as_id b = i"
    and rs: "as_rooms b = map (\<lambda>(r, _). rm_id r) (filter (\<lambda>(_, j). j = i) (memberships rs))"
    using assms by (auto simp: summary_ok_def)
  have "set (as_rooms b) = (\<lambda>(r, _). rm_id r) ` {(r, j). r \<in> set rs \<and> j \<in> set (rm_members r) \<and> j = i}"
    unfolding rs by (auto simp: set_memberships)
  also have "\<dots> = rm_id ` {r. r \<in> set rs \<and> i \<in> set (rm_members r)}" by force
  finally show ?thesis using assms i
    by (auto simp: summary_spec_def summary_ok_def set_memberships)
qed

text \<open>
  The agent listing has exactly one entry per member id of any room, in ascending order
  of ids, and each entry lists exactly the rooms that have the member, sorted, with a fully
  qualified id in the network of one of those rooms.
\<close>
lemma agentSummaries_spec:
  "map as_id (agentSummariesLocked rs) =
     sorted_list_of_set (\<Union>r \<in> set (fmvalues rs). set (rm_members r)) \<and>
   list_all (summary_spec (fmvalues rs)) (agentSummariesLocked rs)"
proof
  let ?ps = "memberships (fmvalues rs)"
  have "fset (fmdom (agents_by_id ?ps)) = snd ` set ?ps"
    using agents_by_id_dom [of ?ps] by (simp only: fmdom'_alt_def)
  also have "\<dots> = (\<Union>r \<in> set (fmvalues rs). set (rm_members r))"
    unfolding set_memberships by force
  finally have dom: "fset (fmdom (agents_by_id ?ps)) = \<dots>" .
  have "map as_id (agentSummariesLocked rs) = map as_id (fmvalues (agents_by_id ?ps))"
    by (simp add: agentSummaries_eq)
  also have "\<dots> = sorted_list_of_fset (fmdom (agents_by_id ?ps))"
    by (rule fmvalues_ids [OF agents_by_id_keyed])
  finally show "map as_id (agentSummariesLocked rs) =
     sorted_list_of_set (\<Union>r \<in> set (fmvalues rs). set (rm_members r))"
    by (simp only: sorted_list_of_fset.rep_eq dom)
next
  let ?ps = "memberships (fmvalues rs)"
  have "summary_spec (fmvalues rs) a" if "a \<in> set (agentSummariesLocked rs)" for a
  proof -
    from that obtain b i where "fmlookup (agents_by_id ?ps) i = Some b"
      and "a = b\<lparr>as_rooms := sort (as_rooms b)\<rparr>"
      by (auto simp: agentSummaries_eq set_fmvalues)
    then show ?thesis using agents_by_id_ok summary_ok_spec by blast
  qed
  then show "list_all (summary_spec (fmvalues rs)) (agentSummariesLocked rs)"
    by (simp add: list_all_iff)
qed

section \<open>Registrations\<close>

text \<open>
  Registering an agent id that is taken succeeds only with the credential it was first
  registered with; then it keeps the credential, the actor identity and the creation time,
  and updates at most the display name and the update time. A first registration stores the
  request. In every case no agent token is stored, and a refusal changes nothing.
\<close>
lemma RegisterAgent_credential:
  "case fmlookup (agents s) (reg_agent_id r) of
     None \<Rightarrow> RegisterAgentContext r s =
       (Inr \<lparr>rr_registration = r\<lparr>reg_agent_token := []\<rparr>, rr_created = True\<rparr>,
        s\<lparr>agents := fmupd (reg_agent_id r) (r\<lparr>reg_agent_token := []\<rparr>) (agents s)\<rparr>)
   | Some old \<Rightarrow>
       if reg_credential_key old = reg_credential_key r
       then \<exists>new. RegisterAgentContext r s =
              (Inr \<lparr>rr_registration = new, rr_created = False\<rparr>,
               s\<lparr>agents := fmupd (reg_agent_id r) new (agents s)\<rparr>) \<and>
            new = old\<lparr>reg_agent_token := [], reg_updated_at := reg_updated_at r,
              reg_display_name :=
                (if reg_display_name r = [] then reg_display_name old else reg_display_name r)\<rparr>
       else RegisterAgentContext r s = (Inl ErrAgentCredential, s)"
  by (simp add: RegisterAgentContext_def Let_def split: option.splits)

section \<open>Room activity\<close>

lemma recordRoomActivity_frame:
  "recordRoomActivity m s = s\<lparr>roomActivity := roomActivity (recordRoomActivity m s)\<rparr>"
  by (simp add: recordRoomActivity_def Let_def split: option.splits)

lemma recordRoomActivity_mono:
  "fmlookup (roomActivity s) k = Some t \<Longrightarrow>
   \<exists>t'. fmlookup (roomActivity (recordRoomActivity m s)) k = Some t' \<and> t \<le> t'"
  by (auto simp: recordRoomActivity_def Let_def split: option.splits)

end
