(* ===== verification/Pagination.thy ===== *)
theory Pagination
  imports Store_Types Protocol_Validate
begin

text \<open>
  Cursor pagination: \<open>paginateByID\<close> (\<open>internal/store/page.go\<close>), the message and artifact
  pages built on it (\<open>pagination.go\<close>, \<open>artifacts.go\<close>) and \<open>paginate\<close> of
  \<open>internal/rooms/collections.go\<close>. A page size is an \<open>int\<close>: the transport clamps it to 500, so
  \<open>start + limit\<close> does not overflow. The locales state what a page function promises, and
  prove once that a client that follows the cursors reads every item exactly once.
\<close>

section \<open>Store pages\<close>

fun indexAfter_from :: "('a \<Rightarrow> string) \<Rightarrow> nat \<Rightarrow> 'a list \<Rightarrow> string \<Rightarrow> nat option" where
  "indexAfter_from get_id i [] after = None"
| "indexAfter_from get_id i (v # vs) after =
     (if get_id v = after then Some (i + 1) else indexAfter_from get_id (i + 1) vs after)"

definition indexAfter :: "('a \<Rightarrow> string) \<Rightarrow> 'a list \<Rightarrow> string \<Rightarrow> nat option" where
  "indexAfter get_id values after = indexAfter_from get_id 0 values after"

fun indexBefore_from :: "('a \<Rightarrow> string) \<Rightarrow> nat \<Rightarrow> 'a list \<Rightarrow> string \<Rightarrow> nat option" where
  "indexBefore_from get_id i [] before = None"
| "indexBefore_from get_id i (v # vs) before =
     (if get_id v = before then Some i else indexBefore_from get_id (i + 1) vs before)"

definition indexBefore :: "('a \<Rightarrow> string) \<Rightarrow> 'a list \<Rightarrow> string \<Rightarrow> nat option" where
  "indexBefore get_id values before = indexBefore_from get_id 0 values before"

definition slice :: "nat \<Rightarrow> nat \<Rightarrow> 'a list \<Rightarrow> 'a list" where
  "slice start end xs = drop start (take end xs)"

definition first_id :: "('a \<Rightarrow> string) \<Rightarrow> 'a list \<Rightarrow> string" where
  "first_id get_id xs = (case xs of [] \<Rightarrow> [] | x # _ \<Rightarrow> get_id x)"

definition last_id :: "('a \<Rightarrow> string) \<Rightarrow> 'a list \<Rightarrow> string" where
  "last_id get_id xs = (if xs = [] then [] else get_id (last xs))"

definition paginateByID ::
  "('a \<Rightarrow> string) \<Rightarrow> 'a list \<Rightarrow> page_request \<Rightarrow> store_error + ('a list \<times> page_info)" where
  "paginateByID get_id values page =
     (if ValidatePageRequest page \<noteq> None then Inl ErrInvalidCursor
      else
        let limit = (if pg_limit page \<le> 0 then length values else nat (pg_limit page))
        in if pg_after page \<noteq> [] then
             (case indexAfter get_id values (pg_after page) of
                None \<Rightarrow> Inl ErrInvalidCursor
              | Some start \<Rightarrow>
                  let end = (if start + limit > length values then length values else start + limit);
                      selected = slice start end values;
                      more = (end < length values)
                  in Inr (selected,
                       \<lparr>pi_has_more = more,
                        pi_next_before =
                          (if start > 0 \<and> selected \<noteq> [] then first_id get_id selected else []),
                        pi_next_after =
                          (if more \<and> selected \<noteq> [] then last_id get_id selected else [])\<rparr>))
           else
             (case (if pg_before page \<noteq> [] then indexBefore get_id values (pg_before page)
                    else Some (length values)) of
                None \<Rightarrow> Inl ErrInvalidCursor
              | Some end \<Rightarrow>
                  let start = end - limit;
                      selected = slice start end values
                  in Inr (selected,
                       \<lparr>pi_has_more = (start > 0),
                        pi_next_before =
                          (if start > 0 \<and> selected \<noteq> [] then first_id get_id selected else []),
                        pi_next_after =
                          (if end < length values \<and> selected \<noteq> [] then last_id get_id selected
                           else [])\<rparr>)))"

definition newest_page ::
  "('a \<Rightarrow> string) \<Rightarrow> 'a list \<Rightarrow> page_request \<Rightarrow> store_error + ('a list \<times> page_info)" where
  "newest_page get_id values page =
     (if pg_before page = [] \<and> pg_after page = [] then
        (if pg_limit page \<le> 0 \<or> int (length values) \<le> pg_limit page
         then Inr (values, no_page_info)
         else
           let selected = drop (length values - nat (pg_limit page)) values
           in Inr (selected, no_page_info\<lparr>pi_has_more := True,
                pi_next_before := first_id get_id selected\<rparr>))
      else paginateByID get_id values page)"

definition pageMessagesResult ::
  "message list \<Rightarrow> page_request \<Rightarrow> store_error + (message list \<times> page_info)" where
  "pageMessagesResult messages page = newest_page msg_id messages page"

section \<open>Artifacts\<close>

definition isArtifactPart :: "part \<Rightarrow> bool" where
  "isArtifactPart p \<longleftrightarrow>
     part_kind p \<noteq> PartKindText \<or> part_url p \<noteq> [] \<or> part_filename p \<noteq> [] \<or> part_media_type p \<noteq> []"

text \<open>The decimal spelling of \<open>fmt.Sprintf("%d")\<close>.\<close>

fun decimal :: "nat \<Rightarrow> string" where
  "decimal n = (if n < 10 then [char_of (48 + n)]
                else decimal (n div 10) @ [char_of (48 + n mod 10)])"

declare decimal.simps [simp del]

definition artifact_id :: "string \<Rightarrow> nat \<Rightarrow> string" where
  "artifact_id messageID index = ''art_'' @ messageID @ ''_'' @ decimal index"

definition artifact_of :: "message \<Rightarrow> nat \<Rightarrow> part \<Rightarrow> artifact" where
  "artifact_of m index p =
     \<lparr>art_id = artifact_id (msg_id m) index,
      art_network_id = msg_network_id m,
      art_fqid = ArtifactFQID (msg_network_id m) (artifact_id (msg_id m) index),
      art_message_id = msg_id m, art_target = msg_target m, art_part_index = index,
      art_kind = part_kind p, art_media_type = part_media_type p,
      art_filename = part_filename p, art_url = part_url p, art_created_at = msg_created_at m\<rparr>"

definition message_artifacts :: "message \<Rightarrow> artifact list" where
  "message_artifacts m =
     map (\<lambda>(i, p). artifact_of m i p)
       (filter (\<lambda>(i, p). isArtifactPart p) (enumerate 0 (msg_parts m)))"

definition collectArtifacts :: "message list \<Rightarrow> artifact list" where
  "collectArtifacts messages = concat (map message_artifacts messages)"

definition pageArtifactsResult ::
  "artifact list \<Rightarrow> page_request \<Rightarrow> store_error + (artifact list \<times> page_info)" where
  "pageArtifactsResult artifacts page = newest_page art_id artifacts page"

section \<open>Service pages\<close>

definition paginate ::
  "('a \<Rightarrow> string) \<Rightarrow> 'a list \<Rightarrow> page_request \<Rightarrow> store_error + ('a list \<times> page_info)" where
  "paginate get_id values page =
     (if ValidatePageRequest page \<noteq> None then Inl ErrInvalidCursor
      else
        let limit = (if pg_limit page \<le> 0 then length values else nat (pg_limit page))
        in case (if pg_after page \<noteq> [] then indexAfter get_id values (pg_after page) else Some 0) of
             None \<Rightarrow> Inl ErrInvalidCursor
           | Some start \<Rightarrow>
             (case (if pg_before page \<noteq> [] then indexBefore get_id values (pg_before page)
                    else Some (length values)) of
                None \<Rightarrow> Inl ErrInvalidCursor
              | Some end0 \<Rightarrow>
                  let end = (if end0 < start then start else end0);
                      (windowStart, windowEnd) =
                        (if end - start > limit then
                           (if pg_before page \<noteq> [] \<and> pg_after page = [] then (end - limit, end)
                            else (start, start + limit))
                         else (start, end));
                      selected = slice windowStart windowEnd values
                  in Inr (selected,
                       \<lparr>pi_has_more = (windowStart > 0 \<or> windowEnd < length values),
                        pi_next_before =
                          (if windowStart > 0 \<and> selected \<noteq> [] then first_id get_id selected else []),
                        pi_next_after =
                          (if windowEnd < length values \<and> selected \<noteq> [] then last_id get_id selected
                           else [])\<rparr>)))"

section \<open>Listings and cursors\<close>

text \<open>
  A listing whose ids are distinct and in the identifier grammar: the ids a cursor can name.
\<close>

definition good_listing :: "('a \<Rightarrow> string) \<Rightarrow> 'a list \<Rightarrow> bool" where
  "good_listing get_id vs \<longleftrightarrow>
     distinct (map get_id vs) \<and> list_all (\<lambda>v. messageIDPattern (get_id v)) vs"

lemma good_listing_id: "good_listing g vs \<Longrightarrow> i < length vs \<Longrightarrow> messageIDPattern (g (vs ! i))"
  by (simp add: good_listing_def list_all_iff)

lemma good_listing_nonempty: "good_listing g vs \<Longrightarrow> i < length vs \<Longrightarrow> g (vs ! i) \<noteq> []"
  using good_listing_id valid_id_nonempty by blast

lemma indexAfter_from_nth:
  "distinct (map g vs) \<Longrightarrow> i < length vs \<Longrightarrow>
   indexAfter_from g k vs (g (vs ! i)) = Some (k + i + 1)"
proof (induction vs arbitrary: k i)
  case (Cons v vs)
  then show ?case by (cases i) (auto simp: nth_Cons')
qed simp

lemma indexBefore_from_nth:
  "distinct (map g vs) \<Longrightarrow> i < length vs \<Longrightarrow>
   indexBefore_from g k vs (g (vs ! i)) = Some (k + i)"
proof (induction vs arbitrary: k i)
  case (Cons v vs)
  then show ?case by (cases i) (auto simp: nth_Cons')
qed simp

lemma indexAfter_nth: "good_listing g vs \<Longrightarrow> i < length vs \<Longrightarrow> indexAfter g vs (g (vs ! i)) = Some (Suc i)"
  by (simp add: good_listing_def indexAfter_def indexAfter_from_nth)

lemma indexBefore_nth: "good_listing g vs \<Longrightarrow> i < length vs \<Longrightarrow> indexBefore g vs (g (vs ! i)) = Some i"
  by (simp add: good_listing_def indexBefore_def indexBefore_from_nth)

lemma indexAfter_from_None: "indexAfter_from g k vs c = None \<longleftrightarrow> c \<notin> g ` set vs"
  by (induction vs arbitrary: k) auto

lemma indexBefore_from_None: "indexBefore_from g k vs c = None \<longleftrightarrow> c \<notin> g ` set vs"
  by (induction vs arbitrary: k) auto

lemma index_None [simp]:
  "indexAfter g vs c = None \<longleftrightarrow> c \<notin> g ` set vs" "indexBefore g vs c = None \<longleftrightarrow> c \<notin> g ` set vs"
  by (simp_all add: indexAfter_def indexBefore_def indexAfter_from_None indexBefore_from_None)

lemma slice_nth_first: "s < e \<Longrightarrow> e \<le> length vs \<Longrightarrow> slice s e vs \<noteq> [] \<and> first_id g (slice s e vs) = g (vs ! s)"
  by (auto simp: slice_def first_id_def Cons_nth_drop_Suc [symmetric] split: list.splits)

lemma slice_nth_last: "s < e \<Longrightarrow> e \<le> length vs \<Longrightarrow> last_id g (slice s e vs) = g (vs ! (e - 1))"
  by (auto simp: slice_def last_id_def last_drop last_conv_nth)

section \<open>What a page function promises\<close>

definition before_request :: "string \<Rightarrow> int \<Rightarrow> page_request" where
  "before_request c limit = \<lparr>pg_before = c, pg_after = [], pg_limit = limit\<rparr>"

definition after_request :: "string \<Rightarrow> int \<Rightarrow> page_request" where
  "after_request c limit = \<lparr>pg_before = [], pg_after = c, pg_limit = limit\<rparr>"

text \<open>
  A client that reads backwards: it asks for the page before a cursor and follows
  \<open>next_before\<close> while there is one; a client that reads forwards follows \<open>next_after\<close>. The
  fuel bounds the number of requests; \<open>None\<close> is running out of it.
\<close>

fun walk_before :: "(page_request \<Rightarrow> store_error + ('a list \<times> page_info)) \<Rightarrow> int \<Rightarrow> nat \<Rightarrow> string \<Rightarrow>
    (store_error + 'a list) option" where
  "walk_before fetch limit 0 c = None"
| "walk_before fetch limit (Suc n) c =
     (case fetch (before_request c limit) of
        Inl e \<Rightarrow> Some (Inl e)
      | Inr (items, info) \<Rightarrow>
          if pi_next_before info = [] then Some (Inr items)
          else (case walk_before fetch limit n (pi_next_before info) of
                  Some (Inr earlier) \<Rightarrow> Some (Inr (earlier @ items))
                | r \<Rightarrow> r))"

fun walk_after :: "(page_request \<Rightarrow> store_error + ('a list \<times> page_info)) \<Rightarrow> int \<Rightarrow> nat \<Rightarrow> string \<Rightarrow>
    (store_error + 'a list) option" where
  "walk_after fetch limit 0 c = None"
| "walk_after fetch limit (Suc n) c =
     (case fetch (after_request c limit) of
        Inl e \<Rightarrow> Some (Inl e)
      | Inr (items, info) \<Rightarrow>
          if pi_next_after info = [] then Some (Inr items)
          else (case walk_after fetch limit n (pi_next_after info) of
                  Some (Inr later) \<Rightarrow> Some (Inr (items @ later))
                | r \<Rightarrow> r))"

locale cursor_pages =
  fixes page :: "'a list \<Rightarrow> page_request \<Rightarrow> store_error + ('a list \<times> page_info)"
    and get_id :: "'a \<Rightarrow> string"
  assumes before_page: "good_listing get_id vs \<Longrightarrow> 0 < limit \<Longrightarrow> e < length vs \<Longrightarrow>
      \<exists>info. page vs (before_request (get_id (vs ! e)) limit) = Inr (slice (e - nat limit) e vs, info) \<and>
        pi_next_before info = (if nat limit < e then get_id (vs ! (e - nat limit)) else [])"
    and after_page: "good_listing get_id vs \<Longrightarrow> 0 < limit \<Longrightarrow> i < length vs \<Longrightarrow>
      \<exists>info. page vs (after_request (get_id (vs ! i)) limit) =
          Inr (take (nat limit) (drop (Suc i) vs), info) \<and>
        pi_next_after info = (if Suc i + nat limit < length vs then get_id (vs ! (i + nat limit)) else [])"
    and unknown_cursor: "c \<noteq> [] \<Longrightarrow> c \<notin> get_id ` set vs \<Longrightarrow>
      page vs (before_request c limit) = Inl ErrInvalidCursor \<and>
      page vs (after_request c limit) = Inl ErrInvalidCursor"
begin

lemma walk_before_from:
  assumes "good_listing get_id vs" and "0 < limit"
  shows "e < length vs \<Longrightarrow> e < n \<Longrightarrow>
    walk_before (page vs) limit n (get_id (vs ! e)) = Some (Inr (take e vs))"
proof (induction n arbitrary: e)
  case (Suc n)
  obtain info where info: "page vs (before_request (get_id (vs ! e)) limit) =
        Inr (slice (e - nat limit) e vs, info)"
      "pi_next_before info = (if nat limit < e then get_id (vs ! (e - nat limit)) else [])"
    using before_page [OF assms Suc.prems(1)] by blast
  show ?case
  proof (cases "nat limit < e")
    case True
    let ?s = "e - nat limit"
    have s: "?s < n" "?s < length vs" using Suc.prems assms(2) True by auto
    have ne: "get_id (vs ! ?s) \<noteq> []" using assms(1) s(2) by (rule good_listing_nonempty)
    have "take ?s vs @ slice ?s e vs = take e vs"
      by (metis append_take_drop_id diff_le_self min.absorb1 slice_def take_take)
    with info True ne Suc.IH [OF s(2,1)] show ?thesis by simp
  next
    case False
    with info show ?thesis by (simp add: slice_def)
  qed
qed simp

lemma walk_after_from:
  assumes "good_listing get_id vs" and "0 < limit"
  shows "i < length vs \<Longrightarrow> length vs \<le> i + n \<Longrightarrow>
    walk_after (page vs) limit n (get_id (vs ! i)) = Some (Inr (drop (Suc i) vs))"
proof (induction n arbitrary: i)
  case (Suc n)
  obtain info where info: "page vs (after_request (get_id (vs ! i)) limit) =
        Inr (take (nat limit) (drop (Suc i) vs), info)"
      "pi_next_after info = (if Suc i + nat limit < length vs then get_id (vs ! (i + nat limit)) else [])"
    using after_page [OF assms Suc.prems(1)] by blast
  show ?case
  proof (cases "Suc i + nat limit < length vs")
    case True
    let ?j = "i + nat limit"
    have j: "?j < length vs" "length vs \<le> ?j + n" using Suc.prems assms(2) True by auto
    have ne: "get_id (vs ! ?j) \<noteq> []" using assms(1) j(1) by (rule good_listing_nonempty)
    have "take (nat limit) (drop (Suc i) vs) @ drop (Suc ?j) vs = drop (Suc i) vs"
      by (metis add.commute add_Suc_right append_take_drop_id drop_drop)
    with info True ne Suc.IH [OF j] show ?thesis by simp
  next
    case False
    with info show ?thesis by simp
  qed
qed simp

end

text \<open>A page without a cursor is the newest page (store) or the oldest page (service).\<close>

locale newest_first = cursor_pages +
  assumes newest: "good_listing get_id vs \<Longrightarrow> 0 < limit \<Longrightarrow>
      \<exists>info. page vs (before_request [] limit) =
          Inr (drop (length vs - nat limit) vs, info) \<and>
        pi_next_before info =
          (if nat limit < length vs then get_id (vs ! (length vs - nat limit)) else [])"
begin

lemma walk_before_all:
  assumes "good_listing get_id vs" and "0 < limit"
  shows "walk_before (page vs) limit (Suc (length vs)) [] = Some (Inr vs)"
proof -
  obtain info where info: "page vs (before_request [] limit) =
        Inr (drop (length vs - nat limit) vs, info)"
      "pi_next_before info =
        (if nat limit < length vs then get_id (vs ! (length vs - nat limit)) else [])"
    using newest [OF assms] by blast
  show ?thesis
  proof (cases "nat limit < length vs")
    case True
    let ?s = "length vs - nat limit"
    have s: "?s < length vs" using True assms(2) by simp
    have "get_id (vs ! ?s) \<noteq> []" using assms(1) s by (rule good_listing_nonempty)
    with info True walk_before_from [OF assms s, of "length vs"] s show ?thesis by simp
  next
    case False
    with info show ?thesis by simp
  qed
qed

end

locale oldest_first = cursor_pages +
  assumes oldest: "good_listing get_id vs \<Longrightarrow> 0 < limit \<Longrightarrow>
      \<exists>info. page vs (after_request [] limit) = Inr (take (nat limit) vs, info) \<and>
        pi_next_after info = (if nat limit < length vs then get_id (vs ! (nat limit - 1)) else [])"
begin

lemma walk_after_all:
  assumes "good_listing get_id vs" and "0 < limit"
  shows "walk_after (page vs) limit (Suc (length vs)) [] = Some (Inr vs)"
proof -
  obtain info where info: "page vs (after_request [] limit) = Inr (take (nat limit) vs, info)"
      "pi_next_after info = (if nat limit < length vs then get_id (vs ! (nat limit - 1)) else [])"
    using oldest [OF assms] by blast
  show ?thesis
  proof (cases "nat limit < length vs")
    case True
    let ?i = "nat limit - 1"
    have i: "?i < length vs" "length vs \<le> ?i + length vs" "Suc ?i = nat limit"
      using True assms(2) by auto
    have "get_id (vs ! ?i) \<noteq> []" using assms(1) i(1) by (rule good_listing_nonempty)
    with info True walk_after_from [OF assms i(1,2)] i(3) show ?thesis by simp
  next
    case False
    with info show ?thesis by simp
  qed
qed

end

section \<open>The page functions keep the promise\<close>

lemma request_simps [simp]:
  "pg_before (before_request c l) = c" "pg_after (before_request c l) = []"
  "pg_limit (before_request c l) = l" "pg_before (after_request c l) = []"
  "pg_after (after_request c l) = c" "pg_limit (after_request c l) = l"
  by (simp_all add: before_request_def after_request_def)

lemma ValidatePageRequest_before: "messageIDPattern c \<Longrightarrow> ValidatePageRequest (before_request c l) = None"
  and ValidatePageRequest_after: "messageIDPattern c \<Longrightarrow> ValidatePageRequest (after_request c l) = None"
  and ValidatePageRequest_empty [simp]: "ValidatePageRequest (before_request [] l) = None"
    "ValidatePageRequest (after_request [] l) = None"
  by (simp_all add: ValidatePageRequest_None)

lemma slice_take_drop: "slice s e vs = take (e - s) (drop s vs)"
  by (simp add: slice_def drop_take)

lemmas page_eval = good_listing_id ValidatePageRequest_before ValidatePageRequest_after
  good_listing_nonempty indexAfter_nth indexBefore_nth

lemma slice_empty: "e \<le> s \<Longrightarrow> slice s e vs = []"
  by (simp add: slice_def)

lemma paginateByID_before:
  assumes "good_listing g vs" and "0 < limit" and "e < length vs"
  shows "\<exists>info. paginateByID g vs (before_request (g (vs ! e)) limit) =
      Inr (slice (e - nat limit) e vs, info) \<and>
    pi_next_before info = (if nat limit < e then g (vs ! (e - nat limit)) else [])"
  using assms slice_nth_first [of "e - nat limit" e vs g]
  by (auto simp: paginateByID_def Let_def page_eval)

lemma paginateByID_after:
  assumes "good_listing g vs" and "0 < limit" and "i < length vs"
  shows "\<exists>info. paginateByID g vs (after_request (g (vs ! i)) limit) =
      Inr (take (nat limit) (drop (Suc i) vs), info) \<and>
    pi_next_after info = (if Suc i + nat limit < length vs then g (vs ! (i + nat limit)) else [])"
proof -
  have "slice (Suc i) (Suc i + nat limit) vs \<noteq> []" if "Suc i + nat limit < length vs"
    using that assms(2) slice_nth_first [of "Suc i" "Suc i + nat limit" vs g] by simp
  moreover have "min (Suc i + nat limit) (length vs) - Suc i = min (nat limit) (length vs - Suc i)"
    by simp
  moreover have "take (length vs - Suc i) (drop (Suc i) vs) = drop (Suc i) vs" by simp
  ultimately show ?thesis
    using assms slice_nth_last [of "Suc i" "Suc i + nat limit" vs g]
    by (cases "Suc i + nat limit < length vs")
       (simp_all add: paginateByID_def Let_def page_eval, auto simp: slice_take_drop)
qed

lemma paginateByID_unknown:
  assumes "c \<noteq> []" and "c \<notin> g ` set vs"
  shows "paginateByID g vs (before_request c limit) = Inl ErrInvalidCursor \<and>
    paginateByID g vs (after_request c limit) = Inl ErrInvalidCursor"
proof -
  have "indexBefore g vs c = None" "indexAfter g vs c = None" using assms(2) by simp_all
  with assms(1) show ?thesis by (simp add: paginateByID_def Let_def del: index_None)
qed

interpretation store_pages: cursor_pages "paginateByID g" g for g
  by unfold_locales (rule paginateByID_before paginateByID_after paginateByID_unknown; assumption)+

lemma newest_page_cursor:
  "c \<noteq> [] \<Longrightarrow> newest_page g vs (before_request c l) = paginateByID g vs (before_request c l)"
  "c \<noteq> [] \<Longrightarrow> newest_page g vs (after_request c l) = paginateByID g vs (after_request c l)"
  by (simp_all add: newest_page_def)

interpretation history_pages: newest_first "newest_page g" g for g
proof
  fix vs :: "'a list" and limit :: int and e :: nat
  assume a: "good_listing g vs" "0 < limit" "e < length vs"
  then show "\<exists>info. newest_page g vs (before_request (g (vs ! e)) limit) =
        Inr (slice (e - nat limit) e vs, info) \<and>
      pi_next_before info = (if nat limit < e then g (vs ! (e - nat limit)) else [])"
    unfolding newest_page_cursor(1) [OF good_listing_nonempty [OF a(1,3)]]
    by (rule store_pages.before_page)
next
  fix vs :: "'a list" and limit :: int and i :: nat
  assume a: "good_listing g vs" "0 < limit" "i < length vs"
  then show "\<exists>info. newest_page g vs (after_request (g (vs ! i)) limit) =
        Inr (take (nat limit) (drop (Suc i) vs), info) \<and>
      pi_next_after info = (if Suc i + nat limit < length vs then g (vs ! (i + nat limit)) else [])"
    unfolding newest_page_cursor(2) [OF good_listing_nonempty [OF a(1,3)]]
    by (rule store_pages.after_page)
next
  fix c and vs :: "'a list" and limit :: int
  assume c: "c \<noteq> []" and "c \<notin> g ` set vs"
  then show "newest_page g vs (before_request c limit) = Inl ErrInvalidCursor \<and>
      newest_page g vs (after_request c limit) = Inl ErrInvalidCursor"
    unfolding newest_page_cursor [OF c] by (rule store_pages.unknown_cursor)
next
  fix vs :: "'a list" and limit :: int
  assume "good_listing g vs" and limit: "0 < limit"
  have "first_id g (drop (length vs - nat limit) vs) = g (vs ! (length vs - nat limit))"
    if "nat limit < length vs"
    using that limit slice_nth_first [of "length vs - nat limit" "length vs" vs g]
    by (simp add: slice_def)
  then show "\<exists>info. newest_page g vs (before_request [] limit) =
        Inr (drop (length vs - nat limit) vs, info) \<and>
      pi_next_before info =
        (if nat limit < length vs then g (vs ! (length vs - nat limit)) else [])"
    using limit by (auto simp: newest_page_def no_page_info_def Let_def)
qed

lemma paginate_before:
  assumes "good_listing g vs" and "0 < limit" and "e < length vs"
  shows "\<exists>info. paginate g vs (before_request (g (vs ! e)) limit) =
      Inr (slice (e - nat limit) e vs, info) \<and>
    pi_next_before info = (if nat limit < e then g (vs ! (e - nat limit)) else [])"
  using assms slice_nth_first [of "e - nat limit" e vs g]
  by (auto simp: paginate_def Let_def page_eval)

lemma paginate_after:
  assumes "good_listing g vs" and "0 < limit" and "i < length vs"
  shows "\<exists>info. paginate g vs (after_request (g (vs ! i)) limit) =
      Inr (take (nat limit) (drop (Suc i) vs), info) \<and>
    pi_next_after info = (if Suc i + nat limit < length vs then g (vs ! (i + nat limit)) else [])"
proof -
  have "slice (Suc i) (Suc i + nat limit) vs \<noteq> []" if "Suc i + nat limit < length vs"
    using that assms(2) slice_nth_first [of "Suc i" "Suc i + nat limit" vs g] by simp
  moreover have "min (Suc i + nat limit) (length vs) - Suc i = min (nat limit) (length vs - Suc i)"
    by simp
  moreover have "take (length vs - Suc i) (drop (Suc i) vs) = drop (Suc i) vs" by simp
  ultimately show ?thesis
    using assms slice_nth_last [of "Suc i" "Suc i + nat limit" vs g]
    by (cases "Suc i + nat limit < length vs")
       (simp_all add: paginate_def Let_def page_eval, auto simp: slice_take_drop)
qed

lemma paginate_unknown:
  assumes "c \<noteq> []" and "c \<notin> g ` set vs"
  shows "paginate g vs (before_request c limit) = Inl ErrInvalidCursor \<and>
    paginate g vs (after_request c limit) = Inl ErrInvalidCursor"
proof -
  have "indexBefore g vs c = None" "indexAfter g vs c = None" using assms(2) by simp_all
  with assms(1) show ?thesis by (simp add: paginate_def Let_def del: index_None)
qed

lemma paginate_oldest:
  assumes "0 < limit"
  shows "\<exists>info. paginate g vs (after_request [] limit) = Inr (take (nat limit) vs, info) \<and>
    pi_next_after info = (if nat limit < length vs then g (vs ! (nat limit - 1)) else [])"
  using assms slice_nth_last [of 0 "nat limit" vs g] slice_nth_first [of 0 "nat limit" vs g]
  by (auto simp: paginate_def Let_def slice_take_drop)

interpretation service_pages: oldest_first "paginate g" g for g
  by unfold_locales
     (rule paginate_before paginate_after paginate_unknown paginate_oldest; assumption)+

section \<open>Properties\<close>

text \<open>
  C23. Reading a history page by page loses and repeats nothing: starting from the newest page
  and following \<open>next_before\<close>, a client collects exactly the stored messages in order, in at
  most one request more than there are messages; following \<open>next_after\<close> from any message it
  collects exactly the messages after it. The same holds for artifacts with valid ids.
\<close>
theorem history_walk_complete:
  assumes "good_listing msg_id ms" and "good_listing art_id arts" and "0 < limit"
  shows "walk_before (pageMessagesResult ms) limit (Suc (length ms)) [] = Some (Inr ms) \<and>
    walk_before (pageArtifactsResult arts) limit (Suc (length arts)) [] = Some (Inr arts) \<and>
    (\<forall>i < length ms. walk_after (pageMessagesResult ms) limit (length ms) (msg_id (ms ! i)) =
       Some (Inr (drop (Suc i) ms)))"
proof -
  have eq: "pageMessagesResult ms = newest_page msg_id ms"
    "pageArtifactsResult arts = newest_page art_id arts"
    by (auto simp: pageMessagesResult_def pageArtifactsResult_def)
  show ?thesis unfolding eq
    using history_pages.walk_before_all [OF assms(1,3)]
      history_pages.walk_before_all [OF assms(2,3)] history_pages.walk_after_from [OF assms(1,3)]
    by (simp del: walk_before.simps walk_after.simps)
qed

definition sample_message :: "string \<Rightarrow> message" where
  "sample_message i = \<lparr>msg_id = i, msg_network_id = ''home'',
     msg_origin = \<lparr>org_claimed_author = None, org_claimed_network_id = [],
       org_claimed_message_id = [], org_claimed_discovery_network_id = [],
       org_network_id = [], org_message_id = [], org_received_via = []\<rparr>,
     msg_target = \<lparr>tgt_kind = ''room'', tgt_room_id = ''lobby'', tgt_thread_id = [],
       tgt_parent_message_id = [], tgt_dm_id = [], tgt_participant_ids = []\<rparr>,
     msg_from = \<lparr>act_type = ''agent'', act_id = ''ada'', act_name = [], act_network_id = [],
       act_fqid = [], act_credential_bound = False\<rparr>,
     msg_parts = [], msg_mentions = [], msg_created_at = 1\<rparr>"

theorem history_walk_complete_witness:
  "walk_before (pageMessagesResult (map sample_message [''m1'', ''m2'', ''m3''])) 2 4 [] =
     Some (Inr (map sample_message [''m1'', ''m2'', ''m3'']))"
proof -
  have "good_listing msg_id (map sample_message [''m1'', ''m2'', ''m3''])" by code_simp
  moreover have "good_listing art_id ([] :: artifact list)" by code_simp
  ultimately show ?thesis
    using history_walk_complete [of "map sample_message [''m1'', ''m2'', ''m3'']" "[]" 2]
    by (simp add: numeral_eq_Suc del: walk_before.simps walk_after.simps)
qed

text \<open>
  Reading a service listing (rooms, agents, threads, conversations, pairings) forwards from
  the first page, following \<open>next_after\<close>, collects exactly the listing; reading backwards from
  an item collects exactly the items before it.
\<close>
lemma service_walk_complete:
  assumes "good_listing g vs" and "0 < limit"
  shows "walk_after (paginate g vs) limit (Suc (length vs)) [] = Some (Inr vs) \<and>
    (\<forall>i < length vs. walk_before (paginate g vs) limit (length vs) (g (vs ! i)) =
       Some (Inr (take i vs)))"
  using service_pages.walk_after_all [OF assms] service_pages.walk_before_from [OF assms]
  by (simp del: walk_before.simps walk_after.simps)

theorem service_walk_complete_witness:
  "walk_after (paginate id [''a'', ''b'', ''c'']) 2 4 [] = Some (Inr [''a'', ''b'', ''c''])"
proof -
  have "good_listing id [''a'', ''b'', ''c'']" by code_simp
  then show ?thesis
    using service_walk_complete [of id "[''a'', ''b'', ''c'']" 2]
    by (simp add: numeral_eq_Suc del: walk_before.simps walk_after.simps)
qed

text \<open>
  A cursor that names no item of the listing, or is not an identifier, is refused, and so
  is a request with both cursors; no page function answers it with items.
\<close>
lemma invalid_cursor_refused:
  assumes "c \<noteq> [] \<and> (c \<notin> g ` set vs \<or> \<not> messageIDPattern c)"
  shows "paginateByID g vs (before_request c limit) = Inl ErrInvalidCursor \<and>
    paginateByID g vs (after_request c limit) = Inl ErrInvalidCursor \<and>
    paginate g vs (before_request c limit) = Inl ErrInvalidCursor \<and>
    paginate g vs (after_request c limit) = Inl ErrInvalidCursor \<and>
    (d \<noteq> [] \<longrightarrow> paginate g vs \<lparr>pg_before = c, pg_after = d, pg_limit = limit\<rparr> = Inl ErrInvalidCursor)"
proof -
  have both: "ValidatePageRequest \<lparr>pg_before = c, pg_after = d, pg_limit = limit\<rparr> \<noteq> None" if "d \<noteq> []"
    using assms that by (subst ValidatePageRequest_None) simp
  show ?thesis
  proof (cases "messageIDPattern c")
    case True
    with assms both show ?thesis
      using store_pages.unknown_cursor [of c g vs limit] service_pages.unknown_cursor [of c g vs limit]
      by (auto simp: paginate_def)
  next
    case False
    with assms have "ValidatePageRequest (before_request c limit) \<noteq> None"
      "ValidatePageRequest (after_request c limit) \<noteq> None"
      by (subst ValidatePageRequest_None, simp)+
    with both show ?thesis by (simp add: paginateByID_def paginate_def)
  qed
qed

theorem invalid_cursor_refused_witness:
  "paginate id [''a''] (after_request ''zz'' 10) = Inl ErrInvalidCursor"
proof -
  have "''zz'' \<noteq> [] \<and> (''zz'' \<notin> id ` set [''a''] \<or> \<not> messageIDPattern ''zz'')" by simp
  from invalid_cursor_refused [OF this] show ?thesis by blast
qed



end
