(* ===== verification/Go_Text.thy ===== *)
theory Go_Text
  imports Go_Prelude
begin

text \<open>
  Text as Go sees it: decoding a byte string into runes with \<open>unicode/utf8\<close> (a byte that
  starts no well-formed sequence is a rune of its own, marked invalid), \<open>strings.ToValidUTF8\<close>,
  \<open>unicode.IsControl\<close>, and how \<open>encoding/json\<close> prints a string. Shown: decoding inverts
  concatenation of well-formed sequences, and on well-formed text the printed form determines
  the text, also when something follows it.
\<close>

section \<open>Runes\<close>

definition byte_in :: "nat \<Rightarrow> nat \<Rightarrow> char \<Rightarrow> bool" where
  "byte_in lo hi c \<longleftrightarrow> lo \<le> of_char c \<and> (of_char c :: nat) \<le> hi"

text \<open>
  The length of the sequence a lead byte announces (0 for a byte that starts none), whether
  the bytes of such a sequence are in range (the second byte is restricted after \<open>E0\<close>, \<open>ED\<close>,
  \<open>F0\<close> and \<open>F4\<close>), and the width of the well-formed sequence a string starts with, 0 when
  there is none.
\<close>

definition lead_width :: "char \<Rightarrow> nat" where
  "lead_width a =
     (if byte_in 0 0x7F a then 1 else if byte_in 0xC2 0xDF a then 2
      else if byte_in 0xE0 0xEF a then 3 else if byte_in 0xF0 0xF4 a then 4 else 0)"

definition second_in :: "char \<Rightarrow> char \<Rightarrow> bool" where
  "second_in a b \<longleftrightarrow>
     byte_in (if a = CHR 0xE0 then 0xA0 else if a = CHR 0xF0 then 0x90 else 0x80)
             (if a = CHR 0xED then 0x9F else if a = CHR 0xF4 then 0x8F else 0xBF) b"

definition utf8_seq :: "string \<Rightarrow> bool" where
  "utf8_seq s \<longleftrightarrow>
     (case s of
        [] \<Rightarrow> False
      | a # rest \<Rightarrow> length s = lead_width a \<and>
          (case rest of [] \<Rightarrow> True
           | b # cs \<Rightarrow> second_in a b \<and> list_all (byte_in 0x80 0xBF) cs))"

definition utf8_width :: "string \<Rightarrow> nat" where
  "utf8_width s =
     (case s of [] \<Rightarrow> 0
      | a # _ \<Rightarrow> if utf8_seq (take (lead_width a) s) then lead_width a else 0)"

function go_runes :: "string \<Rightarrow> (bool \<times> string) list" where
  "go_runes s =
     (if s = [] then []
      else if utf8_width s = 0 then (False, take 1 s) # go_runes (drop 1 s)
      else (True, take (utf8_width s) s) # go_runes (drop (utf8_width s) s))"
  by pat_completeness auto
termination by (relation "measure length") auto

declare go_runes.simps [simp del]

fun rune_value :: "string \<Rightarrow> nat" where
  "rune_value [a] = of_char a"
| "rune_value [a, b] = (of_char a mod 32) * 64 + of_char b mod 64"
| "rune_value [a, b, c] = (of_char a mod 16) * 4096 + (of_char b mod 64) * 64 + of_char c mod 64"
| "rune_value [a, b, c, d] = (of_char a mod 8) * 262144 + (of_char b mod 64) * 4096 +
     (of_char c mod 64) * 64 + of_char d mod 64"
| "rune_value _ = 0xFFFD"

definition valid_utf8 :: "string \<Rightarrow> bool" where
  "valid_utf8 s \<longleftrightarrow> list_all fst (go_runes s)"

definition replacement :: string where
  "replacement = [CHR 0xEF, CHR 0xBF, CHR 0xBD]"

fun replace_invalid :: "bool \<Rightarrow> (bool \<times> string) list \<Rightarrow> string list" where
  "replace_invalid inrun [] = []"
| "replace_invalid inrun ((ok, b) # rs) =
     (if ok then b # replace_invalid False rs
      else if inrun then replace_invalid True rs
      else replacement # replace_invalid True rs)"

definition ToValidUTF8 :: "string \<Rightarrow> string" where
  "ToValidUTF8 s = concat (replace_invalid False (go_runes s))"

definition IsControl :: "string \<Rightarrow> bool" where
  "IsControl b \<longleftrightarrow> rune_value b < 0x20 \<or> (0x7F \<le> rune_value b \<and> rune_value b < 0xA0)"

section \<open>JSON strings\<close>

definition hex_char :: "nat \<Rightarrow> char" where
  "hex_char n = (if n < 10 then char_of (48 + n) else char_of (87 + n))"

definition json_byte :: "char \<Rightarrow> string" where
  "json_byte c =
     (if c = CHR 0x22 \<or> c = CHR 0x5C then [CHR 0x5C, c]
      else if c = CHR 0x08 then [CHR 0x5C, CHR ''b'']
      else if c = CHR 0x0C then [CHR 0x5C, CHR ''f'']
      else if c = CHR 0x0A then [CHR 0x5C, CHR ''n'']
      else if c = CHR 0x0D then [CHR 0x5C, CHR ''r'']
      else if c = CHR 0x09 then [CHR 0x5C, CHR ''t'']
      else if byte_in 0 0x1F c \<or> c = CHR ''<'' \<or> c = CHR ''>'' \<or> c = CHR ''&''
      then CHR 0x5C # ''u00'' @ [hex_char (of_char c div 16), hex_char (of_char c mod 16)]
      else [c])"

definition json_rune :: "bool \<times> string \<Rightarrow> string" where
  "json_rune r =
     (case r of (ok, b) \<Rightarrow>
        if \<not> ok then CHR 0x5C # ''ufffd''
        else if length b = 1 then json_byte (hd b)
        else if b = [CHR 0xE2, CHR 0x80, CHR 0xA8] then CHR 0x5C # ''u2028''
        else if b = [CHR 0xE2, CHR 0x80, CHR 0xA9] then CHR 0x5C # ''u2029''
        else b)"

definition json_string :: "string \<Rightarrow> string" where
  "json_string s = CHR 0x22 # concat (map json_rune (go_runes s)) @ [CHR 0x22]"

section \<open>Decoding\<close>

lemma utf8_seq_nonempty: "utf8_seq b \<Longrightarrow> b \<noteq> []"
  by (auto simp: utf8_seq_def)

lemma utf8_seq_length: "utf8_seq b \<Longrightarrow> length b = lead_width (hd b)"
  by (auto simp: utf8_seq_def split: list.splits)

lemma utf8_width_append: "utf8_seq b \<Longrightarrow> utf8_width (b @ s) = length b"
proof -
  assume b: "utf8_seq b"
  then have len: "lead_width (hd b) = length b" and ne: "b \<noteq> []"
    using utf8_seq_length utf8_seq_nonempty by auto
  then have "utf8_width (b @ s) = (if utf8_seq (take (length b) (b @ s)) then length b else 0)"
    by (cases b) (simp_all add: utf8_width_def)
  with b show ?thesis by simp
qed

lemma utf8_width_take: "utf8_width s \<noteq> 0 \<Longrightarrow> utf8_seq (take (utf8_width s) s)"
  by (auto simp: utf8_width_def split: list.splits if_splits)

lemma go_runes_Nil [simp]: "go_runes [] = []"
  by (simp add: go_runes.simps)

lemma go_runes_seq: "utf8_seq b \<Longrightarrow> go_runes (b @ s) = (True, b) # go_runes s"
  using utf8_width_append [of b s] go_runes.simps [of "b @ s"] utf8_seq_nonempty [of b] by simp

lemma go_runes_valid: "(True, b) \<in> set (go_runes s) \<Longrightarrow> utf8_seq b"
proof (induction s rule: go_runes.induct)
  case (1 s)
  then show ?case
    by (subst (asm) (3) go_runes.simps) (auto simp: utf8_width_take split: if_splits)
qed

lemma concat_go_runes: "concat (map snd (go_runes s)) = s"
proof (induction s rule: go_runes.induct)
  case (1 s)
  then show ?case by (subst go_runes.simps) auto
qed

lemma go_runes_concat:
  "list_all utf8_seq bs \<Longrightarrow> go_runes (concat bs) = map (Pair True) bs"
  by (induction bs) (simp_all add: go_runes_seq)

lemma valid_utf8_iff: "valid_utf8 s \<longleftrightarrow> (\<exists>bs. s = concat bs \<and> list_all utf8_seq bs)"
proof
  assume v: "valid_utf8 s"
  have "utf8_seq b" if "(ok, b) \<in> set (go_runes s)" for ok b
    using that v go_runes_valid [of b s] by (cases ok) (auto simp: valid_utf8_def list_all_iff)
  then have "list_all utf8_seq (map snd (go_runes s))" by (auto simp: list_all_iff)
  with concat_go_runes [of s] show "\<exists>bs. s = concat bs \<and> list_all utf8_seq bs" by metis
next
  assume "\<exists>bs. s = concat bs \<and> list_all utf8_seq bs"
  then obtain bs where "s = concat bs" and seqs: "list_all utf8_seq bs" by blast
  then have "go_runes s = map (Pair True) bs" using go_runes_concat [OF seqs] by simp
  then show "valid_utf8 s" by (simp add: valid_utf8_def list_all_iff)
qed

lemma utf8_seq_replacement: "utf8_seq replacement"
  by code_simp

lemma replace_invalid_seqs:
  "\<forall>(ok, b) \<in> set rs. ok \<longrightarrow> utf8_seq b \<Longrightarrow> list_all utf8_seq (replace_invalid inrun rs)"
  by (induction inrun rs rule: replace_invalid.induct) (auto simp: utf8_seq_replacement)

lemma go_runes_ToValidUTF8:
  "go_runes (ToValidUTF8 s) = map (Pair True) (replace_invalid False (go_runes s))"
  unfolding ToValidUTF8_def
  by (rule go_runes_concat, rule replace_invalid_seqs) (auto dest: go_runes_valid)

lemma ToValidUTF8_valid: "valid_utf8 (ToValidUTF8 s)"
  by (simp add: valid_utf8_def go_runes_ToValidUTF8 list_all_iff)

section \<open>The printed form determines the text\<close>

text \<open>
  The runes whose printed form is an escape, and that no printed form is the start of
  another.
\<close>

definition escaped_runes :: "string list" where
  "escaped_runes = map (\<lambda>n. [char_of n]) [0..<32] @
     [[CHR 0x22], [CHR 0x5C], [CHR ''<''], [CHR ''>''], [CHR ''&''],
      [CHR 0xE2, CHR 0x80, CHR 0xA8], [CHR 0xE2, CHR 0x80, CHR 0xA9]]"

definition hex_value :: "char \<Rightarrow> nat" where
  "hex_value c = (if of_char c < (58 :: nat) then of_char c - 48 else of_char c - 87)"

definition unescape :: "string \<Rightarrow> string" where
  "unescape t =
     (if length t = 2 then
        (let c = t ! 1 in
         if c = CHR ''b'' then [CHR 0x08] else if c = CHR ''f'' then [CHR 0x0C]
         else if c = CHR ''n'' then [CHR 0x0A] else if c = CHR ''r'' then [CHR 0x0D]
         else if c = CHR ''t'' then [CHR 0x09] else [c])
      else if t ! 2 = CHR ''2'' then
        [CHR 0xE2, CHR 0x80, if t ! 5 = CHR ''8'' then CHR 0xA8 else CHR 0xA9]
      else [char_of (16 * hex_value (t ! 4) + hex_value (t ! 5))])"

definition escape_ok :: "string \<Rightarrow> bool" where
  "escape_ok x =
     (let t = json_rune (True, x)
      in unescape t = x \<and> hd t = CHR 0x5C \<and> t \<noteq> [] \<and>
         length t = (if t ! 1 = CHR ''u'' then 6 else 2))"

lemma escapes_ok: "list_all escape_ok escaped_runes"
  by code_simp

lemma escaped_facts:
  assumes "x \<in> set escaped_runes"
  shows "unescape (json_rune (True, x)) = x" "hd (json_rune (True, x)) = CHR 0x5C"
    "json_rune (True, x) \<noteq> []"
    "length (json_rune (True, x)) = (if json_rune (True, x) ! 1 = CHR ''u'' then 6 else 2)"
  using escapes_ok assms by (auto simp: list_all_iff escape_ok_def Let_def)

lemmas escaped_starts = escaped_facts(2,3)

lemma escaped_prefix_free:
  assumes "x \<in> set escaped_runes" and "y \<in> set escaped_runes"
    and eq: "json_rune (True, x) @ s = json_rune (True, y) @ t"
  shows "x = y"
proof -
  note x = escaped_facts(4) [OF assms(1)] and y = escaped_facts(4) [OF assms(2)]
  have len: "1 < length (json_rune (True, x))" "1 < length (json_rune (True, y))"
    using x y by (simp_all split: if_splits)
  then have "json_rune (True, x) ! 1 = json_rune (True, y) ! 1"
    using eq by (metis nth_append)
  then have "length (json_rune (True, x)) = length (json_rune (True, y))" using x y by simp
  then have "json_rune (True, x) = json_rune (True, y)" using eq by simp
  then show ?thesis using escaped_facts(1) assms(1,2) by metis
qed

lemma escaped_low: "byte_in 0 0x1F c \<Longrightarrow> [c] \<in> set escaped_runes"
proof -
  assume "byte_in 0 0x1F c"
  then have "(of_char c :: nat) < 32" by (simp add: byte_in_def)
  then have "[char_of (of_char c :: nat)] \<in> (\<lambda>n. [char_of n]) ` set [0..<32]" by force
  then have "[c] \<in> (\<lambda>n. [char_of n]) ` set [0..<32]" by simp
  then show ?thesis by (auto simp: escaped_runes_def)
qed

lemma plain_rune:
  assumes "utf8_seq b" and "b \<notin> set escaped_runes"
  shows "json_rune (True, b) = b"
proof (cases b)
  case (Cons c cs)
  show ?thesis
  proof (cases cs)
    case Nil
    have "c \<noteq> CHR 0x22" "c \<noteq> CHR 0x5C" "c \<noteq> CHR ''<''" "c \<noteq> CHR ''>''" "c \<noteq> CHR ''&''"
      using assms(2) Cons Nil by (auto simp: escaped_runes_def)
    moreover have "\<not> byte_in 0 0x1F c" using assms(2) Cons Nil escaped_low by blast
    moreover from this have "c \<noteq> CHR 0x08" "c \<noteq> CHR 0x0C" "c \<noteq> CHR 0x0A" "c \<noteq> CHR 0x0D" "c \<noteq> CHR 0x09"
      by (auto simp: byte_in_def)
    ultimately show ?thesis using Cons Nil by (simp add: json_rune_def json_byte_def)
  next
    case (Cons d ds)
    with \<open>b = c # cs\<close> assms(2) show ?thesis by (auto simp: json_rune_def escaped_runes_def)
  qed
qed (use assms utf8_seq_nonempty in auto)

lemma plain_starts:
  assumes "utf8_seq b" and "b \<notin> set escaped_runes"
  shows "hd b \<noteq> CHR 0x5C \<and> hd b \<noteq> CHR 0x22"
proof -
  have "lead_width (CHR 0x5C) = 1" "lead_width (CHR 0x22) = 1"
    by (simp_all add: lead_width_def byte_in_def)
  then have "hd b = CHR 0x5C \<or> hd b = CHR 0x22 \<Longrightarrow> b = [CHR 0x5C] \<or> b = [CHR 0x22]"
    using utf8_seq_length [OF assms(1)] utf8_seq_nonempty [OF assms(1)]
    by (cases b) auto
  then show ?thesis using assms(2) by (auto simp: escaped_runes_def)
qed

lemma json_rune_starts:
  assumes "utf8_seq b"
  shows "json_rune (True, b) \<noteq> []" "hd (json_rune (True, b)) \<noteq> CHR 0x22"
  using assms escaped_starts plain_rune plain_starts utf8_seq_nonempty
  by (cases "b \<in> set escaped_runes"; fastforce)+

lemma json_rune_prefix_free:
  assumes "utf8_seq x" and "utf8_seq y"
    and eq: "json_rune (True, x) @ s = json_rune (True, y) @ t"
  shows "x = y"
proof -
  have esc: "x \<in> set escaped_runes \<longleftrightarrow> y \<in> set escaped_runes"
    using assms escaped_starts plain_rune plain_starts utf8_seq_nonempty
    by (metis hd_append2)
  show ?thesis
  proof (cases "x \<in> set escaped_runes")
    case True
    with esc eq show ?thesis using escaped_prefix_free by blast
  next
    case False
    with esc have "x @ s = y @ t" using assms plain_rune by simp
    moreover from this have "length x = length y"
      using assms utf8_width_append by metis
    ultimately show ?thesis by simp
  qed
qed

lemma json_runes_inj:
  assumes "list_all utf8_seq xs" and "list_all utf8_seq ys"
    and "concat (map (\<lambda>b. json_rune (True, b)) xs) @ CHR 0x22 # s =
         concat (map (\<lambda>b. json_rune (True, b)) ys) @ CHR 0x22 # t"
  shows "xs = ys \<and> s = t"
  using assms
proof (induction xs arbitrary: ys)
  case Nil
  show ?case
  proof (cases ys)
    case (Cons y ys')
    with Nil.prems have "utf8_seq y" by simp
    with json_rune_starts [of y] Nil.prems(3) Cons show ?thesis
      by (cases "json_rune (True, y)") auto
  qed (use Nil.prems in simp)
next
  case (Cons x xs)
  note x = Cons.prems(1)
  show ?case
  proof (cases ys)
    case Nil
    with x json_rune_starts [of x] Cons.prems(3) show ?thesis
      by (cases "json_rune (True, x)") auto
  next
    case ys: (Cons y ys')
    with Cons.prems json_rune_prefix_free [of x y] have "x = y" by simp
    with ys Cons.prems Cons.IH [of ys'] show ?thesis by simp
  qed
qed

lemma json_string_inj:
  assumes "valid_utf8 a" and "valid_utf8 b" and "json_string a @ s = json_string b @ t"
  shows "a = b \<and> s = t"
proof -
  obtain xs ys where xs: "a = concat xs" "list_all utf8_seq xs"
    and ys: "b = concat ys" "list_all utf8_seq ys"
    using assms(1,2) valid_utf8_iff by metis
  then have "go_runes a = map (Pair True) xs" "go_runes b = map (Pair True) ys"
    by (simp_all add: go_runes_concat)
  then have "concat (map (\<lambda>b. json_rune (True, b)) xs) @ CHR 0x22 # s =
      concat (map (\<lambda>b. json_rune (True, b)) ys) @ CHR 0x22 # t"
    using assms(3) by (simp add: json_string_def comp_def)
  with json_runes_inj xs ys show ?thesis by blast
qed

end
