(* ===== verification/Store_Messages.thy ===== *)
theory Store_Messages
  imports Store_Rooms Pagination Go_Text
begin

text \<open>
  The message history of \<open>MemoryStore\<close>: direct-message topologies (\<open>dm_topology.go\<close>), origin
  receipts and stored envelopes (\<open>message_envelope.go\<close>, \<open>pairing_delivery.go\<close>), appending a
  message with its duplicate and conflict rules, and the listings (\<open>history.go\<close>). The
  envelope that the source passes in the context is an argument.
\<close>

section \<open>Origin receipts\<close>

definition messageOriginReceipt :: "message \<Rightarrow> string" where
  "messageOriginReceipt m =
     (let og = msg_origin m
      in if org_received_via og = [] \<or> prefix ''follow:'' (org_received_via og) \<or>
            org_network_id og = [] \<or> org_message_id og = [] then []
         else ''['' @ json_string (org_network_id og) @ '','' @ json_string (org_message_id og) @ '']'')"

definition envelopeForMessage ::
  "message_envelope_record option \<Rightarrow> message \<Rightarrow> message_envelope_record option" where
  "envelopeForMessage record m =
     (case record of
        None \<Rightarrow> None
      | Some r \<Rightarrow>
          Some (r\<lparr>env_message_id := msg_id m,
                  env_origin_network_id :=
                    (if env_origin_network_id r = [] then org_network_id (msg_origin m)
                     else env_origin_network_id r),
                  env_origin_message_id :=
                    (if env_origin_message_id r = [] then org_message_id (msg_origin m)
                     else env_origin_message_id r)\<rparr>))"

definition envelopeDigest :: "message_envelope_record option \<Rightarrow> string" where
  "envelopeDigest record = (case record of None \<Rightarrow> [] | Some r \<Rightarrow> env_digest r)"

definition checkOriginReceiptLocked ::
  "message \<Rightarrow> message_envelope_record option \<Rightarrow> memory_store \<Rightarrow> store_error option" where
  "checkOriginReceiptLocked m envelope s =
     (let key = messageOriginReceipt m
      in if key = [] then None
         else case fmlookup (originReceipts s) key of
                None \<Rightarrow> None
              | Some i \<Rightarrow>
                  let stored = fmget [] (originDigests s) key; offered = envelopeDigest envelope
                  in if stored \<noteq> offered
                     then Some (ErrEnvelopeConflict (msg_origin m) stored offered)
                     else Some (ErrDuplicateMessage (Some i)))"

definition recordOriginReceiptLocked ::
  "message \<Rightarrow> message_envelope_record option \<Rightarrow> memory_store \<Rightarrow> memory_store" where
  "recordOriginReceiptLocked m envelope s =
     (let key = messageOriginReceipt m;
          s1 = (if key \<noteq> []
                then s\<lparr>originReceipts := fmupd key (msg_id m) (originReceipts s),
                       originDigests := fmupd key (envelopeDigest envelope) (originDigests s)\<rparr>
                else s)
      in case envelope of
           None \<Rightarrow> s1
         | Some e \<Rightarrow> s1\<lparr>envelopes := fmupd (msg_id m) e (envelopes s1)\<rparr>)"

definition MessageEnvelopesContext ::
  "string list \<Rightarrow> memory_store \<Rightarrow> message_envelope_record strmap" where
  "MessageEnvelopesContext ids s =
     fold (\<lambda>i m. case fmlookup (envelopes s) i of Some r \<Rightarrow> fmupd i r m | None \<Rightarrow> m) ids fmempty"

section \<open>Direct-message topology\<close>

record dm_topology =
  top_network_id :: string
  top_canonical_ids :: "string list"
  top_participant_ids :: "string list"

definition validDMIdentity :: "string \<Rightarrow> string \<Rightarrow> (string \<times> string) option" where
  "validDMIdentity networkID agentID =
     (let n = trim_space networkID; a = trim_space agentID
      in if ValidateMessageID n \<noteq> None \<or> ValidateMessageID a \<noteq> None then None else Some (n, a))"

definition resolveDMIdentity :: "string \<Rightarrow> string \<Rightarrow> (string \<times> string) option" where
  "resolveDMIdentity defaultNetworkID value =
     (let trimmed = trim_space value
      in case ParseScopedAgentID trimmed of
           Some (n, a) \<Rightarrow> validDMIdentity n a
         | None \<Rightarrow>
             (case ParseAgentFQID trimmed of
                Some (n, a) \<Rightarrow> validDMIdentity n a
              | None \<Rightarrow> validDMIdentity defaultNetworkID trimmed))"

definition canonicalDMActorID :: "string \<Rightarrow> actor \<Rightarrow> string option" where
  "canonicalDMActorID defaultNetworkID a =
     (let supplied = trim_space (act_network_id a);
          actorNetworkID = (if supplied = [] then defaultNetworkID else supplied)
      in case resolveDMIdentity actorNetworkID (act_id a) of
           None \<Rightarrow> None
         | Some (networkID, agentID) \<Rightarrow>
             if supplied \<noteq> [] \<and> supplied \<noteq> networkID then None
             else if trim_space (act_fqid a) \<noteq> [] \<and>
               (case ParseAgentFQID (trim_space (act_fqid a)) of
                  None \<Rightarrow> True
                | Some (fn, fa) \<Rightarrow> trim_space fn \<noteq> networkID \<or> trim_space fa \<noteq> agentID)
             then None
             else Some (ScopedAgentID networkID agentID))"

text \<open>The loop over the participants: the resolved identities, or a conflict at the first bad one.\<close>

fun resolve_participants :: "string \<Rightarrow> string list \<Rightarrow> (string \<times> string) list option" where
  "resolve_participants networkID [] = Some []"
| "resolve_participants networkID (p # ps) =
     (case resolveDMIdentity networkID p of
        None \<Rightarrow> None
      | Some na \<Rightarrow>
          (case resolve_participants networkID ps of None \<Rightarrow> None | Some nas \<Rightarrow> Some (na # nas)))"

definition canonical_participants :: "string \<Rightarrow> string list \<Rightarrow> (string list \<times> bool) option" where
  "canonical_participants networkID participantIDs =
     (let unique = UniqueTrimmedStrings participantIDs
      in case resolve_participants networkID unique of
           None \<Rightarrow> None
         | Some nas \<Rightarrow>
             let canonicalIDs = SortedUniqueTrimmedStrings (map (\<lambda>(n, a). ScopedAgentID n a) nas);
                 allLocal = list_all (\<lambda>(n, a). n = networkID) nas
             in if length canonicalIDs < 2 \<or> length canonicalIDs \<noteq> length unique then None
                else Some (canonicalIDs, allLocal))"

definition topologyForDMMessage :: "message \<Rightarrow> store_error + dm_topology" where
  "topologyForDMMessage m =
     (let networkID = trim_space (msg_network_id m)
      in if networkID = [] then Inl ErrDMTopologyConflict
         else case canonical_participants networkID (tgt_participant_ids (msg_target m)) of
                None \<Rightarrow> Inl ErrDMTopologyConflict
              | Some (canonicalIDs, allLocal) \<Rightarrow>
                  (case canonicalDMActorID networkID (msg_from m) of
                     None \<Rightarrow> Inl ErrDMTopologyConflict
                   | Some senderID \<Rightarrow>
                       if senderID \<notin> set canonicalIDs then Inl ErrDMTopologyConflict
                       else Inr \<lparr>top_network_id = networkID, top_canonical_ids = canonicalIDs,
                         top_participant_ids =
                           (if allLocal
                            then map (\<lambda>c. case ParseScopedAgentID c of
                                       Some (_, a) \<Rightarrow> a | None \<Rightarrow> []) canonicalIDs
                            else canonicalIDs)\<rparr>))"

definition topologyForStoredDM :: "string \<Rightarrow> string list \<Rightarrow> store_error + dm_topology" where
  "topologyForStoredDM networkID0 participantIDs =
     (let networkID = trim_space networkID0
      in if networkID = [] then Inl ErrDMTopologyConflict
         else case canonical_participants networkID participantIDs of
                None \<Rightarrow> Inl ErrDMTopologyConflict
              | Some (canonicalIDs, _) \<Rightarrow>
                  Inr \<lparr>top_network_id = networkID, top_canonical_ids = canonicalIDs,
                       top_participant_ids = []\<rparr>)"

definition topology_matches :: "dm_topology \<Rightarrow> string \<Rightarrow> string list \<Rightarrow> bool" where
  "topology_matches topology networkID participantIDs =
     (case topologyForStoredDM networkID participantIDs of
        Inl _ \<Rightarrow> False
      | Inr existing \<Rightarrow> top_network_id topology = top_network_id existing \<and>
          top_canonical_ids topology = top_canonical_ids existing)"

definition directMemberIDs :: "strset \<Rightarrow> string list" where
  "directMemberIDs members = sorted_list_of_fset members"

definition duplicateDMTopologyMatchesLocked ::
  "message \<Rightarrow> dm_topology \<Rightarrow> memory_store \<Rightarrow> bool" where
  "duplicateDMTopologyMatchesLocked m topology s =
     (let dm = tgt_dm_id (msg_target m); messages = fmget [] (directMessages s) dm
      in case messages of
           [] \<Rightarrow> False
         | first # _ \<Rightarrow>
             topology_matches topology (msg_network_id first)
               (directMemberIDs (fmget {||} (directMembers s) dm)) \<and>
             (case find (\<lambda>stored. msg_id stored = msg_id m) messages of
                None \<Rightarrow> False
              | Some stored \<Rightarrow>
                  tgt_kind (msg_target stored) = TargetKindDM \<and> tgt_dm_id (msg_target stored) = dm \<and>
                  topology_matches topology (msg_network_id stored)
                    (tgt_participant_ids (msg_target stored))))"

section \<open>Appending\<close>

definition directConversationLocked :: "string \<Rightarrow> memory_store \<Rightarrow> direct_conversation option" where
  "directConversationLocked dmID s =
     (case fmlookup (directMessages s) dmID of
        None \<Rightarrow> None
      | Some messages \<Rightarrow>
          Some \<lparr>dc_id = dmID,
            dc_network_id = (if messages = [] then [] else msg_network_id (hd messages)),
            dc_fqid = (if messages = [] then [] else DMFQID (msg_network_id (hd messages)) dmID),
            dc_participant_ids = sorted_list_of_fset (fmget {||} (directMembers s) dmID),
            dc_message_count = length messages,
            dc_last_message_at = (if messages = [] then 0 else msg_created_at (last messages))\<rparr>)"

definition append_room_message :: "message \<Rightarrow> memory_store \<Rightarrow> memory_store" where
  "append_room_message m s =
     (let r = tgt_room_id (msg_target m)
      in s\<lparr>roomMessages := fmupd r (fmget [] (roomMessages s) r @ [m]) (roomMessages s)\<rparr>)"

definition append_thread_message :: "message \<Rightarrow> memory_store \<Rightarrow> append_lifecycle \<times> memory_store" where
  "append_thread_message m s =
     (let t = tgt_thread_id (msg_target m);
          messages = fmget [] (threadMessages s) t @ [m];
          base = (case fmlookup (threads s) t of
                    Some thread \<Rightarrow> thread
                  | None \<Rightarrow> \<lparr>thr_id = t, thr_network_id = msg_network_id m,
                      thr_fqid = ThreadFQID (msg_network_id m) t,
                      thr_room_id = tgt_room_id (msg_target m),
                      thr_parent_message_id = tgt_parent_message_id (msg_target m),
                      thr_message_count = 0, thr_last_message_at = 0\<rparr>);
          thread = base\<lparr>thr_message_count := length messages,
                        thr_last_message_at := msg_created_at m\<rparr>;
          r = thr_room_id thread
      in (no_lifecycle\<lparr>al_thread := (if thr_message_count thread = 1 then Some thread else None)\<rparr>,
          s\<lparr>threadMessages := fmupd t messages (threadMessages s),
            threads := fmupd t thread (threads s),
            roomThreads :=
              fmupd r (finsert (thr_id thread) (fmget {||} (roomThreads s) r)) (roomThreads s)\<rparr>))"

definition append_dm_message ::
  "message \<Rightarrow> dm_topology \<Rightarrow> memory_store \<Rightarrow> (store_error + append_lifecycle) \<times> memory_store" where
  "append_dm_message m topology s =
     (let d = tgt_dm_id (msg_target m);
          existing = fmget [] (directMessages s) d
      in if existing \<noteq> [] \<and>
            \<not> topology_matches topology (msg_network_id (hd existing))
                (directMemberIDs (fmget {||} (directMembers s) d))
         then (Inl ErrDMTopologyConflict, s)
         else
           let s1 = (if existing \<noteq> [] then s
                 else s\<lparr>directMembers :=
                   fmupd d (fset_of_list (top_participant_ids topology)) (directMembers s)\<rparr>);
               s2 = s1\<lparr>directMessages := fmupd d (existing @ [m]) (directMessages s1)\<rparr>
           in (Inr (no_lifecycle\<lparr>al_dm :=
                  (case directConversationLocked d s2 of
                     Some c \<Rightarrow> if dc_message_count c = 1 then Some c else None
                   | None \<Rightarrow> None)\<rparr>), s2))"

definition finish_append ::
  "message \<Rightarrow> message_envelope_record option \<Rightarrow> memory_store \<Rightarrow> memory_store" where
  "finish_append m envelope s =
     recordRoomActivity m (recordOriginReceiptLocked m envelope
       (s\<lparr>messageIDs := finsert (msg_id m) (messageIDs s),
          messageOrigins := fmupd (msg_id m) (messageOriginReceipt m) (messageOrigins s)\<rparr>))"

definition appendMessageLocked ::
  "message \<Rightarrow> message_envelope_record option \<Rightarrow> memory_store \<Rightarrow>
   (store_error + append_lifecycle) \<times> memory_store" where
  "appendMessageLocked m envelope s =
     (case checkOriginReceiptLocked m envelope s of
        Some e \<Rightarrow> (Inl e, s)
      | None \<Rightarrow>
          let duplicate = (msg_id m |\<in>| messageIDs s); kind = tgt_kind (msg_target m)
          in if duplicate \<and> fmget [] (messageOrigins s) (msg_id m) \<noteq> messageOriginReceipt m
             then (Inl ErrMessageIDConflict, s)
             else if kind = TargetKindRoom then
               (if duplicate then (Inl (ErrDuplicateMessage None), s)
                else (Inr no_lifecycle, finish_append m envelope (append_room_message m s)))
             else if kind = TargetKindThread then
               (if duplicate then (Inl (ErrDuplicateMessage None), s)
                else (let (lifecycle, s1) = append_thread_message m s
                      in (Inr lifecycle, finish_append m envelope s1)))
             else if kind = TargetKindDM then
               (case topologyForDMMessage m of
                  Inl e \<Rightarrow> (Inl e, s)
                | Inr topology \<Rightarrow>
                    let m' = m\<lparr>msg_target :=
                          (msg_target m)\<lparr>tgt_participant_ids := top_participant_ids topology\<rparr>\<rparr>
                    in if duplicate then
                         (if \<not> duplicateDMTopologyMatchesLocked m' topology s
                          then (Inl ErrDMTopologyConflict, s)
                          else (Inl (ErrDuplicateMessage None), s))
                       else (case append_dm_message m' topology s of
                               (Inl e, s1) \<Rightarrow> (Inl e, s1)
                             | (Inr lifecycle, s1) \<Rightarrow> (Inr lifecycle, finish_append m' envelope s1)))
             else if duplicate then (Inl (ErrDuplicateMessage None), s)
             else (Inr no_lifecycle, finish_append m envelope s))"

definition AppendMessageWithLifecycleContext ::
  "message_envelope_record option \<Rightarrow> message \<Rightarrow> memory_store \<Rightarrow>
   (store_error + append_lifecycle) \<times> memory_store" where
  "AppendMessageWithLifecycleContext envelope m s =
     appendMessageLocked m (envelopeForMessage envelope m) s"

section \<open>Listings\<close>

definition ListRoomMessagesContext ::
  "string \<Rightarrow> page_request \<Rightarrow> memory_store \<Rightarrow> store_error + (message list \<times> page_info)" where
  "ListRoomMessagesContext roomID page s = pageMessagesResult (fmget [] (roomMessages s) roomID) page"

definition ListThreadMessagesContext ::
  "string \<Rightarrow> page_request \<Rightarrow> memory_store \<Rightarrow> store_error + (message list \<times> page_info)" where
  "ListThreadMessagesContext threadID page s =
     pageMessagesResult (fmget [] (threadMessages s) threadID) page"

definition ListDMMessagesContext ::
  "string \<Rightarrow> page_request \<Rightarrow> memory_store \<Rightarrow> store_error + (message list \<times> page_info)" where
  "ListDMMessagesContext dmID page s = pageMessagesResult (fmget [] (directMessages s) dmID) page"

definition ListThreadsContext :: "string \<Rightarrow> memory_store \<Rightarrow> thread list" where
  "ListThreadsContext roomID s =
     sort_key thr_id
       (List.map_filter (fmlookup (threads s))
         (sorted_list_of_fset (fmget {||} (roomThreads s) roomID)))"

definition ListDirectConversationsContext :: "memory_store \<Rightarrow> direct_conversation list" where
  "ListDirectConversationsContext s =
     sort_key dc_id
       (List.map_filter (\<lambda>d. directConversationLocked d s)
         (sorted_list_of_fset (fmdom (directMessages s))))"

definition GetDirectConversationContext :: "string \<Rightarrow> memory_store \<Rightarrow> direct_conversation option" where
  "GetDirectConversationContext dmID s = directConversationLocked dmID s"

definition sort_messages :: "message list \<Rightarrow> message list" where
  "sort_messages ms = sort_key msg_created_at (sort_key msg_id ms)"

definition artifactMessages :: "artifact_filter \<Rightarrow> memory_store \<Rightarrow> message list" where
  "artifactMessages f s =
     (if af_thread_id f \<noteq> [] then fmget [] (threadMessages s) (af_thread_id f)
      else if af_dm_id f \<noteq> [] then fmget [] (directMessages s) (af_dm_id f)
      else if af_room_id f \<noteq> [] then
        sort_messages
          (fmget [] (roomMessages s) (af_room_id f) @
           concat (map (\<lambda>t. fmget [] (threadMessages s) t)
             (sorted_list_of_fset (fmget {||} (roomThreads s) (af_room_id f)))))
      else
        sort_messages (concat (fmvalues (roomMessages s)) @ concat (fmvalues (threadMessages s)) @
          concat (fmvalues (directMessages s))))"

definition ListArtifactsContext ::
  "artifact_filter \<Rightarrow> page_request \<Rightarrow> memory_store \<Rightarrow> store_error + (artifact list \<times> page_info)" where
  "ListArtifactsContext f page s = pageArtifactsResult (collectArtifacts (artifactMessages f s)) page"

end
