(* ===== verification/Hub_Store.thy ===== *)
theory Hub_Store
  imports Store_Messages
begin

text \<open>
  Hub rooms in the store: the conflict rules for receipts (\<open>internal/store/hub.go\<close>), the
  control log, origin sequence numbers, outbound envelopes and receipts bound to messages
  (\<open>hub_memory.go\<close>), sync cursors (\<open>hub_sync.go\<close>) and receipts stored without a message
  (\<open>hub_receipt_only.go\<close>). The receipt that the source passes in the context is an argument.
\<close>

section \<open>Rooms and the control log\<close>

definition createHubRoomLocked ::
  "hub_room \<Rightarrow> hub_control_record \<Rightarrow> memory_store \<Rightarrow> store_error option \<times> memory_store" where
  "createHubRoomLocked r genesis s =
     (let h = hub s
      in if hr_global_room_id r |\<in>| fmdom (hs_rooms h)
         then (Some (ErrHubRoomExists (hr_global_room_id r)), s)
         else if list_ex (\<lambda>x. hr_local_room_id x = hr_local_room_id r) (fmvalues (hs_rooms h))
         then (Some (ErrHubRoomExists (hr_local_room_id r)), s)
         else if hc_seq genesis \<noteq> 1 \<or> hc_global_room_id genesis \<noteq> hr_global_room_id r
         then (Some (ErrHubControlConflict (hr_global_room_id r) (hc_seq genesis) NotGenesis), s)
         else (None, s\<lparr>hub := h\<lparr>hs_rooms := fmupd (hr_global_room_id r) r (hs_rooms h),
                                 hs_control := fmupd (hr_global_room_id r) [genesis] (hs_control h)\<rparr>\<rparr>))"

definition HubRoomsContext :: "memory_store \<Rightarrow> hub_room list" where
  "HubRoomsContext s = sort_key hr_global_room_id (fmvalues (hs_rooms (hub s)))"

text \<open>
  One round of the loop of \<open>appendHubControlLocked\<close> over the staged logs. Reading
  \<open>log[record.Seq-1]\<close> panics for a sequence number below 1.
\<close>

definition stage_control ::
  "memory_store \<Rightarrow> hub_control_record \<Rightarrow> hub_control_record list strmap \<Rightarrow>
   store_error + hub_control_record list strmap" where
  "stage_control s record staged =
     (let g = hc_global_room_id record
      in if g |\<notin>| fmdom (hs_rooms (hub s)) then Inl (ErrHubControlConflict g (hc_seq record) UnknownHubRoom)
         else
           let log = (case fmlookup staged g of
                        Some l \<Rightarrow> l | None \<Rightarrow> fmget [] (hs_control (hub s)) g)
           in if hc_seq record \<le> int (length log) then
                (if hc_seq record < 1 then Inl Panic
                 else if hc_digest (log ! nat (hc_seq record - 1)) \<noteq> hc_digest record
                 then Inl (ErrHubControlConflict g (hc_seq record) DifferentEvent)
                 else Inr (fmupd g log staged))
              else if hc_seq record = int (length log) + 1 then Inr (fmupd g (log @ [record]) staged)
              else Inl (ErrHubControlConflict g (hc_seq record) LogGap))"

fun stage_controls ::
  "memory_store \<Rightarrow> hub_control_record list \<Rightarrow> hub_control_record list strmap \<Rightarrow>
   store_error + hub_control_record list strmap" where
  "stage_controls s [] staged = Inr staged"
| "stage_controls s (r # rs) staged =
     (case stage_control s r staged of Inl e \<Rightarrow> Inl e | Inr staged' \<Rightarrow> stage_controls s rs staged')"

definition appendHubControlLocked ::
  "hub_control_record list \<Rightarrow> memory_store \<Rightarrow> store_error option \<times> memory_store" where
  "appendHubControlLocked records s =
     (case stage_controls s records fmempty of
        Inl e \<Rightarrow> (Some e, s)
      | Inr staged \<Rightarrow>
          (None, s\<lparr>hub := (hub s)\<lparr>hs_control := hs_control (hub s) ++\<^sub>f staged\<rparr>\<rparr>))"

definition HubControlLogContext :: "string \<Rightarrow> int \<Rightarrow> memory_store \<Rightarrow> hub_control_record list" where
  "HubControlLogContext g afterSeq s =
     filter (\<lambda>r. hc_seq r > afterSeq) (fmget [] (hs_control (hub s)) g)"

definition NextHubOriginSeqContext :: "string \<Rightarrow> memory_store \<Rightarrow> int \<times> memory_store" where
  "NextHubOriginSeqContext g s =
     (let n = fmget 0 (hs_origin_seqs (hub s)) g + 1
      in (n, s\<lparr>hub := (hub s)\<lparr>hs_origin_seqs := fmupd g n (hs_origin_seqs (hub s))\<rparr>\<rparr>))"

definition replaceOutboundEnvelopeLocked ::
  "message_envelope_record \<Rightarrow> memory_store \<Rightarrow> store_error option \<times> memory_store" where
  "replaceOutboundEnvelopeLocked r s =
     (case fmlookup (envelopes s) (env_message_id r) of
        None \<Rightarrow> (Some (ErrNoOutboundEnvelope (env_message_id r)), s)
      | Some existing \<Rightarrow>
          if env_origin_network_id existing \<noteq> env_origin_network_id r \<or>
             env_origin_message_id existing \<noteq> env_origin_message_id r
          then (Some (ErrNoOutboundEnvelope (env_message_id r)), s)
          else (None, s\<lparr>envelopes := fmupd (env_message_id r) r (envelopes s)\<rparr>))"

section \<open>Receipts\<close>

definition checkHubReceipt ::
  "hub_receipt_record \<Rightarrow> hub_receipt_record option \<Rightarrow> hub_receipt_record option \<Rightarrow>
   hub_receipt_record option \<Rightarrow> hub_receipt_record option \<Rightarrow> hub_receipt_record option \<Rightarrow>
   hub_receipt_record option \<Rightarrow> store_error + bool" where
  "checkHubReceipt r atSeq forEvent previous next before after =
     (if atSeq \<noteq> None \<and> hx_digest (the atSeq) \<noteq> hx_digest r then Inl (ErrHubReceiptConflict SeqTaken)
      else if forEvent \<noteq> None \<and> hx_digest (the forEvent) \<noteq> hx_digest r
      then Inl (ErrHubReceiptConflict EventPlaced)
      else if atSeq \<noteq> None then Inr True
      else if previous \<noteq> None \<and> hx_digest (the previous) \<noteq> hx_prev_digest r
      then Inl (ErrHubReceiptConflict PrevChain)
      else if next \<noteq> None \<and> hx_prev_digest (the next) \<noteq> hx_digest r
      then Inl (ErrHubReceiptConflict NextChain)
      else if before \<noteq> None \<and> hx_membership_epoch (the before) > hx_membership_epoch r
      then Inl (ErrHubReceiptConflict (EpochBefore (hx_room_seq (the before))))
      else if after \<noteq> None \<and> hx_membership_epoch (the after) < hx_membership_epoch r
      then Inl (ErrHubReceiptConflict (EpochAfter (hx_room_seq (the after))))
      else Inr False)"

record receipt_neighbours =
  nb_at :: "hub_receipt_record option"
  nb_event :: "hub_receipt_record option"
  nb_previous :: "hub_receipt_record option"
  nb_next :: "hub_receipt_record option"
  nb_before :: "hub_receipt_record option"
  nb_after :: "hub_receipt_record option"

definition no_neighbours :: receipt_neighbours where
  "no_neighbours = \<lparr>nb_at = None, nb_event = None, nb_previous = None, nb_next = None,
     nb_before = None, nb_after = None\<rparr>"

definition visit_receipt ::
  "hub_receipt_record \<Rightarrow> hub_receipt_record \<Rightarrow> receipt_neighbours \<Rightarrow> receipt_neighbours" where
  "visit_receipt r x n =
     (if hx_global_room_id x \<noteq> hx_global_room_id r then n
      else
        let n1 = (if hx_event_id x = hx_event_id r then n\<lparr>nb_event := Some x\<rparr> else n)
        in if hx_hub_epoch x \<noteq> hx_hub_epoch r then n1
           else
             let n2 = (if hx_room_seq x = hx_room_seq r then n1\<lparr>nb_at := Some x\<rparr>
                   else if hx_room_seq x = hx_room_seq r - 1 then n1\<lparr>nb_previous := Some x\<rparr>
                   else if hx_room_seq x = hx_room_seq r + 1 then n1\<lparr>nb_next := Some x\<rparr>
                   else n1);
                 n3 = (if hx_room_seq x < hx_room_seq r \<and>
                          (nb_before n2 = None \<or> hx_room_seq x > hx_room_seq (the (nb_before n2)))
                       then n2\<lparr>nb_before := Some x\<rparr> else n2)
             in if hx_room_seq x > hx_room_seq r \<and>
                   (nb_after n3 = None \<or> hx_room_seq x < hx_room_seq (the (nb_after n3)))
                then n3\<lparr>nb_after := Some x\<rparr> else n3)"

definition checkHubReceiptLocked :: "hub_receipt_record \<Rightarrow> memory_store \<Rightarrow> store_error + bool" where
  "checkHubReceiptLocked r s =
     (let n = fold (visit_receipt r) (hs_receipts (hub s)) no_neighbours
      in checkHubReceipt r (nb_at n) (nb_event n) (nb_previous n) (nb_next n) (nb_before n) (nb_after n))"

definition bindHubReceiptLocked :: "hub_receipt_record \<Rightarrow> memory_store \<Rightarrow> memory_store" where
  "bindHubReceiptLocked r s =
     s\<lparr>hub := (hub s)\<lparr>hs_receipts :=
        map (\<lambda>x. if hx_global_room_id x = hx_global_room_id r \<and> hx_hub_epoch x = hx_hub_epoch r \<and>
                     hx_room_seq x = hx_room_seq r \<and> hx_digest x = hx_digest r \<and> hx_message_id x = []
                 then x\<lparr>hx_message_id := hx_message_id r\<rparr> else x) (hs_receipts (hub s))\<rparr>\<rparr>"

definition add_receipt :: "hub_receipt_record \<Rightarrow> memory_store \<Rightarrow> memory_store" where
  "add_receipt r s = s\<lparr>hub := (hub s)\<lparr>hs_receipts := hs_receipts (hub s) @ [r]\<rparr>\<rparr>"

definition hubReceiptForMessage :: "hub_receipt_record option \<Rightarrow> message \<Rightarrow> hub_receipt_record option"
  where
  "hubReceiptForMessage record m = map_option (\<lambda>r. r\<lparr>hx_message_id := msg_id m\<rparr>) record"

definition appendWithHubReceiptLocked ::
  "hub_receipt_record option \<Rightarrow> message_envelope_record option \<Rightarrow> message \<Rightarrow> memory_store \<Rightarrow>
   (store_error + append_lifecycle) \<times> memory_store" where
  "appendWithHubReceiptLocked ctx_receipt ctx_envelope m s =
     (let receipt = hubReceiptForMessage ctx_receipt m
      in case (case receipt of None \<Rightarrow> Inr False | Some r \<Rightarrow> checkHubReceiptLocked r s) of
           Inl e \<Rightarrow> (Inl e, s)
         | Inr duplicateReceipt \<Rightarrow>
             (case appendMessageLocked m (envelopeForMessage ctx_envelope m) s of
                (Inl e, s1) \<Rightarrow> (Inl e, s1)
              | (Inr lifecycle, s1) \<Rightarrow>
                  (Inr lifecycle,
                   case receipt of
                     None \<Rightarrow> s1
                   | Some r \<Rightarrow> if duplicateReceipt then bindHubReceiptLocked r s1 else add_receipt r s1)))"

definition attachHubReceiptLocked ::
  "hub_receipt_record \<Rightarrow> memory_store \<Rightarrow> store_error option \<times> memory_store" where
  "attachHubReceiptLocked r s =
     (if hx_message_id r |\<notin>| messageIDs s
      then (Some (ErrHubReceiptConflict (NoMessage (hx_message_id r))), s)
      else (case checkHubReceiptLocked r s of
              Inl e \<Rightarrow> (Some e, s)
            | Inr True \<Rightarrow> (None, bindHubReceiptLocked r s)
            | Inr False \<Rightarrow> (None, add_receipt r s)))"

definition storeHubReceiptLocked ::
  "hub_receipt_record \<Rightarrow> memory_store \<Rightarrow> store_error option \<times> memory_store" where
  "storeHubReceiptLocked r0 s =
     (if hx_global_room_id r0 |\<notin>| fmdom (hs_rooms (hub s))
      then (Some (ErrHubReceiptConflict (UnknownReceiptRoom (hx_global_room_id r0))), s)
      else
        let r = r0\<lparr>hx_message_id := []\<rparr>
        in case checkHubReceiptLocked r s of
             Inl e \<Rightarrow> (Some e, s)
           | Inr True \<Rightarrow> (None, s)
           | Inr False \<Rightarrow> (None, add_receipt r s))"

fun receipt_head_loop ::
  "string \<Rightarrow> int \<Rightarrow> hub_receipt_record list \<Rightarrow> hub_receipt_record option \<Rightarrow> hub_receipt_record option"
  where
  "receipt_head_loop g e [] head = head"
| "receipt_head_loop g e (x # xs) head =
     receipt_head_loop g e xs
       (if hx_global_room_id x = g \<and> hx_hub_epoch x = e \<and>
           (head = None \<or> hx_room_seq x > hx_room_seq (the head)) then Some x else head)"

definition HubReceiptHeadContext :: "string \<Rightarrow> int \<Rightarrow> memory_store \<Rightarrow> hub_receipt_record option" where
  "HubReceiptHeadContext g e s = receipt_head_loop g e (hs_receipts (hub s)) None"

definition HubReceiptForEventContext :: "string \<Rightarrow> string \<Rightarrow> memory_store \<Rightarrow> hub_receipt_record option"
  where
  "HubReceiptForEventContext g ev s =
     find (\<lambda>x. hx_global_room_id x = g \<and> hx_event_id x = ev) (hs_receipts (hub s))"

definition HubReceiptsForMessagesContext ::
  "string list \<Rightarrow> memory_store \<Rightarrow> hub_receipt_record strmap" where
  "HubReceiptsForMessagesContext ids s =
     fold (\<lambda>x m. if hx_message_id x \<in> set ids then fmupd (hx_message_id x) x m else m)
       (hs_receipts (hub s)) fmempty"

definition HubReceiptsAfterContext ::
  "string \<Rightarrow> int \<Rightarrow> int \<Rightarrow> int \<Rightarrow> memory_store \<Rightarrow> hub_receipt_record list" where
  "HubReceiptsAfterContext g e afterSeq limit s =
     (let result = sort_key hx_room_seq
            (filter (\<lambda>x. hx_global_room_id x = g \<and> hx_hub_epoch x = e \<and> hx_room_seq x > afterSeq)
              (hs_receipts (hub s)))
      in if limit > 0 \<and> int (length result) > limit then take (nat limit) result else result)"

definition HubMessagesContext :: "string list \<Rightarrow> memory_store \<Rightarrow> message strmap" where
  "HubMessagesContext ids s =
     fold (\<lambda>m acc. if msg_id m \<in> set ids then fmupd (msg_id m) m acc else acc)
       (concat (fmvalues (roomMessages s))) fmempty"

definition HubWithheldReceiptsContext :: "string \<Rightarrow> memory_store \<Rightarrow> hub_receipt_record list" where
  "HubWithheldReceiptsContext g s =
     sort_key hx_room_seq
       (filter (\<lambda>x. hx_global_room_id x = g \<and> hx_withheld x \<noteq> [] \<and> hx_message_id x = [])
         (hs_receipts (hub s)))"

definition EnvelopeForOriginContext ::
  "string \<Rightarrow> string \<Rightarrow> memory_store \<Rightarrow> message_envelope_record option" where
  "EnvelopeForOriginContext n m s =
     find (\<lambda>e. env_origin_network_id e = n \<and> env_origin_message_id e = m) (fmvalues (envelopes s))"

section \<open>Sync cursors\<close>

definition checkCursorAdvance :: "hub_sync_cursor \<Rightarrow> hub_sync_cursor \<Rightarrow> store_error + bool" where
  "checkCursorAdvance stored next =
     (if cur_seq next < cur_seq stored then Inl (ErrHubSyncRollback SeqBackwards)
      else if cur_seq next = cur_seq stored \<and> cur_digest next \<noteq> cur_digest stored \<and> cur_seq stored > 0
      then Inl (ErrHubSyncRollback DifferentReceipt)
      else if cur_seq next > cur_seq stored \<and> cur_membership_epoch next < cur_membership_epoch stored
      then Inl (ErrHubSyncRollback EpochBackwards)
      else Inr (cur_seq next > cur_seq stored))"

definition HubSyncCursorContext :: "string \<Rightarrow> memory_store \<Rightarrow> hub_sync_cursor" where
  "HubSyncCursorContext g s =
     fmget (zero_cursor\<lparr>cur_global_room_id := g\<rparr>) (hs_cursors (hub s)) g"

definition advanceHubSyncCursorLocked ::
  "hub_sync_cursor \<Rightarrow> memory_store \<Rightarrow> store_error option \<times> memory_store" where
  "advanceHubSyncCursorLocked c s =
     (case checkCursorAdvance (fmget zero_cursor (hs_cursors (hub s)) (cur_global_room_id c)) c of
        Inl e \<Rightarrow> (Some e, s)
      | Inr advance \<Rightarrow>
          (None, if advance
                 then s\<lparr>hub := (hub s)\<lparr>hs_cursors :=
                        fmupd (cur_global_room_id c) c (hs_cursors (hub s))\<rparr>\<rparr>
                 else s))"

end
