(* ===== verification/Message_Invariants.thy ===== *)
theory Message_Invariants
  imports Store_Messages
begin

text \<open>
  What appending a message keeps true of the store. A successful append is described by two
  steps: the message is placed in its history (\<open>placed\<close>, one rule per kind of target) and its
  id, origin receipt, envelope and activity are recorded (\<open>finish_append\<close>). The invariants
  say that ids are stored at most once, that the receipt index is the inverse of the recorded
  origins, and that thread and conversation bookkeeping agrees with the histories.
\<close>

section \<open>The two steps of an append\<close>

inductive placed :: "message \<Rightarrow> memory_store \<Rightarrow> message \<Rightarrow> append_lifecycle \<Rightarrow> memory_store \<Rightarrow> bool"
  where
  room: "tgt_kind (msg_target m) = TargetKindRoom \<Longrightarrow>
     placed m s m no_lifecycle (append_room_message m s)"
| thread: "tgt_kind (msg_target m) = TargetKindThread \<Longrightarrow>
     append_thread_message m s = (l, s1) \<Longrightarrow> placed m s m l s1"
| dm: "tgt_kind (msg_target m) = TargetKindDM \<Longrightarrow> topologyForDMMessage m = Inr tp \<Longrightarrow>
     m' = m\<lparr>msg_target := (msg_target m)\<lparr>tgt_participant_ids := top_participant_ids tp\<rparr>\<rparr> \<Longrightarrow>
     append_dm_message m' tp s = (Inr l, s1) \<Longrightarrow> placed m s m' l s1"
| other: "tgt_kind (msg_target m) \<notin> {TargetKindRoom, TargetKindThread, TargetKindDM} \<Longrightarrow>
     placed m s m no_lifecycle s"

lemma append_dm_error: "append_dm_message m tp s = (Inl e, s1) \<Longrightarrow> s1 = s"
  by (auto simp: append_dm_message_def Let_def split: if_splits)

lemma append_error: "appendMessageLocked m env s = (Inl e, s') \<Longrightarrow> s' = s"
  by (auto simp: appendMessageLocked_def Let_def dest: append_dm_error
      split: option.splits if_splits sum.splits prod.splits)

lemma append_success:
  assumes "appendMessageLocked m env s = (Inr l, s')"
  shows "msg_id m |\<notin>| messageIDs s" "checkOriginReceiptLocked m env s = None"
    "\<exists>m' s1. placed m s m' l s1 \<and> s' = finish_append m' env s1"
proof -
  show "checkOriginReceiptLocked m env s = None"
    using assms by (auto simp: appendMessageLocked_def split: option.splits)
  show "msg_id m |\<notin>| messageIDs s"
    using assms
    by (auto simp: appendMessageLocked_def Let_def split: option.splits if_splits sum.splits prod.splits)
  show "\<exists>m' s1. placed m s m' l s1 \<and> s' = finish_append m' env s1"
  proof (cases "tgt_kind (msg_target m) = TargetKindDM")
    case True
    with assms show ?thesis
      by (auto simp: appendMessageLocked_def Let_def
          split: option.splits if_splits sum.splits prod.splits intro: placed.dm)
  next
    case False
    with assms show ?thesis
      by (auto simp: appendMessageLocked_def Let_def
          split: option.splits if_splits prod.splits intro: placed.room placed.thread placed.other)
  qed
qed

lemma placed_id: "placed m s m' l s1 \<Longrightarrow> msg_id m' = msg_id m \<and> msg_origin m' = msg_origin m \<and>
    tgt_kind (msg_target m') = tgt_kind (msg_target m) \<and> msg_created_at m' = msg_created_at m \<and>
    tgt_room_id (msg_target m') = tgt_room_id (msg_target m) \<and>
    tgt_thread_id (msg_target m') = tgt_thread_id (msg_target m) \<and>
    tgt_dm_id (msg_target m') = tgt_dm_id (msg_target m)"
  by (cases rule: placed.cases) auto

lemma messageOriginReceipt_cong:
  "msg_origin m' = msg_origin m \<Longrightarrow> messageOriginReceipt m' = messageOriginReceipt m"
  by (simp add: messageOriginReceipt_def)

text \<open>The fields that recording an append leaves alone, and the ones it sets.\<close>

lemma recordRoomActivity_fields [simp]:
  "messageIDs (recordRoomActivity m s) = messageIDs s"
  "messageOrigins (recordRoomActivity m s) = messageOrigins s"
  "originReceipts (recordRoomActivity m s) = originReceipts s"
  "originDigests (recordRoomActivity m s) = originDigests s"
  "envelopes (recordRoomActivity m s) = envelopes s"
  "roomMessages (recordRoomActivity m s) = roomMessages s"
  "threadMessages (recordRoomActivity m s) = threadMessages s"
  "directMessages (recordRoomActivity m s) = directMessages s"
  "directMembers (recordRoomActivity m s) = directMembers s"
  "threads (recordRoomActivity m s) = threads s"
  "roomThreads (recordRoomActivity m s) = roomThreads s"
  "hub (recordRoomActivity m s) = hub s"
  "rooms (recordRoomActivity m s) = rooms s"
  "removedRooms (recordRoomActivity m s) = removedRooms s"
  "agents (recordRoomActivity m s) = agents s"
  "deliveryEvents (recordRoomActivity m s) = deliveryEvents s"
  "deliveryCursors (recordRoomActivity m s) = deliveryCursors s"
  "pairingDeliveries (recordRoomActivity m s) = pairingDeliveries s"
  "pairingDeliverySequence (recordRoomActivity m s) = pairingDeliverySequence s"
  "pairingDeliveryStates (recordRoomActivity m s) = pairingDeliveryStates s"
  by (subst recordRoomActivity_frame; simp)+

lemma finish_append_fields [simp]:
  "messageIDs (finish_append m env s) = finsert (msg_id m) (messageIDs s)"
  "messageOrigins (finish_append m env s) =
     fmupd (msg_id m) (messageOriginReceipt m) (messageOrigins s)"
  "originReceipts (finish_append m env s) =
     (if messageOriginReceipt m = [] then originReceipts s
      else fmupd (messageOriginReceipt m) (msg_id m) (originReceipts s))"
  "originDigests (finish_append m env s) =
     (if messageOriginReceipt m = [] then originDigests s
      else fmupd (messageOriginReceipt m) (envelopeDigest env) (originDigests s))"
  "roomMessages (finish_append m env s) = roomMessages s"
  "threadMessages (finish_append m env s) = threadMessages s"
  "directMessages (finish_append m env s) = directMessages s"
  "directMembers (finish_append m env s) = directMembers s"
  "threads (finish_append m env s) = threads s"
  "roomThreads (finish_append m env s) = roomThreads s"
  "hub (finish_append m env s) = hub s"
  "rooms (finish_append m env s) = rooms s"
  "removedRooms (finish_append m env s) = removedRooms s"
  "agents (finish_append m env s) = agents s"
  "deliveryEvents (finish_append m env s) = deliveryEvents s"
  "deliveryCursors (finish_append m env s) = deliveryCursors s"
  "pairingDeliveries (finish_append m env s) = pairingDeliveries s"
  "pairingDeliverySequence (finish_append m env s) = pairingDeliverySequence s"
  "pairingDeliveryStates (finish_append m env s) = pairingDeliveryStates s"
  by (simp_all add: finish_append_def recordOriginReceiptLocked_def Let_def split: option.splits)

section \<open>Stored messages\<close>

definition in_history :: "message list strmap \<Rightarrow> message set" where
  "in_history h = {m. \<exists>k l. fmlookup h k = Some l \<and> m \<in> set l}"

definition stored :: "memory_store \<Rightarrow> message set" where
  "stored s = in_history (roomMessages s) \<union> in_history (threadMessages s) \<union>
     in_history (directMessages s)"

definition filed :: "string \<Rightarrow> (target \<Rightarrow> string) \<Rightarrow> message list strmap \<Rightarrow> bool" where
  "filed kind key h \<longleftrightarrow>
     (\<forall>k l. fmlookup h k = Some l \<longrightarrow> l \<noteq> [] \<and> distinct (map msg_id l) \<and>
        (\<forall>m \<in> set l. tgt_kind (msg_target m) = kind \<and> key (msg_target m) = k))"

definition history_inv :: "memory_store \<Rightarrow> bool" where
  "history_inv s \<longleftrightarrow>
     filed TargetKindRoom tgt_room_id (roomMessages s) \<and>
     filed TargetKindThread tgt_thread_id (threadMessages s) \<and>
     filed TargetKindDM tgt_dm_id (directMessages s) \<and>
     inj_on msg_id (stored s) \<and>
     (\<forall>m \<in> stored s. fmlookup (messageOrigins s) (msg_id m) = Some (messageOriginReceipt m)) \<and>
     fmdom (messageOrigins s) = messageIDs s"

definition receipt_inv :: "memory_store \<Rightarrow> bool" where
  "receipt_inv s \<longleftrightarrow>
     (\<forall>k i. fmlookup (originReceipts s) k = Some i \<longleftrightarrow>
        k \<noteq> [] \<and> fmlookup (messageOrigins s) i = Some k) \<and>
     fmdom (originDigests s) = fmdom (originReceipts s)"

definition appended :: "message \<Rightarrow> string \<Rightarrow> message list strmap \<Rightarrow> message list strmap" where
  "appended m k h = fmupd k (fmget [] h k @ [m]) h"

lemma fmget_history: "set (fmget [] h k) \<subseteq> in_history h"
  by (cases "fmlookup h k") (auto simp: in_history_def fmget_def)

lemma in_history_appended: "in_history (appended m k h) = insert m (in_history h)"
proof (intro equalityI subsetI)
  fix x assume "x \<in> in_history (appended m k h)"
  then obtain k' l where l: "fmlookup (appended m k h) k' = Some l" "x \<in> set l"
    by (auto simp: in_history_def)
  then show "x \<in> insert m (in_history h)"
    using fmget_history [of h k]
    by (cases "k' = k") (auto simp: appended_def in_history_def)
next
  fix x assume "x \<in> insert m (in_history h)"
  then consider "x = m" | k' l where "fmlookup h k' = Some l" "x \<in> set l"
    by (auto simp: in_history_def)
  then show "x \<in> in_history (appended m k h)"
  proof cases
    case 1
    then have "fmlookup (appended m k h) k = Some (fmget [] h k @ [m])" "x \<in> set (fmget [] h k @ [m])"
      by (simp_all add: appended_def)
    then show ?thesis unfolding in_history_def by blast
  next
    case (2 k' l)
    then have "x \<in> set (fmget [] (appended m k h) k')"
      by (cases "k' = k") (auto simp: appended_def fmget_def)
    then show ?thesis using fmget_history by blast
  qed
qed

lemma filed_appended:
  assumes "filed kind key h" and "tgt_kind (msg_target m) = kind" and "key (msg_target m) = k"
    and "msg_id m \<notin> msg_id ` in_history h"
  shows "filed kind key (appended m k h)"
proof -
  have "distinct (map msg_id (fmget [] h k @ [m]))"
    using assms(1,4) fmget_history [of h k]
    by (cases "fmlookup h k") (auto simp: filed_def fmget_def)
  moreover have "\<forall>x \<in> set (fmget [] h k). tgt_kind (msg_target x) = kind \<and> key (msg_target x) = k"
    using assms(1) by (cases "fmlookup h k") (auto simp: filed_def fmget_def)
  ultimately show ?thesis using assms unfolding filed_def appended_def by auto
qed

text \<open>Which history a placement extends, and that it touches no index.\<close>

lemma placed_histories:
  assumes "placed m s m' l s1"
  shows "roomMessages s1 = (if tgt_kind (msg_target m) = TargetKindRoom
           then appended m' (tgt_room_id (msg_target m)) (roomMessages s) else roomMessages s)"
    "threadMessages s1 = (if tgt_kind (msg_target m) = TargetKindThread
           then appended m' (tgt_thread_id (msg_target m)) (threadMessages s) else threadMessages s)"
    "directMessages s1 = (if tgt_kind (msg_target m) = TargetKindDM
           then appended m' (tgt_dm_id (msg_target m)) (directMessages s) else directMessages s)"
    "messageIDs s1 = messageIDs s" "messageOrigins s1 = messageOrigins s"
    "originReceipts s1 = originReceipts s" "originDigests s1 = originDigests s"
    "envelopes s1 = envelopes s" "roomActivity s1 = roomActivity s" "hub s1 = hub s"
    "rooms s1 = rooms s" "removedRooms s1 = removedRooms s" "agents s1 = agents s"
    "deliveryEvents s1 = deliveryEvents s" "deliveryCursors s1 = deliveryCursors s"
    "pairingDeliveries s1 = pairingDeliveries s"
    "pairingDeliverySequence s1 = pairingDeliverySequence s"
    "pairingDeliveryStates s1 = pairingDeliveryStates s"
  using assms
  by (cases rule: placed.cases;
      auto simp: append_room_message_def append_thread_message_def append_dm_message_def
        appended_def Let_def split: if_splits)+

lemma placed_stored:
  assumes "placed m s m' l s1"
  shows "stored s1 =
    (if tgt_kind (msg_target m) \<in> {TargetKindRoom, TargetKindThread, TargetKindDM}
     then insert m' (stored s) else stored s)"
  using placed_histories [OF assms] by (auto simp: stored_def in_history_appended)

lemma stored_finish [simp]: "stored (finish_append m env s) = stored s"
  by (simp add: stored_def)

lemma stored_ids: "history_inv s \<Longrightarrow> m \<in> stored s \<Longrightarrow> msg_id m |\<in>| messageIDs s"
  by (auto simp: history_inv_def fmlookup_dom_iff)

lemma history_inv_append:
  assumes inv: "history_inv s" and ok: "appendMessageLocked m env s = (Inr l, s')"
  shows "history_inv s'"
proof -
  obtain m' s1 where pl: "placed m s m' l s1" and s': "s' = finish_append m' env s1"
    using append_success(3) [OF ok] by blast
  note fresh = append_success(1) [OF ok] and h = placed_histories [OF pl] and i = placed_id [OF pl]
  have new: "msg_id m' \<notin> msg_id ` stored s" using fresh i stored_ids [OF inv] by auto
  then have new': "msg_id m' \<notin> msg_id ` in_history (roomMessages s)"
    "msg_id m' \<notin> msg_id ` in_history (threadMessages s)"
    "msg_id m' \<notin> msg_id ` in_history (directMessages s)" by (auto simp: stored_def)
  have "inj_on msg_id (insert m' (stored s))"
    using inv new by (auto simp: history_inv_def inj_on_insert)
  with inv have inj: "inj_on msg_id (stored s')"
    by (simp add: s' placed_stored [OF pl] history_inv_def)
  have orig: "\<forall>x \<in> stored s'. fmlookup (messageOrigins s') (msg_id x) = Some (messageOriginReceipt x)"
    using inv new by (auto simp: s' h placed_stored [OF pl] history_inv_def image_iff)
  have "filed TargetKindRoom tgt_room_id (roomMessages s')"
    "filed TargetKindThread tgt_thread_id (threadMessages s')"
    "filed TargetKindDM tgt_dm_id (directMessages s')"
    using inv i new' by (simp_all add: s' h history_inv_def filed_appended)
  with inj orig show ?thesis using inv by (simp add: history_inv_def s' h)
qed

lemma receipt_inv_append:
  assumes inv: "history_inv s" "receipt_inv s" and ok: "appendMessageLocked m env s = (Inr l, s')"
  shows "receipt_inv s'"
proof -
  obtain m' s1 where pl: "placed m s m' l s1" and s': "s' = finish_append m' env s1"
    using append_success(3) [OF ok] by blast
  note h = placed_histories [OF pl] and i = placed_id [OF pl]
  have fresh: "fmlookup (messageOrigins s) (msg_id m') = None"
    using append_success(1) [OF ok] inv(1) i by (simp add: history_inv_def fmdom_notD)
  have key: "messageOriginReceipt m' \<noteq> [] \<Longrightarrow> fmlookup (originReceipts s) (messageOriginReceipt m') = None"
    using append_success(2) [OF ok] i messageOriginReceipt_cong [of m' m]
    by (auto simp: checkOriginReceiptLocked_def Let_def split: option.splits if_splits)
  have index: "fmlookup (originReceipts s) k = Some i \<longleftrightarrow>
      k \<noteq> [] \<and> fmlookup (messageOrigins s) i = Some k" for k i
    using inv(2) by (simp add: receipt_inv_def)
  have digests: "fmdom (originDigests s) = fmdom (originReceipts s)"
    using inv(2) by (simp add: receipt_inv_def)
  show ?thesis
  proof (cases "messageOriginReceipt m' = []")
    case True
    with fresh digests show ?thesis by (auto simp: receipt_inv_def s' h index)
  next
    case False
    have "fmlookup (messageOrigins s) i \<noteq> Some (messageOriginReceipt m')" for i
      using index [of "messageOriginReceipt m'" i] key [OF False] False by simp
    with fresh False digests show ?thesis by (simp add: receipt_inv_def s' h index)
  qed
qed

section \<open>Threads\<close>

definition thread_ok :: "string \<Rightarrow> thread option \<Rightarrow> message list option \<Rightarrow> bool" where
  "thread_ok t th l =
     (case (th, l) of
        (None, None) \<Rightarrow> True
      | (Some th, Some l) \<Rightarrow> thr_id th = t \<and> l \<noteq> [] \<and> thr_message_count th = length l \<and>
          thr_last_message_at th = msg_created_at (last l)
      | _ \<Rightarrow> False)"

definition thread_inv :: "memory_store \<Rightarrow> bool" where
  "thread_inv s \<longleftrightarrow>
     (\<forall>t. thread_ok t (fmlookup (threads s) t) (fmlookup (threadMessages s) t)) \<and>
     (\<forall>r t. t |\<in>| fmget {||} (roomThreads s) r \<longleftrightarrow>
        (\<exists>th. fmlookup (threads s) t = Some th \<and> thr_room_id th = r))"

lemma append_thread_message_cases:
  assumes ok: "thread_ok t (fmlookup (threads s) t) (fmlookup (threadMessages s) t)"
    and t: "t = tgt_thread_id (msg_target m)" and ap: "append_thread_message m s = (l, s1)"
  obtains th where "threads s1 = fmupd t th (threads s)"
    "threadMessages s1 = appended m t (threadMessages s)"
    "roomThreads s1 = fmupd (thr_room_id th) (finsert t (fmget {||} (roomThreads s) (thr_room_id th)))
       (roomThreads s)"
    "thread_ok t (Some th) (Some (fmget [] (threadMessages s) t @ [m]))"
    "\<And>old. fmlookup (threads s) t = Some old \<Longrightarrow> thr_room_id th = thr_room_id old"
proof -
  let ?th = "(case fmlookup (threads s) t of Some th \<Rightarrow> th
      | None \<Rightarrow> \<lparr>thr_id = t, thr_network_id = msg_network_id m, thr_fqid = ThreadFQID (msg_network_id m) t,
          thr_room_id = tgt_room_id (msg_target m),
          thr_parent_message_id = tgt_parent_message_id (msg_target m),
          thr_message_count = 0, thr_last_message_at = 0\<rparr>)
      \<lparr>thr_message_count := length (fmget [] (threadMessages s) t @ [m]),
       thr_last_message_at := msg_created_at m\<rparr>"
  have id: "thr_id ?th = t" using ok by (simp add: thread_ok_def split: option.splits)
  with ok ap show ?thesis
    by (intro that [of ?th])
       (auto simp: append_thread_message_def Let_def t [symmetric] appended_def thread_ok_def)
qed

lemma append_thread_message_inv:
  assumes inv: "thread_inv s" and ap: "append_thread_message m s = (l, s1)"
  shows "thread_inv s1"
proof -
  define t where "t = tgt_thread_id (msg_target m)"
  have ok: "thread_ok t (fmlookup (threads s) t) (fmlookup (threadMessages s) t)" for t
    using inv by (simp add: thread_inv_def)
  have idx: "t |\<in>| fmget {||} (roomThreads s) r \<longleftrightarrow>
      (\<exists>th. fmlookup (threads s) t = Some th \<and> thr_room_id th = r)" for r t
    using inv by (simp add: thread_inv_def)
  obtain th where th: "threads s1 = fmupd t th (threads s)"
    "threadMessages s1 = appended m t (threadMessages s)"
    "roomThreads s1 = fmupd (thr_room_id th) (finsert t (fmget {||} (roomThreads s) (thr_room_id th)))
       (roomThreads s)"
    "thread_ok t (Some th) (Some (fmget [] (threadMessages s) t @ [m]))"
    "\<And>old. fmlookup (threads s) t = Some old \<Longrightarrow> thr_room_id th = thr_room_id old"
    using append_thread_message_cases [OF ok t_def ap] by blast
  show ?thesis unfolding thread_inv_def
  proof (intro conjI allI)
    fix u show "thread_ok u (fmlookup (threads s1) u) (fmlookup (threadMessages s1) u)"
      using ok [of u] th(4) by (cases "u = t") (auto simp: th(1,2) appended_def)
  next
    fix r u show "u |\<in>| fmget {||} (roomThreads s1) r \<longleftrightarrow>
        (\<exists>th. fmlookup (threads s1) u = Some th \<and> thr_room_id th = r)"
      using idx [of u r] th(5) by (cases "u = t") (auto simp: th)
  qed
qed

lemma thread_inv_cong:
  "threads s1 = threads s \<Longrightarrow> threadMessages s1 = threadMessages s \<Longrightarrow>
   roomThreads s1 = roomThreads s \<Longrightarrow> thread_inv s1 = thread_inv s"
  by (simp add: thread_inv_def)

lemma placed_thread_inv:
  assumes "placed m s m' l s1" and "thread_inv s"
  shows "thread_inv s1"
  using assms
proof (cases rule: placed.cases)
  case thread
  then show ?thesis using assms(2) append_thread_message_inv by blast
qed (use assms(2) in \<open>auto simp: append_room_message_def append_dm_message_def Let_def thread_inv_def
      split: if_splits\<close>)

lemma thread_inv_append:
  assumes "thread_inv s" and "appendMessageLocked m env s = (Inr l, s')"
  shows "thread_inv s'"
  using append_success(3) [OF assms(2)] placed_thread_inv assms(1)
  by (auto simp: thread_inv_def)

section \<open>Room activity\<close>

definition activity_room :: "memory_store \<Rightarrow> message \<Rightarrow> string" where
  "activity_room s m =
     (if tgt_room_id (msg_target m) = [] \<and> tgt_kind (msg_target m) = TargetKindThread
      then (case fmlookup (threads s) (tgt_thread_id (msg_target m)) of
              Some t \<Rightarrow> thr_room_id t | None \<Rightarrow> [])
      else tgt_room_id (msg_target m))"

definition room_traffic :: "memory_store \<Rightarrow> string \<Rightarrow> message set" where
  "room_traffic s r = {m \<in> stored s. tgt_kind (msg_target m) \<in> {TargetKindRoom, TargetKindThread} \<and>
     activity_room s m = r}"

definition latest :: "message set \<Rightarrow> time option \<Rightarrow> bool" where
  "latest ms t =
     (case t of None \<Rightarrow> ms = {}
      | Some t \<Rightarrow> t \<in> msg_created_at ` ms \<and> (\<forall>m \<in> ms. msg_created_at m \<le> t))"

definition activity_inv :: "memory_store \<Rightarrow> bool" where
  "activity_inv s \<longleftrightarrow> (\<forall>r. latest (room_traffic s r) (fmlookup (roomActivity s) r))"

lemma latest_insert:
  "latest ms t \<Longrightarrow> latest (insert m ms)
     (Some (case t of None \<Rightarrow> msg_created_at m | Some t \<Rightarrow> max t (msg_created_at m)))"
  by (auto simp: latest_def max_def split: option.splits; fastforce)

lemma recordRoomActivity_lookup:
  "fmlookup (roomActivity (recordRoomActivity m s)) r =
     (if tgt_kind (msg_target m) \<in> {TargetKindRoom, TargetKindThread} \<and> activity_room s m = r
      then Some (case fmlookup (roomActivity s) r of
                   None \<Rightarrow> msg_created_at m | Some t \<Rightarrow> max t (msg_created_at m))
      else fmlookup (roomActivity s) r)"
  unfolding recordRoomActivity_def activity_room_def [symmetric] Let_def
  by (auto simp: max_def split: option.splits)

lemma placed_activity_room:
  assumes "placed m s m' l s1" and "thread_inv s" and "history_inv s" and "x \<in> stored s"
    "tgt_kind (msg_target x) \<in> {TargetKindRoom, TargetKindThread}"
  shows "activity_room s1 x = activity_room s x"
  using assms(1)
proof (cases rule: placed.cases)
  case thread
  have ok: "thread_ok (tgt_thread_id (msg_target m)) (fmlookup (threads s) (tgt_thread_id (msg_target m)))
      (fmlookup (threadMessages s) (tgt_thread_id (msg_target m)))"
    using assms(2) by (simp add: thread_inv_def)
  obtain th where th: "threads s1 = fmupd (tgt_thread_id (msg_target m)) th (threads s)"
    "\<And>old. fmlookup (threads s) (tgt_thread_id (msg_target m)) = Some old \<Longrightarrow>
       thr_room_id th = thr_room_id old"
    using append_thread_message_cases [OF ok refl thread(3)] by metis
  show ?thesis
  proof (cases "tgt_kind (msg_target x) = TargetKindThread")
    case True
    with assms(3,4) have "fmlookup (threadMessages s) (tgt_thread_id (msg_target x)) \<noteq> None"
      by (auto simp: stored_def in_history_def history_inv_def filed_def)
    then have "fmlookup (threads s) (tgt_thread_id (msg_target x)) \<noteq> None"
      using assms(2) unfolding thread_inv_def thread_ok_def by (metis (no_types, lifting) case_prod_conv option.case_eq_if)
    with th show ?thesis by (auto simp: activity_room_def)
  qed (simp add: activity_room_def)
qed (auto simp: append_room_message_def append_dm_message_def activity_room_def Let_def
      split: if_splits)

lemma activity_room_cong: "threads s1 = threads s \<Longrightarrow> activity_room s1 = activity_room s"
  by (auto simp: activity_room_def fun_eq_iff)

lemma finish_append_activity:
  "fmlookup (roomActivity (finish_append m env s)) r =
     (if tgt_kind (msg_target m) \<in> {TargetKindRoom, TargetKindThread} \<and> activity_room s m = r
      then Some (case fmlookup (roomActivity s) r of
                   None \<Rightarrow> msg_created_at m | Some t \<Rightarrow> max t (msg_created_at m))
      else fmlookup (roomActivity s) r)"
proof -
  let ?s = "recordOriginReceiptLocked m env (s\<lparr>messageIDs := finsert (msg_id m) (messageIDs s),
          messageOrigins := fmupd (msg_id m) (messageOriginReceipt m) (messageOrigins s)\<rparr>)"
  have "threads ?s = threads s" "roomActivity ?s = roomActivity s"
    by (simp_all add: recordOriginReceiptLocked_def Let_def split: option.splits)
  then show ?thesis
    unfolding finish_append_def recordRoomActivity_lookup activity_room_cong [OF \<open>threads ?s = _\<close>]
    by simp
qed

lemma activity_inv_append:
  assumes inv: "history_inv s" "thread_inv s" "activity_inv s"
    and ok: "appendMessageLocked m env s = (Inr l, s')"
  shows "activity_inv s'"
proof -
  obtain m' s1 where pl: "placed m s m' l s1" and s': "s' = finish_append m' env s1"
    using append_success(3) [OF ok] by blast
  note i = placed_id [OF pl]
  let ?in = "tgt_kind (msg_target m') \<in> {TargetKindRoom, TargetKindThread}"
  have room: "activity_room s' = activity_room s1" unfolding s' by (rule activity_room_cong) simp
  have st: "stored s' = (if tgt_kind (msg_target m) \<in> {TargetKindRoom, TargetKindThread, TargetKindDM}
      then insert m' (stored s) else stored s)"
    by (simp add: s' placed_stored [OF pl])
  have traffic: "room_traffic s' r =
      (if ?in \<and> activity_room s1 m' = r then insert m' (room_traffic s r) else room_traffic s r)" for r
    unfolding room_traffic_def room st
    using i placed_activity_room [OF pl inv(2,1)] by (auto split: if_splits)
  have act: "fmlookup (roomActivity s') r = (if ?in \<and> activity_room s1 m' = r
      then Some (case fmlookup (roomActivity s) r of
                   None \<Rightarrow> msg_created_at m' | Some t \<Rightarrow> max t (msg_created_at m'))
      else fmlookup (roomActivity s) r)" for r
    unfolding s' finish_append_activity placed_histories(9) [OF pl] by (rule refl)
  have "latest (room_traffic s' r) (fmlookup (roomActivity s') r)" for r
    using inv(3) latest_insert [of "room_traffic s r" "fmlookup (roomActivity s) r" m']
    by (simp only: traffic act activity_inv_def split: if_splits) simp
  then show ?thesis by (simp add: activity_inv_def)
qed

section \<open>The invariant of the message store\<close>

definition message_inv :: "memory_store \<Rightarrow> bool" where
  "message_inv s \<longleftrightarrow> history_inv s \<and> receipt_inv s \<and> thread_inv s \<and> activity_inv s"

lemma message_inv_append:
  assumes "message_inv s" and "appendMessageLocked m env s = (r, s')"
  shows "message_inv s'"
proof (cases r)
  case (Inl e)
  with assms append_error show ?thesis by blast
next
  case (Inr l)
  with assms show ?thesis
    using history_inv_append receipt_inv_append thread_inv_append activity_inv_append
    by (simp add: message_inv_def) blast
qed

lemma message_inv_cong:
  assumes "roomMessages s1 = roomMessages s" "threadMessages s1 = threadMessages s"
    "directMessages s1 = directMessages s" "messageIDs s1 = messageIDs s"
    "messageOrigins s1 = messageOrigins s" "originReceipts s1 = originReceipts s"
    "originDigests s1 = originDigests s" "threads s1 = threads s" "roomThreads s1 = roomThreads s"
    "roomActivity s1 = roomActivity s"
  shows "message_inv s1 = message_inv s"
  using assms activity_room_cong [OF assms(8)]
  by (simp add: message_inv_def history_inv_def receipt_inv_def thread_inv_def activity_inv_def
      stored_def room_traffic_def)

lemma message_inv_new: "message_inv NewMemoryStore"
  by (simp add: message_inv_def history_inv_def receipt_inv_def thread_inv_def activity_inv_def
      NewMemoryStore_def stored_def in_history_def filed_def thread_ok_def room_traffic_def latest_def)

end
