(* ===== verification/Hub_Invariants.thy ===== *)
theory Hub_Invariants
  imports Hub_Store Message_Invariants
begin

text \<open>
  What the hub part of the store promises: stored receipts of a room form one hash-chained,
  epoch-ordered sequence with at most one receipt per place and per event, in whichever order
  they arrive; control logs are contiguous and only grow; a sync cursor only moves forward.
\<close>

section \<open>What the loop over stored receipts finds\<close>

definition same_line :: "hub_receipt_record \<Rightarrow> hub_receipt_record \<Rightarrow> bool" where
  "same_line x y \<longleftrightarrow> hx_global_room_id x = hx_global_room_id y \<and> hx_hub_epoch x = hx_hub_epoch y"

definition finds :: "(hub_receipt_record \<Rightarrow> bool) \<Rightarrow> hub_receipt_record list \<Rightarrow> hub_receipt_record option \<Rightarrow> bool"
  where
  "finds P xs r = (case r of None \<Rightarrow> (\<forall>x \<in> set xs. \<not> P x) | Some x \<Rightarrow> x \<in> set xs \<and> P x)"

definition finds_max :: "(hub_receipt_record \<Rightarrow> bool) \<Rightarrow> (hub_receipt_record \<Rightarrow> int) \<Rightarrow>
    hub_receipt_record list \<Rightarrow> hub_receipt_record option \<Rightarrow> bool" where
  "finds_max P f xs r = (finds P xs r \<and> (\<forall>y. r = Some y \<longrightarrow> (\<forall>x \<in> set xs. P x \<longrightarrow> f x \<le> f y)))"

lemma finds_snoc:
  "finds P xs r \<Longrightarrow> finds P (xs @ [x]) (if P x then Some x else r)"
  by (auto simp: finds_def split: option.splits if_splits)

lemma finds_max_snoc:
  assumes "finds_max P f xs r"
  shows "finds_max P f (xs @ [x])
    (if P x \<and> (r = None \<or> f x > f (the r)) then Some x else r)"
proof (cases r)
  case None
  with assms show ?thesis by (auto simp: finds_max_def finds_def)
next
  case (Some y)
  with assms show ?thesis by (fastforce simp: finds_max_def finds_def)
qed

lemma finds_Nil [simp]: "finds P [] None" "finds_max P f [] None"
  by (simp_all add: finds_def finds_max_def)

definition at_place :: "hub_receipt_record \<Rightarrow> int \<Rightarrow> hub_receipt_record \<Rightarrow> bool" where
  "at_place r n x \<longleftrightarrow> same_line x r \<and> hx_room_seq x = n"

definition neighbours :: "hub_receipt_record \<Rightarrow> hub_receipt_record list \<Rightarrow> receipt_neighbours \<Rightarrow> bool" where
  "neighbours r xs n \<longleftrightarrow>
     finds (at_place r (hx_room_seq r)) xs (nb_at n) \<and>
     finds (\<lambda>x. hx_global_room_id x = hx_global_room_id r \<and> hx_event_id x = hx_event_id r) xs (nb_event n) \<and>
     finds (at_place r (hx_room_seq r - 1)) xs (nb_previous n) \<and>
     finds (at_place r (hx_room_seq r + 1)) xs (nb_next n) \<and>
     finds_max (\<lambda>x. same_line x r \<and> hx_room_seq x < hx_room_seq r) hx_room_seq xs (nb_before n) \<and>
     finds_max (\<lambda>x. same_line x r \<and> hx_room_seq x > hx_room_seq r) (\<lambda>x. - hx_room_seq x) xs (nb_after n)"

lemma visit_receipt_fields:
  "nb_at (visit_receipt r x n) = (if at_place r (hx_room_seq r) x then Some x else nb_at n)"
  "nb_event (visit_receipt r x n) =
     (if hx_global_room_id x = hx_global_room_id r \<and> hx_event_id x = hx_event_id r then Some x else nb_event n)"
  "nb_previous (visit_receipt r x n) = (if at_place r (hx_room_seq r - 1) x then Some x else nb_previous n)"
  "nb_next (visit_receipt r x n) = (if at_place r (hx_room_seq r + 1) x then Some x else nb_next n)"
  "nb_before (visit_receipt r x n) =
     (if (same_line x r \<and> hx_room_seq x < hx_room_seq r) \<and>
         (nb_before n = None \<or> hx_room_seq x > hx_room_seq (the (nb_before n))) then Some x else nb_before n)"
  "nb_after (visit_receipt r x n) =
     (if (same_line x r \<and> hx_room_seq x > hx_room_seq r) \<and>
         (nb_after n = None \<or> - hx_room_seq x > - hx_room_seq (the (nb_after n))) then Some x else nb_after n)"
  by (auto simp: visit_receipt_def Let_def at_place_def same_line_def)

lemma neighbours_fold: "neighbours r xs (fold (visit_receipt r) xs no_neighbours)"
proof (induction xs rule: rev_induct)
  case Nil
  then show ?case by (simp add: neighbours_def no_neighbours_def)
next
  case (snoc x xs)
  then show ?case
    unfolding neighbours_def fold_append comp_apply fold.simps id_apply visit_receipt_fields
    by (blast intro: finds_snoc finds_max_snoc)
qed

section \<open>The receipts of a room\<close>

definition place :: "hub_receipt_record \<Rightarrow> string \<times> int \<times> int" where
  "place x = (hx_global_room_id x, hx_hub_epoch x, hx_room_seq x)"

definition compatible :: "hub_receipt_record \<Rightarrow> hub_receipt_record \<Rightarrow> bool" where
  "compatible x y \<longleftrightarrow>
     (hx_global_room_id x = hx_global_room_id y \<and> hx_event_id x = hx_event_id y \<longrightarrow>
        hx_digest x = hx_digest y) \<and>
     (same_line x y \<and> hx_room_seq y = hx_room_seq x + 1 \<longrightarrow> hx_prev_digest y = hx_digest x) \<and>
     (same_line x y \<and> hx_room_seq x \<le> hx_room_seq y \<longrightarrow>
        hx_membership_epoch x \<le> hx_membership_epoch y)"

definition receipts_inv :: "hub_receipt_record list \<Rightarrow> bool" where
  "receipts_inv xs \<longleftrightarrow>
     distinct (map place xs) \<and> (\<forall>x \<in> set xs. \<forall>y \<in> set xs. x \<noteq> y \<longrightarrow> compatible x y)"

lemma check_fresh:
  assumes "neighbours r xs n"
    and "checkHubReceipt r (nb_at n) (nb_event n) (nb_previous n) (nb_next n) (nb_before n) (nb_after n) = Inr False"
  shows "x \<in> set xs \<Longrightarrow> same_line x r \<Longrightarrow> hx_room_seq x \<noteq> hx_room_seq r"
    "nb_at n = None"
    "nb_event n = None \<or> hx_digest (the (nb_event n)) = hx_digest r"
    "nb_previous n = None \<or> hx_digest (the (nb_previous n)) = hx_prev_digest r"
    "nb_next n = None \<or> hx_prev_digest (the (nb_next n)) = hx_digest r"
    "nb_before n = None \<or> hx_membership_epoch (the (nb_before n)) \<le> hx_membership_epoch r"
    "nb_after n = None \<or> hx_membership_epoch r \<le> hx_membership_epoch (the (nb_after n))"
proof -
  show at: "nb_at n = None"
    and "nb_event n = None \<or> hx_digest (the (nb_event n)) = hx_digest r"
    and "nb_previous n = None \<or> hx_digest (the (nb_previous n)) = hx_prev_digest r"
    and "nb_next n = None \<or> hx_prev_digest (the (nb_next n)) = hx_digest r"
    and "nb_before n = None \<or> hx_membership_epoch (the (nb_before n)) \<le> hx_membership_epoch r"
    and "nb_after n = None \<or> hx_membership_epoch r \<le> hx_membership_epoch (the (nb_after n))"
    using assms(2) by (simp_all add: checkHubReceipt_def split: if_splits) (meson leI)+
  show "x \<in> set xs \<Longrightarrow> same_line x r \<Longrightarrow> hx_room_seq x \<noteq> hx_room_seq r"
    using assms(1) at by (auto simp: neighbours_def finds_def at_place_def)
qed

lemma place_eq: "place x = place y \<longleftrightarrow> same_line x y \<and> hx_room_seq x = hx_room_seq y"
  by (auto simp: place_def same_line_def)

lemma same_line_sym: "same_line x y \<longleftrightarrow> same_line y x"
  by (auto simp: same_line_def)

lemma place_unique:
  "receipts_inv xs \<Longrightarrow> x \<in> set xs \<Longrightarrow> y \<in> set xs \<Longrightarrow> place x = place y \<Longrightarrow> x = y"
  by (auto simp: receipts_inv_def distinct_map inj_on_def)

lemma fresh_event:
  assumes inv: "receipts_inv xs" and n: "neighbours r xs n"
    and ok: "checkHubReceipt r (nb_at n) (nb_event n) (nb_previous n) (nb_next n) (nb_before n)
      (nb_after n) = Inr False"
    and x: "x \<in> set xs" "hx_global_room_id x = hx_global_room_id r" "hx_event_id x = hx_event_id r"
  shows "hx_digest x = hx_digest r"
proof -
  note fresh = check_fresh [OF n ok] and f = n [unfolded neighbours_def finds_max_def finds_def]
  show ?thesis
  proof (cases "nb_event n")
    case None
    with f x show ?thesis by auto
  next
    case (Some y)
    with f fresh(3) have y: "y \<in> set xs" "hx_global_room_id y = hx_global_room_id r"
      "hx_event_id y = hx_event_id r" "hx_digest y = hx_digest r" by auto
    have "x = y \<or> compatible x y" using inv x(1) y(1) by (auto simp: receipts_inv_def)
    with x y show ?thesis unfolding compatible_def by metis
  qed
qed

lemma fresh_previous:
  assumes inv: "receipts_inv xs" and n: "neighbours r xs n"
    and ok: "checkHubReceipt r (nb_at n) (nb_event n) (nb_previous n) (nb_next n) (nb_before n)
      (nb_after n) = Inr False"
    and x: "x \<in> set xs" "same_line x r" "hx_room_seq r = hx_room_seq x + 1"
  shows "hx_digest x = hx_prev_digest r"
proof -
  note fresh = check_fresh [OF n ok] and f = n [unfolded neighbours_def finds_max_def finds_def]
  show ?thesis
  proof (cases "nb_previous n")
    case None
    with f x show ?thesis by (auto simp: at_place_def)
  next
    case (Some y)
    with f fresh(4) have y: "y \<in> set xs" "at_place r (hx_room_seq r - 1) y" "hx_digest y = hx_prev_digest r"
      by auto
    with x place_unique [OF inv, of x y] show ?thesis by (auto simp: at_place_def place_eq same_line_def)
  qed
qed

lemma fresh_next:
  assumes inv: "receipts_inv xs" and n: "neighbours r xs n"
    and ok: "checkHubReceipt r (nb_at n) (nb_event n) (nb_previous n) (nb_next n) (nb_before n)
      (nb_after n) = Inr False"
    and x: "x \<in> set xs" "same_line x r" "hx_room_seq x = hx_room_seq r + 1"
  shows "hx_prev_digest x = hx_digest r"
proof -
  note fresh = check_fresh [OF n ok] and f = n [unfolded neighbours_def finds_max_def finds_def]
  show ?thesis
  proof (cases "nb_next n")
    case None
    with f x show ?thesis by (auto simp: at_place_def)
  next
    case (Some y)
    with f fresh(5) have y: "y \<in> set xs" "at_place r (hx_room_seq r + 1) y" "hx_prev_digest y = hx_digest r"
      by auto
    with x place_unique [OF inv, of x y] show ?thesis by (auto simp: at_place_def place_eq same_line_def)
  qed
qed

lemma fresh_before:
  assumes inv: "receipts_inv xs" and n: "neighbours r xs n"
    and ok: "checkHubReceipt r (nb_at n) (nb_event n) (nb_previous n) (nb_next n) (nb_before n)
      (nb_after n) = Inr False"
    and x: "x \<in> set xs" "same_line x r" "hx_room_seq x \<le> hx_room_seq r"
  shows "hx_membership_epoch x \<le> hx_membership_epoch r"
proof -
  note fresh = check_fresh [OF n ok] and f = n [unfolded neighbours_def finds_max_def finds_def]
  show ?thesis
  proof (cases "nb_before n")
    case None
    with f x fresh(1) show ?thesis by force
  next
    case (Some y)
    with f fresh(6) have y: "y \<in> set xs" "same_line y r" "hx_membership_epoch y \<le> hx_membership_epoch r"
      and max: "\<And>z. z \<in> set xs \<Longrightarrow> same_line z r \<Longrightarrow> hx_room_seq z < hx_room_seq r \<Longrightarrow>
        hx_room_seq z \<le> hx_room_seq y" by auto
    have "hx_room_seq x \<le> hx_room_seq y" using max x fresh(1) [OF x(1,2)] by simp
    then have "hx_membership_epoch x \<le> hx_membership_epoch y"
      using inv x y by (cases "x = y") (auto simp: receipts_inv_def compatible_def same_line_def)
    with y show ?thesis by simp
  qed
qed

lemma fresh_after:
  assumes inv: "receipts_inv xs" and n: "neighbours r xs n"
    and ok: "checkHubReceipt r (nb_at n) (nb_event n) (nb_previous n) (nb_next n) (nb_before n)
      (nb_after n) = Inr False"
    and x: "x \<in> set xs" "same_line x r" "hx_room_seq r \<le> hx_room_seq x"
  shows "hx_membership_epoch r \<le> hx_membership_epoch x"
proof -
  note fresh = check_fresh [OF n ok] and f = n [unfolded neighbours_def finds_max_def finds_def]
  show ?thesis
  proof (cases "nb_after n")
    case None
    with f x fresh(1) show ?thesis by force
  next
    case (Some y)
    with f fresh(7) have y: "y \<in> set xs" "same_line y r" "hx_membership_epoch r \<le> hx_membership_epoch y"
      and min: "\<And>z. z \<in> set xs \<Longrightarrow> same_line z r \<Longrightarrow> hx_room_seq r < hx_room_seq z \<Longrightarrow>
        hx_room_seq y \<le> hx_room_seq z" by auto
    have "hx_room_seq y \<le> hx_room_seq x" using min x fresh(1) [OF x(1,2)] by simp
    then have "hx_membership_epoch y \<le> hx_membership_epoch x"
      using inv x y by (cases "x = y") (auto simp: receipts_inv_def compatible_def same_line_def)
    with y show ?thesis by simp
  qed
qed

lemma receipts_inv_add:
  assumes inv: "receipts_inv xs" and n: "neighbours r xs n"
    and ok: "checkHubReceipt r (nb_at n) (nb_event n) (nb_previous n) (nb_next n) (nb_before n)
      (nb_after n) = Inr False"
  shows "receipts_inv (xs @ [r])"
proof -
  have "place r \<notin> place ` set xs"
    using check_fresh(1) [OF n ok] by (metis (no_types) image_iff place_eq same_line_sym)
  moreover have "compatible x r \<and> compatible r x" if x: "x \<in> set xs" for x
    using fresh_event [OF inv n ok x] fresh_previous [OF inv n ok x] fresh_next [OF inv n ok x]
      fresh_before [OF inv n ok x] fresh_after [OF inv n ok x]
    by (auto simp: compatible_def same_line_sym [of r])
  ultimately show ?thesis using inv by (auto simp: receipts_inv_def)
qed

lemma check_accepts:
  assumes n: "neighbours r xs n" and free: "place r \<notin> place ` set xs"
    and compat: "\<And>x. x \<in> set xs \<Longrightarrow> compatible x r \<and> compatible r x"
  shows "checkHubReceipt r (nb_at n) (nb_event n) (nb_previous n) (nb_next n) (nb_before n)
    (nb_after n) = Inr False"
proof -
  note f = n [unfolded neighbours_def finds_max_def finds_def]
  have at: "nb_at n = None"
  proof (cases "nb_at n")
    case (Some y)
    with f have "y \<in> set xs" "at_place r (hx_room_seq r) y" by auto
    with free show ?thesis by (metis at_place_def image_iff place_eq same_line_sym)
  qed simp
  have c: "compatible x r" "compatible r x" if "x \<in> set xs" for x using compat that by auto
  have e: "\<not> (nb_event n \<noteq> None \<and> hx_digest (the (nb_event n)) \<noteq> hx_digest r)"
    using n c(1) [of "the (nb_event n)"]
    by (cases "nb_event n") (auto simp: neighbours_def finds_max_def finds_def compatible_def at_place_def)
  have p: "\<not> (nb_previous n \<noteq> None \<and> hx_digest (the (nb_previous n)) \<noteq> hx_prev_digest r)"
    using n c(1) [of "the (nb_previous n)"]
    by (cases "nb_previous n") (auto simp: neighbours_def finds_max_def finds_def compatible_def at_place_def)
  have x: "\<not> (nb_next n \<noteq> None \<and> hx_prev_digest (the (nb_next n)) \<noteq> hx_digest r)"
    using n c(2) [of "the (nb_next n)"]
    by (cases "nb_next n") (auto simp: neighbours_def finds_max_def finds_def compatible_def at_place_def same_line_sym [of r])
  have b: "\<not> (nb_before n \<noteq> None \<and> hx_membership_epoch (the (nb_before n)) > hx_membership_epoch r)"
    using n c(1) [of "the (nb_before n)"]
    by (cases "nb_before n") (auto simp: neighbours_def finds_max_def finds_def compatible_def )
  have a: "\<not> (nb_after n \<noteq> None \<and> hx_membership_epoch (the (nb_after n)) < hx_membership_epoch r)"
    using n c(2) [of "the (nb_after n)"]
    by (cases "nb_after n") (auto simp: neighbours_def finds_max_def finds_def compatible_def same_line_sym [of r])
  show ?thesis by (simp only: checkHubReceipt_def at e p x b a if_False simp_thms)
qed

text \<open>
  C21. A receipt is accepted as new exactly when its place in the room's order is free and it
  is compatible with every stored receipt: it contradicts no placement of the same event, the
  hash chain links it to the receipts next to it, and membership epochs stay in order along
  the whole sequence, although the code looks only at the nearest stored receipts. An
  accepted receipt keeps the stored receipts one consistent sequence.
\<close>
theorem receipt_accepted_iff:
  assumes "receipts_inv (hs_receipts (hub s))"
  shows "(checkHubReceiptLocked r s = Inr False \<longleftrightarrow>
      place r \<notin> place ` set (hs_receipts (hub s)) \<and>
      list_all (\<lambda>x. compatible x r \<and> compatible r x) (hs_receipts (hub s))) \<and>
    (checkHubReceiptLocked r s = Inr False \<longrightarrow> receipts_inv (hs_receipts (hub (add_receipt r s))))"
proof -
  let ?xs = "hs_receipts (hub s)" and ?n = "fold (visit_receipt r) (hs_receipts (hub s)) no_neighbours"
  have n: "neighbours r ?xs ?n" by (rule neighbours_fold)
  have check: "checkHubReceiptLocked r s = checkHubReceipt r (nb_at ?n) (nb_event ?n)
      (nb_previous ?n) (nb_next ?n) (nb_before ?n) (nb_after ?n)"
    by (simp add: checkHubReceiptLocked_def Let_def)
  show ?thesis
  proof (intro conjI impI iffI)
    assume "checkHubReceiptLocked r s = Inr False"
    then have inv: "receipts_inv (?xs @ [r])" using receipts_inv_add [OF assms n] check by simp
    then show "receipts_inv (hs_receipts (hub (add_receipt r s)))" by (simp add: add_receipt_def)
    from inv show "place r \<notin> place ` set ?xs" by (auto simp: receipts_inv_def)
    with inv show "list_all (\<lambda>x. compatible x r \<and> compatible r x) ?xs"
      by (fastforce simp: receipts_inv_def list_all_iff)
  next
    assume "place r \<notin> place ` set ?xs \<and> list_all (\<lambda>x. compatible x r \<and> compatible r x) ?xs"
    then show "checkHubReceiptLocked r s = Inr False"
      unfolding check by (intro check_accepts [OF n]) (auto simp: list_all_iff)
  qed
qed

definition sample_receipt :: "int \<Rightarrow> string \<Rightarrow> string \<Rightarrow> hub_receipt_record" where
  "sample_receipt n d p = \<lparr>hx_global_room_id = ''g'', hx_hub_epoch = 1, hx_membership_epoch = 1,
     hx_room_seq = n, hx_event_id = d, hx_digest = d, hx_prev_digest = p, hx_message_id = [],
     hx_receipt = \<lparr>srr_receipt = [], srr_signature = []\<rparr>, hx_withheld = []\<rparr>"

theorem receipt_accepted_iff_witness:
  "checkHubReceiptLocked (sample_receipt 2 ''b'' ''a'')
     (add_receipt (sample_receipt 1 ''a'' []) NewMemoryStore) = Inr False"
proof -
  let ?s = "add_receipt (sample_receipt 1 ''a'' []) NewMemoryStore"
  have rs: "hs_receipts (hub ?s) = [sample_receipt 1 ''a'' []]"
    by (simp add: add_receipt_def NewMemoryStore_def newHubState_def)
  have "receipts_inv (hs_receipts (hub ?s))" by (simp add: rs receipts_inv_def)
  moreover have "place (sample_receipt 2 ''b'' ''a'') \<notin> place ` set (hs_receipts (hub ?s)) \<and>
      list_all (\<lambda>x. compatible x (sample_receipt 2 ''b'' ''a'') \<and>
        compatible (sample_receipt 2 ''b'' ''a'') x) (hs_receipts (hub ?s))"
    unfolding rs by (simp add: place_def compatible_def same_line_def sample_receipt_def)
  ultimately show ?thesis using receipt_accepted_iff by blast
qed

section \<open>Receipts in the store\<close>

lemma receipts_inv_bind:
  assumes "receipts_inv (hs_receipts (hub s))"
  shows "receipts_inv (hs_receipts (hub (bindHubReceiptLocked r s)))"
proof -
  define f :: "hub_receipt_record \<Rightarrow> hub_receipt_record" where "f = (\<lambda>x. if hx_global_room_id x = hx_global_room_id r \<and> hx_hub_epoch x = hx_hub_epoch r \<and>
      hx_room_seq x = hx_room_seq r \<and> hx_digest x = hx_digest r \<and> hx_message_id x = []
      then x\<lparr>hx_message_id := hx_message_id r\<rparr> else x)"
  have "place (f x) = place x" "compatible (f x) (f y) = compatible x y" for x y
    by (simp_all add: f_def place_def compatible_def same_line_def)
  with assms have "receipts_inv (map f (hs_receipts (hub s)))"
    by (auto simp: receipts_inv_def comp_def)
  then show ?thesis by (simp add: bindHubReceiptLocked_def f_def)
qed

lemma receipts_inv_check:
  "receipts_inv (hs_receipts (hub s)) \<Longrightarrow> checkHubReceiptLocked r s = Inr False \<Longrightarrow>
   receipts_inv (hs_receipts (hub s) @ [r])"
  using receipts_inv_add [OF _ neighbours_fold] by (simp add: checkHubReceiptLocked_def Let_def)

lemma append_hub: "appendMessageLocked m env s = (Inr l, s') \<Longrightarrow> hub s' = hub s"
  using append_success(3) placed_histories(10) by fastforce

lemma receipts_inv_append:
  assumes inv: "receipts_inv (hs_receipts (hub s))"
    and ap: "appendWithHubReceiptLocked rc env m s = (res, s')"
  shows "receipts_inv (hs_receipts (hub s'))"
proof (cases res)
  case (Inl e)
  with ap append_error have "s' = s"
    by (auto simp: appendWithHubReceiptLocked_def Let_def split: sum.splits prod.splits option.splits)
  with inv show ?thesis by simp
next
  case (Inr l)
  with ap obtain s1 where s1: "appendMessageLocked m (envelopeForMessage env m) s = (Inr l, s1)"
    and s': "rc = None \<and> s' = s1 \<or>
      (\<exists>r dup. checkHubReceiptLocked r s = Inr dup \<and>
         s' = (if dup then bindHubReceiptLocked r s1 else add_receipt r s1))"
    by (auto simp: appendWithHubReceiptLocked_def Let_def hubReceiptForMessage_def
        split: sum.splits prod.splits option.splits)
  have "hub s1 = hub s" using s1 by (rule append_hub)
  with inv s' show ?thesis
    using receipts_inv_bind [of s1] receipts_inv_check
    by (auto simp: add_receipt_def split: if_splits)
qed

lemma receipts_inv_attach:
  "receipts_inv (hs_receipts (hub s)) \<Longrightarrow> attachHubReceiptLocked r s = (e, s') \<Longrightarrow>
   receipts_inv (hs_receipts (hub s'))"
  using receipts_inv_bind receipts_inv_check
  by (auto simp: attachHubReceiptLocked_def add_receipt_def split: if_splits sum.splits bool.splits)

lemma receipts_inv_store:
  "receipts_inv (hs_receipts (hub s)) \<Longrightarrow> storeHubReceiptLocked r s = (e, s') \<Longrightarrow>
   receipts_inv (hs_receipts (hub s'))"
  using receipts_inv_check
  by (auto simp: storeHubReceiptLocked_def Let_def add_receipt_def split: if_splits sum.splits bool.splits)

section \<open>The control log\<close>

definition log_of :: "memory_store \<Rightarrow> hub_control_record list strmap \<Rightarrow> string \<Rightarrow> hub_control_record list" where
  "log_of s staged g = (case fmlookup staged g of Some l \<Rightarrow> l | None \<Rightarrow> fmget [] (hs_control (hub s)) g)"

definition holds_at :: "hub_control_record list \<Rightarrow> hub_control_record \<Rightarrow> bool" where
  "holds_at log r \<longleftrightarrow> 1 \<le> hc_seq r \<and> hc_seq r \<le> int (length log) \<and>
     hc_digest (log ! nat (hc_seq r - 1)) = hc_digest r"

lemma holds_at_prefix: "holds_at l r \<Longrightarrow> prefix l l' \<Longrightarrow> holds_at l' r"
  by (auto simp: holds_at_def prefix_def nth_append)

lemma stage_control_step:
  assumes "stage_control s r staged = Inr staged'"
  shows "prefix (log_of s staged g) (log_of s staged' g)"
    "holds_at (log_of s staged' (hc_global_room_id r)) r"
    "fmdom staged' = finsert (hc_global_room_id r) (fmdom staged)"
    "hc_global_room_id r |\<in>| fmdom (hs_rooms (hub s))"
    "\<exists>new. log_of s staged' (hc_global_room_id r) = log_of s staged (hc_global_room_id r) @ new \<and>
       (new = [] \<or> new = [r] \<and> hc_seq r = int (length (log_of s staged (hc_global_room_id r))) + 1)"
  using assms
  by (auto simp: stage_control_def Let_def log_of_def [symmetric] log_of_def [of s "fmupd _ _ _"]
      holds_at_def nth_append split: if_splits)

lemma stage_controls_all:
  "stage_controls s rs staged = Inr staged' \<Longrightarrow>
     (\<forall>g. prefix (log_of s staged g) (log_of s staged' g)) \<and>
     (\<forall>r \<in> set rs. holds_at (log_of s staged' (hc_global_room_id r)) r \<and>
       hc_global_room_id r |\<in>| fmdom (hs_rooms (hub s))) \<and>
     fmdom staged' = fset_of_list (map hc_global_room_id rs) |\<union>| fmdom staged"
proof (induction rs arbitrary: staged)
  case (Cons r rs)
  obtain st where st: "stage_control s r staged = Inr st" "stage_controls s rs st = Inr staged'"
    using Cons.prems by (auto split: sum.splits)
  note one = stage_control_step [OF st(1)] and rest = Cons.IH [OF st(2)]
  have "prefix (log_of s staged g) (log_of s staged' g)" for g
    using one(1) rest prefix_order.order_trans by blast
  with one(2-4) rest holds_at_prefix show ?case by auto
qed simp

lemma stage_controls_step:
  assumes "stage_controls s rs staged = Inr staged'"
  shows "prefix (log_of s staged g) (log_of s staged' g)"
    "\<forall>r \<in> set rs. holds_at (log_of s staged' (hc_global_room_id r)) r \<and>
       hc_global_room_id r |\<in>| fmdom (hs_rooms (hub s))"
    "fmdom staged' = fset_of_list (map hc_global_room_id rs) |\<union>| fmdom staged"
  using stage_controls_all [OF assms] by auto

lemma control_after_stage:
  "fmget [] (hs_control (hub s) ++\<^sub>f staged) g = log_of s staged g"
  by (cases "fmlookup staged g") (auto simp: fmget_def log_of_def fmdom_notI split: option.splits)

text \<open>
  C24. Appending control records is all or nothing, and only extends logs: on an error no log
  changes; on success every stored log is a prefix of the new one, and each given record is
  the one its log holds at its sequence number (by digest), so a log never has a gap and a
  stored event is never replaced.
\<close>
theorem control_append_extends:
  "case appendHubControlLocked rs s of
     (Some e, s') \<Rightarrow> s' = s
   | (None, s') \<Rightarrow>
       (\<forall>g. prefix (fmget [] (hs_control (hub s)) g) (fmget [] (hs_control (hub s')) g)) \<and>
       list_all (\<lambda>r. holds_at (fmget [] (hs_control (hub s')) (hc_global_room_id r)) r) rs"
proof (cases "stage_controls s rs fmempty")
  case (Inl e)
  then show ?thesis by (simp add: appendHubControlLocked_def)
next
  case (Inr staged)
  have "log_of s fmempty g = fmget [] (hs_control (hub s)) g" for g by (simp add: log_of_def)
  with stage_controls_step [OF Inr] Inr show ?thesis
    by (simp add: appendHubControlLocked_def control_after_stage list_all_iff)
qed

definition contiguous :: "string \<Rightarrow> hub_control_record list \<Rightarrow> bool" where
  "contiguous g log \<longleftrightarrow>
     (\<forall>i < length log. hc_seq (log ! i) = int i + 1 \<and> hc_global_room_id (log ! i) = g)"

lemma contiguous_Nil [simp]: "contiguous g []"
  by (simp add: contiguous_def)

lemma contiguous_snoc:
  "contiguous g (log @ [r]) \<longleftrightarrow> contiguous g log \<and> hc_seq r = int (length log) + 1 \<and> hc_global_room_id r = g"
  by (auto simp: contiguous_def nth_append less_Suc_eq)

lemma stage_control_contiguous:
  assumes "stage_control s r staged = Inr staged'" and "\<And>g. contiguous g (log_of s staged g)"
  shows "contiguous g (log_of s staged' g)"
proof (cases "g = hc_global_room_id r")
  case True
  with stage_control_step(5) [OF assms(1)] assms(2) [of g] show ?thesis
    by (auto simp: contiguous_snoc)
next
  case False
  with assms show ?thesis
    by (auto simp: stage_control_def Let_def log_of_def split: if_splits)
qed

lemma stage_controls_contiguous:
  "stage_controls s rs staged = Inr staged' \<Longrightarrow> (\<And>g. contiguous g (log_of s staged g)) \<Longrightarrow>
   contiguous g (log_of s staged' g)"
proof (induction rs arbitrary: staged)
  case (Cons r rs)
  then obtain st where "stage_control s r staged = Inr st" "stage_controls s rs st = Inr staged'"
    by (auto split: sum.splits)
  with Cons.IH Cons.prems(2) stage_control_contiguous show ?case by blast
qed simp

definition control_inv :: "hub_state \<Rightarrow> bool" where
  "control_inv h \<longleftrightarrow>
     keyed_by hr_global_room_id (hs_rooms h) \<and>
     (\<forall>a b. a \<in> set (fmvalues (hs_rooms h)) \<longrightarrow> b \<in> set (fmvalues (hs_rooms h)) \<longrightarrow>
        hr_local_room_id a = hr_local_room_id b \<longrightarrow> a = b) \<and>
     fmdom (hs_control h) = fmdom (hs_rooms h) \<and>
     (\<forall>g. contiguous g (fmget [] (hs_control h) g) \<and>
        (g |\<in>| fmdom (hs_rooms h) \<longrightarrow> fmget [] (hs_control h) g \<noteq> []))"

lemma control_inv_append:
  assumes inv: "control_inv (hub s)" and ap: "appendHubControlLocked rs s = (e, s')"
  shows "control_inv (hub s')"
proof (cases "stage_controls s rs fmempty")
  case (Inl e)
  with assms show ?thesis by (simp add: appendHubControlLocked_def)
next
  case (Inr staged)
  have base: "log_of s fmempty g = fmget [] (hs_control (hub s)) g" for g by (simp add: log_of_def)
  note step = stage_controls_step [OF Inr]
  have "contiguous g (log_of s staged g)" for g
    using stage_controls_contiguous [OF Inr] inv by (simp add: base control_inv_def)
  moreover have "fmget [] (hs_control (hub s)) g \<noteq> [] \<Longrightarrow> log_of s staged g \<noteq> []" for g
    using step(1) [of g] by (auto simp: base)
  moreover have "fmdom staged |\<subseteq>| fmdom (hs_rooms (hub s))"
    using step(2,3) by (auto simp: fset_of_list_elem)
  ultimately show ?thesis using inv ap Inr
    by (auto simp: appendHubControlLocked_def control_inv_def control_after_stage)
qed

lemma control_inv_create:
  assumes inv: "control_inv (hub s)" and cr: "createHubRoomLocked r genesis s = (e, s')"
  shows "control_inv (hub s')"
proof (cases e)
  case (Some x)
  with assms show ?thesis by (auto simp: createHubRoomLocked_def Let_def split: if_splits)
next
  case None
  let ?g = "hr_global_room_id r"
  have ok: "?g |\<notin>| fmdom (hs_rooms (hub s))"
      "\<forall>x \<in> set (fmvalues (hs_rooms (hub s))). hr_local_room_id x \<noteq> hr_local_room_id r"
      "hc_seq genesis = 1" "hc_global_room_id genesis = ?g"
    and s': "hs_rooms (hub s') = fmupd ?g r (hs_rooms (hub s))"
      "hs_control (hub s') = fmupd ?g [genesis] (hs_control (hub s))"
    using cr None by (auto simp: createHubRoomLocked_def Let_def list_ex_iff split: if_splits)
  have vals: "set (fmvalues (hs_rooms (hub s'))) \<subseteq> insert r (set (fmvalues (hs_rooms (hub s))))"
    by (auto simp: s' set_fmvalues split: if_splits)
  have "a = b" if "a \<in> set (fmvalues (hs_rooms (hub s')))" "b \<in> set (fmvalues (hs_rooms (hub s')))"
    "hr_local_room_id a = hr_local_room_id b" for a b
    using that vals ok(2) inv by (auto simp: control_inv_def) (metis insertE subsetD)+
  moreover have "keyed_by hr_global_room_id (hs_rooms (hub s'))"
    using inv by (auto simp: s' control_inv_def)
  ultimately show ?thesis
    using inv ok(3,4) by (auto simp: control_inv_def s' contiguous_def)
qed

section \<open>Sync cursors\<close>

text \<open>
  C25. A sync cursor never moves backwards: a refused cursor changes nothing; an accepted one
  leaves the room's cursor where it was or moves it to a later sequence number, with a
  membership epoch at least as high, and other rooms' cursors stay. In particular a home
  cannot make a member replace the receipt it verified at a sequence number.
\<close>
theorem cursor_never_rolls_back:
  "case advanceHubSyncCursorLocked c s of
     (Some e, s') \<Rightarrow> s' = s
   | (None, s') \<Rightarrow>
       (let old = fmget zero_cursor (hs_cursors (hub s)) (cur_global_room_id c);
            new = fmget zero_cursor (hs_cursors (hub s')) (cur_global_room_id c)
        in cur_seq c \<le> cur_seq new \<and>
           (new = old \<or> new = c \<and> cur_seq old < cur_seq new \<and>
              cur_membership_epoch old \<le> cur_membership_epoch new) \<and>
           fmdrop (cur_global_room_id c) (hs_cursors (hub s')) =
           fmdrop (cur_global_room_id c) (hs_cursors (hub s)))"
  by (auto simp: advanceHubSyncCursorLocked_def checkCursorAdvance_def Let_def fmap_ext
      intro!: fmap_ext split: sum.splits if_splits)

end
