(* ===== verification/DM_Topology.thy ===== *)
theory DM_Topology
  imports Message_Invariants
begin

text \<open>
  The topology of direct conversations: resolving participants does not depend on their
  order, normalised participants resolve to themselves as long as no network or agent id
  contains a colon, and so every stored message of a conversation has the conversation's
  network and participants.
\<close>

section \<open>Resolving participants\<close>

lemma resolve_participants_eq:
  "resolve_participants n ps =
     (if \<forall>p \<in> set ps. resolveDMIdentity n p \<noteq> None
      then Some (map (\<lambda>p. the (resolveDMIdentity n p)) ps) else None)"
  by (induction ps) (auto split: option.splits)

lemma resolveDMIdentity_valid:
  "resolveDMIdentity d v = Some (n, a) \<Longrightarrow> messageIDPattern n \<and> messageIDPattern a"
  by (auto simp: resolveDMIdentity_def validDMIdentity_def Let_def ValidateMessageID_None
      split: option.splits if_splits)

definition canonical_id :: "string \<Rightarrow> string \<Rightarrow> string" where
  "canonical_id n p = (case the (resolveDMIdentity n p) of (m, a) \<Rightarrow> ScopedAgentID m a)"

lemma canonical_id_trim:
  assumes "resolveDMIdentity n p \<noteq> None"
  shows "trim_space (canonical_id n p) = canonical_id n p" "canonical_id n p \<noteq> []"
proof -
  obtain m a where r: "resolveDMIdentity n p = Some (m, a)" using assms by auto
  then have v: "messageIDPattern m" "messageIDPattern a" using resolveDMIdentity_valid by auto
  with r show "trim_space (canonical_id n p) = canonical_id n p"
    by (simp add: canonical_id_def ScopedAgentID_trim)
  from r v show "canonical_id n p \<noteq> []" by (simp add: canonical_id_def ScopedAgentID_valid)
qed

definition participants :: "string list \<Rightarrow> string set" where
  "participants xs = trim_space ` set xs - {[]}"

lemma length_UniqueTrimmedStrings: "length (UniqueTrimmedStrings xs) = card (participants xs)"
  by (metis distinct_UniqueTrimmedStrings distinct_card participants_def set_UniqueTrimmedStrings)

text \<open>The canonical participants are a function of the set of trimmed participants.\<close>

lemma canonical_participants_eq:
  "canonical_participants n xs =
     (if (\<forall>p \<in> participants xs. resolveDMIdentity n p \<noteq> None) \<and>
         2 \<le> card (canonical_id n ` participants xs) \<and>
         card (canonical_id n ` participants xs) = card (participants xs)
      then Some (sorted_list_of_set (canonical_id n ` participants xs),
                 \<forall>p \<in> participants xs. fst (the (resolveDMIdentity n p)) = n)
      else None)"
proof (cases "\<forall>p \<in> participants xs. resolveDMIdentity n p \<noteq> None")
  case True
  let ?U = "UniqueTrimmedStrings xs"
  have U: "set ?U = participants xs" by (simp add: set_UniqueTrimmedStrings participants_def)
  with True have res: "resolve_participants n ?U = Some (map (\<lambda>p. the (resolveDMIdentity n p)) ?U)"
    by (simp add: resolve_participants_eq)
  have "trim_space ` canonical_id n ` participants xs - {[]} = canonical_id n ` participants xs"
    using True canonical_id_trim by (force simp: image_iff)
  then have "SortedUniqueTrimmedStrings (map (canonical_id n) ?U) =
      sorted_list_of_set (canonical_id n ` participants xs)"
    by (simp add: SortedUniqueTrimmedStrings_sorted_list U)
  moreover have "map (canonical_id n) ?U =
      map (\<lambda>(m, a). ScopedAgentID m a) (map (\<lambda>p. the (resolveDMIdentity n p)) ?U)"
    by (simp add: canonical_id_def)
  ultimately have canon: "SortedUniqueTrimmedStrings (map (\<lambda>(m, a). ScopedAgentID m a)
        (map (\<lambda>p. the (resolveDMIdentity n p)) ?U)) =
      sorted_list_of_set (canonical_id n ` participants xs)" by simp
  have len: "length (sorted_list_of_set (canonical_id n ` participants xs)) =
      card (canonical_id n ` participants xs)" by simp
  show ?thesis
    unfolding canonical_participants_def Let_def res option.case canon len length_UniqueTrimmedStrings
    using True U by (auto simp: list_all_iff case_prod_beta)
next
  case False
  moreover have U: "set (UniqueTrimmedStrings xs) = participants xs"
    by (simp add: set_UniqueTrimmedStrings participants_def)
  ultimately have "resolve_participants n (UniqueTrimmedStrings xs) = None"
    unfolding resolve_participants_eq U by (simp only: if_False)
  then have "canonical_participants n xs = None" by (simp add: canonical_participants_def)
  then show ?thesis using False by (simp only: if_False simp_thms)
qed

lemma canonical_participants_cong:
  "participants xs = participants ys \<Longrightarrow> canonical_participants n xs = canonical_participants n ys"
  by (simp add: canonical_participants_eq)

section \<open>Normalised participants are stable\<close>

definition colon_free :: "string \<Rightarrow> string list \<Rightarrow> bool" where
  "colon_free n xs \<longleftrightarrow>
     (\<forall>p \<in> participants xs. case resolveDMIdentity n p of None \<Rightarrow> True
        | Some (m, a) \<Rightarrow> CHR '':'' \<notin> set m \<and> CHR '':'' \<notin> set a)"

lemma resolve_canonical:
  assumes "messageIDPattern m" and "messageIDPattern a" and "CHR '':'' \<notin> set m"
  shows "resolveDMIdentity n (ScopedAgentID m a) = Some (m, a)"
  using assms by (simp add: resolveDMIdentity_def Let_def ScopedAgentID_trim
      ParseScopedAgentID_ScopedAgentID validDMIdentity_def valid_id_trim ValidateMessageID_None)

lemma resolve_bare:
  assumes "messageIDPattern n" and "messageIDPattern a" and "CHR '':'' \<notin> set a"
  shows "resolveDMIdentity n a = Some (n, a)"
  using assms by (simp add: resolveDMIdentity_def Let_def ParseScopedAgentID_bare
      ParseAgentFQID_bare validDMIdentity_def valid_id_trim ValidateMessageID_None)

lemma resolved:
  assumes "colon_free n xs" and "p \<in> participants xs" and "resolveDMIdentity n p \<noteq> None"
  obtains m a where "resolveDMIdentity n p = Some (m, a)" "messageIDPattern m" "messageIDPattern a"
    "CHR '':'' \<notin> set m" "CHR '':'' \<notin> set a" "canonical_id n p = ScopedAgentID m a"
  using assms resolveDMIdentity_valid by (fastforce simp: colon_free_def canonical_id_def)

lemma canonical_stable:
  assumes cf: "colon_free n xs" and c: "canonical_participants n xs = Some (cs, loc)"
    and bk: "\<And>p. p \<in> participants xs \<Longrightarrow> trim_space (bk (canonical_id n p)) = bk (canonical_id n p) \<and>
      bk (canonical_id n p) \<noteq> [] \<and>
      resolveDMIdentity n (bk (canonical_id n p)) = resolveDMIdentity n p"
  shows "map_option fst (canonical_participants n (map bk cs)) = Some cs"
proof -
  have all: "\<forall>p \<in> participants xs. resolveDMIdentity n p \<noteq> None"
    and card: "2 \<le> card (canonical_id n ` participants xs)"
      "card (canonical_id n ` participants xs) = card (participants xs)"
    and cs: "cs = sorted_list_of_set (canonical_id n ` participants xs)"
    using c by (auto simp: canonical_participants_eq split: if_splits)
  have fin: "finite (participants xs)" by (simp add: participants_def)
  then have "set cs = canonical_id n ` participants xs" by (simp add: cs)
  then have "trim_space ` set (map bk cs) = (\<lambda>p. bk (canonical_id n p)) ` participants xs"
    by (simp add: image_image bk cong: image_cong)
  moreover have "[] \<notin> (\<lambda>p. bk (canonical_id n p)) ` participants xs" using bk by fastforce
  ultimately have parts: "participants (map bk cs) = (\<lambda>p. bk (canonical_id n p)) ` participants xs"
    by (simp add: participants_def [of "map bk cs"])
  have canon: "canonical_id n (bk (canonical_id n p)) = canonical_id n p" if "p \<in> participants xs" for p
    using bk [OF that] by (simp add: canonical_id_def)
  then have img: "canonical_id n ` participants (map bk cs) = canonical_id n ` participants xs"
    unfolding parts image_image by (intro image_cong) auto
  have inj: "inj_on (canonical_id n) (participants xs)" using card(2) fin by (simp add: eq_card_imp_inj_on)
  have "inj_on (\<lambda>p. bk (canonical_id n p)) (participants xs)"
  proof (rule inj_onI)
    fix x y assume xy: "x \<in> participants xs" "y \<in> participants xs"
      and eq: "bk (canonical_id n x) = bk (canonical_id n y)"
    have "canonical_id n x = canonical_id n y"
      using canon [OF xy(1)] canon [OF xy(2)] unfolding eq by (rule trans [OF sym])
    with inj xy show "x = y" by (simp add: inj_on_eq_iff)
  qed
  then have size: "card (participants (map bk cs)) = card (participants xs)"
    unfolding parts by (rule card_image)
  have "\<forall>p \<in> participants (map bk cs). resolveDMIdentity n p \<noteq> None"
    unfolding parts using all bk by auto
  then show ?thesis
    unfolding canonical_participants_eq [of n "map bk cs"] img size cs [symmetric]
    by (subst if_P) (use card in simp_all)
qed

definition agent_part :: "string \<Rightarrow> string" where
  "agent_part c = (case ParseScopedAgentID c of Some (_, a) \<Rightarrow> a | None \<Rightarrow> [])"

lemma topology_stable:
  assumes ok: "topologyForDMMessage m = Inr tp"
    and cf: "colon_free (trim_space (msg_network_id m)) (tgt_participant_ids (msg_target m))"
  shows "topology_matches tp (msg_network_id m) (top_participant_ids tp)"
proof -
  let ?n = "trim_space (msg_network_id m)" and ?xs = "tgt_participant_ids (msg_target m)"
  obtain cs loc where n: "?n \<noteq> []" and c: "canonical_participants ?n ?xs = Some (cs, loc)"
    and tp: "top_network_id tp = ?n" "top_canonical_ids tp = cs"
      "top_participant_ids tp = (if loc then map agent_part cs else cs)"
    using ok
    by (auto simp: topologyForDMMessage_def Let_def agent_part_def split: if_splits option.splits)
  have all: "resolveDMIdentity ?n p \<noteq> None" if "p \<in> participants ?xs" for p
    using c that by (auto simp: canonical_participants_eq split: if_splits)
  have "map_option fst (canonical_participants ?n (top_participant_ids tp)) = Some cs"
  proof (cases loc)
    case True
    have loc: "fst (the (resolveDMIdentity ?n p)) = ?n" if "p \<in> participants ?xs" for p
      using c that True by (auto simp: canonical_participants_eq split: if_splits)
    have "map_option fst (canonical_participants ?n (map agent_part cs)) = Some cs"
    proof (rule canonical_stable [OF cf c])
      fix p assume p: "p \<in> participants ?xs"
      obtain k a where r: "resolveDMIdentity ?n p = Some (k, a)" "messageIDPattern k"
        "messageIDPattern a" "CHR '':'' \<notin> set k" "CHR '':'' \<notin> set a"
        "canonical_id ?n p = ScopedAgentID k a"
        using resolved [OF cf p all [OF p]] by blast
      with loc [OF p] have k: "k = ?n" by simp
      have "agent_part (canonical_id ?n p) = a"
        using r ParseScopedAgentID_ScopedAgentID [of k a] by (simp add: agent_part_def)
      with r k resolve_bare [of ?n a]
      show "trim_space (agent_part (canonical_id ?n p)) = agent_part (canonical_id ?n p) \<and>
          agent_part (canonical_id ?n p) \<noteq> [] \<and>
          resolveDMIdentity ?n (agent_part (canonical_id ?n p)) = resolveDMIdentity ?n p"
        by (auto simp: valid_id_trim)
    qed
    with tp True show ?thesis by simp
  next
    case False
    have "map_option fst (canonical_participants ?n (map (\<lambda>c. c) cs)) = Some cs"
    proof (rule canonical_stable [OF cf c])
      fix p assume p: "p \<in> participants ?xs"
      obtain k a where r: "resolveDMIdentity ?n p = Some (k, a)" "messageIDPattern k"
        "messageIDPattern a" "CHR '':'' \<notin> set k" "canonical_id ?n p = ScopedAgentID k a"
        using resolved [OF cf p all [OF p]] by metis
      with resolve_canonical [of k a ?n] canonical_id_trim [OF all [OF p]]
      show "trim_space (canonical_id ?n p) = canonical_id ?n p \<and> canonical_id ?n p \<noteq> [] \<and>
          resolveDMIdentity ?n (canonical_id ?n p) = resolveDMIdentity ?n p" by simp
    qed
    with tp False show ?thesis by simp
  qed
  with tp n show ?thesis
    by (auto simp: topology_matches_def topologyForStoredDM_def Let_def)
qed

section \<open>Conversations keep their topology\<close>

definition same_topology :: "dm_topology \<Rightarrow> dm_topology \<Rightarrow> bool" where
  "same_topology t u \<longleftrightarrow>
     top_network_id t = top_network_id u \<and> top_canonical_ids t = top_canonical_ids u"

lemma topology_matches_same:
  "topology_matches t n ps \<Longrightarrow> topology_matches u n ps \<longleftrightarrow> same_topology u t"
  by (auto simp: topology_matches_def same_topology_def split: sum.splits)

lemma topology_matches_members:
  "topology_matches t n (directMemberIDs (fset_of_list ps)) \<longleftrightarrow> topology_matches t n ps"
proof -
  have "participants (directMemberIDs (fset_of_list ps)) = participants ps"
    by (simp add: participants_def directMemberIDs_def fset_of_list.rep_eq)
  then have "canonical_participants k (directMemberIDs (fset_of_list ps)) = canonical_participants k ps"
    for k by (rule canonical_participants_cong)
  then show ?thesis by (simp add: topology_matches_def topologyForStoredDM_def Let_def)
qed

definition conversation_ok :: "memory_store \<Rightarrow> string \<Rightarrow> message list \<Rightarrow> dm_topology \<Rightarrow> bool" where
  "conversation_ok s d l t \<longleftrightarrow>
     (l \<noteq> [] \<longrightarrow> topology_matches t (msg_network_id (hd l))
        (directMemberIDs (fmget {||} (directMembers s) d))) \<and>
     (\<forall>m \<in> set l. topology_matches t (msg_network_id m) (tgt_participant_ids (msg_target m)))"

definition dm_inv :: "memory_store \<Rightarrow> bool" where
  "dm_inv s \<longleftrightarrow> (\<forall>d. \<exists>t. conversation_ok s d (fmget [] (directMessages s) d) t)"

lemma append_dm_conversation:
  assumes ap: "append_dm_message m tp s = (Inr lc, s1)"
    and d: "d = tgt_dm_id (msg_target m)"
    and st: "topology_matches tp (msg_network_id m) (tgt_participant_ids (msg_target m))"
    and mem: "tgt_participant_ids (msg_target m) = top_participant_ids tp"
    and old: "conversation_ok s d (fmget [] (directMessages s) d) t"
  shows "conversation_ok s1 d (fmget [] (directMessages s) d @ [m]) tp"
proof (cases "fmget [] (directMessages s) d = []")
  case True
  then have "fmget {||} (directMembers s1) d = fset_of_list (top_participant_ids tp)"
    using ap by (auto simp: append_dm_message_def Let_def d [symmetric])
  with True st mem show ?thesis by (simp add: conversation_ok_def topology_matches_members)
next
  case False
  then have mt: "topology_matches tp (msg_network_id (hd (fmget [] (directMessages s) d)))
      (directMemberIDs (fmget {||} (directMembers s) d))"
    and same: "directMembers s1 = directMembers s"
    using ap by (auto simp: append_dm_message_def Let_def d [symmetric] split: if_splits)
  from old False have "topology_matches t (msg_network_id (hd (fmget [] (directMessages s) d)))
      (directMemberIDs (fmget {||} (directMembers s) d))" by (simp add: conversation_ok_def)
  from topology_matches_same [OF this] mt have eq: "same_topology tp t" by simp
  have "topology_matches tp (msg_network_id x) (tgt_participant_ids (msg_target x))"
    if "x \<in> set (fmget [] (directMessages s) d)" for x
    using old that eq topology_matches_same by (auto simp: conversation_ok_def)
  with False mt st same show ?thesis by (auto simp: conversation_ok_def)
qed

lemma dm_inv_other:
  "directMessages s1 = directMessages s \<Longrightarrow> directMembers s1 = directMembers s \<Longrightarrow> dm_inv s1 = dm_inv s"
  by (simp add: dm_inv_def conversation_ok_def)

lemma append_dm_message_fields:
  assumes "append_dm_message m tp s = (Inr lc, s1)" and "d = tgt_dm_id (msg_target m)"
  shows "fmget [] (directMessages s1) k =
      (if k = d then fmget [] (directMessages s) d @ [m] else fmget [] (directMessages s) k)"
    "k \<noteq> d \<Longrightarrow> fmget {||} (directMembers s1) k = fmget {||} (directMembers s) k"
  using assms by (auto simp: append_dm_message_def Let_def split: if_splits)

lemma dm_inv_append:
  assumes inv: "dm_inv s" and ok: "appendMessageLocked m env s = (Inr l, s')"
    and cf: "tgt_kind (msg_target m) = TargetKindDM \<Longrightarrow>
      colon_free (trim_space (msg_network_id m)) (tgt_participant_ids (msg_target m))"
  shows "dm_inv s'"
proof -
  obtain m' s1 where pl: "placed m s m' l s1" and s': "s' = finish_append m' env s1"
    using append_success(3) [OF ok] by blast
  have "dm_inv s1"
    using pl
  proof (cases rule: placed.cases)
    case (dm tp)
    let ?d = "tgt_dm_id (msg_target m')"
    have st: "topology_matches tp (msg_network_id m') (tgt_participant_ids (msg_target m'))"
      using topology_stable [OF dm(2) cf [OF dm(1)]] dm(3) by simp
    have mem: "tgt_participant_ids (msg_target m') = top_participant_ids tp" using dm(3) by simp
    note fields = append_dm_message_fields [OF dm(4) refl]
    show ?thesis unfolding dm_inv_def
    proof
      fix d obtain t where t: "conversation_ok s d (fmget [] (directMessages s) d) t"
        using inv by (auto simp: dm_inv_def)
      show "\<exists>t. conversation_ok s1 d (fmget [] (directMessages s1) d) t"
        using append_dm_conversation [OF dm(4) _ st mem t] t fields
        by (cases "d = ?d") (auto simp: conversation_ok_def)
    qed
  next
    case thread
    then have "directMessages s1 = directMessages s" "directMembers s1 = directMembers s"
      by (auto simp: append_thread_message_def Let_def)
    with inv show ?thesis using dm_inv_other [of s1 s] by simp
  qed (use inv in \<open>simp_all add: append_room_message_def Let_def dm_inv_def conversation_ok_def\<close>)
  moreover have "dm_inv s' = dm_inv s1" unfolding s' by (rule dm_inv_other) simp_all
  ultimately show ?thesis by simp
qed

section \<open>Properties\<close>

definition filed_at_end :: "message \<Rightarrow> memory_store \<Rightarrow> memory_store \<Rightarrow> bool" where
  "filed_at_end m s s' \<longleftrightarrow>
     (let t = msg_target m; kind = tgt_kind t
      in roomMessages s' = (if kind = TargetKindRoom
           then appended m (tgt_room_id t) (roomMessages s) else roomMessages s) \<and>
         threadMessages s' = (if kind = TargetKindThread
           then appended m (tgt_thread_id t) (threadMessages s) else threadMessages s) \<and>
         directMessages s' = (if kind = TargetKindDM
           then appended m (tgt_dm_id t) (directMessages s) else directMessages s))"

text \<open>
  Appending a message either fails and leaves the store exactly as it was, or takes an
  id that was not taken before, records it, and adds one message at the end of the history
  its target names, leaving every other history as it was. The stored message is the given
  one up to the normalised participants of a direct message.
\<close>
lemma append_functional:
  "case appendMessageLocked m env s of
     (Inl e, s') \<Rightarrow> s' = s
   | (Inr l, s') \<Rightarrow>
       msg_id m |\<notin>| messageIDs s \<and> messageIDs s' = finsert (msg_id m) (messageIDs s) \<and>
       (\<exists>m'. filed_at_end m' s s' \<and>
          (m' = m \<or> tgt_kind (msg_target m) = TargetKindDM \<and>
             (\<exists>ps. m' = m\<lparr>msg_target := (msg_target m)\<lparr>tgt_participant_ids := ps\<rparr>\<rparr>)))"
proof (cases "appendMessageLocked m env s")
  case (Pair r s')
  show ?thesis
  proof (cases r)
    case (Inl e)
    with Pair append_error show ?thesis by auto
  next
    case (Inr l)
    then have ok: "appendMessageLocked m env s = (Inr l, s')" using Pair by simp
    obtain m' s1 where pl: "placed m s m' l s1" and s': "s' = finish_append m' env s1"
      using append_success(3) [OF ok] by blast
    have "m' = m \<or> tgt_kind (msg_target m) = TargetKindDM \<and>
        (\<exists>ps. m' = m\<lparr>msg_target := (msg_target m)\<lparr>tgt_participant_ids := ps\<rparr>\<rparr>)"
      using pl by (cases rule: placed.cases) auto
    moreover have "filed_at_end m' s s'"
      using placed_histories [OF pl] placed_id [OF pl] by (simp add: filed_at_end_def Let_def s')
    moreover have "messageIDs s' = finsert (msg_id m) (messageIDs s)"
      using placed_histories [OF pl] placed_id [OF pl] by (simp add: s')
    ultimately show ?thesis using append_success(1) [OF ok] ok by (simp only: prod.case sum.case) blast
  qed
qed

section \<open>Retries\<close>

lemma check_after_append:
  assumes ok: "appendMessageLocked m env s = (Inr l, s')"
    and key: "messageOriginReceipt m2 = messageOriginReceipt m" "messageOriginReceipt m \<noteq> []"
  shows "checkOriginReceiptLocked m2 env2 s' =
    Some (if envelopeDigest env = envelopeDigest env2 then ErrDuplicateMessage (Some (msg_id m))
          else ErrEnvelopeConflict (msg_origin m2) (envelopeDigest env) (envelopeDigest env2))"
proof -
  obtain m' s1 where pl: "placed m s m' l s1" and s': "s' = finish_append m' env s1"
    using append_success(3) [OF ok] by blast
  have "messageOriginReceipt m' = messageOriginReceipt m" "msg_id m' = msg_id m"
    using placed_id [OF pl] messageOriginReceipt_cong [of m' m] by simp_all
  with key show ?thesis by (simp add: checkOriginReceiptLocked_def s')
qed


definition relayed_message :: "string \<Rightarrow> message" where
  "relayed_message i = (sample_message i)\<lparr>msg_origin :=
     (msg_origin (sample_message i))\<lparr>org_network_id := ''peer'', org_message_id := ''m7'',
        org_received_via := ''pair1''\<rparr>\<rparr>"

lemma append_relayed:
  "\<exists>l s'. appendMessageLocked (relayed_message i) env NewMemoryStore = (Inr l, s')"
  by (simp add: appendMessageLocked_def checkOriginReceiptLocked_def NewMemoryStore_def Let_def
      relayed_message_def sample_message_def)


lemma find_last:
  "(\<And>x. x \<in> set xs \<Longrightarrow> \<not> P x) \<Longrightarrow> P y \<Longrightarrow> find P (xs @ [y]) = Some y"
  by (induction xs) auto

lemma dm_duplicate_matches:
  assumes inv: "history_inv s" and fresh: "msg_id m' |\<notin>| messageIDs s"
    and ap: "append_dm_message m' tp s = (Inr l, s1)"
    and st: "topology_matches tp (msg_network_id m') (tgt_participant_ids (msg_target m'))"
    and mem: "tgt_participant_ids (msg_target m') = top_participant_ids tp"
    and kind: "tgt_kind (msg_target m') = TargetKindDM"
  shows "duplicateDMTopologyMatchesLocked m' tp (finish_append m' env s1)"
proof -
  let ?d = "tgt_dm_id (msg_target m')" and ?old = "fmget [] (directMessages s) (tgt_dm_id (msg_target m'))"
  have msgs: "fmget [] (directMessages s1) ?d = ?old @ [m']"
    using append_dm_message_fields(1) [OF ap refl, of ?d] by simp
  have first: "topology_matches tp (msg_network_id (hd (?old @ [m'])))
      (directMemberIDs (fmget {||} (directMembers s1) ?d))"
  proof (cases "?old = []")
    case True
    then have "fmget {||} (directMembers s1) ?d = fset_of_list (top_participant_ids tp)"
      using ap by (auto simp: append_dm_message_def Let_def)
    with True st mem show ?thesis by (simp add: topology_matches_members)
  next
    case False
    with ap show ?thesis by (auto simp: append_dm_message_def Let_def split: if_splits)
  qed
  have "msg_id x \<noteq> msg_id m'" if "x \<in> set ?old" for x
  proof
    assume eq: "msg_id x = msg_id m'"
    have "x \<in> stored s" using that fmget_history [of "directMessages s"] by (auto simp: stored_def)
    with inv fresh eq show False using stored_ids by fastforce
  qed
  then have "find (\<lambda>x. msg_id x = msg_id m') (?old @ [m']) = Some m'" by (intro find_last) auto
  with first st kind msgs show ?thesis
    by (cases ?old) (simp_all add: duplicateDMTopologyMatchesLocked_def Let_def)
qed



text \<open>
  The key that identifies an origin is faithful: two messages received from pairings
  with well-formed origin ids have the same key exactly when they have the same origin
  network and message id.
\<close>
lemma origin_key_injective:
  assumes "messageOriginReceipt m1 \<noteq> []" and "messageOriginReceipt m2 \<noteq> []"
    and "valid_utf8 (org_network_id (msg_origin m1))" "valid_utf8 (org_network_id (msg_origin m2))"
    and "valid_utf8 (org_message_id (msg_origin m1))" "valid_utf8 (org_message_id (msg_origin m2))"
  shows "messageOriginReceipt m1 = messageOriginReceipt m2 \<longleftrightarrow>
    org_network_id (msg_origin m1) = org_network_id (msg_origin m2) \<and>
    org_message_id (msg_origin m1) = org_message_id (msg_origin m2)"
proof
  assume eq: "messageOriginReceipt m1 = messageOriginReceipt m2"
  have key: "messageOriginReceipt m = ''['' @ json_string (org_network_id (msg_origin m)) @ '','' @
      json_string (org_message_id (msg_origin m)) @ '']''" if "messageOriginReceipt m \<noteq> []" for m
    using that by (auto simp: messageOriginReceipt_def Let_def split: if_splits)
  have "json_string (org_network_id (msg_origin m1)) @ '','' @ json_string (org_message_id (msg_origin m1)) @ '']'' =
      json_string (org_network_id (msg_origin m2)) @ '','' @ json_string (org_message_id (msg_origin m2)) @ '']''"
    using eq key [OF assms(1)] key [OF assms(2)] by simp
  from json_string_inj [OF assms(3,4) this]
  have net: "org_network_id (msg_origin m1) = org_network_id (msg_origin m2)"
    and rest: "json_string (org_message_id (msg_origin m1)) @ '']'' =
      json_string (org_message_id (msg_origin m2)) @ '']''" by auto
  from json_string_inj [OF assms(5,6) rest] net
  show "org_network_id (msg_origin m1) = org_network_id (msg_origin m2) \<and>
    org_message_id (msg_origin m1) = org_message_id (msg_origin m2)" by simp
next
  assume "org_network_id (msg_origin m1) = org_network_id (msg_origin m2) \<and>
    org_message_id (msg_origin m1) = org_message_id (msg_origin m2)"
  then show "messageOriginReceipt m1 = messageOriginReceipt m2"
    using assms(1,2) by (auto simp: messageOriginReceipt_def Let_def split: if_splits)
qed

theorem origin_key_injective_witness:
  "messageOriginReceipt (relayed_message ''a'') = messageOriginReceipt (relayed_message ''b'')"
proof -
  have "messageOriginReceipt (relayed_message i) \<noteq> []" for i
    by (simp add: messageOriginReceipt_def relayed_message_def sample_message_def Let_def)
  moreover have "org_network_id (msg_origin (relayed_message i)) = ''peer''"
    "org_message_id (msg_origin (relayed_message i)) = ''m7''" for i
    by (simp_all add: relayed_message_def)
  moreover have "valid_utf8 ''peer''" "valid_utf8 ''m7''" by code_simp+
  ultimately show ?thesis using origin_key_injective by simp
qed

section \<open>Direct conversations\<close>

lemma append_dm_locked:
  assumes "tgt_kind (msg_target m) = TargetKindDM" and "msg_id m |\<notin>| messageIDs s"
    and "checkOriginReceiptLocked m env s = None"
  shows "(\<exists>l s'. appendMessageLocked m env s = (Inr l, s')) \<longleftrightarrow>
    (\<exists>tp. topologyForDMMessage m = Inr tp \<and>
      (fmget [] (directMessages s) (tgt_dm_id (msg_target m)) = [] \<or>
       topology_matches tp (msg_network_id (hd (fmget [] (directMessages s) (tgt_dm_id (msg_target m)))))
         (directMemberIDs (fmget {||} (directMembers s) (tgt_dm_id (msg_target m))))))"
  using assms
  by (auto simp: appendMessageLocked_def append_dm_message_def Let_def
      split: sum.splits if_splits prod.splits)

text \<open>
  A direct conversation is pinned to the network and participants of its first message:
  after a first message is stored under a fresh conversation id, another new message to that
  conversation is accepted exactly when it resolves to the same network and the same set of
  participants, however they are spelled or ordered.
\<close>
lemma dm_conversation_pinned:
  assumes kind: "tgt_kind (msg_target m1) = TargetKindDM" "tgt_kind (msg_target m2) = TargetKindDM"
    and ids: "tgt_dm_id (msg_target m1) = d" "tgt_dm_id (msg_target m2) = d"
    and new: "fmget [] (directMessages s) d = []"
    and ok: "appendMessageLocked m1 env1 s = (Inr l, s1)"
    and cf: "colon_free (trim_space (msg_network_id m1)) (tgt_participant_ids (msg_target m1))"
    and fresh: "msg_id m2 |\<notin>| messageIDs s1" "checkOriginReceiptLocked m2 env2 s1 = None"
  shows "(\<exists>l2 s2. appendMessageLocked m2 env2 s1 = (Inr l2, s2)) \<longleftrightarrow>
    (\<exists>t1 t2. topologyForDMMessage m1 = Inr t1 \<and> topologyForDMMessage m2 = Inr t2 \<and>
       same_topology t2 t1)"
proof -
  obtain m' s0 where pl: "placed m1 s m' l s0" and s1: "s1 = finish_append m' env1 s0"
    using append_success(3) [OF ok] by blast
  from pl kind(1) obtain t1 where t1: "topologyForDMMessage m1 = Inr t1"
    and m': "m' = m1\<lparr>msg_target := (msg_target m1)\<lparr>tgt_participant_ids := top_participant_ids t1\<rparr>\<rparr>"
    and ap: "append_dm_message m' t1 s = (Inr l, s0)"
    by (cases rule: placed.cases) auto
  have d: "d = tgt_dm_id (msg_target m')" using ids m' by simp
  have st: "topology_matches t1 (msg_network_id m') (tgt_participant_ids (msg_target m'))"
    using topology_stable [OF t1 cf] m' by simp
  have "conversation_ok s d (fmget [] (directMessages s) d) t1" by (simp add: new conversation_ok_def)
  from append_dm_conversation [OF ap d st _ this] m'
  have first: "topology_matches t1 (msg_network_id m') (directMemberIDs (fmget {||} (directMembers s1) d))"
    by (simp add: conversation_ok_def new s1)
  have msgs: "fmget [] (directMessages s1) d = [m']"
    using append_dm_message_fields(1) [OF ap d, of d] new by (simp add: s1)
  have "(\<exists>l2 s2. appendMessageLocked m2 env2 s1 = (Inr l2, s2)) \<longleftrightarrow>
      (\<exists>t2. topologyForDMMessage m2 = Inr t2 \<and>
        topology_matches t2 (msg_network_id m') (directMemberIDs (fmget {||} (directMembers s1) d)))"
    using append_dm_locked [OF kind(2) fresh] by (simp add: ids msgs)
  with t1 topology_matches_same [OF first] show ?thesis by auto
qed

definition sample_dm :: "string \<Rightarrow> string list \<Rightarrow> message" where
  "sample_dm i ps = (sample_message i)\<lparr>msg_target :=
     (msg_target (sample_message i))\<lparr>tgt_kind := ''dm'', tgt_dm_id := ''d1'',
        tgt_participant_ids := ps\<rparr>\<rparr>"

lemma sample_dm_simps [simp]:
  "msg_id (sample_dm i ps) = i" "tgt_kind (msg_target (sample_dm i ps)) = TargetKindDM"
  "tgt_dm_id (msg_target (sample_dm i ps)) = ''d1''" "msg_network_id (sample_dm i ps) = ''home''"
  "tgt_participant_ids (msg_target (sample_dm i ps)) = ps"
  "messageOriginReceipt (sample_dm i ps) = []"
  by (simp_all add: sample_dm_def sample_message_def messageOriginReceipt_def)

lemma sample_dm_target:
  "(sample_dm i ps)\<lparr>msg_target := (msg_target (sample_dm i ps))\<lparr>tgt_participant_ids := qs\<rparr>\<rparr> =
   sample_dm i qs"
  by (simp add: sample_dm_def)

lemma sample_dm_first:
  assumes "topologyForDMMessage (sample_dm i ps) = Inr t"
  obtains l s1 where "appendMessageLocked (sample_dm i ps) None NewMemoryStore = (Inr l, s1)"
    "messageIDs s1 = {|i|}" "checkOriginReceiptLocked (sample_dm j qs) None s1 = None"
    "fmget {||} (directMembers s1) ''d1'' = fset_of_list (top_participant_ids t)"
    "map msg_network_id (fmget [] (directMessages s1) ''d1'') = [''home'']"
proof -
  have "appendMessageLocked (sample_dm i ps) None NewMemoryStore =
    (case append_dm_message (sample_dm i (top_participant_ids t)) t NewMemoryStore of
       (Inl e, s1) \<Rightarrow> (Inl e, s1)
     | (Inr l, s1) \<Rightarrow> (Inr l, finish_append (sample_dm i (top_participant_ids t)) None s1))"
    using assms
    by (simp add: appendMessageLocked_def checkOriginReceiptLocked_def NewMemoryStore_def
        sample_dm_target Let_def)
  then show ?thesis
    using that by (auto simp: append_dm_message_def Let_def NewMemoryStore_def
        checkOriginReceiptLocked_def)
qed

theorem dm_conversation_pinned_witness:
  "\<exists>l s1 l2 s2.
     appendMessageLocked (sample_dm ''a'' [''ada'', ''bob'']) None NewMemoryStore = (Inr l, s1) \<and>
     appendMessageLocked (sample_dm ''b'' [''home:bob'', ''ada'']) None s1 = (Inr l2, s2)"
proof -
  let ?t = "\<lparr>top_network_id = ''home'', top_canonical_ids = [''home:ada'', ''home:bob''],
    top_participant_ids = [''ada'', ''bob'']\<rparr>"
  have t1: "topologyForDMMessage (sample_dm ''a'' [''ada'', ''bob'']) = Inr ?t" by code_simp
  have t2: "topologyForDMMessage (sample_dm ''b'' [''home:bob'', ''ada'']) = Inr ?t" by code_simp
  obtain l s1 where s1: "appendMessageLocked (sample_dm ''a'' [''ada'', ''bob'']) None NewMemoryStore = (Inr l, s1)"
    "messageIDs s1 = {|''a''|}"
    "checkOriginReceiptLocked (sample_dm ''b'' [''home:bob'', ''ada'']) None s1 = None"
    using sample_dm_first [OF t1] by blast
  have "colon_free (trim_space ''home'') [''ada'', ''bob'']" by code_simp
  moreover have "fmget [] (directMessages NewMemoryStore) ''d1'' = []" by (simp add: NewMemoryStore_def)
  ultimately have "\<exists>l2 s2. appendMessageLocked (sample_dm ''b'' [''home:bob'', ''ada'']) None s1 = (Inr l2, s2)"
    using dm_conversation_pinned [OF _ _ _ _ _ s1(1) _ _ s1(3), of "''d1''"] s1(2) t1 t2
    by (simp add: same_topology_def)
  with s1(1) show ?thesis by blast
qed

text \<open>
  An agent whose id contains a colon, which the identifier grammar allows, can be locked
  out of a conversation: a first message between local agents named by scoped ids is stored,
  and a second message with the very same participants is refused as a topology conflict,
  because the participants are stored without their network and then read as scoped ids.
\<close>
lemma dm_colon_agent_refused:
  "\<exists>l s1. appendMessageLocked (sample_dm ''a'' [''home:ada'', ''home:x:y'']) None NewMemoryStore = (Inr l, s1) \<and>
     appendMessageLocked (sample_dm ''b'' [''home:ada'', ''home:x:y'']) None s1 = (Inl ErrDMTopologyConflict, s1)"
proof -
  let ?t = "\<lparr>top_network_id = ''home'', top_canonical_ids = [''home:ada'', ''home:x:y''],
    top_participant_ids = [''ada'', ''x:y'']\<rparr>"
  have t1: "topologyForDMMessage (sample_dm ''a'' [''home:ada'', ''home:x:y'']) = Inr ?t" by code_simp
  have t2: "topologyForDMMessage (sample_dm ''b'' [''home:ada'', ''home:x:y'']) = Inr ?t" by code_simp
  have no: "\<not> topology_matches ?t ''home'' [''ada'', ''x:y'']" by code_simp
  obtain l s1 where s1: "appendMessageLocked (sample_dm ''a'' [''home:ada'', ''home:x:y'']) None NewMemoryStore = (Inr l, s1)"
    "messageIDs s1 = {|''a''|}"
    "checkOriginReceiptLocked (sample_dm ''b'' [''home:ada'', ''home:x:y'']) None s1 = None"
    "fmget {||} (directMembers s1) ''d1'' = fset_of_list (top_participant_ids ?t)"
    "map msg_network_id (fmget [] (directMessages s1) ''d1'') = [''home'']"
    using sample_dm_first [OF t1] by blast
  have "fmget [] (directMessages s1) ''d1'' \<noteq> []"
    "msg_network_id (hd (fmget [] (directMessages s1) ''d1'')) = ''home''"
    using s1(5) by auto
  then have "appendMessageLocked (sample_dm ''b'' [''home:ada'', ''home:x:y'']) None s1 = (Inl ErrDMTopologyConflict, s1)"
    using s1(2,3,4) t2 no topology_matches_members [of ?t "''home''" "[''ada'', ''x:y'']"]
    by (simp add: appendMessageLocked_def append_dm_message_def Let_def)
  with s1(1) show ?thesis by blast
qed

end
