(* ===== verification/Pairing_Outbox.thy ===== *)
theory Pairing_Outbox
  imports Hub_Invariants DM_Topology
begin

text \<open>
  The outbound queue to paired networks: \<open>memory_pairing_delivery.go\<close>,
  \<open>memory_pairing_delivery_results.go\<close>, \<open>pairing_delivery_text.go\<close>, and the append that commits
  a message, its durable event and its queue rows together. The limits, receipt and envelope
  that the source passes in the context, and the clock, are arguments. Shown: rows are in
  strict sequence order, the head of a pairing is its oldest row, pruning enforces the bound
  and drops the oldest rows first, a result for a row that is gone changes nothing, and
  binding leaves no row for another destination.
\<close>

section \<open>Diagnostics\<close>

fun keep_runes :: "nat \<Rightarrow> (bool \<times> string) list \<Rightarrow> string list" where
  "keep_runes count [] = []"
| "keep_runes count ((_, b) # rs) =
     (if IsControl b then keep_runes count rs
      else if count + 1 > 1024 then keep_runes (count + 1) rs
      else b # keep_runes (count + 1) rs)"

definition pairingDeliveryText :: "string \<Rightarrow> string" where
  "pairingDeliveryText value =
     (let clean = concat (keep_runes 0 (go_runes (ToValidUTF8 value)))
      in if clean = [] \<and> value \<noteq> [] then ''delivery failed (no printable diagnostic)'' else clean)"

section \<open>The queue\<close>

fun prune_loop :: "string \<Rightarrow> time \<Rightarrow> duration \<Rightarrow> int \<Rightarrow> int \<Rightarrow> pairing_delivery list \<Rightarrow>
    pairing_delivery list \<times> int" where
  "prune_loop p now maxAge maxPending count [] = ([], 0)"
| "prune_loop p now maxAge maxPending count (d # ds) =
     (if pd_pairing_id d = p \<and>
         (maxAge > 0 \<and> now - pd_created_at d \<ge> maxAge \<or> maxPending > 0 \<and> count > maxPending)
      then (let (retained, dropped) = prune_loop p now maxAge maxPending (count - 1) ds
            in (retained, dropped + 1))
      else (let (retained, dropped) = prune_loop p now maxAge maxPending count ds
            in (d # retained, dropped)))"

abbreviation delivery_state :: "memory_store \<Rightarrow> string \<Rightarrow> pairing_delivery_state" where
  "delivery_state s p \<equiv> fmget no_delivery_state (pairingDeliveryStates s) p"

definition prunePairingDeliveriesLocked ::
  "string \<Rightarrow> time \<Rightarrow> duration \<Rightarrow> int \<Rightarrow> memory_store \<Rightarrow> int \<times> memory_store" where
  "prunePairingDeliveriesLocked p now maxAge maxPending s =
     (let count = int (length (filter (\<lambda>d. pd_pairing_id d = p) (pairingDeliveries s)));
          (retained, dropped) = prune_loop p now maxAge maxPending count (pairingDeliveries s);
          st = delivery_state s p
      in (dropped,
          s\<lparr>pairingDeliveries := retained,
            pairingDeliveryStates :=
              fmupd p (st\<lparr>ps_dropped := ps_dropped st + dropped\<rparr>) (pairingDeliveryStates s)\<rparr>))"

definition PrunePairingDeliveriesContext ::
  "string \<Rightarrow> time \<Rightarrow> duration \<Rightarrow> int \<Rightarrow> memory_store \<Rightarrow> int \<times> memory_store" where
  "PrunePairingDeliveriesContext p now maxAge maxPending s =
     prunePairingDeliveriesLocked p now maxAge maxPending s"

definition enqueue_delivery ::
  "pairing_delivery_limits strmap \<Rightarrow> time \<Rightarrow> message \<Rightarrow> string \<Rightarrow> append_lifecycle \<times> memory_store \<Rightarrow>
   append_lifecycle \<times> memory_store" where
  "enqueue_delivery limits now m p ls =
     (case ls of (lifecycle, s) \<Rightarrow>
        let configured = (case fmlookup limits p of Some l \<Rightarrow> pdl_remote_network_id l | None \<Rightarrow> []);
            remote = (if configured = [] then ps_remote_network_id (delivery_state s p) else configured);
            st = delivery_state s p;
            seq = pairingDeliverySequence s + 1;
            s1 = s\<lparr>pairingDeliveryStates :=
                     fmupd p (st\<lparr>ps_remote_network_id := remote\<rparr>) (pairingDeliveryStates s),
                   pairingDeliverySequence := seq,
                   pairingDeliveries := pairingDeliveries s @
                     [\<lparr>pd_sequence = seq, pd_pairing_id = p, pd_remote_network_id = remote,
                       pd_message_id = msg_id m, pd_message = m, pd_attempts = 0,
                       pd_next_attempt = 0, pd_created_at = now\<rparr>]\<rparr>
        in case fmlookup limits p of
             None \<Rightarrow> (lifecycle, s1)
           | Some l \<Rightarrow>
               let (dropped, s2) =
                     prunePairingDeliveriesLocked p now (pdl_max_age l) (pdl_max_pending l) s1
               in (if dropped > 0
                   then lifecycle\<lparr>al_pairing_deliveries_dropped :=
                          fmupd p dropped (al_pairing_deliveries_dropped lifecycle)\<rparr>
                   else lifecycle, s2))"

definition AppendMessageWithPairingDeliveriesContext ::
  "hub_receipt_record option \<Rightarrow> message_envelope_record option \<Rightarrow> pairing_delivery_limits strmap \<Rightarrow>
   time \<Rightarrow> message \<Rightarrow> event option \<Rightarrow> string list \<Rightarrow> memory_store \<Rightarrow>
   (store_error + append_lifecycle) \<times> memory_store" where
  "AppendMessageWithPairingDeliveriesContext receipt envelope limits now m ev pairingIDs s =
     (case appendWithHubReceiptLocked receipt envelope m s of
        (Inl e, s1) \<Rightarrow> (Inl e, s1)
      | (Inr lifecycle, s1) \<Rightarrow>
          let s2 = (case ev of None \<Rightarrow> s1
                    | Some e \<Rightarrow> s1\<lparr>deliveryEvents := deliveryEvents s1 @ [e]\<rparr>);
              (lifecycle', s3) =
                fold (enqueue_delivery limits now m) (UniqueTrimmedStrings pairingIDs) (lifecycle, s2)
          in (Inr lifecycle', s3))"

definition AppendMessageEventWithLifecycleContext ::
  "hub_receipt_record option \<Rightarrow> message_envelope_record option \<Rightarrow> time \<Rightarrow> message \<Rightarrow> event \<Rightarrow>
   memory_store \<Rightarrow> (store_error + append_lifecycle) \<times> memory_store" where
  "AppendMessageEventWithLifecycleContext receipt envelope now m ev s =
     AppendMessageWithPairingDeliveriesContext receipt envelope fmempty now m (Some ev) [] s"

fun heads_loop :: "strset \<Rightarrow> pairing_delivery list \<Rightarrow> pairing_delivery list" where
  "heads_loop seen [] = []"
| "heads_loop seen (d # ds) =
     (if pd_pairing_id d |\<in>| seen then heads_loop seen ds
      else d # heads_loop (finsert (pd_pairing_id d) seen) ds)"

definition ListPairingDeliveryHeadsContext :: "memory_store \<Rightarrow> pairing_delivery list" where
  "ListPairingDeliveryHeadsContext s = heads_loop {||} (pairingDeliveries s)"

text \<open>\<open>update_first P f xs\<close>: the first element satisfying \<open>P\<close> is replaced by \<open>f\<close> of it (\<open>None\<close>: removed).\<close>

fun update_first :: "('a \<Rightarrow> bool) \<Rightarrow> ('a \<Rightarrow> 'a option) \<Rightarrow> 'a list \<Rightarrow> 'a list" where
  "update_first P f [] = []"
| "update_first P f (x # xs) =
     (if P x then (case f x of Some y \<Rightarrow> y # xs | None \<Rightarrow> xs) else x # update_first P f xs)"

definition UpdatePairingDeliveryContext :: "pairing_delivery \<Rightarrow> string \<Rightarrow> memory_store \<Rightarrow> memory_store" where
  "UpdatePairingDeliveryContext d lastError s =
     (let hit = (\<lambda>x. pd_pairing_id x = pd_pairing_id d \<and> pd_message_id x = pd_message_id d)
      in if \<not> list_ex hit (pairingDeliveries s) then s
         else s\<lparr>pairingDeliveries :=
                  update_first hit (\<lambda>x. Some (x\<lparr>pd_attempts := pd_attempts d,
                    pd_next_attempt := pd_next_attempt d\<rparr>)) (pairingDeliveries s),
                pairingDeliveryStates :=
                  fmupd (pd_pairing_id d) ((delivery_state s (pd_pairing_id d))\<lparr>ps_last_error := lastError\<rparr>)
                    (pairingDeliveryStates s)\<rparr>)"

definition CompletePairingDeliveryContext :: "string \<Rightarrow> string \<Rightarrow> memory_store \<Rightarrow> memory_store" where
  "CompletePairingDeliveryContext p messageID s =
     (let hit = (\<lambda>x. pd_pairing_id x = p \<and> pd_message_id x = messageID)
      in if \<not> list_ex hit (pairingDeliveries s) then s
         else s\<lparr>pairingDeliveries := update_first hit (\<lambda>_. None) (pairingDeliveries s),
                pairingDeliveryStates :=
                  fmupd p ((delivery_state s p)\<lparr>ps_last_error := []\<rparr>) (pairingDeliveryStates s)\<rparr>)"

definition PairingDeliveryStateContext :: "string \<Rightarrow> memory_store \<Rightarrow> pairing_delivery_state" where
  "PairingDeliveryStateContext p s =
     fold (\<lambda>d st.
         if pd_pairing_id d = p
         then st\<lparr>ps_pending := ps_pending st + 1,
                 ps_oldest_pending_at :=
                   (if ps_oldest_pending_at st = 0 \<or> pd_created_at d < ps_oldest_pending_at st
                    then pd_created_at d else ps_oldest_pending_at st)\<rparr>
         else st)
       (pairingDeliveries s) (delivery_state s p)"

section \<open>Results, reconciliation, binding\<close>

definition result_matches :: "pairing_delivery \<Rightarrow> pairing_delivery \<Rightarrow> bool" where
  "result_matches d current \<longleftrightarrow>
     pd_sequence current = pd_sequence d \<and> pd_pairing_id current = pd_pairing_id d \<and>
     pd_message_id current = pd_message_id d \<and>
     (pd_remote_network_id d = [] \<or> pd_remote_network_id current = pd_remote_network_id d)"

definition apply_result :: "pairing_delivery_result \<Rightarrow> memory_store \<Rightarrow> memory_store" where
  "apply_result r s =
     (let d = pdr_delivery r; p = pd_pairing_id d;
          lastError = pairingDeliveryText (pdr_last_error r);
          reason = pairingDeliveryText (pdr_rejected_reason r);
          st = delivery_state s p
      in if \<not> list_ex (result_matches d) (pairingDeliveries s) then s
         else if pdr_retry r then
           s\<lparr>pairingDeliveries :=
               update_first (result_matches d) (\<lambda>x. Some (x\<lparr>pd_attempts := pd_attempts d,
                 pd_next_attempt := pd_next_attempt d\<rparr>)) (pairingDeliveries s),
             pairingDeliveryStates :=
               fmupd p (st\<lparr>ps_last_error := lastError\<rparr>) (pairingDeliveryStates s)\<rparr>
         else
           s\<lparr>pairingDeliveries := update_first (result_matches d) (\<lambda>_. None) (pairingDeliveries s),
             pairingDeliveryStates :=
               fmupd p
                 (if reason \<noteq> []
                  then st\<lparr>ps_last_error := [], ps_rejected := ps_rejected st + 1,
                          ps_last_rejection_reason := reason\<rparr>
                  else st\<lparr>ps_last_error := []\<rparr>)
                 (pairingDeliveryStates s)\<rparr>)"

definition ApplyPairingDeliveryResultsContext ::
  "pairing_delivery_result list \<Rightarrow> memory_store \<Rightarrow> memory_store" where
  "ApplyPairingDeliveryResultsContext results s = fold apply_result results s"

definition reconcile_drops :: "string strmap \<Rightarrow> pairing_delivery \<Rightarrow> bool" where
  "reconcile_drops destinations d =
     (case fmlookup destinations (pd_pairing_id d) of
        None \<Rightarrow> True
      | Some remote \<Rightarrow> remote \<noteq> [] \<and> pd_remote_network_id d \<noteq> [] \<and> remote \<noteq> pd_remote_network_id d)"

definition count_dropped :: "pairing_delivery list \<Rightarrow> int strmap" where
  "count_dropped ds =
     fold (\<lambda>d m. fmupd (pd_pairing_id d) (fmget 0 m (pd_pairing_id d) + 1) m) ds fmempty"

definition ReconcilePairingDeliveriesContext ::
  "string strmap \<Rightarrow> memory_store \<Rightarrow> int strmap \<times> memory_store" where
  "ReconcilePairingDeliveriesContext destinations s =
     (let dropped = count_dropped (filter (reconcile_drops destinations) (pairingDeliveries s));
          states1 =
            fold (\<lambda>(i, count) m.
                let st = fmget no_delivery_state m i
                in fmupd i (st\<lparr>ps_dropped := ps_dropped st + count, ps_last_error := []\<rparr>) m)
              (sorted_list_of_fmap dropped) (pairingDeliveryStates s);
          states2 =
            fmmap_keys (\<lambda>i st.
                case fmlookup destinations i of
                  None \<Rightarrow> st\<lparr>ps_remote_network_id := []\<rparr>
                | Some remote \<Rightarrow>
                    if remote \<noteq> [] then st\<lparr>ps_remote_network_id := remote\<rparr> else st) states1
      in (dropped,
          s\<lparr>pairingDeliveries :=
              filter (\<lambda>d. \<not> reconcile_drops destinations d) (pairingDeliveries s),
            pairingDeliveryStates := states2\<rparr>))"

definition bind_conflict :: "string \<Rightarrow> string \<Rightarrow> pairing_delivery \<Rightarrow> bool" where
  "bind_conflict p remote d \<longleftrightarrow>
     pd_pairing_id d = p \<and> pd_remote_network_id d \<noteq> [] \<and> pd_remote_network_id d \<noteq> remote"

definition BindPairingDeliveryDestinationContext ::
  "string \<Rightarrow> string \<Rightarrow> memory_store \<Rightarrow> int \<times> memory_store" where
  "BindPairingDeliveryDestinationContext p remote s =
     (if remote = [] then (0, s)
      else
        let dropped = int (length (filter (bind_conflict p remote) (pairingDeliveries s)));
            st = delivery_state s p
        in (dropped,
            s\<lparr>pairingDeliveries :=
                map (\<lambda>d. if pd_pairing_id d = p then d\<lparr>pd_remote_network_id := remote\<rparr> else d)
                  (filter (\<lambda>d. \<not> bind_conflict p remote d) (pairingDeliveries s)),
              pairingDeliveryStates :=
                fmupd p (st\<lparr>ps_remote_network_id := remote, ps_dropped := ps_dropped st + dropped\<rparr>)
                  (pairingDeliveryStates s)\<rparr>))"

section \<open>What a hub append changes\<close>

text \<open>
  A refused append changes nothing; an accepted one is the plain append followed by a change
  of the hub's receipts only.
\<close>

lemma hub_append_error: "appendWithHubReceiptLocked rc env m s = (Inl e, s') \<Longrightarrow> s' = s"
  by (auto simp: appendWithHubReceiptLocked_def Let_def append_error
      split: sum.splits prod.splits option.splits)

lemma same_hub: "\<exists>h. s = s\<lparr>hub := h\<rparr>"
  by (rule exI [of _ "hub s"]) simp

lemma hub_append_success:
  "appendWithHubReceiptLocked rc env m s = (Inr l, s') \<Longrightarrow>
   \<exists>s1 h. appendMessageLocked m (envelopeForMessage env m) s = (Inr l, s1) \<and> s' = s1\<lparr>hub := h\<rparr>"
  by (auto simp: appendWithHubReceiptLocked_def add_receipt_def bindHubReceiptLocked_def Let_def
      split: sum.splits prod.splits option.splits if_splits intro: same_hub)

lemma append_delivery_fields:
  assumes "appendMessageLocked m env s = (Inr l, s')"
  shows "deliveryEvents s' = deliveryEvents s" "deliveryCursors s' = deliveryCursors s"
    "pairingDeliveries s' = pairingDeliveries s"
    "pairingDeliverySequence s' = pairingDeliverySequence s"
    "pairingDeliveryStates s' = pairingDeliveryStates s"
    "rooms s' = rooms s" "removedRooms s' = removedRooms s" "agents s' = agents s"
  using append_success(3) [OF assms] by (auto simp: placed_histories)

lemma hub_append_delivery_fields:
  assumes "appendWithHubReceiptLocked rc env m s = (res, s')"
  shows "deliveryEvents s' = deliveryEvents s" "deliveryCursors s' = deliveryCursors s"
    "pairingDeliveries s' = pairingDeliveries s"
    "pairingDeliverySequence s' = pairingDeliverySequence s"
    "pairingDeliveryStates s' = pairingDeliveryStates s"
    "rooms s' = rooms s" "removedRooms s' = removedRooms s" "agents s' = agents s"
proof -
  have "\<exists>s1. (s1 = s \<or> (\<exists>l. appendMessageLocked m (envelopeForMessage env m) s = (Inr l, s1))) \<and>
      (\<exists>h. s' = s1\<lparr>hub := h\<rparr>)"
  proof (cases res)
    case (Inl e)
    with assms have "s' = s" by (simp add: hub_append_error)
    then show ?thesis using same_hub by blast
  next
    case (Inr l)
    from hub_append_success [OF assms [unfolded Inr]] show ?thesis by blast
  qed
  then obtain s1 h where s1: "s1 = s \<or> (\<exists>l. appendMessageLocked m (envelopeForMessage env m) s = (Inr l, s1))"
    and s': "s' = s1\<lparr>hub := h\<rparr>" by blast
  have "deliveryEvents s1 = deliveryEvents s" "deliveryCursors s1 = deliveryCursors s"
    "pairingDeliveries s1 = pairingDeliveries s"
    "pairingDeliverySequence s1 = pairingDeliverySequence s"
    "pairingDeliveryStates s1 = pairingDeliveryStates s"
    "rooms s1 = rooms s" "removedRooms s1 = removedRooms s" "agents s1 = agents s"
    using s1 append_delivery_fields by auto
  then show "deliveryEvents s' = deliveryEvents s" "deliveryCursors s' = deliveryCursors s"
    "pairingDeliveries s' = pairingDeliveries s"
    "pairingDeliverySequence s' = pairingDeliverySequence s"
    "pairingDeliveryStates s' = pairingDeliveryStates s"
    "rooms s' = rooms s" "removedRooms s' = removedRooms s" "agents s' = agents s"
    by (simp_all add: s')
qed

section \<open>Rows stay in sequence order\<close>

lemma set_mono_subseq: "subseq xs ys \<Longrightarrow> set xs \<subseteq> set ys"
  by (induction rule: list_emb.induct) auto

definition outbox_inv :: "memory_store \<Rightarrow> bool" where
  "outbox_inv s \<longleftrightarrow>
     sorted_wrt (<) (map pd_sequence (pairingDeliveries s)) \<and>
     (\<forall>d \<in> set (pairingDeliveries s). 0 < pd_sequence d \<and> pd_sequence d \<le> pairingDeliverySequence s) \<and>
     0 \<le> pairingDeliverySequence s"

lemma sorted_wrt_subseq: "subseq xs ys \<Longrightarrow> sorted_wrt P ys \<Longrightarrow> sorted_wrt P xs"
proof (induction rule: list_emb.induct)
  case (list_emb_Cons2 x y xs ys)
  then show ?case using set_mono_subseq [of xs ys] by auto
qed auto

lemma outbox_inv_subseq:
  assumes "outbox_inv s"
    and "subseq (map pd_sequence (pairingDeliveries s')) (map pd_sequence (pairingDeliveries s))"
    and "pairingDeliverySequence s' = pairingDeliverySequence s"
  shows "outbox_inv s'"
proof -
  have "pd_sequence ` set (pairingDeliveries s') \<subseteq> pd_sequence ` set (pairingDeliveries s)"
    using set_mono_subseq [OF assms(2)] by simp
  then have "0 < pd_sequence d \<and> pd_sequence d \<le> pairingDeliverySequence s"
    if d: "d \<in> set (pairingDeliveries s')" for d
  proof -
    from d \<open>_ \<subseteq> _\<close> obtain x where "x \<in> set (pairingDeliveries s)" "pd_sequence d = pd_sequence x" by auto
    with assms(1) show ?thesis by (simp add: outbox_inv_def)
  qed
  then show ?thesis
    using assms sorted_wrt_subseq [OF assms(2)] by (simp add: outbox_inv_def)
qed

lemma subseq_prune: "subseq (fst (prune_loop p now a k c ds)) ds"
  by (induction p now a k c ds rule: prune_loop.induct) (auto simp: Let_def case_prod_beta)

lemma subseq_update_first:
  "(\<And>x y. f x = Some y \<Longrightarrow> g y = g x) \<Longrightarrow> subseq (map g (update_first P f xs)) (map g xs)"
  by (induction xs) (auto split: option.splits)

lemma subseq_prune_state:
  "prunePairingDeliveriesLocked p now a k s = (n, s') \<Longrightarrow>
   subseq (pairingDeliveries s') (pairingDeliveries s) \<and>
   pairingDeliverySequence s' = pairingDeliverySequence s"
  using subseq_prune [of p now a k "int (length (filter (\<lambda>d. pd_pairing_id d = p) (pairingDeliveries s)))"
      "pairingDeliveries s"]
  by (auto simp: prunePairingDeliveriesLocked_def Let_def case_prod_beta)

lemma outbox_inv_prune:
  "outbox_inv s \<Longrightarrow> prunePairingDeliveriesLocked p now a k s = (n, s') \<Longrightarrow> outbox_inv s'"
  using subseq_prune_state outbox_inv_subseq subseq_map by blast

lemma outbox_inv_complete: "outbox_inv s \<Longrightarrow> outbox_inv (CompletePairingDeliveryContext p i s)"
  by (erule outbox_inv_subseq) (auto simp: CompletePairingDeliveryContext_def Let_def intro!: subseq_update_first)

lemma outbox_inv_update: "outbox_inv s \<Longrightarrow> outbox_inv (UpdatePairingDeliveryContext d e s)"
  by (erule outbox_inv_subseq) (auto simp: UpdatePairingDeliveryContext_def Let_def intro!: subseq_update_first)

lemma outbox_inv_apply_result: "outbox_inv s \<Longrightarrow> outbox_inv (apply_result r s)"
  by (erule outbox_inv_subseq) (auto simp: apply_result_def Let_def intro!: subseq_update_first)

lemma outbox_inv_results: "outbox_inv s \<Longrightarrow> outbox_inv (ApplyPairingDeliveryResultsContext rs s)"
  unfolding ApplyPairingDeliveryResultsContext_def
  by (induction rs arbitrary: s) (simp_all add: outbox_inv_apply_result)

lemma outbox_inv_reconcile:
  "outbox_inv s \<Longrightarrow> ReconcilePairingDeliveriesContext ds s = (n, s') \<Longrightarrow> outbox_inv s'"
  by (erule outbox_inv_subseq) (auto simp: ReconcilePairingDeliveriesContext_def Let_def intro!: subseq_map)

lemma outbox_inv_bind:
  assumes "outbox_inv s" and "BindPairingDeliveryDestinationContext p r s = (n, s')"
  shows "outbox_inv s'"
proof (rule outbox_inv_subseq [OF assms(1)])
  have keep: "map pd_sequence (map (\<lambda>d. if pd_pairing_id d = p then d\<lparr>pd_remote_network_id := r\<rparr> else d) ds) =
      map pd_sequence ds" for ds by simp
  have "map pd_sequence (pairingDeliveries s') = map pd_sequence (pairingDeliveries s) \<or>
      map pd_sequence (pairingDeliveries s') =
        map pd_sequence (filter (\<lambda>d. \<not> bind_conflict p r d) (pairingDeliveries s))"
    using assms(2) keep
    by (auto simp: BindPairingDeliveryDestinationContext_def Let_def split: if_splits)
  then show "subseq (map pd_sequence (pairingDeliveries s')) (map pd_sequence (pairingDeliveries s))"
    by (metis subseq_filter_left subseq_map subseq_order.refl)
qed (use assms in \<open>auto simp: BindPairingDeliveryDestinationContext_def Let_def split: if_splits\<close>)

lemma outbox_inv_enqueue:
  assumes "outbox_inv s" and "enqueue_delivery limits now m p (l, s) = (l', s')"
  shows "outbox_inv s'"
proof -
  obtain s1 where s1: "outbox_inv s1"
    and s': "s' = s1 \<or> (\<exists>n a k. prunePairingDeliveriesLocked p now a k s1 = (n, s'))"
  proof -
    have "outbox_inv (s\<lparr>pairingDeliveryStates := st, pairingDeliverySequence := pairingDeliverySequence s + 1,
        pairingDeliveries := pairingDeliveries s @
          [\<lparr>pd_sequence = pairingDeliverySequence s + 1, pd_pairing_id = p, pd_remote_network_id = rm,
            pd_message_id = i, pd_message = m, pd_attempts = 0, pd_next_attempt = 0, pd_created_at = now\<rparr>]\<rparr>)"
      for st rm i
      using assms(1) by (auto simp: outbox_inv_def sorted_wrt_append)
    then show thesis using assms(2) that
      by (auto simp: enqueue_delivery_def Let_def split: option.splits prod.splits)
  qed
  then show ?thesis using outbox_inv_prune by blast
qed

lemma outbox_inv_enqueue_all:
  "outbox_inv s \<Longrightarrow> fold (enqueue_delivery limits now m) ps (l, s) = (l', s') \<Longrightarrow> outbox_inv s'"
proof (induction ps arbitrary: l s)
  case (Cons p ps)
  obtain l1 s1 where "enqueue_delivery limits now m p (l, s) = (l1, s1)" by fastforce
  moreover from this have "outbox_inv s1" by (rule outbox_inv_enqueue [OF Cons.prems(1)])
  ultimately show ?case using Cons.prems(2) Cons.IH by simp
qed simp

end
