(* ===== verification/Outbox_Properties.thy ===== *)
theory Outbox_Properties
  imports Pairing_Outbox
begin

text \<open>
  What the outbound queue promises: the bound on pending rows drops the oldest first, a result
  touches exactly the row it names, binding and reconciling leave no row for another
  destination and count what they drop, a commit files the message, its event and its rows
  together or not at all, and a stored diagnostic is bounded clean text.
\<close>

section \<open>Pruning\<close>

abbreviation rows_of :: "string \<Rightarrow> memory_store \<Rightarrow> pairing_delivery list" where
  "rows_of p s \<equiv> filter (\<lambda>d. pd_pairing_id d = p) (pairingDeliveries s)"

abbreviation other_rows :: "string \<Rightarrow> memory_store \<Rightarrow> pairing_delivery list" where
  "other_rows p s \<equiv> filter (\<lambda>d. pd_pairing_id d \<noteq> p) (pairingDeliveries s)"

definition expired :: "time \<Rightarrow> duration \<Rightarrow> pairing_delivery \<Rightarrow> bool" where
  "expired now maxAge d \<longleftrightarrow> maxAge > 0 \<and> now - pd_created_at d \<ge> maxAge"

definition newest :: "nat \<Rightarrow> 'a list \<Rightarrow> 'a list" where
  "newest k xs = drop (length xs - k) xs"

lemma newest_all: "length xs \<le> k \<Longrightarrow> newest k xs = xs"
  by (simp add: newest_def)

lemma newest_Cons: "k \<le> length xs \<Longrightarrow> newest k (x # xs) = newest k xs"
  by (simp add: newest_def Suc_diff_le)

lemma prune_keeps_all:
  "list_all (\<lambda>d. pd_pairing_id d = p \<longrightarrow> \<not> expired now a d) ds \<Longrightarrow> c \<le> k \<Longrightarrow>
   prune_loop p now a k c ds = (ds, 0)"
  by (induction ds) (auto simp: expired_def)

lemma prune_other_rows:
  "filter (\<lambda>d. pd_pairing_id d \<noteq> p) (fst (prune_loop p now a k c ds)) = filter (\<lambda>d. pd_pairing_id d \<noteq> p) ds"
  by (induction p now a k c ds rule: prune_loop.induct) (auto simp: Let_def case_prod_beta)

lemma prune_dropped:
  "snd (prune_loop p now a k c ds) = int (length ds) - int (length (fst (prune_loop p now a k c ds)))"
  by (induction p now a k c ds rule: prune_loop.induct) (auto simp: Let_def case_prod_beta)

lemma prune_own_rows:
  assumes "sorted (map pd_created_at (filter (\<lambda>d. pd_pairing_id d = p) ds))" and "0 < k"
    and "c = int (length (filter (\<lambda>d. pd_pairing_id d = p) ds))"
  shows "filter (\<lambda>d. pd_pairing_id d = p) (fst (prune_loop p now a k c ds)) =
         newest (nat k) (filter (\<lambda>d. \<not> expired now a d) (filter (\<lambda>d. pd_pairing_id d = p) ds))"
  using assms
proof (induction ds arbitrary: c)
  case (Cons d ds)
  let ?own = "filter (\<lambda>d. pd_pairing_id d = p) ds"
  have IH: "filter (\<lambda>d. pd_pairing_id d = p) (fst (prune_loop p now a k (int (length ?own)) ds)) =
      newest (nat k) (filter (\<lambda>d. \<not> expired now a d) ?own)"
    using Cons.IH [OF _ Cons.prems(2) refl] Cons.prems(1) by (simp del: filter_filter split: if_splits)
  note [simp del] = filter_filter
  show ?case
  proof (cases "pd_pairing_id d = p")
    case False
    with IH Cons.prems show ?thesis by (simp add: Let_def case_prod_beta)
  next
    case own: True
    have older: "pd_created_at d \<le> pd_created_at x" if "x \<in> set ?own" for x
      using own that Cons.prems(1) by simp
    show ?thesis
    proof (cases "expired now a d")
      case True
      with own IH Cons.prems show ?thesis by (simp add: Let_def case_prod_beta expired_def)
    next
      case False
      then have fresh: "list_all (\<lambda>x. pd_pairing_id x = p \<longrightarrow> \<not> expired now a x) ds"
        using older by (fastforce simp: list_all_iff expired_def)
      then have all: "filter (\<lambda>x. \<not> expired now a x) ?own = ?own"
        by (auto simp: list_all_iff intro!: filter_True)
      show ?thesis
      proof (cases "c > k")
        case True
        with own IH Cons.prems False all show ?thesis
          by (simp add: Let_def case_prod_beta expired_def newest_Cons)
      next
        case le: False
        with own False Cons.prems prune_keeps_all [OF fresh] all show ?thesis
          by (simp add: newest_all expired_def Let_def case_prod_beta)
      qed
    qed
  qed
qed (simp add: newest_def)

text \<open>
  Pruning a pairing's queue whose rows were created in order keeps exactly the newest
  \<open>maxPending\<close> of the rows that have not reached \<open>maxAge\<close>, in order; the rows of every other
  pairing are untouched, and the number returned is the number of rows that are gone.
\<close>

lemma prune_keeps_newest:
  assumes "sorted (map pd_created_at (rows_of p s))" and "0 < maxPending"
    and "prunePairingDeliveriesLocked p now maxAge maxPending s = (dropped, s')"
  shows "rows_of p s' = newest (nat maxPending) (filter (\<lambda>d. \<not> expired now maxAge d) (rows_of p s)) \<and>
         other_rows p s' = other_rows p s \<and>
         dropped = int (length (rows_of p s)) - int (length (rows_of p s')) \<and>
         ps_dropped (delivery_state s' p) = ps_dropped (delivery_state s p) + dropped"
proof (intro conjI)
  let ?r = "prune_loop p now maxAge maxPending (int (length (rows_of p s))) (pairingDeliveries s)"
  have s': "pairingDeliveries s' = fst ?r" and n: "dropped = snd ?r"
    using assms(3) by (auto simp: prunePairingDeliveriesLocked_def Let_def case_prod_beta)
  show "rows_of p s' = newest (nat maxPending) (filter (\<lambda>d. \<not> expired now maxAge d) (rows_of p s))"
    using prune_own_rows [OF assms(1,2) refl] s' by simp
  show others: "other_rows p s' = other_rows p s"
    using s' prune_other_rows by simp
  have split: "length (pairingDeliveries x) = length (rows_of p x) + length (other_rows p x)" for x
    by (simp add: sum_length_filter_compl)
  show "dropped = int (length (rows_of p s)) - int (length (rows_of p s'))"
    using n prune_dropped [of p now maxAge maxPending "int (length (rows_of p s))" "pairingDeliveries s"]
    unfolding s' [symmetric] split [of s] split [of s'] others by simp
  show "ps_dropped (delivery_state s' p) = ps_dropped (delivery_state s p) + dropped"
    using assms(3) by (auto simp: prunePairingDeliveriesLocked_def Let_def case_prod_beta fmget_def)
qed

definition sample_row :: "int \<Rightarrow> string \<Rightarrow> time \<Rightarrow> pairing_delivery" where
  "sample_row n p t =
     \<lparr>pd_sequence = n, pd_pairing_id = p, pd_remote_network_id = [], pd_message_id = ''m'',
      pd_message = sample_message ''m'', pd_attempts = 0, pd_next_attempt = 0, pd_created_at = t\<rparr>"

theorem prune_keeps_newest_witness:
  "(\<lambda>(dropped, s'). map pd_sequence (rows_of ''p'' s') = [4, 5] \<and> dropped = 2)
     (prunePairingDeliveriesLocked ''p'' 10 8 2
        (NewMemoryStore\<lparr>pairingDeliveries := [sample_row 1 ''p'' 1, sample_row 2 ''q'' 1,
           sample_row 3 ''p'' 5, sample_row 4 ''p'' 6, sample_row 5 ''p'' 7]\<rparr>))"
proof -
  let ?s = "NewMemoryStore\<lparr>pairingDeliveries := [sample_row 1 ''p'' 1, sample_row 2 ''q'' 1,
     sample_row 3 ''p'' 5, sample_row 4 ''p'' 6, sample_row 5 ''p'' 7]\<rparr>"
  obtain n s' where "prunePairingDeliveriesLocked ''p'' 10 8 2 ?s = (n, s')" by fastforce
  with prune_keeps_newest [OF _ _ this] show ?thesis
    by (simp add: sample_row_def expired_def newest_def)
qed

section \<open>Results\<close>

lemma update_first_distinct:
  assumes "distinct (map g xs)" and "\<And>x y. P x \<Longrightarrow> P y \<Longrightarrow> g x = g y"
  shows "update_first P f xs = List.map_filter (\<lambda>x. if P x then f x else Some x) xs"
  using assms(1)
proof (induction xs)
  case (Cons x xs)
  show ?case
  proof (cases "P x")
    case True
    have "\<not> P y" if y: "y \<in> set xs" for y
    proof
      assume "P y"
      then have "g x = g y" by (rule assms(2) [OF True])
      with y Cons.prems show False by simp
    qed
    then have "List.map_filter (\<lambda>x. if P x then f x else Some x) xs = xs"
      by (induction xs) (simp_all add: map_filter_simps)
    then show ?thesis using True by (simp add: map_filter_simps split: option.splits)
  qed (use Cons in \<open>simp add: map_filter_simps\<close>)
qed (simp add: map_filter_simps)

lemma update_first_none: "\<not> list_ex P xs \<Longrightarrow> update_first P f xs = xs"
  by (induction xs) auto

lemma outbox_distinct: "outbox_inv s \<Longrightarrow> distinct (map pd_sequence (pairingDeliveries s))"
  by (auto simp: outbox_inv_def strict_sorted_iff)

text \<open>
  In a queue whose sequence numbers are in order, a delivery result reaches exactly the row it
  was made for (same sequence number, pairing, message and, when given, destination): a final
  result removes that row, a retry gives it the new attempt count and time, and every other row
  stays as it is, in place. A result for a row that was pruned or rebound in the meantime
  therefore changes no row.
\<close>

lemma result_touches_its_row:
  assumes "outbox_inv s"
  shows "pairingDeliveries (apply_result r s) =
    (if pdr_retry r
     then map (\<lambda>d. if result_matches (pdr_delivery r) d
                   then d\<lparr>pd_attempts := pd_attempts (pdr_delivery r),
                          pd_next_attempt := pd_next_attempt (pdr_delivery r)\<rparr>
                   else d) (pairingDeliveries s)
     else filter (\<lambda>d. \<not> result_matches (pdr_delivery r) d) (pairingDeliveries s))"
proof -
  let ?P = "result_matches (pdr_delivery r)"
  have first: "update_first ?P f (pairingDeliveries s) =
      List.map_filter (\<lambda>x. if ?P x then f x else Some x) (pairingDeliveries s)" for f
    by (rule update_first_distinct [OF outbox_distinct [OF assms]]) (simp add: result_matches_def)
  have "List.map_filter (\<lambda>x. if ?P x then None else Some x) xs = filter (\<lambda>x. \<not> ?P x) xs" for xs
    by (induction xs) (simp_all add: map_filter_simps)
  moreover have "List.map_filter (\<lambda>x. if ?P x then Some (g x) else Some x) xs =
      map (\<lambda>x. if ?P x then g x else x) xs" for g xs
    by (induction xs) (simp_all add: map_filter_simps)
  moreover have "\<not> list_ex ?P (pairingDeliveries s) \<Longrightarrow>
      filter (\<lambda>x. \<not> ?P x) (pairingDeliveries s) = pairingDeliveries s"
    by (simp add: list_ex_iff filter_id_conv)
  moreover have "\<not> list_ex ?P (pairingDeliveries s) \<Longrightarrow>
      map (\<lambda>x. if ?P x then g x else x) (pairingDeliveries s) = pairingDeliveries s" for g
    by (simp add: list_ex_iff map_idI)
  ultimately show ?thesis
    by (simp add: apply_result_def Let_def first)
qed

theorem result_touches_its_row_witness:
  "map pd_sequence (pairingDeliveries (apply_result
      \<lparr>pdr_delivery = sample_row 2 ''p'' 0, pdr_last_error = [], pdr_rejected_reason = [], pdr_retry = False\<rparr>
      (NewMemoryStore\<lparr>pairingDeliverySequence := 3, pairingDeliveries :=
        [sample_row 1 ''p'' 0, sample_row 2 ''p'' 0, sample_row 3 ''p'' 0]\<rparr>))) = [1, 3]"
proof -
  let ?s = "NewMemoryStore\<lparr>pairingDeliverySequence := 3, pairingDeliveries :=
        [sample_row 1 ''p'' 0, sample_row 2 ''p'' 0, sample_row 3 ''p'' 0]\<rparr>"
  have "outbox_inv ?s" by (simp add: outbox_inv_def sample_row_def)
  from result_touches_its_row [OF this] show ?thesis
    by (simp add: sample_row_def result_matches_def)
qed

section \<open>Destinations\<close>

lemma count_dropped_fold:
  "fmget 0 (fold (\<lambda>d m. fmupd (pd_pairing_id d) (fmget 0 m (pd_pairing_id d) + 1) m) ds m) i =
   fmget 0 m i + int (length (filter (\<lambda>d. pd_pairing_id d = i) ds))"
  by (induction ds arbitrary: m) simp_all

lemma fmget_fold_fmupd:
  "distinct (map fst kvs) \<Longrightarrow>
   fmget d (fold (\<lambda>(i, c) m. fmupd i (f c (fmget d m i)) m) kvs m) i =
   (case map_of kvs i of None \<Rightarrow> fmget d m i | Some c \<Rightarrow> f c (fmget d m i))"
proof (induction kvs arbitrary: m)
  case (Cons kv kvs)
  then show ?case
    by (cases kv) (auto split: option.splits simp: map_of_eq_None_iff rev_image_eqI dest: map_of_SomeD)
qed simp

lemma reconcile_counters:
  assumes "ReconcilePairingDeliveriesContext destinations s = (dropped, s')"
  shows "ps_dropped (delivery_state s' i) = ps_dropped (delivery_state s i) + fmget 0 dropped i"
proof -
  let ?f = "\<lambda>c st. st\<lparr>ps_dropped := ps_dropped st + c, ps_last_error := []\<rparr>"
  let ?states = "fold (\<lambda>(i, c) m. fmupd i (?f c (fmget no_delivery_state m i)) m)
      (sorted_list_of_fmap dropped) (pairingDeliveryStates s)"
  have "ps_dropped (delivery_state s' i) = ps_dropped (fmget no_delivery_state ?states i)"
    using assms
    by (auto simp: ReconcilePairingDeliveriesContext_def Let_def fmget_def no_delivery_state_def split: option.splits)
  also have "\<dots> = ps_dropped (delivery_state s i) + fmget 0 dropped i"
    by (subst fmget_fold_fmupd)
      (auto simp: sorted_list_of_fmap_fst fmget_def [of 0 dropped] split: option.splits)
  finally show ?thesis .
qed

text \<open>
  Reconciling with the configured destinations keeps, in order, exactly the rows whose pairing
  is still configured and whose destination does not contradict the configured one; the counts
  it returns, and adds to the pairings' dropped counters, are the numbers of rows removed.
\<close>

lemma reconcile_exact:
  "(case ReconcilePairingDeliveriesContext destinations s of (dropped, s') \<Rightarrow>
      pairingDeliveries s' =
        filter (\<lambda>d. case fmlookup destinations (pd_pairing_id d) of None \<Rightarrow> False
                  | Some remote \<Rightarrow> remote = [] \<or> pd_remote_network_id d = [] \<or> remote = pd_remote_network_id d)
          (pairingDeliveries s) \<and>
      (\<forall>i. fmget 0 dropped i = int (length (rows_of i s)) - int (length (rows_of i s'))) \<and>
      (\<forall>i. ps_dropped (delivery_state s' i) = ps_dropped (delivery_state s i) + fmget 0 dropped i))"
proof -
  obtain dropped s' where r: "ReconcilePairingDeliveriesContext destinations s = (dropped, s')" by fastforce
  then have rows: "pairingDeliveries s' = filter (\<lambda>d. \<not> reconcile_drops destinations d) (pairingDeliveries s)"
    and n: "dropped = count_dropped (filter (reconcile_drops destinations) (pairingDeliveries s))"
    by (auto simp: ReconcilePairingDeliveriesContext_def Let_def)
  have "length (rows_of i s) =
      length (filter (reconcile_drops destinations) (rows_of i s)) +
      length (filter (\<lambda>d. \<not> reconcile_drops destinations d) (rows_of i s))" for i
    by (metis sum_length_filter_compl)
  then have "fmget 0 dropped i = int (length (rows_of i s)) - int (length (rows_of i s'))" for i
    unfolding n count_dropped_def count_dropped_fold rows
    by (simp add: conj_commute)
  moreover have "(\<lambda>d. \<not> reconcile_drops destinations d) =
      (\<lambda>d. case fmlookup destinations (pd_pairing_id d) of None \<Rightarrow> False
        | Some remote \<Rightarrow> remote = [] \<or> pd_remote_network_id d = [] \<or> remote = pd_remote_network_id d)"
    by (auto simp: reconcile_drops_def fun_eq_iff split: option.splits)
  ultimately show ?thesis
    using r rows reconcile_counters [OF r] by simp
qed

text \<open>
  Binding a pairing to a remote network leaves only rows addressed to that network in the
  pairing's queue: the rows already addressed to it and the unaddressed ones, in order and
  otherwise as they were. Rows of other pairings are untouched.
\<close>

lemma bind_exact:
  assumes "remote \<noteq> []"
  shows "case BindPairingDeliveryDestinationContext p remote s of (dropped, s') \<Rightarrow>
      rows_of p s' = map (\<lambda>d. d\<lparr>pd_remote_network_id := remote\<rparr>)
        (filter (\<lambda>d. pd_remote_network_id d \<in> {[], remote}) (rows_of p s)) \<and>
      other_rows p s' = other_rows p s \<and>
      dropped = int (length (rows_of p s)) - int (length (rows_of p s'))"
proof -
  let ?bind = "\<lambda>d. if pd_pairing_id d = p then d\<lparr>pd_remote_network_id := remote\<rparr> else d"
  have rows: "filter (\<lambda>d. pd_pairing_id d = p) (map ?bind (filter (\<lambda>d. \<not> bind_conflict p remote d) ds)) =
      map (\<lambda>d. d\<lparr>pd_remote_network_id := remote\<rparr>)
        (filter (\<lambda>d. pd_remote_network_id d \<in> {[], remote}) (filter (\<lambda>d. pd_pairing_id d = p) ds))" for ds
    by (induction ds) (auto simp: bind_conflict_def)
  have others: "filter (\<lambda>d. pd_pairing_id d \<noteq> p) (map ?bind (filter (\<lambda>d. \<not> bind_conflict p remote d) ds)) =
      filter (\<lambda>d. pd_pairing_id d \<noteq> p) ds" for ds
    by (induction ds) (auto simp: bind_conflict_def)
  have count: "length (filter (\<lambda>d. pd_pairing_id d = p) ds) =
      length (filter (\<lambda>d. pd_remote_network_id d \<in> {[], remote}) (filter (\<lambda>d. pd_pairing_id d = p) ds)) +
      length (filter (bind_conflict p remote) ds)" for ds
    by (induction ds) (auto simp: bind_conflict_def)
  show ?thesis
    using assms rows [of "pairingDeliveries s"] others [of "pairingDeliveries s"] count [of "pairingDeliveries s"]
    by (simp add: BindPairingDeliveryDestinationContext_def Let_def del: filter_filter)
qed

theorem bind_exact_witness:
  "case BindPairingDeliveryDestinationContext ''p'' ''net_b''
      (NewMemoryStore\<lparr>pairingDeliveries := [sample_row 1 ''p'' 0,
         (sample_row 2 ''p'' 0)\<lparr>pd_remote_network_id := ''net_a''\<rparr>]\<rparr>) of (dropped, s') \<Rightarrow>
     map (\<lambda>d. (pd_sequence d, pd_remote_network_id d)) (rows_of ''p'' s') = [(1, ''net_b'')] \<and> dropped = 1"
  using bind_exact [of "''net_b''" "''p''" "NewMemoryStore\<lparr>pairingDeliveries := [sample_row 1 ''p'' 0,
         (sample_row 2 ''p'' 0)\<lparr>pd_remote_network_id := ''net_a''\<rparr>]\<rparr>"]
  by (auto simp: sample_row_def split: prod.splits)

section \<open>The heads of the queues\<close>

lemma heads_loop_spec:
  "d \<in> set (heads_loop seen ds) \<longleftrightarrow>
   pd_pairing_id d |\<notin>| seen \<and> find (\<lambda>x. pd_pairing_id x = pd_pairing_id d) ds = Some d"
  by (induction seen ds rule: heads_loop.induct) auto

lemma find_sorted:
  "sorted_wrt (<) (map f xs) \<Longrightarrow> find P xs = Some d \<longleftrightarrow>
   d \<in> set xs \<and> P d \<and> (\<forall>x \<in> set xs. P x \<longrightarrow> f d \<le> (f x :: int))"
proof (induction xs)
  case (Cons x xs)
  then have lt: "f x < f y" if "y \<in> set xs" for y using that by auto
  show ?case
  proof (cases "P x")
    case True
    then show ?thesis using lt by (auto intro: less_imp_le dest: leD)
  next
    case False
    with Cons show ?thesis by auto
  qed
qed simp

lemma heads_distinct:
  "distinct (map pd_pairing_id (heads_loop seen ds))"
  by (induction seen ds rule: heads_loop.induct) (auto simp: heads_loop_spec)

section \<open>Commit\<close>

definition without_queue :: "memory_store \<Rightarrow> memory_store" where
  "without_queue s = s\<lparr>pairingDeliveries := [], pairingDeliverySequence := 0, pairingDeliveryStates := fmempty\<rparr>"

definition queue_only :: "memory_store \<Rightarrow> int \<Rightarrow> memory_store \<Rightarrow> bool" where
  "queue_only s n s' \<longleftrightarrow> without_queue s' = without_queue s \<and>
     pairingDeliverySequence s' = pairingDeliverySequence s + n"

lemma queue_only_trans: "queue_only s n s1 \<Longrightarrow> queue_only s1 k s2 \<Longrightarrow> queue_only s (n + k) s2"
  by (simp add: queue_only_def)

lemma queue_only_prune: "prunePairingDeliveriesLocked p now a k s = (n, s') \<Longrightarrow> queue_only s 0 s'"
  by (auto simp: prunePairingDeliveriesLocked_def queue_only_def without_queue_def Let_def split: prod.splits)

lemma queue_only_enqueue:
  "enqueue_delivery limits now m p (l, s) = (l', s') \<Longrightarrow> queue_only s 1 s'"
  by (auto simp: enqueue_delivery_def queue_only_def without_queue_def Let_def
      split: option.splits prod.splits dest!: queue_only_prune)

lemma queue_only_enqueue_all:
  "fold (enqueue_delivery limits now m) ps (l, s) = (l', s') \<Longrightarrow> queue_only s (int (length ps)) s'"
proof (induction ps arbitrary: l s)
  case (Cons p ps)
  obtain l1 s1 where e: "enqueue_delivery limits now m p (l, s) = (l1, s1)" by fastforce
  show ?case
    using Cons.IH [of l1 s1] Cons.prems e queue_only_trans [OF queue_only_enqueue [OF e]] by simp
qed (simp add: queue_only_def)

lemma prune_last:
  "pd_pairing_id d = p \<Longrightarrow> \<not> expired now a d \<Longrightarrow>
   k \<le> 0 \<or> c \<le> k \<or> c = 1 + int (length (filter (\<lambda>x. pd_pairing_id x = p) ds)) \<Longrightarrow>
   fst (prune_loop p now a k c (ds @ [d])) \<noteq> [] \<and> last (fst (prune_loop p now a k c (ds @ [d]))) = d"
proof (induction ds arbitrary: c)
  case Nil
  then show ?case by (auto simp: expired_def)
next
  case (Cons x ds)
  then show ?case by (auto simp: Let_def case_prod_beta)
qed

definition queued_last :: "message \<Rightarrow> string \<Rightarrow> memory_store \<Rightarrow> bool" where
  "queued_last m p s \<longleftrightarrow>
     rows_of p s \<noteq> [] \<and> pd_message (last (rows_of p s)) = m \<and> pd_attempts (last (rows_of p s)) = 0"

lemma enqueue_queued:
  assumes "enqueue_delivery limits now m p (l, s) = (l', s')"
  shows "queued_last m p s' \<and> other_rows p s' = other_rows p s"
proof -
  let ?d = "\<lambda>r. \<lparr>pd_sequence = pairingDeliverySequence s + 1, pd_pairing_id = p, pd_remote_network_id = r,
      pd_message_id = msg_id m, pd_message = m, pd_attempts = 0, pd_next_attempt = 0, pd_created_at = now\<rparr>"
  obtain r where rows: "pairingDeliveries s' = pairingDeliveries s @ [?d r] \<or>
      (\<exists>a k. pairingDeliveries s' = fst (prune_loop p now a k (1 + int (length (rows_of p s))) (pairingDeliveries s @ [?d r])))"
    using assms
    by (fastforce simp: enqueue_delivery_def prunePairingDeliveriesLocked_def Let_def case_prod_beta split: option.splits if_splits)
  then have "pairingDeliveries s' \<noteq> [] \<and> last (pairingDeliveries s') = ?d r"
  proof
    assume "\<exists>a k. pairingDeliveries s' =
      fst (prune_loop p now a k (1 + int (length (rows_of p s))) (pairingDeliveries s @ [?d r]))"
    then show ?thesis using prune_last [of "?d r" p now] by (force simp: expired_def)
  qed simp
  then obtain kept where "pairingDeliveries s' = kept @ [?d r]" by (metis append_butlast_last_id)
  moreover have "other_rows p s' = other_rows p s" using rows by (auto simp: prune_other_rows)
  ultimately show ?thesis by (auto simp: queued_last_def)
qed

lemma other_queue_kept:
  "other_rows p s' = other_rows p s \<Longrightarrow> q \<noteq> p \<Longrightarrow> rows_of q s' = rows_of q s"
proof -
  assume e: "other_rows p s' = other_rows p s" and q: "q \<noteq> p"
  have "rows_of q x = filter (\<lambda>d. pd_pairing_id d = q) (other_rows p x)" for x
    unfolding filter_filter using q by (auto intro: filter_cong)
  then show ?thesis using e by metis
qed

lemma enqueue_all_queued:
  "fold (enqueue_delivery limits now m) ps (l, s) = (l', s') \<Longrightarrow> distinct ps \<Longrightarrow>
   list_all (\<lambda>p. queued_last m p s') ps \<and> (\<forall>q. q \<notin> set ps \<longrightarrow> rows_of q s' = rows_of q s)"
proof (induction ps arbitrary: l s)
  case (Cons p ps)
  obtain l1 s1 where e: "enqueue_delivery limits now m p (l, s) = (l1, s1)" by fastforce
  note q = enqueue_queued [OF e]
  have "list_all (\<lambda>p. queued_last m p s') ps" and kept: "\<forall>q. q \<notin> set ps \<longrightarrow> rows_of q s' = rows_of q s1"
    using Cons.IH [of l1 s1] Cons.prems e by auto
  moreover have "queued_last m p s'" using q kept Cons.prems by (simp add: queued_last_def)
  moreover have "rows_of r s' = rows_of r s" if "r \<notin> set (p # ps)" for r
    using kept that other_queue_kept [of p s1 s r] q by simp
  ultimately show ?case by simp
qed simp

text \<open>
  C22. A commit is all or nothing. When it fails the store is as it was. When it succeeds, apart
  from the queue the store is the one the plain append produces, with the durable event (if
  any) added once at the end of the log; each named pairing has the message, unattempted, as the
  last row of its queue (the limits may drop older rows, never the new one), the queues of other
  pairings are untouched, and the sequence counter grows by the number of distinct pairings.
\<close>
theorem delivery_commit_atomic:
  "case AppendMessageWithPairingDeliveriesContext receipt envelope limits now m ev pairingIDs s of
     (Inl e, s') \<Rightarrow> s' = s \<and> fst (appendWithHubReceiptLocked receipt envelope m s) = Inl e
   | (Inr l, s') \<Rightarrow>
       (case appendWithHubReceiptLocked receipt envelope m s of
          (Inl _, _) \<Rightarrow> False
        | (Inr _, s1) \<Rightarrow>
            without_queue s' = without_queue (s1\<lparr>deliveryEvents := deliveryEvents s @ (case ev of None \<Rightarrow> [] | Some e \<Rightarrow> [e])\<rparr>) \<and>
            pairingDeliverySequence s' =
              pairingDeliverySequence s + int (length (UniqueTrimmedStrings pairingIDs)) \<and>
            list_all (\<lambda>p. queued_last m p s') (UniqueTrimmedStrings pairingIDs) \<and>
            (\<forall>q. rows_of q s' = rows_of q s \<or> q \<in> set (UniqueTrimmedStrings pairingIDs)))"
proof (cases "appendWithHubReceiptLocked receipt envelope m s")
  case (Pair res s1)
  show ?thesis
  proof (cases res)
    case (Inl e)
    with Pair hub_append_error show ?thesis
      by (auto simp: AppendMessageWithPairingDeliveriesContext_def)
  next
    case (Inr l0)
    let ?s2 = "s1\<lparr>deliveryEvents := deliveryEvents s @ (case ev of None \<Rightarrow> [] | Some e \<Rightarrow> [e])\<rparr>"
    have fields: "deliveryEvents s1 = deliveryEvents s" "pairingDeliveries s1 = pairingDeliveries s"
      "pairingDeliverySequence s1 = pairingDeliverySequence s"
      using hub_append_delivery_fields [OF Pair] by auto
    then have s2: "(case ev of None \<Rightarrow> s1 | Some e \<Rightarrow> s1\<lparr>deliveryEvents := deliveryEvents s1 @ [e]\<rparr>) = ?s2"
      by (simp split: option.split)
    obtain l' s' where f: "fold (enqueue_delivery limits now m) (UniqueTrimmedStrings pairingIDs) (l0, ?s2) = (l', s')"
      by fastforce
    then have "AppendMessageWithPairingDeliveriesContext receipt envelope limits now m ev pairingIDs s = (Inr l', s')"
      using Pair Inr s2 by (simp add: AppendMessageWithPairingDeliveriesContext_def Let_def)
    moreover have "\<forall>q. rows_of q s' = rows_of q s \<or> q \<in> set (UniqueTrimmedStrings pairingIDs)"
      "list_all (\<lambda>p. queued_last m p s') (UniqueTrimmedStrings pairingIDs)"
      using enqueue_all_queued [OF f] fields by auto
    moreover have "without_queue s' = without_queue ?s2"
      "pairingDeliverySequence s' = pairingDeliverySequence s + int (length (UniqueTrimmedStrings pairingIDs))"
      using queue_only_enqueue_all [OF f] fields by (auto simp: queue_only_def)
    ultimately show ?thesis using Pair Inr by simp
  qed
qed

section \<open>Diagnostics\<close>

lemma keep_runes_seqs:
  "list_all (utf8_seq \<circ> snd) rs \<Longrightarrow> list_all utf8_seq (keep_runes n rs) \<and>
   list_all (\<lambda>b. \<not> IsControl b) (keep_runes n rs) \<and> length (keep_runes n rs) \<le> 1024 - n"
  by (induction n rs rule: keep_runes.induct) auto

text \<open>
  A diagnostic kept with a queue row is valid UTF-8 of at most 1024 runes without control
  characters, whatever bytes the remote error carried, and it is empty only when there was no
  diagnostic at all.
\<close>

lemma diagnostic_clean:
  "valid_utf8 (pairingDeliveryText v) \<and> length (go_runes (pairingDeliveryText v)) \<le> 1024 \<and>
   list_all (\<lambda>r. \<not> IsControl (snd r)) (go_runes (pairingDeliveryText v)) \<and>
   (pairingDeliveryText v = [] \<longleftrightarrow> v = [])"
proof -
  let ?ks = "keep_runes 0 (go_runes (ToValidUTF8 v))"
  have "list_all (utf8_seq \<circ> snd) (go_runes (ToValidUTF8 v))"
    using replace_invalid_seqs [of "go_runes v" False] go_runes_valid
    by (force simp: go_runes_ToValidUTF8 list_all_iff)
  note ks = keep_runes_seqs [OF this, of 0]
  have runes: "go_runes (concat ?ks) = map (Pair True) ?ks" using ks by (simp add: go_runes_concat)
  let ?none = "''delivery failed (no printable diagnostic)''"
  have none: "list_all (\<lambda>r. fst r \<and> \<not> IsControl (snd r)) (go_runes ?none) \<and> length (go_runes ?none) \<le> 1024"
    by code_simp
  have "v = [] \<Longrightarrow> pairingDeliveryText v = []"
    by (simp add: pairingDeliveryText_def ToValidUTF8_def Let_def)
  then show ?thesis
    using ks none by (auto simp: pairingDeliveryText_def Let_def runes valid_utf8_def list_all_iff)
qed

end
