(* ===== verification/Attachment_Delivery.thy ===== *)
theory Attachment_Delivery
  imports Outbox_Properties
begin

text \<open>
  Resumable delivery to attached agents, store side: the durable event log and the per-agent
  cursors of \<open>history.go\<close> (\<open>PrepareAttachmentDeliveryContext\<close>,
  \<open>AcknowledgeAttachmentDeliveryContext\<close>). The contract that the broker relies on, the
  interface \<open>attachmentDeliveryStore\<close> of \<open>events/broker.go\<close>, is the locale
  \<open>attachment_store\<close>; the memory store is an interpretation of it.
\<close>

section \<open>The store's operations\<close>

definition PrepareAttachmentDeliveryContext :: "string \<Rightarrow> memory_store \<Rightarrow> event list \<times> memory_store" where
  "PrepareAttachmentDeliveryContext agentID s =
     (let i = trim_space agentID; n = int (length (deliveryEvents s))
      in case fmlookup (deliveryCursors s) i of
           None \<Rightarrow> ([], s\<lparr>deliveryCursors := fmupd i n (deliveryCursors s)\<rparr>)
         | Some cursor \<Rightarrow>
             if cursor < 0 \<or> cursor > n
             then (drop (nat n) (deliveryEvents s), s\<lparr>deliveryCursors := fmupd i n (deliveryCursors s)\<rparr>)
             else (drop (nat cursor) (deliveryEvents s), s))"

fun event_position :: "string \<Rightarrow> event list \<Rightarrow> nat" where
  "event_position i [] = 0"
| "event_position i (e # es) =
     (if evt_id e = i then 1
      else if event_position i es = 0 then 0 else event_position i es + 1)"

definition AcknowledgeAttachmentDeliveryContext :: "string \<Rightarrow> string \<Rightarrow> memory_store \<Rightarrow> memory_store" where
  "AcknowledgeAttachmentDeliveryContext agentID eventID s =
     (let sequence = int (event_position (trim_space eventID) (deliveryEvents s));
          i = trim_space agentID
      in if sequence = 0 then s
         else if sequence > fmget 0 (deliveryCursors s) i
         then s\<lparr>deliveryCursors := fmupd i sequence (deliveryCursors s)\<rparr>
         else s)"

section \<open>The contract\<close>

text \<open>
  An event's position in a log is one more than its index; 0 when it is not there.
\<close>

lemma event_position_le: "event_position i es \<le> length es"
  by (induction es) auto

lemma event_position_0: "event_position i es = 0 \<longleftrightarrow> i \<notin> evt_id ` set es"
  by (induction es) auto

lemma event_position_nth:
  "k < length es \<Longrightarrow> distinct (map evt_id es) \<Longrightarrow> event_position (evt_id (es ! k)) es = Suc k"
proof (induction es arbitrary: k)
  case (Cons e es)
  show ?case
  proof (cases k)
    case (Suc j)
    with Cons have "event_position (evt_id (es ! j)) es = Suc j" by simp
    moreover from Suc Cons.prems have "evt_id e \<noteq> evt_id (es ! j)" by (auto simp: image_iff)
    ultimately show ?thesis by (simp add: Suc)
  qed simp
qed simp

locale attachment_store =
  fixes good :: "'s \<Rightarrow> bool"
    and elog :: "'s \<Rightarrow> event list"
    and cursor :: "'s \<Rightarrow> string \<Rightarrow> nat option"
    and prepare :: "string \<Rightarrow> 's \<Rightarrow> event list \<times> 's"
    and acknowledge :: "string \<Rightarrow> string \<Rightarrow> 's \<Rightarrow> 's"
  assumes cursor_bound: "good s \<Longrightarrow> cursor s i = Some c \<Longrightarrow> c \<le> length (elog s)"
    and prepare_law: "good s \<Longrightarrow> prepare a s = (evs, s') \<Longrightarrow>
      good s' \<and> elog s' = elog s \<and>
      (let c = (case cursor s (trim_space a) of None \<Rightarrow> length (elog s) | Some c \<Rightarrow> c)
       in evs = drop c (elog s) \<and> cursor s' = (cursor s)(trim_space a \<mapsto> c))"
    and acknowledge_law: "good s \<Longrightarrow>
      good (acknowledge a e s) \<and> elog (acknowledge a e s) = elog s \<and>
      (let n = event_position (trim_space e) (elog s);
           old = (case cursor s (trim_space a) of None \<Rightarrow> 0 | Some c \<Rightarrow> c)
       in cursor (acknowledge a e s) =
            (if n > old then (cursor s)(trim_space a \<mapsto> n) else cursor s))"
begin

definition position :: "'s \<Rightarrow> string \<Rightarrow> nat" where
  "position s a = (case cursor s (trim_space a) of None \<Rightarrow> length (elog s) | Some c \<Rightarrow> c)"

lemma prepareD:
  assumes "good s" and "prepare a s = (evs, s')"
  shows "good s'" "elog s' = elog s" "evs = drop (position s a) (elog s)"
    "cursor s' = (cursor s)(trim_space a \<mapsto> position s a)"
  using prepare_law [OF assms] by (auto simp: position_def Let_def)

lemma acknowledgeD:
  assumes "good s"
  shows "good (acknowledge a e s)" "elog (acknowledge a e s) = elog s"
    "i \<noteq> trim_space a \<Longrightarrow> cursor (acknowledge a e s) i = cursor s i"
  using acknowledge_law [OF assms] by (auto simp: Let_def)

lemma acknowledge_cursor:
  assumes "good s" and "cursor s (trim_space a) = Some c"
  shows "cursor (acknowledge a e s) (trim_space a) = Some (max c (event_position (trim_space e) (elog s)))"
  using acknowledge_law [OF assms(1), of a e] assms(2) by (auto simp: Let_def max_def)

text \<open>
  Resuming: once prepared, an agent that acknowledges an event of the log is prepared next with
  the events after the latest one it acknowledged, also those that came in between.
\<close>

lemma resume_after_acknowledge:
  assumes s: "good s" "prepare a s = (evs, s1)"
    and s2: "good s2" "elog s2 = elog s1 @ new" "cursor s2 = cursor s1"
    and p: "prepare a (acknowledge a e s2) = (evs', s3)"
  shows "evs' = drop (max (position s a) (event_position (trim_space e) (elog s2))) (elog s2)"
proof -
  have "cursor s2 (trim_space a) = Some (position s a)" using prepareD(4) [OF s] s2(3) by simp
  from acknowledge_cursor [OF s2(1) this, of e] prepareD(3) [OF acknowledgeD(1) [OF s2(1)] p]
  show ?thesis by (simp add: position_def acknowledgeD(2) [OF s2(1)])
qed

lemma resume_without_acknowledge:
  assumes s: "good s" "prepare a s = (evs, s1)"
    and s2: "good s2" "elog s2 = elog s1 @ new" "cursor s2 = cursor s1"
    and p: "prepare a s2 = (evs', s3)"
  shows "evs' = evs @ new"
proof -
  have "cursor s2 (trim_space a) = Some (position s a)" using prepareD(4) [OF s] s2(3) by simp
  moreover have "position s a \<le> length (elog s)"
    using cursor_bound [OF s(1)] by (auto simp: position_def split: option.split)
  ultimately show ?thesis
    using prepareD(2,3) [OF s] prepareD(3) [OF s2(1) p] s2(2) by (simp add: position_def)
qed

end

section \<open>The memory store keeps it\<close>

definition cursors_ok :: "memory_store \<Rightarrow> bool" where
  "cursors_ok s \<longleftrightarrow> fmpred (\<lambda>_ c. 0 \<le> c \<and> c \<le> int (length (deliveryEvents s))) (deliveryCursors s)"

definition delivery_cursor :: "memory_store \<Rightarrow> string \<Rightarrow> nat option" where
  "delivery_cursor s i = map_option nat (fmlookup (deliveryCursors s) i)"

lemma cursors_okD:
  "cursors_ok s \<Longrightarrow> fmlookup (deliveryCursors s) i = Some c \<Longrightarrow> 0 \<le> c \<and> c \<le> int (length (deliveryEvents s))"
  by (simp add: cursors_ok_def fmpred_iff)

interpretation memory_delivery: attachment_store cursors_ok deliveryEvents delivery_cursor
  PrepareAttachmentDeliveryContext AcknowledgeAttachmentDeliveryContext
proof (unfold_locales, goal_cases)
  case (1 s i c)
  then show ?case by (auto simp: delivery_cursor_def dest!: cursors_okD)
next
  case (2 s a evs s')
  have ext: "(delivery_cursor s)(trim_space a \<mapsto> nat n) =
      delivery_cursor (s\<lparr>deliveryCursors := fmupd (trim_space a) n (deliveryCursors s)\<rparr>)" for n
    by (auto simp: delivery_cursor_def fun_eq_iff)
  have same: "fmlookup (deliveryCursors s) i = Some c \<Longrightarrow> (delivery_cursor s)(i \<mapsto> nat c) = delivery_cursor s"
    for i c by (auto simp: delivery_cursor_def fun_eq_iff)
  show ?case
  proof (cases "fmlookup (deliveryCursors s) (trim_space a)")
    case None
    with 2 ext [of "int (length (deliveryEvents s))"] show ?thesis
      by (auto simp: PrepareAttachmentDeliveryContext_def cursors_ok_def Let_def delivery_cursor_def [of s "trim_space a"]
          intro!: fmpred_upd)
  next
    case (Some c)
    from cursors_okD [OF 2(1) Some] have "0 \<le> c" "c \<le> int (length (deliveryEvents s))" by auto
    moreover have "delivery_cursor s (trim_space a) = Some (nat c)" using Some by (simp add: delivery_cursor_def)
    ultimately show ?thesis
      using Some 2 same [OF Some] by (auto simp: PrepareAttachmentDeliveryContext_def Let_def)
  qed
next
  case (3 s a e)
  let ?n = "event_position (trim_space e) (deliveryEvents s)"
  have ext: "(delivery_cursor s)(trim_space a \<mapsto> ?n) =
      delivery_cursor (s\<lparr>deliveryCursors := fmupd (trim_space a) (int ?n) (deliveryCursors s)\<rparr>)"
    by (auto simp: delivery_cursor_def fun_eq_iff)
  have old: "(case delivery_cursor s (trim_space a) of None \<Rightarrow> 0 | Some c \<Rightarrow> c) =
      nat (fmget 0 (deliveryCursors s) (trim_space a))"
    by (auto simp: delivery_cursor_def fmget_def split: option.splits)
  have nonneg: "0 \<le> fmget 0 (deliveryCursors s) (trim_space a)"
    using cursors_okD [OF 3] by (auto simp: fmget_def split: option.splits)
  from 3 old ext nonneg event_position_le [of "trim_space e" "deliveryEvents s"] show ?case
    by (auto simp: AcknowledgeAttachmentDeliveryContext_def Let_def cursors_ok_def intro!: fmpred_upd)
qed

end
