(* ===== verification/Go_Crypto.thy ===== *)
theory Go_Crypto
  imports Go_Prelude "HOL-Library.Word"
begin

text \<open>
  The parts of Go's \<open>crypto/sha256\<close> and \<open>encoding/hex\<close> that the code uses: SHA-256 of a byte
  string (FIPS 180-4, on 32-bit words that wrap around) and lower-case hexadecimal. Shown: a
  digest has 32 bytes, hexadecimal doubles the length and can be read back.
\<close>

unbundle bit_operations_syntax

section \<open>SHA-256\<close>

definition rotr :: "nat \<Rightarrow> 32 word \<Rightarrow> 32 word" where
  "rotr n x = drop_bit n x OR push_bit (32 - n) x"

text \<open>The constants of the standard, in decimal.\<close>

definition sha_k :: "32 word list" where
  "sha_k =
    [1116352408, 1899447441, 3049323471, 3921009573, 961987163, 1508970993,
     2453635748, 2870763221, 3624381080, 310598401, 607225278, 1426881987,
     1925078388, 2162078206, 2614888103, 3248222580, 3835390401, 4022224774,
     264347078, 604807628, 770255983, 1249150122, 1555081692, 1996064986,
     2554220882, 2821834349, 2952996808, 3210313671, 3336571891, 3584528711,
     113926993, 338241895, 666307205, 773529912, 1294757372, 1396182291,
     1695183700, 1986661051, 2177026350, 2456956037, 2730485921, 2820302411,
     3259730800, 3345764771, 3516065817, 3600352804, 4094571909, 275423344,
     430227734, 506948616, 659060556, 883997877, 958139571, 1322822218,
     1537002063, 1747873779, 1955562222, 2024104815, 2227730452, 2361852424,
     2428436474, 2756734187, 3204031479, 3329325298]"

definition sha_init :: "32 word list" where
  "sha_init =
    [1779033703, 3144134277, 1013904242, 2773480762, 1359893119, 2600822924,
     528734635, 1541459225]"

definition be_bytes :: "nat \<Rightarrow> nat \<Rightarrow> string" where
  "be_bytes k n = map (\<lambda>i. char_of (n div 256 ^ i mod 256)) (rev [0..<k])"

definition be_value :: "string \<Rightarrow> nat" where
  "be_value bs = fold (\<lambda>b n. 256 * n + of_char b) bs 0"

definition sha_pad :: "string \<Rightarrow> string" where
  "sha_pad m = m @ [CHR 0x80] @ replicate ((119 - length m mod 64) mod 64) (CHR 0x00) @
     be_bytes 8 (8 * length m)"

fun chunks :: "nat \<Rightarrow> 'a list \<Rightarrow> nat \<Rightarrow> 'a list list" where
  "chunks k xs 0 = []"
| "chunks k xs (Suc n) = take k xs # chunks k (drop k xs) n"

definition sha_words :: "string \<Rightarrow> 32 word list" where
  "sha_words block = map (\<lambda>b. of_nat (be_value b)) (chunks 4 block 16)"

definition sha_schedule :: "32 word list \<Rightarrow> 32 word list" where
  "sha_schedule ws = fold (\<lambda>t w.
     let s0 = rotr 7 (w ! (t - 15)) XOR rotr 18 (w ! (t - 15)) XOR drop_bit 3 (w ! (t - 15));
         s1 = rotr 17 (w ! (t - 2)) XOR rotr 19 (w ! (t - 2)) XOR drop_bit 10 (w ! (t - 2))
     in w @ [w ! (t - 16) + s0 + w ! (t - 7) + s1]) [16..<64] ws"

fun sha_round :: "32 word \<times> 32 word \<Rightarrow> 32 word list \<Rightarrow> 32 word list" where
  "sha_round (k, w) [a, b, c, d, e, f, g, h] =
     (let S1 = rotr 6 e XOR rotr 11 e XOR rotr 25 e;
          ch = (e AND f) XOR (NOT e AND g);
          t1 = h + S1 + ch + k + w;
          S0 = rotr 2 a XOR rotr 13 a XOR rotr 22 a;
          maj = (a AND b) XOR (a AND c) XOR (b AND c);
          t2 = S0 + maj
      in [t1 + t2, a, b, c, d + t1, e, f, g])"
| "sha_round _ st = st"

definition sha_block :: "string \<Rightarrow> 32 word list \<Rightarrow> 32 word list" where
  "sha_block block st =
     map2 (+) st (fold sha_round (zip sha_k (sha_schedule (sha_words block))) st)"

definition sha256 :: "string \<Rightarrow> string" where
  "sha256 m =
     concat (map (\<lambda>w. be_bytes 4 (unat w))
       (fold sha_block (chunks 64 (sha_pad m) (length (sha_pad m) div 64)) sha_init))"

section \<open>Hexadecimal\<close>

definition hex_nibble :: "nat \<Rightarrow> char" where
  "hex_nibble n = ''0123456789abcdef'' ! n"

definition hex_encode :: "string \<Rightarrow> string" where
  "hex_encode bs = concat (map (\<lambda>b. [hex_nibble (of_char b div 16), hex_nibble (of_char b mod 16)]) bs)"

section \<open>Lengths and decoding\<close>

lemma length_be_bytes [simp]: "length (be_bytes k n) = k"
  by (simp add: be_bytes_def)

lemma length_sha_round: "length (sha_round kw st) = length st"
  by (cases "(kw, st)" rule: sha_round.cases) (simp_all add: Let_def)

lemma length_fold_round: "length (fold sha_round kws st) = length st"
  by (induction kws arbitrary: st) (simp_all add: length_sha_round)

lemma length_fold_block: "length (fold sha_block bs st) = length st"
  by (induction bs arbitrary: st) (simp_all add: sha_block_def length_fold_round)

lemma length_sha256 [simp]: "length (sha256 m) = 32"
proof -
  have "length (concat (map (\<lambda>w. be_bytes 4 (unat (w :: 32 word))) ws)) = 4 * length ws" for ws
    by (induction ws) simp_all
  then show ?thesis by (simp add: sha256_def length_fold_block sha_init_def)
qed

lemma length_hex_encode [simp]: "length (hex_encode bs) = 2 * length bs"
  by (induction bs) (simp_all add: hex_encode_def)

lemma hex_nibble_inj: "a < 16 \<Longrightarrow> b < 16 \<Longrightarrow> hex_nibble a = hex_nibble b \<Longrightarrow> a = b"
proof -
  have "list_all (\<lambda>i. list_all (\<lambda>j. hex_nibble i = hex_nibble j \<longrightarrow> i = j) [0..<16]) [0..<16]"
    by code_simp
  then show "a < 16 \<Longrightarrow> b < 16 \<Longrightarrow> hex_nibble a = hex_nibble b \<Longrightarrow> a = b"
    by (auto simp: list_all_iff)
qed

lemma nibble_lt: "(of_char c :: nat) div 16 < 16" "(of_char c :: nat) mod 16 < 16"
  using nat_of_char_less_256 [of c] by (simp_all add: div_less_iff_less_mult del: nat_of_char_less_256)

lemma hex_encode_inj: "hex_encode xs = hex_encode ys \<Longrightarrow> xs = ys"
proof (induction xs arbitrary: ys)
  case (Cons x xs)
  then obtain y ys' where ys: "ys = y # ys'" by (cases ys) (auto simp: hex_encode_def)
  from Cons.prems have "hex_nibble (of_char x div 16) = hex_nibble (of_char y div 16)"
    and "hex_nibble (of_char x mod 16) = hex_nibble (of_char y mod 16)"
    and tl: "hex_encode xs = hex_encode ys'"
    by (auto simp: ys hex_encode_def)
  then have "(of_char x :: nat) div 16 = of_char y div 16" "(of_char x :: nat) mod 16 = of_char y mod 16"
    using hex_nibble_inj nibble_lt by blast+
  then have "(of_char x :: nat) = of_char y" by (metis div_mult_mod_eq)
  then have "x = y" by simp
  with Cons.IH [OF tl] show ?case by (simp add: ys)
qed (simp add: hex_encode_def)

definition hex_digits :: "char set" where
  "hex_digits = set ''0123456789abcdef''"

lemma hex_nibble_digit: "n < 16 \<Longrightarrow> hex_nibble n \<in> hex_digits"
  unfolding hex_nibble_def hex_digits_def by (rule nth_mem) simp

lemma set_hex_encode: "set (hex_encode bs) \<subseteq> hex_digits"
  by (induction bs) (simp_all add: hex_encode_def hex_nibble_digit nibble_lt)

end
