(* ===== verification/Event_Broker.thy ===== *)
theory Event_Broker
  imports Attachment_Delivery Go_Crypto
begin

text \<open>
  The event broker of \<open>events/broker.go\<close>. A subscriber holds a channel by reference, so the
  channels live in a store of their own, addressed by number; a channel that was closed can
  still be drained. Sending to a channel in a \<open>select\<close> with a default succeeds exactly when its
  buffer has room. The domain clock is an argument (\<open>None\<close>: it fails). \<open>nextID\<close> counts
  subscriptions of one process (64 bits in the source). Shown: what publishing does to each
  subscriber, that the history is the last 256 published events, and what a resuming
  subscriber is given.
\<close>

section \<open>The broker\<close>

record channel =
  ch_buffer :: "event list"
  ch_capacity :: nat
  ch_closed :: bool

record broker_subscriber =
  bs_events :: nat
  bs_durable :: bool

record broker =
  nextID :: nat
  subscribers :: "(nat, broker_subscriber) fmap"
  history :: "event list"
  channels :: "(nat, channel) fmap"

abbreviation brokerHistoryLimit :: nat where
  "brokerHistoryLimit \<equiv> 256"

definition NewBroker :: broker where
  "NewBroker = \<lparr>nextID = 0, subscribers = fmempty, history = [], channels = fmempty\<rparr>"

definition close_subscriber :: "nat \<Rightarrow> broker \<Rightarrow> broker" where
  "close_subscriber i b =
     (case fmlookup (subscribers b) i of
        None \<Rightarrow> b
      | Some sub \<Rightarrow>
          (case fmlookup (channels b) (bs_events sub) of
             None \<Rightarrow> b
           | Some ch \<Rightarrow>
               b\<lparr>subscribers := fmdrop i (subscribers b),
                 channels := fmupd (bs_events sub) (ch\<lparr>ch_closed := True\<rparr>) (channels b)\<rparr>))"

definition offer :: "event \<Rightarrow> nat \<Rightarrow> broker \<Rightarrow> broker" where
  "offer ev i b =
     (case fmlookup (subscribers b) i of
        None \<Rightarrow> b
      | Some sub \<Rightarrow>
          (case fmlookup (channels b) (bs_events sub) of
             None \<Rightarrow> b
           | Some ch \<Rightarrow>
               if length (ch_buffer ch) < ch_capacity ch
               then b\<lparr>channels := fmupd (bs_events sub) (ch\<lparr>ch_buffer := ch_buffer ch @ [ev]\<rparr>) (channels b)\<rparr>
               else if bs_durable sub then close_subscriber i b
               else b))"

definition Publish :: "event \<Rightarrow> broker \<Rightarrow> broker" where
  "Publish ev b =
     (let h = history b @ [ev];
          kept = (if length h > brokerHistoryLimit then drop (length h - brokerHistoryLimit) h else h)
      in fold (offer ev) (sorted_list_of_fset (fmdom (subscribers b))) (b\<lparr>history := kept\<rparr>))"

definition subscribeLocked :: "event list \<Rightarrow> bool \<Rightarrow> broker \<Rightarrow> nat \<times> broker" where
  "subscribeLocked replay durable b =
     (let i = nextID b + 1;
          size = (if length replay + 16 > brokerHistoryLimit then length replay + 16 else brokerHistoryLimit)
      in (i, b\<lparr>nextID := i,
               subscribers := fmupd i \<lparr>bs_events = i, bs_durable = durable\<rparr> (subscribers b),
               channels := fmupd i \<lparr>ch_buffer = replay, ch_capacity = size, ch_closed = False\<rparr> (channels b)\<rparr>))"

definition replayGapEventID :: "string \<Rightarrow> string" where
  "replayGapEventID requested = ''evt_gap_'' @ hex_encode (sha256 requested)"

definition replay_gap_event :: "string \<Rightarrow> event list \<Rightarrow> time \<Rightarrow> event" where
  "replay_gap_event requested h now =
     \<lparr>evt_id = replayGapEventID requested, evt_type = EventTypeReplayGap,
      evt_network_id = evt_network_id (last h), evt_agent = None, evt_message = None,
      evt_room = None, evt_thread = None, evt_dm = None, evt_pairing = None,
      evt_replay_gap = Some \<lparr>gap_requested_event_id = requested,
        gap_oldest_event_id = evt_id (hd h), gap_newest_event_id = evt_id (last h)\<rparr>,
      evt_created_at = now\<rparr>"

fun last_index :: "string \<Rightarrow> event list \<Rightarrow> nat option" where
  "last_index i [] = None"
| "last_index i (e # es) =
     (case last_index i es of
        Some k \<Rightarrow> Some (Suc k)
      | None \<Rightarrow> if evt_id e = i then Some 0 else None)"

definition eventsAfterLocked :: "time option \<Rightarrow> string \<Rightarrow> broker \<Rightarrow> event list option" where
  "eventsAfterLocked now lastEventID b =
     (if history b = [] \<or> lastEventID = [] then Some []
      else if has_prefix ''evt_gap_'' lastEventID then Some (history b)
      else case last_index lastEventID (history b) of
             None \<Rightarrow> (case now of
                 None \<Rightarrow> None
               | Some t \<Rightarrow> Some (replay_gap_event lastEventID (history b) t # history b))
           | Some index \<Rightarrow>
               if index = length (history b) - 1 then Some [] else Some (drop (index + 1) (history b)))"

definition SubscribeFromContext :: "time option \<Rightarrow> string \<Rightarrow> broker \<Rightarrow> (nat option) \<times> broker" where
  "SubscribeFromContext now lastEventID b =
     (case eventsAfterLocked now lastEventID b of
        None \<Rightarrow> (None, b)
      | Some replay \<Rightarrow> (case subscribeLocked replay False b of (i, b') \<Rightarrow> (Some i, b')))"

text \<open>
  \<open>subscribeFrom\<close> hands out a channel that is already closed, and registers nothing, when the
  subscription fails.
\<close>

definition SubscribeFrom :: "time option \<Rightarrow> string \<Rightarrow> broker \<Rightarrow> (nat option) \<times> broker" where
  "SubscribeFrom now lastEventID b = SubscribeFromContext now lastEventID b"

definition Subscribe :: "time option \<Rightarrow> broker \<Rightarrow> (nat option) \<times> broker" where
  "Subscribe now b = SubscribeFrom now [] b"

text \<open>
  The operations that need the attachment store take it as the pair of its operations, the
  interface \<open>attachmentDeliveryStore\<close>; \<open>None\<close> for the operations is a broker without one.
\<close>

datatype broker_error = NoDurableDelivery

definition SubscribeAgent ::
  "(string \<Rightarrow> 's \<Rightarrow> event list \<times> 's) option \<Rightarrow> string \<Rightarrow> 's \<times> broker \<Rightarrow>
   (broker_error + nat) \<times> ('s \<times> broker)" where
  "SubscribeAgent delivery agentID sb =
     (case delivery of
        None \<Rightarrow> (Inl NoDurableDelivery, sb)
      | Some prepare \<Rightarrow>
          (case sb of (s, b) \<Rightarrow>
             let (replay, s') = prepare agentID s;
                 (i, b') = subscribeLocked replay True b
             in (Inr i, (s', b'))))"

definition AcknowledgeAgent ::
  "(string \<Rightarrow> string \<Rightarrow> 's \<Rightarrow> 's) option \<Rightarrow> string \<Rightarrow> string \<Rightarrow> 's \<Rightarrow> broker_error option \<times> 's" where
  "AcknowledgeAgent delivery agentID eventID s =
     (case delivery of
        None \<Rightarrow> (Some NoDurableDelivery, s)
      | Some acknowledge \<Rightarrow> (None, acknowledge agentID eventID s))"

text \<open>What the holder of a channel does: receive the oldest buffered event; and cancelling its context.\<close>

definition receive :: "nat \<Rightarrow> broker \<Rightarrow> (event \<times> broker) option" where
  "receive i b =
     (case fmlookup (channels b) i of
        None \<Rightarrow> None
      | Some ch \<Rightarrow>
          (case ch_buffer ch of
             [] \<Rightarrow> None
           | ev # rest \<Rightarrow> Some (ev, b\<lparr>channels := fmupd i (ch\<lparr>ch_buffer := rest\<rparr>) (channels b)\<rparr>)))"

section \<open>Well-formed brokers\<close>

definition broker_ok :: "broker \<Rightarrow> bool" where
  "broker_ok b \<longleftrightarrow>
     (\<forall>i sub. fmlookup (subscribers b) i = Some sub \<longrightarrow>
        bs_events sub = i \<and> (\<exists>ch. fmlookup (channels b) i = Some ch \<and> \<not> ch_closed ch)) \<and>
     (\<forall>i ch. fmlookup (channels b) i = Some ch \<longrightarrow>
        i \<le> nextID b \<and> brokerHistoryLimit \<le> ch_capacity ch \<and> length (ch_buffer ch) \<le> ch_capacity ch) \<and>
     length (history b) \<le> brokerHistoryLimit"

lemma broker_okD:
  assumes "broker_ok b" and "fmlookup (subscribers b) i = Some sub"
  shows "bs_events sub = i" "\<exists>ch. fmlookup (channels b) i = Some ch \<and> \<not> ch_closed ch"
  using assms by (auto simp: broker_ok_def)

lemma broker_ok_new [simp]: "broker_ok NewBroker"
  by (simp add: broker_ok_def NewBroker_def)

lemma close_lookup:
  assumes "broker_ok b" and "fmlookup (subscribers b) i = Some sub"
  shows "fmlookup (subscribers (close_subscriber i b)) j = (if j = i then None else fmlookup (subscribers b) j)"
    "fmlookup (channels (close_subscriber i b)) j =
       (if j = i then map_option (ch_closed_update (\<lambda>_. True)) (fmlookup (channels b) i) else fmlookup (channels b) j)"
    "history (close_subscriber i b) = history b" "nextID (close_subscriber i b) = nextID b"
  using broker_okD [OF assms] assms(2) by (auto simp: close_subscriber_def)

lemma broker_ok_close: "broker_ok b \<Longrightarrow> broker_ok (close_subscriber i b)"
proof (cases "fmlookup (subscribers b) i")
  case (Some sub)
  assume ok: "broker_ok b"
  then show ?thesis
    using close_lookup [OF ok Some] by (auto simp: broker_ok_def split: if_splits)
qed (simp add: close_subscriber_def)

text \<open>What an offered event does to one subscriber's registration and channel.\<close>

definition offered :: "event \<Rightarrow> broker_subscriber \<Rightarrow> channel \<Rightarrow> broker_subscriber option \<times> channel" where
  "offered ev sub ch =
     (if length (ch_buffer ch) < ch_capacity ch then (Some sub, ch\<lparr>ch_buffer := ch_buffer ch @ [ev]\<rparr>)
      else if bs_durable sub then (None, ch\<lparr>ch_closed := True\<rparr>)
      else (Some sub, ch))"

lemma offer_lookup:
  assumes ok: "broker_ok b" and sub: "fmlookup (subscribers b) i = Some sub" "fmlookup (channels b) i = Some ch"
  shows "fmlookup (subscribers (offer ev i b)) j =
      (if j = i then fst (offered ev sub ch) else fmlookup (subscribers b) j)"
    "fmlookup (channels (offer ev i b)) j =
      (if j = i then Some (snd (offered ev sub ch)) else fmlookup (channels b) j)"
    "history (offer ev i b) = history b" "nextID (offer ev i b) = nextID b"
  using broker_okD [OF ok sub(1)] sub close_lookup [OF ok sub(1)]
  by (auto simp: offer_def offered_def)

lemma broker_ok_offer: "broker_ok b \<Longrightarrow> broker_ok (offer ev i b)"
proof (cases "fmlookup (subscribers b) i")
  case (Some sub)
  assume ok: "broker_ok b"
  then obtain ch where ch: "fmlookup (channels b) i = Some ch" using broker_okD [OF ok Some] by auto
  show ?thesis
    using ok offer_lookup [OF ok Some ch] broker_okD [OF ok Some] ch Some
    unfolding broker_ok_def by (auto simp: offered_def split: if_splits)
qed (simp add: offer_def)

lemma fold_offer:
  assumes "broker_ok b" and "distinct is"
  shows "broker_ok (fold (offer ev) is b) \<and> history (fold (offer ev) is b) = history b \<and>
    nextID (fold (offer ev) is b) = nextID b \<and>
    (\<forall>j. fmlookup (subscribers (fold (offer ev) is b)) j =
       (if j \<in> set is then
          (case fmlookup (subscribers b) j of None \<Rightarrow> None
           | Some sub \<Rightarrow> fst (offered ev sub (the (fmlookup (channels b) j))))
        else fmlookup (subscribers b) j)) \<and>
    (\<forall>j. fmlookup (channels (fold (offer ev) is b)) j =
       (case fmlookup (subscribers b) j of
          Some sub \<Rightarrow> if j \<in> set is then Some (snd (offered ev sub (the (fmlookup (channels b) j))))
                      else fmlookup (channels b) j
        | None \<Rightarrow> fmlookup (channels b) j))"
  using assms
proof (induction "is" arbitrary: b)
  case Nil
  then show ?case by (simp split: option.split)
next
  case (Cons i "is")
  let ?b = "offer ev i b"
  note IH = Cons.IH [OF broker_ok_offer [OF Cons.prems(1)], of ev i]
  show ?case
  proof (cases "fmlookup (subscribers b) i")
    case None
    then have "?b = b" by (simp add: offer_def)
    with IH Cons.prems None show ?thesis by (auto split: option.splits)
  next
    case (Some sub)
    then obtain ch where ch: "fmlookup (channels b) i = Some ch" using broker_okD [OF Cons.prems(1) Some] by auto
    note lk = offer_lookup [OF Cons.prems(1) Some ch, of ev]
    from IH Cons.prems lk Some ch show ?thesis by (auto split: option.splits)
  qed
qed

lemma broker_ok_history:
  "broker_ok b \<Longrightarrow> length h \<le> brokerHistoryLimit \<Longrightarrow> broker_ok (b\<lparr>history := h\<rparr>)"
  by (simp add: broker_ok_def)

text \<open>The newest 256 of a list of events.\<close>

definition recent :: "event list \<Rightarrow> event list" where
  "recent h = newest brokerHistoryLimit h"

lemma length_recent: "length (recent h) \<le> brokerHistoryLimit"
  by (simp add: recent_def newest_def)

lemma recent_snoc: "recent (recent h @ [e]) = recent (h @ [e])"
proof (cases "length h \<le> brokerHistoryLimit")
  case False
  then have "Suc (length h - brokerHistoryLimit) = length h - 255" by simp
  with False show ?thesis by (simp add: recent_def newest_def)
qed (simp add: recent_def newest_def)

lemma Publish_history:
  assumes "broker_ok b"
  shows "history (Publish ev b) = recent (history b @ [ev])" "nextID (Publish ev b) = nextID b"
    "broker_ok (Publish ev b)"
proof -
  let ?h = "history b @ [ev]"
  let ?kept = "if length ?h > brokerHistoryLimit then drop (length ?h - brokerHistoryLimit) ?h else ?h"
  have kept: "?kept = recent ?h" by (simp add: recent_def newest_def)
  have ok: "broker_ok (b\<lparr>history := ?kept\<rparr>)"
    unfolding kept using assms length_recent by (rule broker_ok_history)
  show "history (Publish ev b) = recent ?h" "nextID (Publish ev b) = nextID b" "broker_ok (Publish ev b)"
    using fold_offer [OF ok, of "sorted_list_of_fset (fmdom (subscribers b))" ev] kept
    unfolding Publish_def Let_def by auto
qed

lemma Publish_lookup:
  assumes "broker_ok b"
  shows "fmlookup (subscribers (Publish ev b)) j =
      (case fmlookup (subscribers b) j of None \<Rightarrow> None
       | Some sub \<Rightarrow> fst (offered ev sub (the (fmlookup (channels b) j))))"
    "fmlookup (channels (Publish ev b)) j =
      (case fmlookup (subscribers b) j of None \<Rightarrow> fmlookup (channels b) j
       | Some sub \<Rightarrow> Some (snd (offered ev sub (the (fmlookup (channels b) j)))))"
proof -
  let ?h = "history b @ [ev]"
  let ?kept = "if length ?h > brokerHistoryLimit then drop (length ?h - brokerHistoryLimit) ?h else ?h"
  have kept: "?kept = recent ?h" by (simp add: recent_def newest_def)
  have ok: "broker_ok (b\<lparr>history := ?kept\<rparr>)"
    unfolding kept using assms length_recent by (rule broker_ok_history)
  note f = fold_offer [OF ok, of "sorted_list_of_fset (fmdom (subscribers b))" ev]
  have dom: "j \<in> set (sorted_list_of_fset (fmdom (subscribers b))) \<longleftrightarrow> fmlookup (subscribers b) j \<noteq> None"
    by (auto simp: fmlookup_dom_iff)
  show "fmlookup (subscribers (Publish ev b)) j =
      (case fmlookup (subscribers b) j of None \<Rightarrow> None
       | Some sub \<Rightarrow> fst (offered ev sub (the (fmlookup (channels b) j))))"
    using f dom unfolding Publish_def Let_def by (auto split: option.splits)
  show "fmlookup (channels (Publish ev b)) j =
      (case fmlookup (subscribers b) j of None \<Rightarrow> fmlookup (channels b) j
       | Some sub \<Rightarrow> Some (snd (offered ev sub (the (fmlookup (channels b) j)))))"
    using f dom unfolding Publish_def Let_def by (auto split: option.splits)
qed

lemma subscribe_lookup:
  assumes "subscribeLocked replay durable b = (i, b')"
  shows "i = Suc (nextID b)" "nextID b' = i" "history b' = history b"
    "subscribers b' = fmupd i \<lparr>bs_events = i, bs_durable = durable\<rparr> (subscribers b)"
    "channels b' = fmupd i \<lparr>ch_buffer = replay,
        ch_capacity = max brokerHistoryLimit (length replay + 16), ch_closed = False\<rparr> (channels b)"
  using assms by (auto simp: subscribeLocked_def Let_def)

lemma broker_ok_subscribe:
  assumes "broker_ok b" and "subscribeLocked replay durable b = (i, b')"
  shows "broker_ok b'"
proof -
  have fresh: "fmlookup (subscribers b) i = None" "fmlookup (channels b) i = None"
    using assms subscribe_lookup(1) [OF assms(2)]
    by (auto simp: broker_ok_def) (metis Suc_n_not_le_n not_Some_eq)+
  show ?thesis
    using assms(1) subscribe_lookup [OF assms(2)] fresh unfolding broker_ok_def
    by (auto simp: le_Suc_eq)
qed

lemma receive_lookup:
  assumes "receive i b = Some (ev, b')"
  shows "\<exists>ch. fmlookup (channels b) i = Some ch \<and> ch_buffer ch = ev # tl (ch_buffer ch) \<and>
    b' = b\<lparr>channels := fmupd i (ch\<lparr>ch_buffer := tl (ch_buffer ch)\<rparr>) (channels b)\<rparr>"
  using assms by (auto simp: receive_def split: option.splits list.splits)

lemma broker_ok_receive:
  assumes "broker_ok b" and "receive i b = Some (ev, b')"
  shows "broker_ok b'"
proof -
  obtain ch where ch: "fmlookup (channels b) i = Some ch" and buf: "ch_buffer ch = ev # tl (ch_buffer ch)"
    and b': "b' = b\<lparr>channels := fmupd i (ch\<lparr>ch_buffer := tl (ch_buffer ch)\<rparr>) (channels b)\<rparr>"
    using receive_lookup [OF assms(2)] by blast
  have "length (tl (ch_buffer ch)) \<le> ch_capacity ch" using assms(1) ch by (fastforce simp: broker_ok_def)
  with assms(1) ch show ?thesis unfolding broker_ok_def b' by (fastforce split: if_splits)
qed

section \<open>Resuming\<close>

lemma last_index_None: "last_index i es = None \<longleftrightarrow> i \<notin> evt_id ` set es"
  by (induction es) (auto split: option.splits)

lemma last_index_Some:
  "last_index i es = Some k \<Longrightarrow>
   k < length es \<and> evt_id (es ! k) = i \<and> i \<notin> evt_id ` set (drop (Suc k) es)"
proof (induction es arbitrary: k)
  case (Cons e es)
  then show ?case
    by (auto split: option.splits if_splits simp: last_index_None)
qed simp

text \<open>
  C27. What a resuming subscriber is given, before anything published later: nothing when it names
  no event or nothing was published; exactly the events after the last occurrence of the event
  it names when the history still has it; the whole history when it names a gap event; and when
  the event it names is no longer in the history, a gap event that says so, with the oldest and
  newest event ids available, followed by the whole history, or an error, with nothing
  registered, when the clock fails. The channel always has room for all of it.
\<close>
theorem resume_exact:
  "case SubscribeFromContext now lastEventID b of
     (None, b') \<Rightarrow> b' = b \<and> now = None \<and> lastEventID \<notin> evt_id ` set (history b)
   | (Some i, b') \<Rightarrow>
       (\<exists>ch. fmlookup (channels b') i = Some ch \<and> \<not> ch_closed ch \<and>
          length (ch_buffer ch) + 16 \<le> ch_capacity ch \<and>
          (if history b = [] \<or> lastEventID = [] then ch_buffer ch = []
           else if has_prefix ''evt_gap_'' lastEventID then ch_buffer ch = history b
           else if lastEventID \<in> evt_id ` set (history b)
           then \<exists>before e. history b = before @ e # ch_buffer ch \<and> evt_id e = lastEventID \<and>
                  lastEventID \<notin> evt_id ` set (ch_buffer ch)
           else \<exists>gap. ch_buffer ch = gap # history b \<and> evt_type gap = EventTypeReplayGap \<and>
                  evt_replay_gap gap = Some \<lparr>gap_requested_event_id = lastEventID,
                    gap_oldest_event_id = evt_id (hd (history b)),
                    gap_newest_event_id = evt_id (last (history b))\<rparr>))"
proof (cases "eventsAfterLocked now lastEventID b")
  case None
  then show ?thesis
    by (auto simp: SubscribeFromContext_def eventsAfterLocked_def last_index_None split: if_splits option.splits)
next
  case (Some replay)
  obtain i b' where sub: "subscribeLocked replay False b = (i, b')" by fastforce
  have found: "\<exists>before e. history b = before @ e # drop (Suc k) (history b) \<and> evt_id e = lastEventID \<and>
      lastEventID \<notin> evt_id ` set (drop (Suc k) (history b))" if "last_index lastEventID (history b) = Some k" for k
    using last_index_Some [OF that] id_take_nth_drop [of k "history b"] by auto
  have last: "drop (Suc k) (history b) = []" if "k = length (history b) - Suc 0" for k
    using that by simp
  let ?given = "\<lambda>r. if history b = [] \<or> lastEventID = [] then r = []
      else if has_prefix ''evt_gap_'' lastEventID then r = history b
      else if lastEventID \<in> evt_id ` set (history b)
      then \<exists>before e. history b = before @ e # r \<and> evt_id e = lastEventID \<and> lastEventID \<notin> evt_id ` set r
      else \<exists>gap. r = gap # history b \<and> evt_type gap = EventTypeReplayGap \<and>
         evt_replay_gap gap = Some \<lparr>gap_requested_event_id = lastEventID,
           gap_oldest_event_id = evt_id (hd (history b)), gap_newest_event_id = evt_id (last (history b))\<rparr>"
  have "?given replay"
  proof (cases "last_index lastEventID (history b)")
    case None
    then have "lastEventID \<notin> evt_id ` set (history b)" by (simp add: last_index_None)
    with None Some show ?thesis
      by (auto simp: eventsAfterLocked_def replay_gap_event_def split: option.splits)
  next
    case (Some k)
    then have "lastEventID \<in> evt_id ` set (history b)"
      by (metis last_index_None option.distinct(1))
    moreover have "replay = drop (Suc k) (history b)"
      if "history b \<noteq> []" "lastEventID \<noteq> []" "\<not> has_prefix ''evt_gap_'' lastEventID"
      using that Some \<open>eventsAfterLocked now lastEventID b = Some replay\<close> last [of k]
      by (auto simp: eventsAfterLocked_def split: if_splits)
    moreover have "replay = []" if "history b = [] \<or> lastEventID = []"
      using that \<open>eventsAfterLocked now lastEventID b = Some replay\<close> by (auto simp: eventsAfterLocked_def)
    moreover have "replay = history b"
      if "history b \<noteq> []" "lastEventID \<noteq> []" "has_prefix ''evt_gap_'' lastEventID"
      using that \<open>eventsAfterLocked now lastEventID b = Some replay\<close> by (auto simp: eventsAfterLocked_def)
    ultimately show ?thesis using found [OF Some] by simp
  qed
  then show ?thesis
    using Some sub subscribe_lookup [OF sub] by (simp add: SubscribeFromContext_def)
qed

end
