(* ===== verification/Message_Events.thy ===== *)
theory Message_Events
  imports Event_Broker
begin

text \<open>
  Identifiers made from a seed (\<open>rooms/ids.go\<close>) and the event that announces a message
  (\<open>rooms/messaging.go\<close>, \<open>rooms/events.go\<close>).
\<close>

definition set_byte :: "nat \<Rightarrow> (nat \<Rightarrow> nat) \<Rightarrow> string \<Rightarrow> string" where
  "set_byte i f bs = bs[i := char_of (f (of_char (bs ! i)))]"

text \<open>\<open>(b & 0x0f) | 0x40\<close> and \<open>(b & 0x3f) | 0x80\<close>: the version and variant bits of a UUID.\<close>

definition formatUUID :: "string \<Rightarrow> string" where
  "formatUUID bytes =
     (let bs = set_byte 8 (\<lambda>b. b mod 64 + 128) (set_byte 6 (\<lambda>b. b mod 16 + 64) bytes)
      in hex_encode (take 4 bs) @ ''-'' @ hex_encode (take 2 (drop 4 bs)) @ ''-'' @
         hex_encode (take 2 (drop 6 bs)) @ ''-'' @ hex_encode (take 2 (drop 8 bs)) @ ''-'' @
         hex_encode (take 6 (drop 10 bs)))"

definition deterministicPrefixedID :: "string \<Rightarrow> string \<Rightarrow> string" where
  "deterministicPrefixedID pre seed =
     trim_space pre @ ''_'' @ formatUUID (take 16 (sha256 (trim_space seed)))"

definition eventIDForMessage :: "string \<Rightarrow> string" where
  "eventIDForMessage messageID = deterministicPrefixedID ''evt'' messageID"

definition message_event :: "string \<Rightarrow> message \<Rightarrow> time \<Rightarrow> event" where
  "message_event networkID m now =
     \<lparr>evt_id = eventIDForMessage (msg_id m), evt_type = EventTypeMessageCreated,
      evt_network_id = networkID, evt_agent = None, evt_message = Some m, evt_room = None,
      evt_thread = None, evt_dm = None, evt_pairing = None, evt_replay_gap = None,
      evt_created_at = now\<rparr>"

section \<open>Well-formed identifiers\<close>

lemma length_set_byte [simp]: "length (set_byte i f bs) = length bs"
  by (simp add: set_byte_def)

lemma length_formatUUID: "length bs = 16 \<Longrightarrow> length (formatUUID bs) = 36"
  by (simp add: formatUUID_def Let_def)

lemma set_formatUUID: "set (formatUUID bs) \<subseteq> insert (CHR ''-'') hex_digits"
  using set_hex_encode by (fastforce simp: formatUUID_def Let_def)

lemma event_id_chars: "\<forall>c \<in> set (eventIDForMessage i). c \<in> insert (CHR ''-'') hex_digits \<union> set ''evt_''"
proof -
  have "trim_space ''evt'' = ''evt''"
    by (rule trim_space_graphic) (simp add: graphic_def less_eq_char_def)
  then show ?thesis
    using set_formatUUID by (fastforce simp: eventIDForMessage_def deterministicPrefixedID_def)
qed

lemma event_id_trimmed [simp]: "trim_space (eventIDForMessage i) = eventIDForMessage i"
proof (rule trim_space_graphic)
  have "\<forall>c \<in> insert (CHR ''-'') hex_digits \<union> set ''evt_''. graphic c"
    by (simp add: hex_digits_def graphic_def less_eq_char_def)
  then show "\<forall>c \<in> set (eventIDForMessage i). graphic c" using event_id_chars by blast
qed

end
