(* ===== verification/Delivery_System.thy ===== *)
theory Delivery_System
  imports Message_Events
begin

text \<open>
  The store and the broker together, as the room service drives them. A commit appends the
  message and its durable event to the store and then publishes the event, holding
  \<open>deliveryMu\<close> throughout (\<open>rooms/messaging.go\<close>, \<open>appendAndPublishMessage\<close>); attaching an agent
  (\<open>rooms/query.go\<close>, \<open>RegisterDurableAttachmentContext\<close>) takes the same lock. Other
  publications, receiving, acknowledging, cancelling and other store operations may happen in
  between, also between the two halves of a commit. The step relation has one rule for each;
  \<open>sys_pending\<close> is the event that is stored but not yet published (the lock is held). What
  each subscription has received, for which agent and from which position of the log it
  started, and where an agent first attached, is recorded beside the state.
\<close>

section \<open>Steps\<close>

record delivery_system =
  sys_store :: memory_store
  sys_broker :: broker
  sys_pending :: "event option"
  sys_sub :: "nat \<rightharpoonup> string \<times> nat"
  sys_seen :: "nat \<Rightarrow> event list"
  sys_first :: "string \<rightharpoonup> nat"

definition start_system :: "memory_store \<Rightarrow> delivery_system" where
  "start_system s = \<lparr>sys_store = s, sys_broker = NewBroker, sys_pending = None,
     sys_sub = Map.empty, sys_seen = (\<lambda>_. []), sys_first = Map.empty\<rparr>"

abbreviation elog :: "delivery_system \<Rightarrow> event list" where
  "elog S \<equiv> deliveryEvents (sys_store S)"

inductive delivery_step :: "delivery_system \<Rightarrow> delivery_system \<Rightarrow> bool" where
  commit: "sys_pending S = None \<Longrightarrow> ev = message_event networkID m now \<Longrightarrow>
    evt_id ev \<notin> evt_id ` set (elog S) \<Longrightarrow>
    AppendMessageWithPairingDeliveriesContext receipt envelope limits now m (Some ev) pairingIDs (sys_store S) =
      (Inr lifecycle, s') \<Longrightarrow>
    delivery_step S (S\<lparr>sys_store := s', sys_pending := Some ev\<rparr>)"
| publish: "sys_pending S = Some ev \<Longrightarrow>
    delivery_step S (S\<lparr>sys_broker := Publish ev (sys_broker S), sys_pending := None\<rparr>)"
| publish_other: "evt_type ev \<noteq> EventTypeMessageCreated \<Longrightarrow>
    delivery_step S (S\<lparr>sys_broker := Publish ev (sys_broker S)\<rparr>)"
| attach: "sys_pending S = None \<Longrightarrow>
    SubscribeAgent (Some PrepareAttachmentDeliveryContext) a (sys_store S, sys_broker S) = (Inr i, (s', b')) \<Longrightarrow>
    p = memory_delivery.position (sys_store S) a \<Longrightarrow>
    delivery_step S (S\<lparr>sys_store := s', sys_broker := b',
      sys_sub := (sys_sub S)(i \<mapsto> (trim_space a, p)), sys_seen := (sys_seen S)(i := []),
      sys_first := (if sys_first S (trim_space a) = None then (sys_first S)(trim_space a \<mapsto> p) else sys_first S)\<rparr>)"
| observe: "SubscribeFromContext now lastEventID (sys_broker S) = (r, b') \<Longrightarrow>
    delivery_step S (S\<lparr>sys_broker := b'\<rparr>)"
| receive: "receive i (sys_broker S) = Some (ev, b') \<Longrightarrow>
    delivery_step S (S\<lparr>sys_broker := b', sys_seen := (sys_seen S)(i := sys_seen S i @ [ev])\<rparr>)"
| cancel: "delivery_step S (S\<lparr>sys_broker := close_subscriber i (sys_broker S)\<rparr>)"
| acknowledge: "sys_sub S i = Some (a, p) \<Longrightarrow> ev \<in> set (sys_seen S i) \<Longrightarrow>
    evt_type ev = EventTypeMessageCreated \<Longrightarrow>
    AcknowledgeAgent (Some AcknowledgeAttachmentDeliveryContext) a (evt_id ev) (sys_store S) = (None, s') \<Longrightarrow>
    delivery_step S (S\<lparr>sys_store := s'\<rparr>)"
| other: "deliveryEvents s' = elog S \<Longrightarrow> deliveryCursors s' = deliveryCursors (sys_store S) \<Longrightarrow>
    delivery_step S (S\<lparr>sys_store := s'\<rparr>)"

inductive delivery_run :: "delivery_system \<Rightarrow> delivery_system \<Rightarrow> bool" where
  none: "delivery_run S S"
| step: "delivery_run S T \<Longrightarrow> delivery_step T U \<Longrightarrow> delivery_run S U"

section \<open>Invariant\<close>

definition messages_in :: "event list \<Rightarrow> event list" where
  "messages_in es = filter (\<lambda>e. evt_type e = EventTypeMessageCreated) es"

definition published :: "delivery_system \<Rightarrow> event list" where
  "published S = (case sys_pending S of None \<Rightarrow> elog S | Some _ \<Rightarrow> butlast (elog S))"

definition buffered :: "delivery_system \<Rightarrow> nat \<Rightarrow> event list" where
  "buffered S i = (case fmlookup (channels (sys_broker S)) i of None \<Rightarrow> [] | Some ch \<Rightarrow> ch_buffer ch)"

definition delivered :: "delivery_system \<Rightarrow> nat \<Rightarrow> event list" where
  "delivered S i = messages_in (sys_seen S i @ buffered S i)"

definition log_inv :: "delivery_system \<Rightarrow> bool" where
  "log_inv S \<longleftrightarrow> broker_ok (sys_broker S) \<and> cursors_ok (sys_store S) \<and>
     distinct (map evt_id (elog S)) \<and>
     list_all (\<lambda>e. evt_type e = EventTypeMessageCreated \<and> trim_space (evt_id e) = evt_id e) (elog S) \<and>
     (sys_pending S = None \<or> elog S \<noteq> [] \<and> sys_pending S = Some (last (elog S)))"

definition stream_inv :: "delivery_system \<Rightarrow> bool" where
  "stream_inv S \<longleftrightarrow> (\<forall>i a p. sys_sub S i = Some (a, p) \<longrightarrow>
     i \<le> nextID (sys_broker S) \<and> trim_space a = a \<and> p \<le> length (published S) \<and>
     fmlookup (channels (sys_broker S)) i \<noteq> None \<and>
     prefix (delivered S i) (drop p (published S)) \<and>
     (\<forall>sub. fmlookup (subscribers (sys_broker S)) i = Some sub \<longrightarrow>
        bs_durable sub \<and> delivered S i = drop p (published S)))"

definition received_by :: "delivery_system \<Rightarrow> string \<Rightarrow> event \<Rightarrow> bool" where
  "received_by S a e \<longleftrightarrow> (\<exists>i p. sys_sub S i = Some (a, p) \<and> e \<in> set (sys_seen S i))"

definition ack_inv :: "delivery_system \<Rightarrow> bool" where
  "ack_inv S \<longleftrightarrow>
     (\<forall>i a p. sys_sub S i = Some (a, p) \<longrightarrow>
        (\<exists>f c. sys_first S a = Some f \<and> delivery_cursor (sys_store S) a = Some c \<and> f \<le> p \<and> p \<le> c)) \<and>
     (\<forall>a f. sys_first S a = Some f \<longrightarrow>
        (\<exists>c. delivery_cursor (sys_store S) a = Some c \<and> f \<le> c \<and>
           (\<forall>k. f \<le> k \<and> k < c \<longrightarrow> received_by S a (elog S ! k))))"

definition delivery_inv :: "delivery_system \<Rightarrow> bool" where
  "delivery_inv S \<longleftrightarrow> log_inv S \<and> stream_inv S \<and> ack_inv S"

section \<open>Simple facts\<close>

lemma prefix_drop_nth:
  assumes "prefix xs (drop p ys)" and "k < length xs"
  shows "p + k < length ys" "xs ! k = ys ! (p + k)"
proof -
  from assms(1) obtain zs where zs: "drop p ys = xs @ zs" by (auto simp: prefix_def)
  from arg_cong [OF this, of length] assms(2) show "p + k < length ys" by simp
  from arg_cong [OF zs, of "\<lambda>l. l ! k"] \<open>p + k < length ys\<close> assms(2) show "xs ! k = ys ! (p + k)"
    by (simp add: nth_append)
qed

lemma prefix_drop_mono: "prefix ys zs \<Longrightarrow> prefix (drop p ys) (drop p zs)"
  by (auto simp: prefix_def)

lemma messages_append [simp]: "messages_in (xs @ ys) = messages_in xs @ messages_in ys"
  by (simp add: messages_in_def)

lemma messages_Nil [simp]: "messages_in [] = []"
  by (simp add: messages_in_def)

lemma messages_log: "log_inv S \<Longrightarrow> messages_in (drop p (elog S)) = drop p (elog S)"
  unfolding log_inv_def messages_in_def by (auto simp: list_all_iff filter_id_conv dest: in_set_dropD)

lemma published_prefix: "prefix (published S) (elog S)"
  by (auto simp: published_def prefixeq_butlast split: option.splits)

lemma published_nth: "k < length (published S) \<Longrightarrow> published S ! k = elog S ! k"
  using published_prefix [of S] by (auto simp: prefix_def nth_append)

lemma stream_invD:
  assumes "stream_inv S" and "sys_sub S i = Some (a, p)"
  shows "i \<le> nextID (sys_broker S)" "trim_space a = a" "p \<le> length (published S)"
    "fmlookup (channels (sys_broker S)) i \<noteq> None"
    "prefix (delivered S i) (drop p (published S))"
    "fmlookup (subscribers (sys_broker S)) i = Some sub \<Longrightarrow>
       bs_durable sub \<and> delivered S i = drop p (published S)"
  using assms unfolding stream_inv_def by blast+

lemma ack_inv_sub:
  assumes "ack_inv S" and "sys_sub S i = Some (a, p)"
  obtains f c where "sys_first S a = Some f" "delivery_cursor (sys_store S) a = Some c" "f \<le> p" "p \<le> c"
  using assms unfolding ack_inv_def by blast

lemma ack_inv_first:
  assumes "ack_inv S" and "sys_first S a = Some f"
  obtains c where "delivery_cursor (sys_store S) a = Some c" "f \<le> c"
    "\<forall>k. f \<le> k \<and> k < c \<longrightarrow> received_by S a (elog S ! k)"
  using assms unfolding ack_inv_def by blast

text \<open>Steps that keep the log and what is published, and only touch the broker.\<close>

lemma stream_inv_publish:
  assumes S: "log_inv S" "stream_inv S"
    and T: "T = S\<lparr>sys_broker := Publish ev (sys_broker S), sys_pending := x\<rparr>"
    and pub: "published T = published S @ messages_in [ev]"
  shows "stream_inv T"
  unfolding stream_inv_def
proof (intro allI impI, goal_cases)
  case (1 i a p)
  let ?b = "sys_broker S"
  have ok: "broker_ok ?b" using S(1) by (simp add: log_inv_def)
  from 1 T have sub: "sys_sub S i = Some (a, p)" by simp
  note inv = stream_invD [OF S(2) sub]
  from inv(4) obtain ch where ch: "fmlookup (channels ?b) i = Some ch" by auto
  note lk = Publish_lookup [OF ok, of ev i]
  have del: "delivered S i = messages_in (sys_seen S i) @ messages_in (ch_buffer ch)"
    using ch by (simp add: delivered_def buffered_def)
  show ?case
  proof (cases "fmlookup (subscribers ?b) i")
    case None
    then have "fmlookup (channels (sys_broker T)) i = Some ch" "fmlookup (subscribers (sys_broker T)) i = None"
      using lk T ch by auto
    moreover have "delivered T i = delivered S i" using calculation(1) T del by (simp add: delivered_def buffered_def)
    ultimately show ?thesis
      using inv pub T Publish_history(2) [OF ok] by (auto simp: prefix_def)
  next
    case (Some s)
    with inv have eq: "bs_durable s" "delivered S i = drop p (published S)" by blast+
    let ?o = "offered ev s ch"
    have T': "fmlookup (channels (sys_broker T)) i = Some (snd ?o)"
      "fmlookup (subscribers (sys_broker T)) i = fst ?o"
      using lk T ch Some by auto
    have "delivered T i = delivered S i @ messages_in [ev] \<and> fst ?o = Some s \<or>
        delivered T i = delivered S i \<and> fst ?o = None"
      using T' T del eq(1) by (auto simp: delivered_def buffered_def offered_def)
    with eq inv pub T T' Publish_history(2) [OF ok] show ?thesis by (auto simp: prefix_def)
  qed
qed

text \<open>Acknowledgement facts only depend on the store's log and cursors and grow with what was seen.\<close>

lemma ack_inv_mono:
  assumes "ack_inv S" and "sys_sub T = sys_sub S" "sys_first T = sys_first S"
    and "deliveryCursors (sys_store T) = deliveryCursors (sys_store S)"
    and "prefix (elog S) (elog T)" and "cursors_ok (sys_store S)"
    and "\<And>i. set (sys_seen S i) \<subseteq> set (sys_seen T i)"
  shows "ack_inv T"
proof -
  have cur: "delivery_cursor (sys_store T) = delivery_cursor (sys_store S)"
    using assms(4) by (simp add: delivery_cursor_def fun_eq_iff)
  have "received_by T a e" if "received_by S a e" for a e
    using that assms(2,7) by (auto simp: received_by_def)
  moreover have "elog T ! k = elog S ! k" if "delivery_cursor (sys_store S) a = Some c" "k < c" for a c k
    using memory_delivery.cursor_bound [OF assms(6) that(1)] that(2) assms(5) by (auto simp: prefix_def nth_append)
  ultimately show ?thesis
    using assms(1) unfolding ack_inv_def cur assms(2,3) by (metis (no_types, lifting))
qed

lemma delivery_fields_commit:
  assumes "AppendMessageWithPairingDeliveriesContext receipt envelope limits now m (Some ev) ps s = (Inr l, s')"
  shows "deliveryEvents s' = deliveryEvents s @ [ev]" "deliveryCursors s' = deliveryCursors s"
proof -
  obtain l1 s1 l2 where s1: "appendWithHubReceiptLocked receipt envelope m s = (Inr l1, s1)"
    and f: "fold (enqueue_delivery limits now m) (UniqueTrimmedStrings ps)
      (l1, s1\<lparr>deliveryEvents := deliveryEvents s1 @ [ev]\<rparr>) = (l2, s')"
    using assms by (auto simp: AppendMessageWithPairingDeliveriesContext_def Let_def split: sum.splits prod.splits)
  have "without_queue s' = without_queue (s1\<lparr>deliveryEvents := deliveryEvents s1 @ [ev]\<rparr>)"
    using queue_only_enqueue_all [OF f] by (simp add: queue_only_def)
  from arg_cong [OF this, of deliveryEvents] arg_cong [OF this, of deliveryCursors]
  have "deliveryEvents s' = deliveryEvents s1 @ [ev]" "deliveryCursors s' = deliveryCursors s1"
    by (simp_all add: without_queue_def)
  with hub_append_delivery_fields [OF s1] show "deliveryEvents s' = deliveryEvents s @ [ev]"
    "deliveryCursors s' = deliveryCursors s" by auto
qed

lemma stream_inv_same_broker:
  assumes "stream_inv S" and "sys_broker T = sys_broker S" "sys_sub T = sys_sub S" "sys_seen T = sys_seen S"
    and "published T = published S"
  shows "stream_inv T"
  using assms by (simp add: stream_inv_def delivered_def buffered_def)

lemma delivery_inv_commit:
  assumes "delivery_inv S" and "sys_pending S = None" and "ev = message_event n m now"
    and "evt_id ev \<notin> evt_id ` set (elog S)"
    and "AppendMessageWithPairingDeliveriesContext receipt envelope limits now m (Some ev) ps (sys_store S) = (Inr l, s')"
    and T: "T = S\<lparr>sys_store := s', sys_pending := Some ev\<rparr>"
  shows "delivery_inv T"
proof -
  note f = delivery_fields_commit [OF assms(5)]
  have pub: "published T = published S" using f T assms(2) by (simp add: published_def)
  have "cursors_ok (sys_store T)"
    using assms(1) f T by (force simp: delivery_inv_def log_inv_def cursors_ok_def fmpred_iff)
  with assms f have "log_inv T"
    by (auto simp: delivery_inv_def log_inv_def message_event_def)
  moreover have "stream_inv T"
    by (rule stream_inv_same_broker [of S]) (use assms pub T in \<open>auto simp: delivery_inv_def\<close>)
  moreover have "ack_inv T"
    by (rule ack_inv_mono [of S]) (use assms f T in \<open>auto simp: delivery_inv_def log_inv_def\<close>)
  ultimately show ?thesis by (simp add: delivery_inv_def)
qed

lemma published_snoc:
  "log_inv S \<Longrightarrow> sys_pending S = Some ev \<Longrightarrow> elog S = published S @ [ev]"
  by (auto simp: published_def log_inv_def)

lemma delivery_inv_publish:
  assumes "delivery_inv S" and "sys_pending S = Some ev"
    and T: "T = S\<lparr>sys_broker := Publish ev (sys_broker S), sys_pending := None\<rparr>"
  shows "delivery_inv T"
proof -
  have log: "log_inv S" using assms(1) by (simp add: delivery_inv_def)
  note snoc = published_snoc [OF log assms(2)]
  have type: "evt_type ev = EventTypeMessageCreated" using log assms(2) by (auto simp: log_inv_def list_all_iff)
  have "published T = elog S" by (simp add: T published_def)
  with snoc type have "published T = published S @ messages_in [ev]" by (simp add: messages_in_def)
  with assms log have "stream_inv T"
    by (intro stream_inv_publish [OF log _ T]) (simp_all add: delivery_inv_def)
  moreover have "log_inv T" using log T Publish_history(3) by (auto simp: log_inv_def)
  moreover have "ack_inv T"
    by (rule ack_inv_mono [of S]) (use assms log T in \<open>auto simp: delivery_inv_def log_inv_def\<close>)
  ultimately show ?thesis by (simp add: delivery_inv_def)
qed

lemma delivery_inv_publish_other:
  assumes "delivery_inv S" and "evt_type ev \<noteq> EventTypeMessageCreated"
    and T: "T = S\<lparr>sys_broker := Publish ev (sys_broker S)\<rparr>"
  shows "delivery_inv T"
proof -
  have log: "log_inv S" using assms(1) by (simp add: delivery_inv_def)
  have T': "T = S\<lparr>sys_broker := Publish ev (sys_broker S), sys_pending := sys_pending S\<rparr>" using T by simp
  have "published T = published S @ messages_in [ev]"
    using assms(2) by (simp add: T published_def messages_in_def split: option.split)
  with assms log have "stream_inv T"
    by (intro stream_inv_publish [OF log _ T']) (simp_all add: delivery_inv_def)
  moreover have "log_inv T" using log T Publish_history(3) by (auto simp: log_inv_def)
  moreover have "ack_inv T"
    by (rule ack_inv_mono [of S]) (use assms log T in \<open>auto simp: delivery_inv_def log_inv_def\<close>)
  ultimately show ?thesis by (simp add: delivery_inv_def)
qed

text \<open>
  A broker change that keeps or closes the registered subscriptions and moves events from
  buffers to what was seen.
\<close>

lemma delivery_inv_broker:
  assumes S: "delivery_inv S" and "broker_ok (sys_broker T)"
    and "sys_store T = sys_store S" "sys_pending T = sys_pending S" "sys_sub T = sys_sub S" "sys_first T = sys_first S"
    and "nextID (sys_broker S) \<le> nextID (sys_broker T)"
    and "\<And>i. set (sys_seen S i) \<subseteq> set (sys_seen T i)"
    and "\<And>i. i \<le> nextID (sys_broker S) \<Longrightarrow> fmlookup (channels (sys_broker S)) i \<noteq> None \<Longrightarrow>
       fmlookup (channels (sys_broker T)) i \<noteq> None \<and>
       sys_seen T i @ buffered T i = sys_seen S i @ buffered S i"
    and "\<And>i sub. i \<le> nextID (sys_broker S) \<Longrightarrow> fmlookup (subscribers (sys_broker T)) i = Some sub \<Longrightarrow>
       fmlookup (subscribers (sys_broker S)) i = Some sub"
  shows "delivery_inv T"
proof -
  have "published T = published S" using assms(3,4) by (simp add: published_def split: option.split)
  moreover have "delivered T i = delivered S i"
    if "i \<le> nextID (sys_broker S)" "fmlookup (channels (sys_broker S)) i \<noteq> None" for i
    using assms(9) [OF that] by (simp add: delivered_def)
  ultimately have "stream_inv T"
    using S assms(5,7,9,10) unfolding delivery_inv_def stream_inv_def
    by (metis (no_types, lifting) order.trans)
  moreover have "log_inv T" using S assms by (simp add: delivery_inv_def log_inv_def)
  moreover have "ack_inv T"
    by (rule ack_inv_mono [of S]) (use assms in \<open>auto simp: delivery_inv_def log_inv_def\<close>)
  ultimately show ?thesis by (simp add: delivery_inv_def)
qed

lemma delivery_inv_observe:
  assumes S: "delivery_inv S" and r: "SubscribeFromContext now lastEventID (sys_broker S) = (r, b')"
  shows "delivery_inv (S\<lparr>sys_broker := b'\<rparr>)"
proof -
  have ok: "broker_ok (sys_broker S)" using S by (simp add: delivery_inv_def log_inv_def)
  show ?thesis
  proof (cases "eventsAfterLocked now lastEventID (sys_broker S)")
    case None
    with r have "b' = sys_broker S" by (simp add: SubscribeFromContext_def)
    then have "S\<lparr>sys_broker := b'\<rparr> = S" by simp
    with S show ?thesis by simp
  next
    case (Some replay)
    with r obtain i where sub: "subscribeLocked replay False (sys_broker S) = (i, b')"
      by (auto simp: SubscribeFromContext_def split: prod.splits)
    note lk = subscribe_lookup [OF sub]
    show ?thesis
      by (rule delivery_inv_broker [OF S])
        (use lk broker_ok_subscribe [OF ok sub] in \<open>auto simp: buffered_def\<close>)
  qed
qed

lemma delivery_inv_receive:
  assumes S: "delivery_inv S" and r: "receive i (sys_broker S) = Some (ev, b')"
  shows "delivery_inv (S\<lparr>sys_broker := b', sys_seen := (sys_seen S)(i := sys_seen S i @ [ev])\<rparr>)"
proof -
  have ok: "broker_ok (sys_broker S)" using S by (simp add: delivery_inv_def log_inv_def)
  from receive_lookup [OF r] obtain ch where ch: "fmlookup (channels (sys_broker S)) i = Some ch"
    "ch_buffer ch = ev # tl (ch_buffer ch)"
    and b': "b' = (sys_broker S)\<lparr>channels := fmupd i (ch\<lparr>ch_buffer := tl (ch_buffer ch)\<rparr>) (channels (sys_broker S))\<rparr>"
    by blast
  show ?thesis
    by (rule delivery_inv_broker [OF S])
      (use broker_ok_receive [OF ok r] ch in \<open>auto simp: buffered_def b'\<close>)
qed

lemma delivery_inv_cancel:
  assumes S: "delivery_inv S"
  shows "delivery_inv (S\<lparr>sys_broker := close_subscriber i (sys_broker S)\<rparr>)"
proof -
  have ok: "broker_ok (sys_broker S)" using S by (simp add: delivery_inv_def log_inv_def)
  show ?thesis
  proof (cases "fmlookup (subscribers (sys_broker S)) i")
    case None
    then show ?thesis using S by (simp add: close_subscriber_def)
  next
    case (Some sub)
    show ?thesis
      by (rule delivery_inv_broker [OF S])
        (use close_lookup [OF ok Some] broker_ok_close [OF ok] in \<open>auto simp: buffered_def split: option.splits if_splits\<close>)
  qed
qed

lemma delivery_inv_acknowledge:
  assumes S: "delivery_inv S" and sub: "sys_sub S i = Some (a, p)" and ev: "ev \<in> set (sys_seen S i)"
    "evt_type ev = EventTypeMessageCreated"
    and T: "T = S\<lparr>sys_store := AcknowledgeAttachmentDeliveryContext a (evt_id ev) (sys_store S)\<rparr>"
  shows "delivery_inv T"
proof -
  have log: "log_inv S" and str: "stream_inv S" and ack: "ack_inv S" using S by (auto simp: delivery_inv_def)
  have good: "cursors_ok (sys_store S)" using log by (simp add: log_inv_def)
  note law = memory_delivery.acknowledgeD [OF good, of a "evt_id ev"]
  note inv = stream_invD [OF str sub]
  from ack sub obtain f c where fc: "sys_first S a = Some f" "delivery_cursor (sys_store S) a = Some c" "f \<le> p" "p \<le> c"
    unfolding ack_inv_def by blast
  have seen: "prefix (messages_in (sys_seen S i)) (drop p (elog S))"
    using inv(5) prefix_drop_mono [OF published_prefix [of S], of p]
    unfolding delivered_def messages_append by (blast dest: append_prefixD prefix_order.trans)
  from ev have "ev \<in> set (messages_in (sys_seen S i))" by (simp add: messages_in_def)
  then obtain j where j: "j < length (messages_in (sys_seen S i))" "messages_in (sys_seen S i) ! j = ev"
    by (auto simp: in_set_conv_nth)
  have at: "ev = elog S ! (p + j)" "p + j < length (elog S)" using prefix_drop_nth [OF seen j(1)] j(2) by auto
  then have "trim_space (evt_id ev) = evt_id ev" using log by (auto simp: log_inv_def list_all_iff)
  then have pos: "event_position (trim_space (evt_id ev)) (elog S) = Suc (p + j)"
    using event_position_nth [OF at(2)] at(1) log by (simp add: log_inv_def)
  have c': "delivery_cursor (sys_store T) a = Some (max c (Suc (p + j)))"
    using memory_delivery.acknowledge_cursor [OF good, of a c "evt_id ev"] fc(2) inv(2) pos T by simp
  have others: "delivery_cursor (sys_store T) x = delivery_cursor (sys_store S) x" if "x \<noteq> a" for x
    using memory_delivery.acknowledgeD(3) [OF good, of x a] that inv(2) T by simp
  have got: "received_by S a (elog S ! k)" if "p \<le> k" "k < Suc (p + j)" for k
  proof -
    have "k - p < length (messages_in (sys_seen S i))" using that j(1) by simp
    from prefix_drop_nth(2) [OF seen this] nth_mem [OF this] that show ?thesis
      using sub by (auto simp: received_by_def messages_in_def)
  qed
  have rec: "received_by T = received_by S" using T by (simp add: received_by_def fun_eq_iff)
  have elog: "elog T = elog S" using T law(2) by simp
  have "ack_inv T"
    unfolding ack_inv_def
  proof (intro conjI allI impI, goal_cases)
    case (1 i' a' p')
    then have "sys_sub S i' = Some (a', p')" by (simp add: T)
    with ack obtain f' c'' where "sys_first S a' = Some f'" "delivery_cursor (sys_store S) a' = Some c''" "f' \<le> p'" "p' \<le> c''"
      by (rule ack_inv_sub)
    then show ?case using c' others [of a'] fc T by (cases "a' = a") auto
  next
    case (2 a' f')
    then have "sys_first S a' = Some f'" by (simp add: T)
    with ack obtain c'' where c'': "delivery_cursor (sys_store S) a' = Some c''" "f' \<le> c''"
      "\<forall>k. f' \<le> k \<and> k < c'' \<longrightarrow> received_by S a' (elog S ! k)"
      by (rule ack_inv_first)
    show ?case
    proof (cases "a' = a")
      case True
      with c'' fc(2) have "c'' = c" by simp
      have "received_by S a (elog S ! k)" if "f' \<le> k" "k < max c (Suc (p + j))" for k
        using c''(3) got [of k] that fc(4) True \<open>c'' = c\<close> by (cases "k < c") auto
      with True c' c''(2) \<open>c'' = c\<close> show ?thesis unfolding rec elog by auto
    next
      case False
      with c'' others [OF False] show ?thesis unfolding rec elog by auto
    qed
  qed
  moreover have "log_inv T" using log law T by (simp add: log_inv_def)
  moreover have "stream_inv T"
    by (rule stream_inv_same_broker [OF str]) (simp_all add: T published_def law split: option.split)
  ultimately show ?thesis by (simp add: delivery_inv_def)
qed

lemma delivery_inv_attach:
  assumes S: "delivery_inv S" and pend: "sys_pending S = None"
    and sa: "SubscribeAgent (Some PrepareAttachmentDeliveryContext) a (sys_store S, sys_broker S) = (Inr i, (s', b'))"
    and p: "p = memory_delivery.position (sys_store S) a"
    and T: "T = S\<lparr>sys_store := s', sys_broker := b',
      sys_sub := (sys_sub S)(i \<mapsto> (trim_space a, p)), sys_seen := (sys_seen S)(i := []),
      sys_first := (if sys_first S (trim_space a) = None then (sys_first S)(trim_space a \<mapsto> p) else sys_first S)\<rparr>"
  shows "delivery_inv T"
proof -
  have log: "log_inv S" and str: "stream_inv S" and ack: "ack_inv S" using S by (auto simp: delivery_inv_def)
  have good: "cursors_ok (sys_store S)" and ok: "broker_ok (sys_broker S)" using log by (auto simp: log_inv_def)
  from sa obtain replay where prep: "PrepareAttachmentDeliveryContext a (sys_store S) = (replay, s')"
    and sub: "subscribeLocked replay True (sys_broker S) = (i, b')"
    by (auto simp: SubscribeAgent_def Let_def split: prod.splits)
  note pr = memory_delivery.prepareD [OF good prep]
  note lk = subscribe_lookup [OF sub]
  have fresh: "sys_sub S i = None"
    using str lk(1) unfolding stream_inv_def by (metis Suc_n_not_le_n not_Some_eq surj_pair)
  have plen: "p \<le> length (elog S)"
    using memory_delivery.cursor_bound [OF good] p by (auto simp: memory_delivery.position_def split: option.splits)
  have pub: "published T = elog S" "published S = elog S" using pend pr(2) by (simp_all add: T published_def)
  have "log_inv T" using log pr(1,2) broker_ok_subscribe [OF ok sub] by (simp add: log_inv_def T pend)
  moreover have "stream_inv T"
    unfolding stream_inv_def
  proof (intro allI impI, goal_cases)
    case (1 i' a' p')
    show ?case
    proof (cases "i' = i")
      case True
      with 1 T have "a' = trim_space a" "p' = p" by auto
      moreover have "delivered T i = drop p (elog S)"
        using messages_log [OF log, of p] pr(3) p lk(5) by (simp add: T delivered_def buffered_def)
      ultimately show ?thesis using True lk pub plen by (simp add: T)
    next
      case False
      with 1 T have sub': "sys_sub S i' = Some (a', p')" by simp
      have "delivered T i' = delivered S i'" using False lk(5) by (simp add: T delivered_def buffered_def)
      with False stream_invD [OF str sub'] lk pub show ?thesis by (auto simp: T)
    qed
  qed
  moreover have "ack_inv T"
  proof -
    have cur: "delivery_cursor (sys_store T) = (delivery_cursor (sys_store S))(trim_space a \<mapsto> p)"
      using pr(4) p by (simp add: T)
    have mono: "received_by T x e" if "received_by S x e" for x e
    proof -
      from that obtain j q where j: "sys_sub S j = Some (x, q)" "e \<in> set (sys_seen S j)"
        by (auto simp: received_by_def)
      with fresh have "j \<noteq> i" by auto
      with j show ?thesis unfolding received_by_def by (intro exI [of _ j] exI [of _ q]) (simp add: T)
    qed
    have cp: "c = p" if "delivery_cursor (sys_store S) (trim_space a) = Some c" for c
      using that p by (simp add: memory_delivery.position_def)
    have elog: "elog T = elog S" using pr(2) by (simp add: T)
    have first: "sys_first S x = Some f \<Longrightarrow> \<exists>c. delivery_cursor (sys_store S) x = Some c \<and> f \<le> c \<and>
        (\<forall>k. f \<le> k \<and> k < c \<longrightarrow> received_by S x (elog S ! k))" for x f
      using ack unfolding ack_inv_def by blast
    have fT: "sys_first T x = (if x = trim_space a \<and> sys_first S x = None then Some p else sys_first S x)" for x
      by (auto simp: T)
    show ?thesis unfolding ack_inv_def elog
    proof (intro conjI allI impI, goal_cases)
      case (1 i' a' p')
      show ?case
      proof (cases "i' = i")
        case True
        with 1 T have "a' = trim_space a" "p' = p" by auto
        then show ?thesis using cur fT [of a'] first [of a'] cp by fastforce
      next
        case False
        with 1 T have "sys_sub S i' = Some (a', p')" by simp
        with ack obtain f c where "sys_first S a' = Some f" "delivery_cursor (sys_store S) a' = Some c" "f \<le> p'" "p' \<le> c"
          unfolding ack_inv_def by blast
        then show ?thesis using cur fT [of a'] cp by (cases "a' = trim_space a") auto
      qed
    next
      case (2 a' f')
      show ?case
      proof (cases "sys_first S a'")
        case None
        with 2 fT [of a'] have "a' = trim_space a" "f' = p" by (auto split: if_splits)
        then show ?thesis using cur by auto
      next
        case (Some f)
        with 2 fT [of a'] have "f' = f" by simp
        from first [OF Some] obtain c where "delivery_cursor (sys_store S) a' = Some c" "f \<le> c"
          "\<forall>k. f \<le> k \<and> k < c \<longrightarrow> received_by S a' (elog S ! k)" by blast
        then show ?thesis using cur cp mono \<open>f' = f\<close> by (cases "a' = trim_space a") auto
      qed
    qed
  qed
  ultimately show ?thesis by (simp add: delivery_inv_def)
qed

section \<open>Every run keeps the invariant\<close>

lemma delivery_inv_other:
  assumes "delivery_inv S" and "deliveryEvents s' = elog S" and "deliveryCursors s' = deliveryCursors (sys_store S)"
  shows "delivery_inv (S\<lparr>sys_store := s'\<rparr>)"
proof -
  let ?T = "S\<lparr>sys_store := s'\<rparr>"
  have "log_inv ?T" using assms by (simp add: delivery_inv_def log_inv_def cursors_ok_def)
  moreover have "stream_inv ?T"
    by (rule stream_inv_same_broker [of S])
      (use assms in \<open>simp_all add: delivery_inv_def published_def split: option.split\<close>)
  moreover have "ack_inv ?T"
    by (rule ack_inv_mono [of S]) (use assms in \<open>auto simp: delivery_inv_def log_inv_def\<close>)
  ultimately show ?thesis by (simp add: delivery_inv_def)
qed

lemma delivery_inv_step:
  assumes "delivery_step S T" and "delivery_inv S"
  shows "delivery_inv T"
  using assms
proof (induction rule: delivery_step.induct)
  case commit
  show ?case by (rule delivery_inv_commit [OF commit.prems commit.hyps refl])
next
  case publish
  show ?case by (rule delivery_inv_publish [OF publish.prems publish.hyps refl])
next
  case publish_other
  show ?case by (rule delivery_inv_publish_other [OF publish_other.prems publish_other.hyps refl])
next
  case attach
  show ?case by (rule delivery_inv_attach [OF attach.prems attach.hyps refl])
next
  case observe
  show ?case by (rule delivery_inv_observe [OF observe.prems observe.hyps])
next
  case receive
  show ?case by (rule delivery_inv_receive [OF receive.prems receive.hyps])
next
  case cancel
  show ?case by (rule delivery_inv_cancel [OF cancel.prems])
next
  case acknowledge
  show ?case
    using delivery_inv_acknowledge [OF acknowledge.prems acknowledge.hyps(1-3) refl] acknowledge.hyps(4)
    by (simp add: AcknowledgeAgent_def)
next
  case other
  show ?case by (rule delivery_inv_other [OF other.prems other.hyps])
qed

lemma delivery_inv_start: "delivery_inv (start_system NewMemoryStore)"
  by (simp add: delivery_inv_def log_inv_def stream_inv_def ack_inv_def start_system_def cursors_ok_def NewMemoryStore_def)

lemma delivery_inv_run: "delivery_run S T \<Longrightarrow> delivery_inv S \<Longrightarrow> delivery_inv T"
  by (induction rule: delivery_run.induct) (simp_all add: delivery_inv_step)

section \<open>What a run guarantees\<close>

text \<open>
  C18. At every moment of every run, the message events that a durable subscription has received
  or has waiting in its channel are, in order and without gap or repetition, an initial part of
  the published events from the position of the log it was attached at; while the subscription
  is open it is all of them. A subscriber that is too slow is cut off, never skipped.
\<close>
theorem durable_stream_exact:
  assumes "delivery_run (start_system NewMemoryStore) S" and "sys_sub S i = Some (a, p)"
  shows "prefix (delivered S i) (drop p (published S)) \<and>
    (fmlookup (subscribers (sys_broker S)) i = None \<or> delivered S i = drop p (published S))"
proof -
  have "stream_inv S" using delivery_inv_run [OF assms(1) delivery_inv_start] by (simp add: delivery_inv_def)
  from stream_invD(5,6) [OF this assms(2)] show ?thesis
    by (cases "fmlookup (subscribers (sys_broker S)) i") simp_all
qed

text \<open>A run of three steps: an agent attaches, a message is stored and published.\<close>

lemma append_sample:
  assumes "s = NewMemoryStore\<lparr>deliveryCursors := c\<rparr>"
  obtains l s' where "AppendMessageWithPairingDeliveriesContext None None fmempty 5 (sample_message ''m1'')
    (Some ev) [] s = (Inr l, s')"
  using that
  by (simp add: assms AppendMessageWithPairingDeliveriesContext_def appendWithHubReceiptLocked_def
      hubReceiptForMessage_def appendMessageLocked_def checkOriginReceiptLocked_def NewMemoryStore_def Let_def
      sample_message_def messageOriginReceipt_def UniqueTrimmedStrings_def)

lemma sample_run:
  obtains S where "delivery_run (start_system NewMemoryStore) S" "sys_sub S 1 = Some (''ada'', 0)"
    "sys_first S ''ada'' = Some 0" "fmlookup (subscribers (sys_broker S)) 1 \<noteq> None"
    "published S = [message_event ''home'' (sample_message ''m1'') 5]"
proof -
  let ?ev = "message_event ''home'' (sample_message ''m1'') 5"
  let ?S0 = "start_system NewMemoryStore"
  have trim: "trim_space ''ada'' = ''ada''" by (rule trim_space_graphic) (simp add: graphic_def less_eq_char_def)
  define s1 where "s1 = NewMemoryStore\<lparr>deliveryCursors := fmupd ''ada'' 0 fmempty\<rparr>"
  obtain b1 where b1: "subscribeLocked [] True NewBroker = (1, b1)"
    by (simp add: subscribeLocked_def NewBroker_def)
  have p0: "memory_delivery.position NewMemoryStore ''ada'' = 0"
    by (simp add: memory_delivery.position_def delivery_cursor_def NewMemoryStore_def trim)
  have attach: "SubscribeAgent (Some PrepareAttachmentDeliveryContext) ''ada'' (sys_store ?S0, sys_broker ?S0) = (Inr 1, (s1, b1))"
    using b1 by (simp add: SubscribeAgent_def start_system_def PrepareAttachmentDeliveryContext_def trim s1_def
        NewMemoryStore_def)
  define S1 where "S1 = ?S0\<lparr>sys_store := s1, sys_broker := b1, sys_sub := (sys_sub ?S0)(1 \<mapsto> (''ada'', 0)),
    sys_seen := (sys_seen ?S0)(1 := []), sys_first := (sys_first ?S0)(''ada'' \<mapsto> 0)\<rparr>"
  have st1: "delivery_step ?S0 S1"
    using delivery_step.attach [OF _ attach refl] p0 by (simp add: S1_def trim start_system_def)
  obtain l s2 where ap: "AppendMessageWithPairingDeliveriesContext None None fmempty 5 (sample_message ''m1'')
      (Some ?ev) [] s1 = (Inr l, s2)" using append_sample [OF s1_def] .
  define S2 where "S2 = S1\<lparr>sys_store := s2, sys_pending := Some ?ev\<rparr>"
  have st2: "delivery_step S1 S2"
    unfolding S2_def
    by (rule delivery_step.commit [of _ _ _ _ _ None None fmempty "[]" l])
      (use ap in \<open>auto simp: S1_def start_system_def s1_def NewMemoryStore_def\<close>)
  define S3 where "S3 = S2\<lparr>sys_broker := Publish ?ev (sys_broker S2), sys_pending := None\<rparr>"
  have st3: "delivery_step S2 S3" unfolding S3_def by (rule delivery_step.publish) (simp add: S2_def)
  have "delivery_run ?S0 S3" using st1 st2 st3 delivery_run.intros by blast
  moreover have "fmlookup (subscribers (sys_broker S3)) 1 \<noteq> None"
    using Publish_lookup(1) [OF broker_ok_subscribe [OF broker_ok_new b1], of ?ev 1] subscribe_lookup [OF b1]
    by (simp add: S3_def S2_def S1_def offered_def)
  moreover have "published S3 = [?ev]"
    using delivery_fields_commit(1) [OF ap] by (simp add: S3_def S2_def published_def s1_def NewMemoryStore_def)
  moreover have "sys_sub S3 1 = Some (''ada'', 0)" "sys_first S3 ''ada'' = Some 0"
    by (simp_all add: S3_def S2_def S1_def)
  ultimately show thesis using that by blast
qed

theorem durable_stream_exact_witness:
  "\<exists>S. delivery_run (start_system NewMemoryStore) S \<and>
     delivered S 1 = [message_event ''home'' (sample_message ''m1'') 5]"
proof -
  obtain S where S: "delivery_run (start_system NewMemoryStore) S" "sys_sub S 1 = Some (''ada'', 0)"
    "sys_first S ''ada'' = Some 0" "fmlookup (subscribers (sys_broker S)) 1 \<noteq> None"
    "published S = [message_event ''home'' (sample_message ''m1'') 5]" by (rule sample_run)
  from durable_stream_exact [OF S(1,2)] S show ?thesis by auto
qed



end
