(* ===== verification/Store_Machine.thy ===== *)
theory Store_Machine
  imports Delivery_System
begin

text \<open>
  The memory store as a state machine: one rule for every operation that can change it, each
  atomic because the operation holds the store's lock. Whatever sequence of operations is run,
  with whatever arguments and results, the store stays well formed.
\<close>

section \<open>Operations as steps\<close>

inductive store_step :: "memory_store \<Rightarrow> memory_store \<Rightarrow> bool" where
  create_room: "CreateRoomContext r s = (e, s') \<Longrightarrow> store_step s s'"
| remove_room: "RemoveRoomContext i s = (e, s') \<Longrightarrow> store_step s s'"
| reconcile_room: "ReconcileRoomContext r s = (x, s') \<Longrightarrow> store_step s s'"
| update_members: "UpdateRoomMembersContext i add remove s = (x, s') \<Longrightarrow> store_step s s'"
| remove_agent: "store_step s (RemoveAgentContext i s)"
| register: "RegisterAgentContext reg s = (x, s') \<Longrightarrow> store_step s s'"
| reconcile_agent: "ReconcileRegisteredAgentContext reg s = (x, s') \<Longrightarrow> store_step s s'"
| remove_registered: "store_step s (RemoveRegisteredAgentContext i s)"
| follow: "SetFollowCheckpoints cancelled values deleted s = (e, s') \<Longrightarrow> store_step s s'"
| commit: "AppendMessageWithPairingDeliveriesContext receipt envelope limits now m ev pairingIDs s = (x, s') \<Longrightarrow>
    store_step s s'"
| prepare: "PrepareAttachmentDeliveryContext i s = (evs, s') \<Longrightarrow> store_step s s'"
| acknowledge: "store_step s (AcknowledgeAttachmentDeliveryContext i e s)"
| prune: "PrunePairingDeliveriesContext p now age pending s = (n, s') \<Longrightarrow> store_step s s'"
| update_delivery: "store_step s (UpdatePairingDeliveryContext d err s)"
| complete_delivery: "store_step s (CompletePairingDeliveryContext p i s)"
| results: "store_step s (ApplyPairingDeliveryResultsContext rs s)"
| reconcile_deliveries: "ReconcilePairingDeliveriesContext dests s = (n, s') \<Longrightarrow> store_step s s'"
| bind: "BindPairingDeliveryDestinationContext p remote s = (n, s') \<Longrightarrow> store_step s s'"
| create_hub_room: "createHubRoomLocked hr genesis s = (e, s') \<Longrightarrow> store_step s s'"
| append_control: "appendHubControlLocked cs s = (e, s') \<Longrightarrow> store_step s s'"
| origin_seq: "NextHubOriginSeqContext g s = (n, s') \<Longrightarrow> store_step s s'"
| replace_envelope: "replaceOutboundEnvelopeLocked env s = (e, s') \<Longrightarrow> store_step s s'"
| attach_receipt: "attachHubReceiptLocked rc s = (e, s') \<Longrightarrow> store_step s s'"
| store_receipt: "storeHubReceiptLocked rc s = (e, s') \<Longrightarrow> store_step s s'"
| advance_cursor: "advanceHubSyncCursorLocked cur s = (e, s') \<Longrightarrow> store_step s s'"

inductive store_reachable :: "memory_store \<Rightarrow> bool" where
  new: "store_reachable NewMemoryStore"
| step: "store_reachable s \<Longrightarrow> store_step s s' \<Longrightarrow> store_reachable s'"

section \<open>The invariant\<close>

definition rooms_inv :: "memory_store \<Rightarrow> bool" where
  "rooms_inv s \<longleftrightarrow> keyed_by rm_id (rooms s) \<and> (\<forall>i. i |\<in>| fmdom (rooms s) \<longrightarrow> i |\<notin>| removedRooms s)"

definition agents_inv :: "memory_store \<Rightarrow> bool" where
  "agents_inv s \<longleftrightarrow> keyed_by reg_agent_id (agents s) \<and> fmpred (\<lambda>_ r. reg_agent_token r = []) (agents s)"

definition store_inv :: "memory_store \<Rightarrow> bool" where
  "store_inv s \<longleftrightarrow> rooms_inv s \<and> agents_inv s \<and> message_inv s \<and> cursors_ok s \<and> outbox_inv s \<and>
     receipts_inv (hs_receipts (hub s)) \<and> control_inv (hub s)"

lemma message_inv_frame [simp]:
  "message_inv (s\<lparr>rooms := a\<rparr>) = message_inv s" "message_inv (s\<lparr>removedRooms := b\<rparr>) = message_inv s"
  "message_inv (s\<lparr>agents := c\<rparr>) = message_inv s" "message_inv (s\<lparr>deliveryCursors := d\<rparr>) = message_inv s"
  "message_inv (s\<lparr>deliveryEvents := e\<rparr>) = message_inv s" "message_inv (s\<lparr>followCheckpoints := f\<rparr>) = message_inv s"
  "message_inv (s\<lparr>hub := g\<rparr>) = message_inv s" "message_inv (s\<lparr>envelopes := h\<rparr>) = message_inv s"
  "message_inv (s\<lparr>pairingDeliveries := i\<rparr>) = message_inv s"
  "message_inv (s\<lparr>pairingDeliverySequence := j\<rparr>) = message_inv s"
  "message_inv (s\<lparr>pairingDeliveryStates := k\<rparr>) = message_inv s"
  by (rule message_inv_cong; simp)+

lemmas frame_defs = rooms_inv_def agents_inv_def cursors_ok_def outbox_inv_def

lemma without_queue_fields:
  "rooms_inv (without_queue s) = rooms_inv s" "agents_inv (without_queue s) = agents_inv s"
  "message_inv (without_queue s) = message_inv s" "cursors_ok (without_queue s) = cursors_ok s"
  "hub (without_queue s) = hub s"
  by (simp_all add: without_queue_def frame_defs)

lemma without_queue_inv:
  assumes "without_queue s' = without_queue s"
  shows "rooms_inv s' = rooms_inv s" "agents_inv s' = agents_inv s" "message_inv s' = message_inv s"
    "cursors_ok s' = cursors_ok s" "hub s' = hub s"
  using arg_cong [OF assms, of rooms_inv] arg_cong [OF assms, of agents_inv]
    arg_cong [OF assms, of message_inv] arg_cong [OF assms, of cursors_ok] arg_cong [OF assms, of hub]
  unfolding without_queue_fields by simp_all

lemma store_inv_queue:
  assumes "store_inv s" and "without_queue s' = without_queue s" and "outbox_inv s'"
  shows "store_inv s'"
  using assms(1,3) without_queue_inv [OF assms(2)] by (simp add: store_inv_def)

section \<open>Preservation, by kind of operation\<close>

lemma store_inv_room_update:
  "store_inv s \<Longrightarrow> keyed_by rm_id R \<Longrightarrow> \<forall>i. i |\<in>| fmdom R \<longrightarrow> i |\<notin>| D \<Longrightarrow>
   store_inv (s\<lparr>rooms := R, removedRooms := D\<rparr>)"
  by (simp add: store_inv_def frame_defs)

lemma store_inv_rooms_only:
  "store_inv s \<Longrightarrow> keyed_by rm_id R \<Longrightarrow> \<forall>i. i |\<in>| fmdom R \<longrightarrow> i |\<notin>| removedRooms s \<Longrightarrow> store_inv (s\<lparr>rooms := R\<rparr>)"
  using store_inv_room_update [of s R "removedRooms s"] by simp

lemma rooms_invD:
  "store_inv s \<Longrightarrow> keyed_by rm_id (rooms s) \<and> (\<forall>i. i |\<in>| fmdom (rooms s) \<longrightarrow> i |\<notin>| removedRooms s)"
  by (simp add: store_inv_def rooms_inv_def)

lemma store_inv_create_room: "store_inv s \<Longrightarrow> CreateRoomContext r s = (e, s') \<Longrightarrow> store_inv s'"
  using rooms_invD [of s]
  by (auto simp: CreateRoomContext_def split: if_splits intro!: store_inv_rooms_only)

lemma store_inv_remove_room: "store_inv s \<Longrightarrow> RemoveRoomContext i s = (e, s') \<Longrightarrow> store_inv s'"
  using rooms_invD [of s]
  by (auto simp: RemoveRoomContext_def Let_def split: if_splits intro!: store_inv_room_update)

lemma store_inv_known_room:
  "store_inv s \<Longrightarrow> fmlookup (rooms s) i = Some old \<Longrightarrow> rm_id r = i \<Longrightarrow> store_inv (s\<lparr>rooms := fmupd i r (rooms s)\<rparr>)"
  using rooms_invD [of s] by (auto intro!: store_inv_rooms_only simp: fmlookup_dom_iff)

lemma store_inv_reconcile_room: "store_inv s \<Longrightarrow> ReconcileRoomContext r s = (x, s') \<Longrightarrow> store_inv s'"
  using rooms_invD [of s] store_inv_known_room [of s "rm_id r"]
  by (auto simp: ReconcileRoomContext_def Let_def keyed_by_def split: option.splits)

lemma store_inv_update_members: "store_inv s \<Longrightarrow> UpdateRoomMembersContext i add remove s = (x, s') \<Longrightarrow> store_inv s'"
  using rooms_invD [of s] store_inv_known_room [of s i]
  by (auto simp: UpdateRoomMembersContext_def Let_def keyed_by_def split: option.splits)

lemma store_inv_remove_agent: "store_inv s \<Longrightarrow> store_inv (RemoveAgentContext i s)"
  using rooms_invD [of s]
  by (auto simp: RemoveAgentContext_def Let_def intro!: store_inv_rooms_only)

lemma store_inv_agent_update:
  "store_inv s \<Longrightarrow> reg_agent_id r = i \<Longrightarrow> reg_agent_token r = [] \<Longrightarrow> store_inv (s\<lparr>agents := fmupd i r (agents s)\<rparr>)"
  by (auto simp: store_inv_def frame_defs)

lemma agents_invD:
  "store_inv s \<Longrightarrow> fmlookup (agents s) i = Some r \<Longrightarrow> reg_agent_id r = i \<and> reg_agent_token r = []"
  by (auto simp: store_inv_def agents_inv_def keyed_by_def fmpred_iff)

lemma store_inv_register: "store_inv s \<Longrightarrow> RegisterAgentContext reg s = (x, s') \<Longrightarrow> store_inv s'"
  by (auto simp: RegisterAgentContext_def Let_def split: option.splits if_splits
      dest: agents_invD intro!: store_inv_agent_update)

lemma store_inv_reconcile_agent:
  "store_inv s \<Longrightarrow> ReconcileRegisteredAgentContext reg s = (x, s') \<Longrightarrow> store_inv s'"
  by (auto simp: ReconcileRegisteredAgentContext_def Let_def split: option.splits if_splits
      dest: agents_invD intro!: store_inv_agent_update)

lemma store_inv_remove_registered: "store_inv s \<Longrightarrow> store_inv (RemoveRegisteredAgentContext i s)"
  by (auto simp: store_inv_def frame_defs RemoveRegisteredAgentContext_def Let_def)

lemma store_inv_follow:
  "store_inv s \<Longrightarrow> SetFollowCheckpoints cancelled values deleted s = (e, s') \<Longrightarrow> store_inv s'"
  by (auto simp: store_inv_def frame_defs SetFollowCheckpoints_def split: if_splits)

lemma store_inv_cursors:
  assumes "store_inv s"
  shows "PrepareAttachmentDeliveryContext i s = (evs, s') \<Longrightarrow> store_inv s'"
    "store_inv (AcknowledgeAttachmentDeliveryContext i e s)"
proof -
  have ok: "cursors_ok s" using assms by (simp add: store_inv_def)
  have keep: "store_inv (s\<lparr>deliveryCursors := c\<rparr>)" if "cursors_ok (s\<lparr>deliveryCursors := c\<rparr>)" for c
    using assms that by (simp add: store_inv_def frame_defs)
  show "store_inv s'" if "PrepareAttachmentDeliveryContext i s = (evs, s')"
    using memory_delivery.prepareD(1) [OF ok that] keep assms that
    by (auto simp: PrepareAttachmentDeliveryContext_def Let_def split: option.splits if_splits)
  show "store_inv (AcknowledgeAttachmentDeliveryContext i e s)"
    using memory_delivery.acknowledgeD(1) [OF ok, of i e] keep assms
    by (auto simp: AcknowledgeAttachmentDeliveryContext_def Let_def split: if_splits)
qed

lemma store_inv_deliveries:
  assumes "store_inv s"
  shows "PrunePairingDeliveriesContext p now age pending s = (n1, s1) \<Longrightarrow> store_inv s1"
    "store_inv (UpdatePairingDeliveryContext d err s)"
    "store_inv (CompletePairingDeliveryContext p i s)"
    "store_inv (ApplyPairingDeliveryResultsContext rs s)"
    "ReconcilePairingDeliveriesContext dests s = (n2, s2) \<Longrightarrow> store_inv s2"
    "BindPairingDeliveryDestinationContext p remote s = (n3, s3) \<Longrightarrow> store_inv s3"
proof -
  have out: "outbox_inv s" using assms by (simp add: store_inv_def)
  note queue = store_inv_queue [OF assms]
  show "store_inv s1" if "PrunePairingDeliveriesContext p now age pending s = (n1, s1)"
  proof (rule queue)
    have p: "prunePairingDeliveriesLocked p now age pending s = (n1, s1)"
      using that by (simp add: PrunePairingDeliveriesContext_def)
    from queue_only_prune [OF p] show "without_queue s1 = without_queue s" by (simp add: queue_only_def)
    from p show "outbox_inv s1" by (rule outbox_inv_prune [OF out])
  qed
  show "store_inv (UpdatePairingDeliveryContext d err s)"
    by (rule queue) (simp_all add: outbox_inv_update out, simp add: UpdatePairingDeliveryContext_def without_queue_def Let_def)
  show "store_inv (CompletePairingDeliveryContext p i s)"
    by (rule queue) (simp_all add: outbox_inv_complete out, simp add: CompletePairingDeliveryContext_def without_queue_def Let_def)
  have "without_queue (apply_result r x) = without_queue x" for r x
    by (simp add: apply_result_def without_queue_def Let_def)
  then have "without_queue (ApplyPairingDeliveryResultsContext rs s) = without_queue s"
    unfolding ApplyPairingDeliveryResultsContext_def by (induction rs arbitrary: s) simp_all
  then show "store_inv (ApplyPairingDeliveryResultsContext rs s)"
    by (rule queue) (simp add: outbox_inv_results out)
  show "store_inv s2" if "ReconcilePairingDeliveriesContext dests s = (n2, s2)"
    by (rule queue [OF _ outbox_inv_reconcile [OF out that]])
      (use that in \<open>auto simp: ReconcilePairingDeliveriesContext_def without_queue_def Let_def\<close>)
  show "store_inv s3" if "BindPairingDeliveryDestinationContext p remote s = (n3, s3)"
    by (rule queue [OF _ outbox_inv_bind [OF out that]])
      (use that in \<open>auto simp: BindPairingDeliveryDestinationContext_def without_queue_def Let_def split: if_splits\<close>)
qed

lemma store_inv_hub:
  assumes "store_inv s" and "receipts_inv (hs_receipts h)" and "control_inv h"
  shows "store_inv (s\<lparr>hub := h\<rparr>)"
  using assms by (simp add: store_inv_def frame_defs)

text \<open>The hub operations change nothing but the hub's state (or the envelopes).\<close>

lemma hub_frame:
  "createHubRoomLocked hr genesis s = (e1, s1) \<Longrightarrow>
     s1 = s\<lparr>hub := hub s1\<rparr> \<and> hs_receipts (hub s1) = hs_receipts (hub s)"
  "appendHubControlLocked cs s = (e2, s2) \<Longrightarrow>
     s2 = s\<lparr>hub := hub s2\<rparr> \<and> hs_receipts (hub s2) = hs_receipts (hub s)"
  "attachHubReceiptLocked rc s = (e3, s3) \<Longrightarrow>
     s3 = s\<lparr>hub := hub s3\<rparr> \<and> hs_rooms (hub s3) = hs_rooms (hub s) \<and> hs_control (hub s3) = hs_control (hub s)"
  "storeHubReceiptLocked rc s = (e4, s4) \<Longrightarrow>
     s4 = s\<lparr>hub := hub s4\<rparr> \<and> hs_rooms (hub s4) = hs_rooms (hub s) \<and> hs_control (hub s4) = hs_control (hub s)"
proof -
  show "createHubRoomLocked hr genesis s = (e1, s1) \<Longrightarrow>
     s1 = s\<lparr>hub := hub s1\<rparr> \<and> hs_receipts (hub s1) = hs_receipts (hub s)"
    by (auto simp: createHubRoomLocked_def Let_def split: if_splits)
  show "appendHubControlLocked cs s = (e2, s2) \<Longrightarrow>
     s2 = s\<lparr>hub := hub s2\<rparr> \<and> hs_receipts (hub s2) = hs_receipts (hub s)"
    by (auto simp: appendHubControlLocked_def split: sum.splits)
  show "attachHubReceiptLocked rc s = (e3, s3) \<Longrightarrow>
     s3 = s\<lparr>hub := hub s3\<rparr> \<and> hs_rooms (hub s3) = hs_rooms (hub s) \<and> hs_control (hub s3) = hs_control (hub s)"
    by (auto simp: attachHubReceiptLocked_def add_receipt_def bindHubReceiptLocked_def
        split: if_splits sum.splits bool.splits)
  show "storeHubReceiptLocked rc s = (e4, s4) \<Longrightarrow>
     s4 = s\<lparr>hub := hub s4\<rparr> \<and> hs_rooms (hub s4) = hs_rooms (hub s) \<and> hs_control (hub s4) = hs_control (hub s)"
    by (auto simp: storeHubReceiptLocked_def add_receipt_def Let_def split: if_splits sum.splits bool.splits)
qed

lemma store_inv_hub_state:
  assumes "store_inv s" and "s' = s\<lparr>hub := hub s'\<rparr>" and "receipts_inv (hs_receipts (hub s'))" and "control_inv (hub s')"
  shows "store_inv s'"
  by (subst assms(2)) (rule store_inv_hub [OF assms(1,3,4)])

lemma control_inv_cong:
  "hs_rooms h' = hs_rooms h \<Longrightarrow> hs_control h' = hs_control h \<Longrightarrow> control_inv h' = control_inv h"
  by (simp add: control_inv_def)

lemma store_inv_hub_ops:
  assumes "store_inv s"
  shows "createHubRoomLocked hr genesis s = (e1, s1) \<Longrightarrow> store_inv s1"
    "appendHubControlLocked cs s = (e2, s2) \<Longrightarrow> store_inv s2"
    "attachHubReceiptLocked rc s = (e3, s3) \<Longrightarrow> store_inv s3"
    "storeHubReceiptLocked rc s = (e4, s4) \<Longrightarrow> store_inv s4"
proof -
  have inv: "receipts_inv (hs_receipts (hub s))" "control_inv (hub s)" using assms by (auto simp: store_inv_def)
  show "store_inv s1" if "createHubRoomLocked hr genesis s = (e1, s1)"
    using hub_frame(1) [OF that] inv control_inv_create [OF inv(2) that]
    by (intro store_inv_hub_state [OF assms]) simp_all
  show "store_inv s2" if "appendHubControlLocked cs s = (e2, s2)"
    using hub_frame(2) [OF that] inv control_inv_append [OF inv(2) that]
    by (intro store_inv_hub_state [OF assms]) simp_all
  show "store_inv s3" if "attachHubReceiptLocked rc s = (e3, s3)"
    using hub_frame(3) [OF that] inv receipts_inv_attach [OF inv(1) that] control_inv_cong [of "hub s3" "hub s"]
    by (intro store_inv_hub_state [OF assms]) simp_all
  show "store_inv s4" if "storeHubReceiptLocked rc s = (e4, s4)"
    using hub_frame(4) [OF that] inv receipts_inv_store [OF inv(1) that] control_inv_cong [of "hub s4" "hub s"]
    by (intro store_inv_hub_state [OF assms]) simp_all
qed

lemma store_inv_hub_counters:
  assumes "store_inv s"
  shows "NextHubOriginSeqContext g s = (n, s1) \<Longrightarrow> store_inv s1"
    "advanceHubSyncCursorLocked cur s = (e2, s2) \<Longrightarrow> store_inv s2"
    "replaceOutboundEnvelopeLocked env s = (e3, s3) \<Longrightarrow> store_inv s3"
proof -
  have inv: "receipts_inv (hs_receipts (hub s))" "control_inv (hub s)" using assms by (auto simp: store_inv_def)
  have keep: "store_inv (s\<lparr>hub := h\<rparr>)"
    if "hs_receipts h = hs_receipts (hub s)" "hs_rooms h = hs_rooms (hub s)" "hs_control h = hs_control (hub s)" for h
    using store_inv_hub [OF assms, of h] inv control_inv_cong [OF that(2,3)] that(1) by simp
  show "NextHubOriginSeqContext g s = (n, s1) \<Longrightarrow> store_inv s1"
    by (auto simp: NextHubOriginSeqContext_def Let_def intro!: keep)
  show "advanceHubSyncCursorLocked cur s = (e2, s2) \<Longrightarrow> store_inv s2"
    using assms by (auto simp: advanceHubSyncCursorLocked_def split: sum.splits if_splits intro!: keep)
  show "replaceOutboundEnvelopeLocked env s = (e3, s3) \<Longrightarrow> store_inv s3"
    using assms by (auto simp: replaceOutboundEnvelopeLocked_def store_inv_def frame_defs split: option.splits if_splits)
qed

lemma hub_append_control:
  assumes "appendWithHubReceiptLocked rc env m s = (Inr l, s')"
  shows "hs_rooms (hub s') = hs_rooms (hub s)" "hs_control (hub s') = hs_control (hub s)"
proof -
  obtain s1 where s1: "appendMessageLocked m (envelopeForMessage env m) s = (Inr l, s1)"
    and "hs_rooms (hub s') = hs_rooms (hub s1)" "hs_control (hub s') = hs_control (hub s1)"
    using assms
    by (auto simp: appendWithHubReceiptLocked_def add_receipt_def bindHubReceiptLocked_def Let_def
        split: sum.splits prod.splits option.splits if_splits)
  with append_hub [OF s1] show "hs_rooms (hub s') = hs_rooms (hub s)" "hs_control (hub s') = hs_control (hub s)"
    by simp_all
qed

lemma message_inv_hub_append:
  assumes "message_inv s" and "appendWithHubReceiptLocked rc env m s = (Inr l, s')"
  shows "message_inv s'"
proof -
  from hub_append_success [OF assms(2)] obtain s1 h
    where s1: "appendMessageLocked m (envelopeForMessage env m) s = (Inr l, s1)" and s': "s' = s1\<lparr>hub := h\<rparr>" by blast
  from message_inv_append [OF assms(1) s1] show ?thesis by (simp add: s')
qed

lemma store_inv_commit:
  assumes "store_inv s"
    and c: "AppendMessageWithPairingDeliveriesContext receipt envelope limits now m ev ps s = (x, s')"
  shows "store_inv s'"
proof (cases "appendWithHubReceiptLocked receipt envelope m s")
  case (Pair res s1)
  note f = hub_append_delivery_fields [OF Pair]
  have hub: "receipts_inv (hs_receipts (hub s1))"
    using receipts_inv_append [OF _ Pair] assms(1) by (simp add: store_inv_def)
  show ?thesis
  proof (cases res)
    case (Inl e)
    with Pair c hub_append_error have "s' = s" by (auto simp: AppendMessageWithPairingDeliveriesContext_def)
    with assms show ?thesis by simp
  next
    case (Inr l)
    let ?s2 = "case ev of None \<Rightarrow> s1 | Some e \<Rightarrow> s1\<lparr>deliveryEvents := deliveryEvents s1 @ [e]\<rparr>"
    obtain l' where fold: "fold (enqueue_delivery limits now m) (UniqueTrimmedStrings ps) (l, ?s2) = (l', s')"
      using c Pair Inr by (auto simp: AppendMessageWithPairingDeliveriesContext_def Let_def split: prod.splits)
    have msg: "message_inv s1" and ctl: "control_inv (hub s1)"
      using message_inv_hub_append [OF _ Pair [unfolded Inr]] assms(1)
        control_inv_cong [OF hub_append_control [OF Pair [unfolded Inr]]] by (simp_all add: store_inv_def)
    have "store_inv s1"
      using assms f hub msg ctl by (simp add: store_inv_def frame_defs)
    then have s2: "store_inv ?s2"
      by (cases ev) (fastforce simp: store_inv_def frame_defs fmpred_iff)+
    have "outbox_inv s'" using outbox_inv_enqueue_all [OF _ fold] s2 by (simp add: store_inv_def)
    with store_inv_queue [OF s2] queue_only_enqueue_all [OF fold] show ?thesis by (simp add: queue_only_def)
  qed
qed

section \<open>Every reachable store is well formed\<close>

lemma store_inv_new: "store_inv NewMemoryStore"
  using message_inv_new
  by (simp add: store_inv_def frame_defs NewMemoryStore_def newHubState_def receipts_inv_def control_inv_def set_fmvalues)

lemmas store_inv_results =
  store_inv_create_room store_inv_remove_room store_inv_reconcile_room store_inv_update_members
  store_inv_register store_inv_reconcile_agent store_inv_follow store_inv_commit store_inv_cursors(1)
  store_inv_deliveries(1,5,6) store_inv_hub_ops store_inv_hub_counters

lemmas store_inv_states =
  store_inv_remove_agent store_inv_remove_registered store_inv_cursors(2) store_inv_deliveries(2,3,4)

lemma store_inv_step:
  assumes "store_step s s'" and inv: "store_inv s"
  shows "store_inv s'"
  using assms
  by (induction rule: store_step.induct)
    (erule (1) store_inv_results [rotated] | erule store_inv_states)+

lemma reachable_inv: "store_reachable s \<Longrightarrow> store_inv s"
  by (induction rule: store_reachable.induct) (simp_all add: store_inv_new store_inv_step)

text \<open>
  C19. Every store that any sequence of operations can produce is well formed: rooms and
  registrations are filed under their own ids, a removed room id is never in use, no agent
  token is stored; message ids are unique across all histories, each message is in the history
  its target names, origin receipts and digests match the stored messages, threads and room
  activity agree with the histories; delivery cursors lie inside the event log; queue rows are
  in strict sequence order; receipts form consistent chains and control logs are contiguous
  from the genesis event.
\<close>
theorem reachable_store_well_formed:
  assumes "store_reachable s"
  shows "keyed_by rm_id (rooms s) \<and> keyed_by reg_agent_id (agents s) \<and>
    (\<forall>i. i |\<in>| fmdom (rooms s) \<longrightarrow> i |\<notin>| removedRooms s) \<and>
    fmpred (\<lambda>_ r. reg_agent_token r = []) (agents s) \<and>
    message_inv s \<and> cursors_ok s \<and> outbox_inv s \<and>
    receipts_inv (hs_receipts (hub s)) \<and> control_inv (hub s)"
  using reachable_inv [OF assms] by (simp add: store_inv_def rooms_inv_def agents_inv_def)

definition sample_room :: "string \<Rightarrow> room" where
  "sample_room i = \<lparr>rm_follow = None, rm_id = i, rm_network_id = ''home'', rm_fqid = [], rm_name = [], rm_members = [],
     rm_visibility = ''private'', rm_write_policy = ''members'', rm_federation = None,
     rm_access = None, rm_created_at = 1, rm_last_message_at = None\<rparr>"

lemma reachable_create:
  "store_reachable s \<Longrightarrow> rm_id r |\<notin>| fmdom (rooms s) \<Longrightarrow> rm_id r |\<notin>| removedRooms s \<Longrightarrow>
   store_reachable (s\<lparr>rooms := fmupd (rm_id r) r (rooms s)\<rparr>)"
  by (rule store_reachable.step [OF _ store_step.create_room [of r s None]]) (simp_all add: CreateRoomContext_def)

theorem reachable_store_well_formed_witness:
  "\<exists>s. store_reachable s \<and> fmdom (rooms s) = {|''lobby''|} \<and> keyed_by rm_id (rooms s)"
proof -
  let ?s = "NewMemoryStore\<lparr>rooms := fmupd (rm_id (sample_room ''lobby'')) (sample_room ''lobby'') (rooms NewMemoryStore)\<rparr>"
  have r: "store_reachable ?s"
    by (rule reachable_create [OF store_reachable.new]) (simp_all add: NewMemoryStore_def)
  from reachable_store_well_formed [OF r] r show ?thesis
    by (intro exI [of _ ?s]) (simp add: NewMemoryStore_def sample_room_def)
qed

section \<open>What no operation does\<close>

text \<open>The histories, the ids in use and the tombstones of a store.\<close>

definition grows :: "memory_store \<Rightarrow> memory_store \<Rightarrow> bool" where
  "grows s s' \<longleftrightarrow>
     (\<forall>k. prefix (fmget [] (roomMessages s) k) (fmget [] (roomMessages s') k)) \<and>
     (\<forall>k. prefix (fmget [] (threadMessages s) k) (fmget [] (threadMessages s') k)) \<and>
     (\<forall>k. prefix (fmget [] (directMessages s) k) (fmget [] (directMessages s') k)) \<and>
     messageIDs s |\<subseteq>| messageIDs s' \<and> removedRooms s |\<subseteq>| removedRooms s'"

lemma grows_refl: "grows s s"
  by (simp add: grows_def)

lemma grows_trans: "grows s s1 \<Longrightarrow> grows s1 s2 \<Longrightarrow> grows s s2"
  unfolding grows_def by (meson prefix_order.trans fsubset_trans order_trans)

lemma grows_same:
  "roomMessages s' = roomMessages s \<Longrightarrow> threadMessages s' = threadMessages s \<Longrightarrow>
   directMessages s' = directMessages s \<Longrightarrow> messageIDs s' = messageIDs s \<Longrightarrow>
   removedRooms s |\<subseteq>| removedRooms s' \<Longrightarrow> grows s s'"
  by (simp add: grows_def)

lemma grows_without_queue:
  assumes "without_queue s' = without_queue s"
  shows "grows s s'"
  using arg_cong [OF assms, of roomMessages] arg_cong [OF assms, of threadMessages]
    arg_cong [OF assms, of directMessages] arg_cong [OF assms, of messageIDs] arg_cong [OF assms, of removedRooms]
  by (intro grows_same) (simp_all add: without_queue_def)

lemma grows_append:
  assumes "appendMessageLocked m env s = (Inr l, s')"
  shows "grows s s'"
proof -
  obtain m' s1 where pl: "placed m s m' l s1" and s': "s' = finish_append m' env s1"
    using append_success(3) [OF assms] by blast
  have "prefix (fmget [] h k) (fmget [] (appended m' i h) k)" for h k i by (simp add: appended_def)
  then show ?thesis unfolding grows_def s' by (auto simp: placed_histories [OF pl])
qed

lemma grows_hub_append:
  assumes "appendWithHubReceiptLocked rc env m s = (x, s')"
  shows "grows s s'"
proof (cases x)
  case (Inl e)
  with assms hub_append_error grows_refl show ?thesis by blast
next
  case (Inr l)
  from hub_append_success [OF assms [unfolded Inr]] obtain s1 h
    where s1: "appendMessageLocked m (envelopeForMessage env m) s = (Inr l, s1)" and s': "s' = s1\<lparr>hub := h\<rparr>" by blast
  from grows_append [OF s1] show ?thesis by (simp add: s' grows_def)
qed

lemma grows_commit:
  assumes "AppendMessageWithPairingDeliveriesContext receipt envelope limits now m ev ps s = (x, s')"
  shows "grows s s'"
proof -
  obtain res s1 where s1: "appendWithHubReceiptLocked receipt envelope m s = (res, s1)" by fastforce
  note g = grows_hub_append [OF s1]
  show ?thesis
  proof (cases res)
    case (Inl e)
    with assms s1 g show ?thesis by (auto simp: AppendMessageWithPairingDeliveriesContext_def)
  next
    case (Inr l)
    obtain l' e where "fold (enqueue_delivery limits now m) (UniqueTrimmedStrings ps)
        (l, s1\<lparr>deliveryEvents := e\<rparr>) = (l', s')"
    proof -
      let ?e = "case ev of None \<Rightarrow> deliveryEvents s1 | Some e \<Rightarrow> deliveryEvents s1 @ [e]"
      have "(case ev of None \<Rightarrow> s1 | Some e \<Rightarrow> s1\<lparr>deliveryEvents := deliveryEvents s1 @ [e]\<rparr>) =
          s1\<lparr>deliveryEvents := ?e\<rparr>" by (simp split: option.split)
      with assms s1 Inr that show thesis
        by (auto simp: AppendMessageWithPairingDeliveriesContext_def Let_def split: prod.splits)
    qed
    from queue_only_enqueue_all [OF this] have "grows (s1\<lparr>deliveryEvents := e\<rparr>) s'"
      by (intro grows_without_queue) (simp add: queue_only_def)
    then have "grows s1 s'" by (simp add: grows_def)
    with g show ?thesis by (rule grows_trans)
  qed
qed

lemma grows_deliveries:
  "PrunePairingDeliveriesContext p now age pending s = (n1, s1) \<Longrightarrow> grows s s1"
  "grows s (UpdatePairingDeliveryContext d err s)" "grows s (CompletePairingDeliveryContext p i s)"
  "grows s (ApplyPairingDeliveryResultsContext rs s)"
  "ReconcilePairingDeliveriesContext dests s = (n2, s2) \<Longrightarrow> grows s s2"
  "BindPairingDeliveryDestinationContext p remote s = (n3, s3) \<Longrightarrow> grows s s3"
proof -
  show "grows s s1" if "PrunePairingDeliveriesContext p now age pending s = (n1, s1)"
    using that queue_only_prune
    by (intro grows_without_queue) (simp add: PrunePairingDeliveriesContext_def queue_only_def)
  have "grows x (apply_result r x)" for r x
    by (rule grows_same) (simp_all add: apply_result_def Let_def)
  then show "grows s (ApplyPairingDeliveryResultsContext rs s)"
    unfolding ApplyPairingDeliveryResultsContext_def
    by (induction rs arbitrary: s) (auto intro: grows_refl grows_trans)
qed (rule grows_same; auto simp: UpdatePairingDeliveryContext_def CompletePairingDeliveryContext_def
      ReconcilePairingDeliveriesContext_def BindPairingDeliveryDestinationContext_def Let_def split: if_splits)+

lemma grows_step: "store_step s s' \<Longrightarrow> grows s s'"
proof (induction rule: store_step.induct)
  case commit
  then show ?case by (rule grows_commit)
next
  case prune
  then show ?case by (rule grows_deliveries)
next
  case reconcile_deliveries
  then show ?case by (rule grows_deliveries)
next
  case bind
  then show ?case by (rule grows_deliveries)
qed (rule grows_deliveries(2-4) | rule grows_same;
    auto simp: store_defs PrepareAttachmentDeliveryContext_def AcknowledgeAttachmentDeliveryContext_def
      createHubRoomLocked_def appendHubControlLocked_def NextHubOriginSeqContext_def
      replaceOutboundEnvelopeLocked_def attachHubReceiptLocked_def storeHubReceiptLocked_def
      add_receipt_def bindHubReceiptLocked_def advanceHubSyncCursorLocked_def Let_def
      split: if_splits option.splits sum.splits bool.splits)+

inductive store_run :: "memory_store \<Rightarrow> memory_store \<Rightarrow> bool" where
  none: "store_run s s"
| more: "store_run s s1 \<Longrightarrow> store_step s1 s2 \<Longrightarrow> store_run s s2"

lemma grows_run: "store_run s s' \<Longrightarrow> grows s s'"
  by (induction rule: store_run.induct) (auto intro: grows_refl grows_trans grows_step)

lemma reachable_run: "store_run s s' \<Longrightarrow> store_reachable s \<Longrightarrow> store_reachable s'"
  by (induction rule: store_run.induct) (auto intro: store_reachable.step)

text \<open>
  C26. Histories are append-only: whatever operations follow, the messages of every room, thread and
  direct conversation stay where they are, in order and unchanged, and new ones come after them.
\<close>
theorem history_append_only:
  assumes "store_run s s'"
  shows "prefix (fmget [] (roomMessages s) k) (fmget [] (roomMessages s') k) \<and>
    prefix (fmget [] (threadMessages s) k) (fmget [] (threadMessages s') k) \<and>
    prefix (fmget [] (directMessages s) k) (fmget [] (directMessages s') k)"
  using grows_run [OF assms] by (simp add: grows_def)

theorem history_append_only_witness:
  "\<exists>s. store_run NewMemoryStore s \<and> messageIDs s = {|''m1''|} \<and>
     prefix (fmget [] (roomMessages NewMemoryStore) ''lobby'') (fmget [] (roomMessages s) ''lobby'')"
proof -
  have new: "NewMemoryStore\<lparr>deliveryCursors := fmempty\<rparr> = NewMemoryStore" by (simp add: NewMemoryStore_def)
  obtain l s where ap: "AppendMessageWithPairingDeliveriesContext None None fmempty 5 (sample_message ''m1'')
      (Some (message_event [] (sample_message ''m1'') 5)) [] NewMemoryStore = (Inr l, s)"
    by (rule append_sample [OF new [symmetric]])
  have run: "store_run NewMemoryStore s" using store_step.commit [OF ap] store_run.intros by blast
  have "messageIDs s = {|''m1''|}"
    using ap
    by (simp add: AppendMessageWithPairingDeliveriesContext_def appendWithHubReceiptLocked_def
        hubReceiptForMessage_def appendMessageLocked_def checkOriginReceiptLocked_def NewMemoryStore_def Let_def
        sample_message_def messageOriginReceipt_def UniqueTrimmedStrings_def append_room_message_def)
      (auto simp: append_room_message_def)
  with run history_append_only [OF run] show ?thesis by blast
qed

text \<open>
  A removed room id is never used again: whatever operations follow a removal, no room with
  that id exists, and creating one is refused.
\<close>

lemma removed_room_stays_removed:
  assumes "store_reachable s" and "i |\<in>| removedRooms s" and "store_run s s'" and "rm_id r = i"
  shows "GetRoomContext i s' = None \<and> CreateRoomContext r s' = (Some (ErrRoomExists i), s')"
proof -
  have i: "i |\<in>| removedRooms s'" using grows_run [OF assms(3)] assms(2) by (auto simp: grows_def)
  then have "i |\<notin>| fmdom (rooms s')"
    using reachable_inv [OF reachable_run [OF assms(3,1)]] by (auto simp: store_inv_def rooms_inv_def)
  with i assms(4) show ?thesis by (simp add: CreateRoomContext_def GetRoomContext_def fmdom_notD)
qed

theorem removed_room_stays_removed_witness:
  "\<exists>s. store_reachable s \<and> ''lobby'' |\<in>| removedRooms s \<and>
     CreateRoomContext (sample_room ''lobby'') s = (Some (ErrRoomExists ''lobby''), s)"
proof -
  let ?s0 = "NewMemoryStore\<lparr>rooms := fmupd (rm_id (sample_room ''lobby'')) (sample_room ''lobby'') (rooms NewMemoryStore)\<rparr>"
  have r0: "store_reachable ?s0"
    by (rule reachable_create [OF store_reachable.new]) (simp_all add: NewMemoryStore_def)
  have trim: "trim_space ''lobby'' = ''lobby''" by (rule trim_space_graphic) (simp add: graphic_def less_eq_char_def)
  obtain s where s: "RemoveRoomContext ''lobby'' ?s0 = (None, s)"
    by (simp add: RemoveRoomContext_def sample_room_def Let_def trim)
  then have in_s: "''lobby'' |\<in>| removedRooms s"
    by (auto simp: RemoveRoomContext_def Let_def trim split: if_splits)
  have "store_reachable s" using store_step.remove_room [OF s] r0 store_reachable.step by blast
  from removed_room_stays_removed [OF this in_s store_run.none, of "sample_room ''lobby''"] this in_s show ?thesis
    by (auto simp: sample_room_def)
qed

text \<open>
  Delivery to a pairing is first in, first out: in every reachable store, the queue heads are
  exactly the rows with the lowest sequence number of their pairing, one for each pairing with
  rows.
\<close>

lemma heads_are_oldest:
  assumes "store_reachable s"
  shows "d \<in> set (ListPairingDeliveryHeadsContext s) \<longleftrightarrow>
    d \<in> set (pairingDeliveries s) \<and>
    (\<forall>x \<in> set (rows_of (pd_pairing_id d) s). pd_sequence d \<le> pd_sequence x)"
proof -
  have "sorted_wrt (<) (map pd_sequence (pairingDeliveries s))"
    using reachable_inv [OF assms] by (simp add: store_inv_def outbox_inv_def)
  from find_sorted [OF this, of "\<lambda>x. pd_pairing_id x = pd_pairing_id d" d] show ?thesis
    by (auto simp: ListPairingDeliveryHeadsContext_def heads_loop_spec)
qed

lemma commit_sample:
  obtains l s d where "AppendMessageWithPairingDeliveriesContext None None fmempty 5 (sample_message ''m1'') None [''p'']
      NewMemoryStore = (Inr l, s)" "pairingDeliveries s = [d]" "pd_pairing_id d = ''p''" "pd_sequence d = 1"
proof -
  have trim: "trim_space ''p'' = ''p''" by (rule trim_space_graphic) (simp add: graphic_def less_eq_char_def)
  have unique: "UniqueTrimmedStrings [''p''] = [''p'']" by (simp add: UniqueTrimmedStrings_def trim)
  obtain l0 s0 where s0: "appendWithHubReceiptLocked None None (sample_message ''m1'') NewMemoryStore = (Inr l0, s0)"
    by (simp add: appendWithHubReceiptLocked_def hubReceiptForMessage_def appendMessageLocked_def
        checkOriginReceiptLocked_def NewMemoryStore_def Let_def sample_message_def messageOriginReceipt_def)
  have rows: "pairingDeliveries s0 = []" "pairingDeliverySequence s0 = 0"
    using hub_append_delivery_fields [OF s0] by (simp_all add: NewMemoryStore_def)
  obtain l s where s: "AppendMessageWithPairingDeliveriesContext None None fmempty 5 (sample_message ''m1'') None [''p'']
      NewMemoryStore = (Inr l, s)"
    by (simp add: AppendMessageWithPairingDeliveriesContext_def s0 unique enqueue_delivery_def Let_def)
  moreover from s obtain d where "pairingDeliveries s = [d]" "pd_pairing_id d = ''p''" "pd_sequence d = 1"
    by (auto simp: AppendMessageWithPairingDeliveriesContext_def s0 unique enqueue_delivery_def Let_def rows)
  ultimately show thesis by (rule that)
qed

theorem heads_are_oldest_witness:
  "\<exists>s d. store_reachable s \<and> d \<in> set (ListPairingDeliveryHeadsContext s) \<and> pd_sequence d = 1"
proof -
  obtain l s d where ap: "AppendMessageWithPairingDeliveriesContext None None fmempty 5 (sample_message ''m1'') None [''p'']
      NewMemoryStore = (Inr l, s)" and d: "pairingDeliveries s = [d]" "pd_sequence d = 1" using commit_sample by metis
  have r: "store_reachable s" using store_step.commit [OF ap] store_reachable.intros by blast
  from heads_are_oldest [OF r, of d] d r show ?thesis by auto
qed

end
