(* ===== verification/Canonical_JSON.thy ===== *)
theory Canonical_JSON
  imports Go_Text Pagination
begin

text \<open>
  Canonical JSON, the form that is signed and hashed: \<open>causal_canonical.go\<close> (normalisation and
  serialisation) and \<open>causal_canonical_parser.go\<close> (the strict parser). A Go map is its fields in
  insertion order. Errors are \<open>None\<close>. Numbers: integral values are printed and read exactly here;
  what \<open>strconv\<close> does with values and literals that are not plain integers is the pair of
  arguments \<open>fmt\<close> and \<open>prs\<close>. The parser works on the input that is left; the depth to which it
  may nest is bounded by the length of the input, which is enough because every level consumes
  at least one byte.
\<close>

section \<open>Normalisation\<close>

abbreviation maxSafeInteger :: int where
  "maxSafeInteger \<equiv> 9007199254740991"

definition validateCanonicalNumber :: "float64 \<Rightarrow> bool" where
  "validateCanonicalNumber x =
     (case x of
        NonFinite \<Rightarrow> False
      | NegZero \<Rightarrow> False
      | Integral n \<Rightarrow> \<not> (n < - maxSafeInteger \<or> n > maxSafeInteger)
      | Fraction _ _ \<Rightarrow> True)"

definition validateCanonicalString :: "string \<Rightarrow> bool" where
  "validateCanonicalString s = list_all fst (go_runes s)"

fun normalizeCanonicalValue :: "json \<Rightarrow> json option"
  and normalize_list :: "json list \<Rightarrow> json list option"
  and normalize_fields :: "(string \<times> json) list \<Rightarrow> (string \<times> json) list option" where
  "normalizeCanonicalValue JNull = Some JNull"
| "normalizeCanonicalValue (JBool b) = Some (JBool b)"
| "normalizeCanonicalValue (JNum x) = (if validateCanonicalNumber x then Some (JNum x) else None)"
| "normalizeCanonicalValue (JStr s) = (if validateCanonicalString s then Some (JStr s) else None)"
| "normalizeCanonicalValue (JArr vs) = map_option JArr (normalize_list vs)"
| "normalizeCanonicalValue (JObj fs) = map_option JObj (normalize_fields fs)"
| "normalize_list [] = Some []"
| "normalize_list (v # vs) =
     (case normalizeCanonicalValue v of None \<Rightarrow> None
      | Some v' \<Rightarrow> map_option ((#) v') (normalize_list vs))"
| "normalize_fields [] = Some []"
| "normalize_fields ((k, v) # fs) =
     (if \<not> validateCanonicalString k then None
      else case normalizeCanonicalValue v of None \<Rightarrow> None
           | Some v' \<Rightarrow> map_option ((#) (k, v')) (normalize_fields fs))"

section \<open>Serialisation\<close>

text \<open>UTF-16 code units of a text, and their order.\<close>

definition rune_units :: "bool \<times> string \<Rightarrow> nat list" where
  "rune_units r =
     (case r of (ok, b) \<Rightarrow>
        let v = (if ok then rune_value b else 0xFFFD)
        in if v < 0x10000 then [v]
           else [0xD800 + (v - 0x10000) div 1024, 0xDC00 + (v - 0x10000) mod 1024])"

definition utf16_units :: "string \<Rightarrow> nat list" where
  "utf16_units s = concat (map rune_units (go_runes s))"

fun units_less :: "nat list \<Rightarrow> nat list \<Rightarrow> bool" where
  "units_less [] [] = False"
| "units_less [] (_ # _) = True"
| "units_less (_ # _) [] = False"
| "units_less (x # xs) (y # ys) = (if x = y then units_less xs ys else x < y)"

definition utf16Less :: "string \<Rightarrow> string \<Rightarrow> bool" where
  "utf16Less l r = units_less (utf16_units l) (utf16_units r)"

fun insert_field :: "string \<times> 'a \<Rightarrow> (string \<times> 'a) list \<Rightarrow> (string \<times> 'a) list" where
  "insert_field f [] = [f]"
| "insert_field f (g # gs) = (if utf16Less (fst g) (fst f) then g # insert_field f gs else f # g # gs)"

definition sort_fields :: "(string \<times> 'a) list \<Rightarrow> (string \<times> 'a) list" where
  "sort_fields fs = foldr insert_field fs []"

definition canonical_byte :: "char \<Rightarrow> string" where
  "canonical_byte c =
     (if c = CHR 0x22 then [CHR 0x5C, CHR 0x22]
      else if c = CHR 0x5C then [CHR 0x5C, CHR 0x5C]
      else if c = CHR 0x08 then [CHR 0x5C, CHR ''b'']
      else if c = CHR 0x0C then [CHR 0x5C, CHR ''f'']
      else if c = CHR 0x0A then [CHR 0x5C, CHR ''n'']
      else if c = CHR 0x0D then [CHR 0x5C, CHR ''r'']
      else if c = CHR 0x09 then [CHR 0x5C, CHR ''t'']
      else if byte_in 0 0x1F c
      then CHR 0x5C # ''u00'' @ [hex_char (of_char c div 16), hex_char (of_char c mod 16)]
      else [c])"

definition canonical_rune :: "bool \<times> string \<Rightarrow> string" where
  "canonical_rune r =
     (case r of (ok, b) \<Rightarrow>
        if \<not> ok then replacement else if length b = 1 then canonical_byte (hd b) else b)"

definition encodeCanonicalJSONString :: "string \<Rightarrow> string" where
  "encodeCanonicalJSONString s =
     CHR 0x22 # concat (map canonical_rune (go_runes s)) @ [CHR 0x22]"

definition canonicalJSONNumber :: "(float64 \<Rightarrow> string) \<Rightarrow> float64 \<Rightarrow> string" where
  "canonicalJSONNumber fmt x =
     (case x of
        Integral n \<Rightarrow> (if n < 0 then CHR ''-'' # decimal (nat (- n)) else decimal (nat n))
      | _ \<Rightarrow> fmt x)"

fun join_comma :: "string list \<Rightarrow> string" where
  "join_comma [] = []"
| "join_comma [x] = x"
| "join_comma (x # y # ys) = x @ CHR '','' # join_comma (y # ys)"

fun writeCanonicalJSONValue :: "(float64 \<Rightarrow> string) \<Rightarrow> json \<Rightarrow> string"
  and write_list :: "(float64 \<Rightarrow> string) \<Rightarrow> json list \<Rightarrow> string list"
  and write_fields :: "(float64 \<Rightarrow> string) \<Rightarrow> (string \<times> json) list \<Rightarrow> (string \<times> string) list" where
  "writeCanonicalJSONValue fmt JNull = ''null''"
| "writeCanonicalJSONValue fmt (JBool b) = (if b then ''true'' else ''false'')"
| "writeCanonicalJSONValue fmt (JNum x) = canonicalJSONNumber fmt x"
| "writeCanonicalJSONValue fmt (JStr s) = encodeCanonicalJSONString s"
| "writeCanonicalJSONValue fmt (JArr vs) = CHR ''['' # join_comma (write_list fmt vs) @ '']''"
| "writeCanonicalJSONValue fmt (JObj fs) =
     CHR ''{'' # join_comma (map (\<lambda>(k, t). encodeCanonicalJSONString k @ CHR '':'' # t)
       (sort_fields (write_fields fmt fs))) @ ''}''"
| "write_list fmt [] = []"
| "write_list fmt (v # vs) = writeCanonicalJSONValue fmt v # write_list fmt vs"
| "write_fields fmt [] = []"
| "write_fields fmt ((k, v) # fs) = (k, writeCanonicalJSONValue fmt v) # write_fields fmt fs"

definition CanonicalJSONString :: "(float64 \<Rightarrow> string) \<Rightarrow> json \<Rightarrow> string option" where
  "CanonicalJSONString fmt v = map_option (writeCanonicalJSONValue fmt) (normalizeCanonicalValue v)"

definition CanonicalJSONBytes :: "(float64 \<Rightarrow> string) \<Rightarrow> json \<Rightarrow> string option" where
  "CanonicalJSONBytes fmt v = CanonicalJSONString fmt v"

section \<open>The parser\<close>

definition isJsonWhitespace :: "char \<Rightarrow> bool" where
  "isJsonWhitespace c \<longleftrightarrow> c = CHR '' '' \<or> c = CHR 0x09 \<or> c = CHR 0x0A \<or> c = CHR 0x0D"

definition trimJsonWhitespace :: "string \<Rightarrow> string" where
  "trimJsonWhitespace s = rev (dropWhile isJsonWhitespace (rev (dropWhile isJsonWhitespace s)))"

definition skipWhitespace :: "string \<Rightarrow> string" where
  "skipWhitespace s = dropWhile isJsonWhitespace s"

definition isDigit :: "char \<Rightarrow> bool" where
  "isDigit c \<longleftrightarrow> byte_in 48 57 c"

definition hasBOM :: "string \<Rightarrow> bool" where
  "hasBOM s \<longleftrightarrow> take 3 s = [CHR 0xEF, CHR 0xBB, CHR 0xBF]"

text \<open>The UTF-8 encoding of a code point, as \<open>strings.Builder.WriteRune\<close> writes it.\<close>

definition encode_rune :: "nat \<Rightarrow> string" where
  "encode_rune v =
     (if v < 0x80 then [char_of v]
      else if v < 0x800 then [char_of (0xC0 + v div 64), char_of (0x80 + v mod 64)]
      else if v < 0x10000
      then [char_of (0xE0 + v div 4096), char_of (0x80 + v div 64 mod 64), char_of (0x80 + v mod 64)]
      else [char_of (0xF0 + v div 262144), char_of (0x80 + v div 4096 mod 64),
            char_of (0x80 + v div 64 mod 64), char_of (0x80 + v mod 64)])"

definition hex_digit_value :: "char \<Rightarrow> nat option" where
  "hex_digit_value c =
     (if byte_in 48 57 c then Some (of_char c - 48)
      else if byte_in 97 102 c then Some (of_char c - 97 + 10)
      else if byte_in 65 70 c then Some (of_char c - 65 + 10)
      else None)"

definition parseHex4 :: "string \<Rightarrow> (nat \<times> string) option" where
  "parseHex4 s =
     (case s of
        a # b # c # d # rest \<Rightarrow>
          (case (hex_digit_value a, hex_digit_value b, hex_digit_value c, hex_digit_value d) of
             (Some w, Some x, Some y, Some z) \<Rightarrow> Some (((w * 16 + x) * 16 + y) * 16 + z, rest)
           | _ \<Rightarrow> None)
      | _ \<Rightarrow> None)"

definition parseUnicodeEscape :: "string \<Rightarrow> (nat \<times> string) option" where
  "parseUnicodeEscape s =
     (case parseHex4 s of
        None \<Rightarrow> None
      | Some (high, rest) \<Rightarrow>
          if 0xDC00 \<le> high \<and> high \<le> 0xDFFF then None
          else if high < 0xD800 \<or> high > 0xDBFF then Some (high, rest)
          else (case rest of
                  a # b # rest' \<Rightarrow>
                    if a = CHR 0x5C \<and> b = CHR ''u'' then
                      (case parseHex4 rest' of
                         None \<Rightarrow> None
                       | Some (low, rest'') \<Rightarrow>
                           if low < 0xDC00 \<or> low > 0xDFFF then None
                           else Some ((high - 0xD800) * 1024 + (low - 0xDC00) + 0x10000, rest''))
                    else None
                | _ \<Rightarrow> None))"

definition simple_escape :: "char \<Rightarrow> char option" where
  "simple_escape e =
     (if e = CHR 0x22 then Some (CHR 0x22) else if e = CHR 0x5C then Some (CHR 0x5C)
      else if e = CHR ''/'' then Some (CHR ''/'') else if e = CHR ''b'' then Some (CHR 0x08)
      else if e = CHR ''f'' then Some (CHR 0x0C) else if e = CHR ''n'' then Some (CHR 0x0A)
      else if e = CHR ''r'' then Some (CHR 0x0D) else if e = CHR ''t'' then Some (CHR 0x09)
      else None)"

lemma parseHex4_length: "parseHex4 s = Some (v, r) \<Longrightarrow> length s = length r + 4"
  by (auto simp: parseHex4_def split: list.splits option.splits prod.splits)

lemma parseUnicodeEscape_length: "parseUnicodeEscape s = Some (v, r) \<Longrightarrow> length r < length s"
  by (auto simp: parseUnicodeEscape_def dest!: parseHex4_length split: list.splits option.splits prod.splits if_splits)

text \<open>The characters of a string literal after its opening quote.\<close>

function parse_chars :: "string \<Rightarrow> (string \<times> string) option" where
  "parse_chars s =
     (case s of
        [] \<Rightarrow> None
      | c # cs \<Rightarrow>
          if c = CHR 0x22 then Some ([], cs)
          else if c = CHR 0x5C then
            (case cs of
               [] \<Rightarrow> None
             | e # es \<Rightarrow>
                 if e = CHR ''u'' then
                   (case parseUnicodeEscape es of
                      None \<Rightarrow> None
                    | Some (v, rest) \<Rightarrow> map_option (\<lambda>(t, r). (encode_rune v @ t, r)) (parse_chars rest))
                 else
                   (case simple_escape e of
                      None \<Rightarrow> None
                    | Some x \<Rightarrow> map_option (\<lambda>(t, r). (x # t, r)) (parse_chars es)))
          else if byte_in 0 0x1F c then None
          else if utf8_width s = 0 then None
          else map_option (\<lambda>(t, r). (take (utf8_width s) s @ t, r)) (parse_chars (drop (utf8_width s) s)))"
  by pat_completeness auto
termination
  by (relation "measure length") (auto dest!: parseUnicodeEscape_length)

declare parse_chars.simps [simp del]

definition parseString :: "string \<Rightarrow> (string \<times> string) option" where
  "parseString s = (case s of [] \<Rightarrow> None | c # cs \<Rightarrow> if c = CHR 0x22 then parse_chars cs else None)"

text \<open>The value of a plain integer literal, and the number scanner.\<close>

definition digits_value :: "string \<Rightarrow> nat" where
  "digits_value ds = fold (\<lambda>d n. 10 * n + (of_char d - 48)) ds 0"

definition integer_literal :: "bool \<Rightarrow> string \<Rightarrow> float64" where
  "integer_literal negative ds =
     (if digits_value ds = 0 then (if negative then NegZero else Integral 0)
      else Integral (if negative then - int (digits_value ds) else int (digits_value ds)))"

definition parseNumber :: "(string \<Rightarrow> float64 option) \<Rightarrow> string \<Rightarrow> (json \<times> string) option" where
  "parseNumber prs s =
     (let negative = (s \<noteq> [] \<and> hd s = CHR ''-'');
          s1 = (if negative then tl s else s);
          ds = (if s1 \<noteq> [] \<and> hd s1 = CHR ''0'' then ''0'' else takeWhile isDigit s1);
          s2 = drop (length ds) s1
      in if ds = [] \<or> ds = ''0'' \<and> s2 \<noteq> [] \<and> isDigit (hd s2) then None
         else
           let dot = (s2 \<noteq> [] \<and> hd s2 = CHR ''.'');
               fs = (if dot then takeWhile isDigit (tl s2) else []);
               s3 = (if dot then drop (length fs) (tl s2) else s2)
           in if dot \<and> fs = [] then None
              else
                let ex = (s3 \<noteq> [] \<and> (hd s3 = CHR ''e'' \<or> hd s3 = CHR ''E''));
                    sg = (if ex \<and> tl s3 \<noteq> [] \<and> (hd (tl s3) = CHR ''+'' \<or> hd (tl s3) = CHR ''-'')
                          then [hd (tl s3)] else []);
                    s4 = (if ex then drop (length sg) (tl s3) else s3);
                    es = (if ex then takeWhile isDigit s4 else []);
                    rest = (if ex then drop (length es) s4 else s3);
                    raw = take (length s - length rest) s
                in if ex \<and> es = [] then None
                   else case (if dot \<or> ex then prs raw else Some (integer_literal negative ds)) of
                          None \<Rightarrow> None
                        | Some x \<Rightarrow> if validateCanonicalNumber x then Some (JNum x, rest) else None)"

fun parseValue :: "(string \<Rightarrow> float64 option) \<Rightarrow> nat \<Rightarrow> string \<Rightarrow> (json \<times> string) option"
  and parse_members :: "(string \<Rightarrow> float64 option) \<Rightarrow> nat \<Rightarrow> string \<Rightarrow> (string \<times> json) list \<Rightarrow> (json \<times> string) option"
  and parse_elements :: "(string \<Rightarrow> float64 option) \<Rightarrow> nat \<Rightarrow> string \<Rightarrow> json list \<Rightarrow> (json \<times> string) option" where
  "parseValue prs 0 s = None"
| "parseValue prs (Suc n) s0 =
     (let s = skipWhitespace s0
      in case s of
           [] \<Rightarrow> None
         | c # cs \<Rightarrow>
             if c = CHR ''{'' then parse_members prs n (skipWhitespace cs) []
             else if c = CHR ''['' then parse_elements prs n (skipWhitespace cs) []
             else if c = CHR 0x22 then map_option (\<lambda>(t, r). (JStr t, r)) (parseString s)
             else if c = CHR ''-'' \<or> isDigit c then parseNumber prs s
             else if has_prefix s ''true'' then Some (JBool True, drop 4 s)
             else if has_prefix s ''false'' then Some (JBool False, drop 5 s)
             else if has_prefix s ''null'' then Some (JNull, drop 4 s)
             else None)"
| "parse_members prs 0 s acc = None"
| "parse_members prs (Suc n) s acc =
     (case s of
        [] \<Rightarrow> None
      | c # cs \<Rightarrow>
          if c = CHR ''}'' then Some (JObj acc, cs)
          else (case parseString s of
                  None \<Rightarrow> None
                | Some (key, s1) \<Rightarrow>
                    if key \<in> fst ` set acc then None
                    else (case skipWhitespace s1 of
                            [] \<Rightarrow> None
                          | d # s2 \<Rightarrow>
                              if d \<noteq> CHR '':'' then None
                              else (case parseValue prs n (skipWhitespace s2) of
                                      None \<Rightarrow> None
                                    | Some (v, s3) \<Rightarrow>
                                        (case skipWhitespace s3 of
                                           [] \<Rightarrow> None
                                         | e # s4 \<Rightarrow>
                                             if e = CHR '','' then
                                               (let s5 = skipWhitespace s4
                                                in if s5 = [] \<or> hd s5 = CHR ''}'' then None
                                                   else parse_members prs n s5 (acc @ [(key, v)]))
                                             else if e = CHR ''}'' then Some (JObj (acc @ [(key, v)]), s4)
                                             else None)))))"
| "parse_elements prs 0 s vs = None"
| "parse_elements prs (Suc n) s vs =
     (case s of
        [] \<Rightarrow> None
      | c # cs \<Rightarrow>
          if c = CHR '']'' then Some (JArr vs, cs)
          else (case parseValue prs n s of
                  None \<Rightarrow> None
                | Some (v, s1) \<Rightarrow>
                    (case skipWhitespace s1 of
                       [] \<Rightarrow> None
                     | e # s2 \<Rightarrow>
                         if e = CHR '','' then
                           (let s3 = skipWhitespace s2
                            in if s3 = [] \<or> hd s3 = CHR '']'' then None
                               else parse_elements prs n s3 (vs @ [v]))
                         else if e = CHR '']'' then Some (JArr (vs @ [v]), s2)
                         else None)))"

definition ParseCanonicalJSON :: "(string \<Rightarrow> float64 option) \<Rightarrow> string \<Rightarrow> json option" where
  "ParseCanonicalJSON prs input =
     (let trimmed = trimJsonWhitespace input
      in if trimmed = [] then None
         else case parseValue prs (Suc (length trimmed)) trimmed of
                None \<Rightarrow> None
              | Some (v, rest) \<Rightarrow> if rest \<noteq> [] then None else normalizeCanonicalValue v)"

definition ParseCanonicalJSONBytes :: "(string \<Rightarrow> float64 option) \<Rightarrow> string \<Rightarrow> json option" where
  "ParseCanonicalJSONBytes prs input =
     (if hasBOM input then None else if \<not> valid_utf8 input then None else ParseCanonicalJSON prs input)"

end
