(* ===== verification/Canonical_Fuel.thy ===== *)
theory Canonical_Fuel
  imports Canonical_JSON
begin

text \<open>
  The nesting bound of the parser model is no restriction: the parser of the code has none, and
  a document that is read with any bound is read, with the same result, within the length of the
  input, because every step consumes a byte.
\<close>

section \<open>Every scanner consumes\<close>

lemma skip_shorter: "length (skipWhitespace s) \<le> length s"
  by (simp add: skipWhitespace_def length_dropWhile_le)

lemma parse_chars_step:
  assumes "parse_chars s = Some (t, r)"
  shows "length r < length s \<or> (\<exists>s' t'. parse_chars s' = Some (t', r) \<and> length s' < length s)"
proof (cases s)
  case Nil
  with assms show ?thesis by (simp add: parse_chars.simps)
next
  case (Cons c cs)
  with assms parse_chars.simps [of s] show ?thesis
    by (fastforce split: if_splits list.splits option.splits dest: parseUnicodeEscape_length)
qed

lemma parse_chars_shorter: "parse_chars s = Some (t, r) \<Longrightarrow> length r < length s"
proof (induction "length s" arbitrary: s t rule: less_induct)
  case less
  with parse_chars_step [OF less.prems] show ?case by (meson less_trans)
qed

lemma parseString_shorter: "parseString s = Some (t, r) \<Longrightarrow> length r < length s"
  by (auto simp: parseString_def dest!: parse_chars_shorter split: list.splits if_splits)


lemma parseNumber_shorter:
  assumes "parseNumber prs s = Some (v, r)"
  shows "length r < length s"
proof -
  define s1 where "s1 = (if s \<noteq> [] \<and> hd s = CHR ''-'' then tl s else s)"
  define ds where "ds = (if s1 \<noteq> [] \<and> hd s1 = CHR ''0'' then ''0'' else takeWhile isDigit s1)"
  define s2 where "s2 = drop (length ds) s1"
  define dot where "dot = (s2 \<noteq> [] \<and> hd s2 = CHR ''.'')"
  define fs where "fs = (if dot then takeWhile isDigit (tl s2) else [])"
  define s3 where "s3 = (if dot then drop (length fs) (tl s2) else s2)"
  define ex where "ex = (s3 \<noteq> [] \<and> (hd s3 = CHR ''e'' \<or> hd s3 = CHR ''E''))"
  define sg where "sg = (if ex \<and> tl s3 \<noteq> [] \<and> (hd (tl s3) = CHR ''+'' \<or> hd (tl s3) = CHR ''-'')
                         then [hd (tl s3)] else [])"
  define s4 where "s4 = (if ex then drop (length sg) (tl s3) else s3)"
  define es where "es = (if ex then takeWhile isDigit s4 else [])"
  define rest where "rest = (if ex then drop (length es) s4 else s3)"
  note defs = s1_def ds_def s2_def dot_def fs_def s3_def ex_def sg_def s4_def es_def rest_def
  have "parseNumber prs s = (if ds = [] \<or> ds = ''0'' \<and> s2 \<noteq> [] \<and> isDigit (hd s2) then None
      else if dot \<and> fs = [] then None else if ex \<and> es = [] then None
      else case (if dot \<or> ex then prs (take (length s - length rest) s)
                 else Some (integer_literal (s \<noteq> [] \<and> hd s = CHR ''-'') ds)) of
             None \<Rightarrow> None | Some x \<Rightarrow> if validateCanonicalNumber x then Some (JNum x, rest) else None)"
    unfolding parseNumber_def Let_def defs by (rule refl)
  with assms have "ds \<noteq> []" and r: "r = rest" by (auto split: if_splits option.splits)
  then have "length s2 < length s1" by (cases s1) (auto simp: s2_def ds_def split: if_splits)
  moreover have "length s1 \<le> length s" by (simp add: s1_def)
  moreover have "length s3 \<le> length s2" by (simp add: s3_def)
  moreover have "length rest \<le> length s3" by (simp add: rest_def s4_def)
  ultimately show ?thesis by (simp add: r)
qed

section \<open>The cases of the parser\<close>

lemma parse_elements_iff:
  "parse_elements prs (Suc n) s vs = Some (v, r) \<longleftrightarrow>
     s = CHR '']'' # r \<and> v = JArr vs \<or>
     (\<exists>c cs x s1 e s2. s = c # cs \<and> c \<noteq> CHR '']'' \<and> parseValue prs n s = Some (x, s1) \<and> skipWhitespace s1 = e # s2 \<and>
        (e = CHR '','' \<and> skipWhitespace s2 \<noteq> [] \<and> hd (skipWhitespace s2) \<noteq> CHR '']'' \<and>
           parse_elements prs n (skipWhitespace s2) (vs @ [x]) = Some (v, r) \<or>
         e = CHR '']'' \<and> v = JArr (vs @ [x]) \<and> r = s2))"
  by (cases s) (auto simp: Let_def split: option.splits list.splits if_splits)

lemma parse_members_iff:
  "parse_members prs (Suc n) s acc = Some (v, r) \<longleftrightarrow>
     s = CHR ''}'' # r \<and> v = JObj acc \<or>
     (\<exists>c cs key s1 s2 x s3 e s4. s = c # cs \<and> c \<noteq> CHR ''}'' \<and> parseString s = Some (key, s1) \<and> key \<notin> fst ` set acc \<and>
        skipWhitespace s1 = CHR '':'' # s2 \<and> parseValue prs n (skipWhitespace s2) = Some (x, s3) \<and>
        skipWhitespace s3 = e # s4 \<and>
        (e = CHR '','' \<and> skipWhitespace s4 \<noteq> [] \<and> hd (skipWhitespace s4) \<noteq> CHR ''}'' \<and>
           parse_members prs n (skipWhitespace s4) (acc @ [(key, x)]) = Some (v, r) \<or>
         e = CHR ''}'' \<and> v = JObj (acc @ [(key, x)]) \<and> r = s4))"
  by (cases s) (auto simp: Let_def split: option.splits list.splits if_splits)

section \<open>Enough fuel\<close>

text \<open>What was consumed, and that any larger bound gives the same result.\<close>

definition settled :: "(nat \<Rightarrow> (json \<times> string) option) \<Rightarrow> string \<Rightarrow> json \<times> string \<Rightarrow> bool" where
  "settled f s y \<longleftrightarrow> length (snd y) < length s \<and> (\<forall>m. length s < m + length (snd y) \<longrightarrow> f m = Some y)"

lemma settledI:
  assumes "length r < length s" and "\<And>k. length s \<le> k + length r \<Longrightarrow> f (Suc k) = Some (v, r)"
  shows "settled f s (v, r)"
proof -
  have "f m = Some (v, r)" if "length s < m + length r" for m
    using that assms by (cases m) auto
  with assms(1) show ?thesis by (simp add: settled_def)
qed

definition settles :: "(string \<Rightarrow> float64 option) \<Rightarrow> nat \<Rightarrow> bool" where
  "settles prs n \<longleftrightarrow>
     (\<forall>s y. parseValue prs n s = Some y \<longrightarrow> settled (\<lambda>m. parseValue prs m s) s y) \<and>
     (\<forall>s acc y. parse_members prs n s acc = Some y \<longrightarrow> settled (\<lambda>m. parse_members prs m s acc) s y) \<and>
     (\<forall>s vs y. parse_elements prs n s vs = Some y \<longrightarrow> settled (\<lambda>m. parse_elements prs m s vs) s y)"

lemma value_settled:
  assumes IH: "settles prs n" and parsed: "parseValue prs (Suc n) s0 = Some (v, r)"
  shows "settled (\<lambda>m. parseValue prs m s0) s0 (v, r)"
proof -
  obtain c cs where c: "skipWhitespace s0 = c # cs" using parsed by (cases "skipWhitespace s0") auto
  have le: "length (c # cs) \<le> length s0" using skip_shorter [of s0] by (simp add: c)
  note cl = skip_shorter [of cs]
  consider "c = CHR ''{''" | "c = CHR ''[''" | "c \<noteq> CHR ''{''" "c \<noteq> CHR ''[''" by blast
  then show ?thesis
  proof cases
    case 1
    then have "settled (\<lambda>m. parse_members prs m (skipWhitespace cs) []) (skipWhitespace cs) (v, r)"
      using IH parsed by (simp add: c settles_def)
    then show ?thesis using le cl by (intro settledI) (simp_all add: settled_def c 1)
  next
    case 2
    then have "settled (\<lambda>m. parse_elements prs m (skipWhitespace cs) []) (skipWhitespace cs) (v, r)"
      using IH parsed by (simp add: c settles_def)
    then show ?thesis using le cl by (intro settledI) (simp_all add: settled_def c 2)
  next
    case 3
    then have same: "parseValue prs (Suc k) s0 = Some (v, r)" for k using parsed by (simp add: c)
    have "length r < length (c # cs)" using parsed 3
      by (auto simp: c Let_def dest!: parseString_shorter parseNumber_shorter split: if_splits)
    then show ?thesis using same le by (intro settledI) auto
  qed
qed

lemma elements_settled:
  assumes IH: "settles prs n" and parsed: "parse_elements prs (Suc n) s vs = Some (v, r)"
  shows "settled (\<lambda>m. parse_elements prs m s vs) s (v, r)"
proof (cases "s = CHR '']'' # r \<and> v = JArr vs")
  case True
  then show ?thesis by (intro settledI) auto
next
  case False
  with parsed obtain c cs x s1 e s2 where step: "s = c # cs" "c \<noteq> CHR '']''" "parseValue prs n s = Some (x, s1)"
      "skipWhitespace s1 = e # s2"
    and cont: "e = CHR '','' \<and> skipWhitespace s2 \<noteq> [] \<and> hd (skipWhitespace s2) \<noteq> CHR '']'' \<and>
           parse_elements prs n (skipWhitespace s2) (vs @ [x]) = Some (v, r) \<or>
         e = CHR '']'' \<and> v = JArr (vs @ [x]) \<and> r = s2"
    unfolding parse_elements_iff by blast
  have sv: "settled (\<lambda>m. parseValue prs m s) s (x, s1)" using IH step(3) by (simp add: settles_def)
  have sl: "length s2 < length s1" using skip_shorter [of s1] step(4) by simp
  note l2 = skip_shorter [of s2]
  have se: "settled (\<lambda>m. parse_elements prs m (skipWhitespace s2) (vs @ [x])) (skipWhitespace s2) (v, r)"
    if "parse_elements prs n (skipWhitespace s2) (vs @ [x]) = Some (v, r)"
    using IH that unfolding settles_def by blast
  have shorter: "length r \<le> length s2" using cont se l2 by (auto simp: settled_def)
  show ?thesis
  proof (rule settledI)
    show "length r < length s" using shorter sl sv by (simp add: settled_def)
    fix k assume k: "length s \<le> k + length r"
    then have "parseValue prs k s = Some (x, s1)" using sv shorter sl by (simp add: settled_def)
    moreover have "parse_elements prs k (skipWhitespace s2) (vs @ [x]) = Some (v, r)"
      if "parse_elements prs n (skipWhitespace s2) (vs @ [x]) = Some (v, r)"
      using se [OF that] k sl sv l2 by (simp add: settled_def)
    ultimately show "parse_elements prs (Suc k) s vs = Some (v, r)"
      unfolding parse_elements_iff using step cont by blast
  qed
qed

lemma members_settled:
  assumes IH: "settles prs n" and parsed: "parse_members prs (Suc n) s acc = Some (v, r)"
  shows "settled (\<lambda>m. parse_members prs m s acc) s (v, r)"
proof (cases "s = CHR ''}'' # r \<and> v = JObj acc")
  case True
  then show ?thesis by (intro settledI) auto
next
  case False
  with parsed obtain c cs key s1 s2 x s3 e s4 where step: "s = c # cs" "c \<noteq> CHR ''}''"
      "parseString s = Some (key, s1)" "key \<notin> fst ` set acc" "skipWhitespace s1 = CHR '':'' # s2"
      "parseValue prs n (skipWhitespace s2) = Some (x, s3)" "skipWhitespace s3 = e # s4"
    and cont: "e = CHR '','' \<and> skipWhitespace s4 \<noteq> [] \<and> hd (skipWhitespace s4) \<noteq> CHR ''}'' \<and>
           parse_members prs n (skipWhitespace s4) (acc @ [(key, x)]) = Some (v, r) \<or>
         e = CHR ''}'' \<and> v = JObj (acc @ [(key, x)]) \<and> r = s4"
    unfolding parse_members_iff by blast
  have sv: "settled (\<lambda>m. parseValue prs m (skipWhitespace s2)) (skipWhitespace s2) (x, s3)"
    using IH step(6) by (simp add: settles_def)
  have sl: "length s2 < length s" "length s4 < length s3"
    using skip_shorter [of s1] skip_shorter [of s3] parseString_shorter [OF step(3)] step(5,7) by simp_all
  note l2 = skip_shorter [of s2] skip_shorter [of s4]
  have se: "settled (\<lambda>m. parse_members prs m (skipWhitespace s4) (acc @ [(key, x)])) (skipWhitespace s4) (v, r)"
    if "parse_members prs n (skipWhitespace s4) (acc @ [(key, x)]) = Some (v, r)"
    using IH that unfolding settles_def by blast
  have shorter: "length r \<le> length s4" using cont se l2 by (auto simp: settled_def)
  show ?thesis
  proof (rule settledI)
    show "length r < length s" using shorter sl sv l2 by (simp add: settled_def)
    fix k assume k: "length s \<le> k + length r"
    then have "parseValue prs k (skipWhitespace s2) = Some (x, s3)" using sv shorter sl l2 by (simp add: settled_def)
    moreover have "parse_members prs k (skipWhitespace s4) (acc @ [(key, x)]) = Some (v, r)"
      if "parse_members prs n (skipWhitespace s4) (acc @ [(key, x)]) = Some (v, r)"
      using se [OF that] k sl sv l2 by (simp add: settled_def)
    ultimately show "parse_members prs (Suc k) s acc = Some (v, r)"
      unfolding parse_members_iff using step cont by blast
  qed
qed

lemma parse_settles: "settles prs n"
proof (induction n)
  case (Suc n)
  then show ?case unfolding settles_def [of prs "Suc n"]
    using value_settled elements_settled members_settled by (metis surj_pair)
qed (simp add: settles_def)



end
