(* ===== verification/Base64_URL.thy ===== *)
theory Base64_URL
  imports Go_Prelude
begin

text \<open>
  Go's \<open>base64.RawURLEncoding\<close> as the signing code uses it: encoding without padding, and the
  \<open>Strict\<close> decoder, which ignores line breaks, refuses every byte outside the alphabet, a final
  group of one character, and trailing bits that are not zero. Shown: decoding inverts encoding,
  and a text that decodes is, line breaks apart, the one encoding of what it decodes to.
\<close>

definition b64_alphabet :: string where
  "b64_alphabet = ''ABCDEFGHIJKLMNOPQRSTUVWXYZabcdefghijklmnopqrstuvwxyz0123456789-_''"

definition b64_char :: "nat \<Rightarrow> char" where
  "b64_char n = b64_alphabet ! n"

fun index_of :: "'a \<Rightarrow> 'a list \<Rightarrow> nat option" where
  "index_of x [] = None"
| "index_of x (y # ys) = (if x = y then Some 0 else map_option Suc (index_of x ys))"

definition b64_value :: "char \<Rightarrow> nat option" where
  "b64_value c = index_of c b64_alphabet"

fun EncodeToString :: "string \<Rightarrow> string" where
  "EncodeToString [] = []"
| "EncodeToString [a] = [b64_char (of_char a div 4), b64_char (of_char a mod 4 * 16)]"
| "EncodeToString [a, b] =
     [b64_char (of_char a div 4), b64_char (of_char a mod 4 * 16 + of_char b div 16),
      b64_char (of_char b mod 16 * 4)]"
| "EncodeToString (a # b # c # rest) =
     b64_char (of_char a div 4) # b64_char (of_char a mod 4 * 16 + of_char b div 16) #
     b64_char (of_char b mod 16 * 4 + of_char c div 64) # b64_char (of_char c mod 64) #
     EncodeToString rest"

fun decode_quanta :: "string \<Rightarrow> string option" where
  "decode_quanta [] = Some []"
| "decode_quanta [w] = None"
| "decode_quanta [w, x] =
     (case (b64_value w, b64_value x) of
        (Some i, Some j) \<Rightarrow> if j mod 16 = 0 then Some [char_of (i * 4 + j div 16)] else None
      | _ \<Rightarrow> None)"
| "decode_quanta [w, x, y] =
     (case (b64_value w, b64_value x, b64_value y) of
        (Some i, Some j, Some k) \<Rightarrow>
          if k mod 4 = 0 then Some [char_of (i * 4 + j div 16), char_of (j mod 16 * 16 + k div 4)] else None
      | _ \<Rightarrow> None)"
| "decode_quanta (w # x # y # z # rest) =
     (case (b64_value w, b64_value x, b64_value y, b64_value z) of
        (Some i, Some j, Some k, Some l) \<Rightarrow>
          map_option (\<lambda>bs. char_of (i * 4 + j div 16) # char_of (j mod 16 * 16 + k div 4) #
            char_of (k mod 4 * 64 + l) # bs) (decode_quanta rest)
      | _ \<Rightarrow> None)"

definition no_breaks :: "string \<Rightarrow> string" where
  "no_breaks s = filter (\<lambda>c. c \<noteq> CHR 0x0A \<and> c \<noteq> CHR 0x0D) s"

definition DecodeString :: "string \<Rightarrow> string option" where
  "DecodeString s = decode_quanta (no_breaks s)"

section \<open>The alphabet\<close>

lemma index_of_nth: "distinct xs \<Longrightarrow> n < length xs \<Longrightarrow> index_of (xs ! n) xs = Some n"
proof (induction xs arbitrary: n)
  case (Cons x xs)
  then show ?case by (cases n) auto
qed simp

lemma index_of_Some: "index_of x xs = Some n \<Longrightarrow> n < length xs \<and> xs ! n = x"
  by (induction xs arbitrary: n) (auto split: if_splits)

lemma alphabet: "distinct b64_alphabet" "length b64_alphabet = 64"
  "CHR 0x0A \<notin> set b64_alphabet" "CHR 0x0D \<notin> set b64_alphabet"
  by (simp_all add: b64_alphabet_def)

lemma b64_value_char [simp]: "n < 64 \<Longrightarrow> b64_value (b64_char n) = Some n"
  by (simp add: b64_value_def b64_char_def index_of_nth alphabet)

lemma b64_value_Some: "b64_value c = Some n \<Longrightarrow> n < 64 \<and> b64_char n = c"
  using index_of_Some [of c b64_alphabet n] by (simp add: b64_value_def b64_char_def alphabet)

lemma b64_char_alphabet: "n < 64 \<Longrightarrow> b64_char n \<in> set b64_alphabet"
  by (simp add: b64_char_def alphabet)

text \<open>A byte split over two sextets and joined again.\<close>

lemma encode_bounds:
  "(of_char a :: nat) div 4 < 64" "(of_char a :: nat) mod 4 * 16 + of_char b div 16 < 64"
  "(of_char b :: nat) mod 16 * 4 + of_char c div 64 < 64" "(of_char c :: nat) mod 64 < 64"
  "(of_char a :: nat) mod 4 * 16 < 64" "(of_char b :: nat) mod 16 * 4 < 64"
proof -
  have *: "(of_char a :: nat) < 256" "(of_char b :: nat) < 256" "(of_char c :: nat) < 256" by simp_all
  show "(of_char a :: nat) div 4 < 64" "(of_char c :: nat) mod 64 < 64"
    using * by (simp_all add: less_mult_imp_div_less)
  have "(of_char a :: nat) mod 4 < 4" "(of_char b :: nat) mod 16 < 16" by simp_all
  moreover have "(of_char b :: nat) div 16 < 16" "(of_char c :: nat) div 64 < 4"
    using * by (simp_all add: less_mult_imp_div_less)
  ultimately show "(of_char a :: nat) mod 4 * 16 + of_char b div 16 < 64"
    "(of_char b :: nat) mod 16 * 4 + of_char c div 64 < 64"
    "(of_char a :: nat) mod 4 * 16 < 64" "(of_char b :: nat) mod 16 * 4 < 64" by linarith+
qed

lemma high_bits:
  "(of_char b :: nat) div 16 div 16 = 0" "(of_char c :: nat) div 64 div 4 = 0"
  "(of_char b :: nat) div 16 mod 16 = of_char b div 16" "(of_char c :: nat) div 64 mod 4 = of_char c div 64"
  by (simp_all add: less_mult_imp_div_less)

section \<open>Decoding inverts encoding\<close>

lemma decode_quanta_encode: "decode_quanta (EncodeToString bs) = Some bs"
  by (induction bs rule: EncodeToString.induct) (simp_all add: encode_bounds high_bits div_mult_mod_eq)

lemma set_EncodeToString: "set (EncodeToString bs) \<subseteq> set b64_alphabet"
  by (induction bs rule: EncodeToString.induct) (simp_all add: encode_bounds b64_char_alphabet)

lemma no_breaks_encode: "no_breaks (EncodeToString bs) = EncodeToString bs"
  using set_EncodeToString [of bs] alphabet(3,4) by (auto simp: no_breaks_def filter_id_conv)

lemma Decode_Encode: "DecodeString (EncodeToString bs) = Some bs"
  by (simp add: DecodeString_def no_breaks_encode decode_quanta_encode)


section \<open>One encoding\<close>

lemma split_bytes:
  assumes "i < 64" "j < 64" "k < 64" "l < (64::nat)"
  shows "(i * 4 + j div 16) div 4 = i" "(i * 4 + j div 16) mod 4 * 16 + j mod 16 = j"
    "(j mod 16 * 16 + k div 4) div 16 = j mod 16" "(j mod 16 * 16 + k div 4) mod 16 * 4 + k mod 4 = k"
    "(k mod 4 * 64 + l) div 64 = k mod 4" "(k mod 4 * 64 + l) mod 64 = l"
    "i * 4 + j div 16 < 256" "j mod 16 * 16 + k div 4 < 256" "k mod 4 * 64 + l < 256"
proof -
  have d: "j div 16 < 4" "k div 4 < 16" using assms by (simp_all add: less_mult_imp_div_less)
  have m: "j mod 16 < 16" "k mod 4 < 4" by simp_all
  show "(i * 4 + j div 16) div 4 = i" "(i * 4 + j div 16) mod 4 * 16 + j mod 16 = j"
    "(j mod 16 * 16 + k div 4) div 16 = j mod 16" "(j mod 16 * 16 + k div 4) mod 16 * 4 + k mod 4 = k"
    "(k mod 4 * 64 + l) div 64 = k mod 4" "(k mod 4 * 64 + l) mod 64 = l"
    using d m assms by (simp_all add: div_mult_mod_eq)
  show "i * 4 + j div 16 < 256" "j mod 16 * 16 + k div 4 < 256" "k mod 4 * 64 + l < 256"
    using d m assms by linarith+
qed

lemma encode_quanta: "decode_quanta s = Some bs \<Longrightarrow> EncodeToString bs = s"
proof (induction s arbitrary: bs rule: decode_quanta.induct)
  case (3 w x)
  then obtain i j where "b64_value w = Some i" "b64_value x = Some j" "j mod 16 = 0"
      "bs = [char_of (i * 4 + j div 16)]" by (auto split: option.splits if_splits)
  then show ?case using b64_value_Some [of w i] b64_value_Some [of x j] split_bytes [of i j 0 0]
    by simp
next
  case (4 w x y)
  then obtain i j k where "b64_value w = Some i" "b64_value x = Some j" "b64_value y = Some k" "k mod 4 = 0"
      "bs = [char_of (i * 4 + j div 16), char_of (j mod 16 * 16 + k div 4)]"
    by (auto split: option.splits if_splits)
  then show ?case
    using b64_value_Some [of w i] b64_value_Some [of x j] b64_value_Some [of y k] split_bytes [of i j k 0]
    by simp
next
  case (5 w x y z rest)
  then obtain i j k l bs' where "b64_value w = Some i" "b64_value x = Some j" "b64_value y = Some k"
      "b64_value z = Some l" "decode_quanta rest = Some bs'"
      "bs = char_of (i * 4 + j div 16) # char_of (j mod 16 * 16 + k div 4) # char_of (k mod 4 * 64 + l) # bs'"
    by (auto split: option.splits)
  moreover from this have "EncodeToString bs' = rest" using "5.IH" by simp
  ultimately show ?case
    using b64_value_Some [of w i] b64_value_Some [of x j] b64_value_Some [of y k]
      b64_value_Some [of z l] split_bytes [of i j k l]
    by simp
qed simp_all

lemma Encode_Decode: "DecodeString s = Some bs \<Longrightarrow> no_breaks s = EncodeToString bs"
  by (simp add: DecodeString_def encode_quanta)

end
