(* ===== verification/Canonical_Roundtrip.thy ===== *)
theory Canonical_Roundtrip
  imports Canonical_JSON
begin

text \<open>
  Reading what was written: on values built from text, safe integers, lists and objects whose
  fields are in canonical order (the values that are signed), the strict parser inverts
  the serialiser, so that the signed bytes determine the value.
\<close>

section \<open>Canonical values\<close>

fun canonical :: "json \<Rightarrow> bool"
  and canonical_list :: "json list \<Rightarrow> bool"
  and canonical_fields :: "(string \<times> json) list \<Rightarrow> bool" where
  "canonical JNull = True"
| "canonical (JBool b) = True"
| "canonical (JNum x) = (case x of Integral n \<Rightarrow> \<bar>n\<bar> \<le> maxSafeInteger | _ \<Rightarrow> False)"
| "canonical (JStr s) = valid_utf8 s"
| "canonical (JArr vs) = canonical_list vs"
| "canonical (JObj fs) = (sorted_wrt utf16Less (map fst fs) \<and> canonical_fields fs)"
| "canonical_list [] = True"
| "canonical_list (v # vs) = (canonical v \<and> canonical_list vs)"
| "canonical_fields [] = True"
| "canonical_fields ((k, v) # fs) = (valid_utf8 k \<and> canonical v \<and> canonical_fields fs)"

lemma valid_string: "validateCanonicalString s = valid_utf8 s"
  by (simp add: validateCanonicalString_def valid_utf8_def)

lemma normalize_canonical:
  "canonical v \<Longrightarrow> normalizeCanonicalValue v = Some v"
  "canonical_list vs \<Longrightarrow> normalize_list vs = Some vs"
  "canonical_fields fs \<Longrightarrow> normalize_fields fs = Some fs"
proof (induction v and vs and fs rule: canonical_canonical_list_canonical_fields.induct)
  case (3 x)
  then show ?case by (auto simp: validateCanonicalNumber_def split: float64.splits)
qed (auto simp: valid_string)

section \<open>Field order\<close>

lemma units_less_asym: "units_less x y \<Longrightarrow> \<not> units_less y x"
  by (induction x y rule: units_less.induct) (auto split: if_splits)

lemma units_less_irrefl: "\<not> units_less x x"
  by (induction x) auto

lemma utf16Less_asym: "utf16Less x y \<Longrightarrow> \<not> utf16Less y x"
  by (simp add: utf16Less_def units_less_asym)

lemma sort_fields_sorted: "sorted_wrt utf16Less (map fst fs) \<Longrightarrow> sort_fields fs = fs"
proof (induction fs)
  case (Cons f fs)
  then have "sort_fields (f # fs) = insert_field f fs" by (simp add: sort_fields_def)
  also have "\<dots> = f # fs" using Cons.prems utf16Less_asym by (cases fs) auto
  finally show ?case .
qed (simp add: sort_fields_def)

lemma write_fields_keys: "map fst (write_fields fmt fs) = map fst fs"
  by (induction fs) auto

section \<open>Strings\<close>

lemma hex_digit_hex_char: "n < 16 \<Longrightarrow> hex_digit_value (hex_char n) = Some n"
  by (cases "n < 10") (simp_all add: hex_digit_value_def hex_char_def byte_in_def)

lemma hex_digit_zero: "hex_digit_value (CHR ''0'') = Some 0"
  by (simp add: hex_digit_value_def byte_in_def)

lemma parse_control_escape:
  assumes "byte_in 0 0x1F c"
  shows "parseUnicodeEscape (CHR ''0'' # CHR ''0'' # hex_char (of_char c div 16) # hex_char (of_char c mod 16) # t) =
    Some (of_char c, t)"
proof -
  define n :: nat where "n = of_char c"
  have lt: "n \<le> 31" using assms by (simp add: byte_in_def n_def)
  have hi: "hex_digit_value (hex_char (n div 16)) = Some (n div 16)"
    by (rule hex_digit_hex_char) (use lt in simp)
  have lo: "hex_digit_value (hex_char (n mod 16)) = Some (n mod 16)"
    by (rule hex_digit_hex_char) simp
  have "parseHex4 (CHR ''0'' # CHR ''0'' # hex_char (n div 16) # hex_char (n mod 16) # t) = Some (n, t)"
    by (simp add: parseHex4_def hex_digit_zero hi lo)
  with lt show ?thesis by (simp add: parseUnicodeEscape_def n_def)
qed

lemma encode_control: "byte_in 0 0x1F c \<Longrightarrow> encode_rune (of_char c) = [c]"
  by (simp add: encode_rune_def byte_in_def)

abbreviation prepend :: "string \<Rightarrow> (string \<times> string) option \<Rightarrow> (string \<times> string) option" where
  "prepend b x \<equiv> map_option (\<lambda>(t, r). (b @ t, r)) x"

lemma parse_plain:
  assumes "utf8_seq b" and "hd b \<noteq> CHR 0x22" "hd b \<noteq> CHR 0x5C" "\<not> byte_in 0 0x1F (hd b)"
  shows "parse_chars (b @ t) = prepend b (parse_chars t)"
proof -
  obtain c cs where b: "b = c # cs" using utf8_seq_nonempty [OF assms(1)] by (cases b) auto
  have w: "utf8_width (b @ t) = length b" by (rule utf8_width_append [OF assms(1)])
  have "length b \<noteq> 0" by (simp add: b)
  with w assms(2-4) show ?thesis
    by (subst parse_chars.simps) (simp add: b)
qed

lemma parse_rune:
  assumes "utf8_seq b"
  shows "parse_chars (canonical_rune (True, b) @ t) = prepend b (parse_chars t)"
proof (cases "length b = 1")
  case False
  obtain c cs where b: "b = c # cs" using utf8_seq_nonempty [OF assms] by (cases b) auto
  from False assms have "\<not> byte_in 0 0x7F c"
    using utf8_seq_length [OF assms] by (auto simp: b lead_width_def)
  then have "c \<noteq> CHR 0x22" "c \<noteq> CHR 0x5C" "\<not> byte_in 0 0x1F c" by (auto simp: byte_in_def)
  with False parse_plain [OF assms, of t] show ?thesis by (simp add: canonical_rune_def b)
next
  case True
  then obtain c where b: "b = [c]" by (cases b) auto
  show ?thesis
  proof (cases "canonical_byte c = [c]")
    case True
    then have "c \<noteq> CHR 0x22" "c \<noteq> CHR 0x5C" "\<not> byte_in 0 0x1F c"
      by (auto simp: canonical_byte_def split: if_splits)
    with True parse_plain [OF assms, of t] show ?thesis by (simp add: canonical_rune_def b)
  next
    case False
    then show ?thesis
      using parse_control_escape [of c t] encode_control [of c]
      by (subst parse_chars.simps)
        (auto simp: canonical_rune_def b canonical_byte_def simple_escape_def split: if_splits)
  qed
qed

lemma parse_runes:
  "list_all utf8_seq bs \<Longrightarrow>
   parse_chars (concat (map (\<lambda>b. canonical_rune (True, b)) bs) @ CHR 0x22 # rest) = Some (concat bs, rest)"
proof (induction bs)
  case Nil
  then show ?case by (subst parse_chars.simps) simp
next
  case (Cons b bs)
  then show ?case by (simp add: parse_rune)
qed

lemma valid_runes: "valid_utf8 s \<Longrightarrow> \<exists>bs. go_runes s = map (Pair True) bs \<and> s = concat bs \<and> list_all utf8_seq bs"
  using valid_utf8_iff [of s] go_runes_concat by blast

lemma parse_string_written:
  assumes "valid_utf8 s"
  shows "parseString (encodeCanonicalJSONString s @ rest) = Some (s, rest)"
proof -
  obtain bs where bs: "go_runes s = map (Pair True) bs" "s = concat bs" "list_all utf8_seq bs"
    using valid_runes [OF assms] by blast
  have "encodeCanonicalJSONString s @ rest =
      CHR 0x22 # concat (map (\<lambda>b. canonical_rune (True, b)) bs) @ CHR 0x22 # rest"
    by (simp add: encodeCanonicalJSONString_def bs(1) comp_def)
  then show ?thesis using parse_runes [OF bs(3)] bs(2) by (simp add: parseString_def)
qed

section \<open>Numbers\<close>

lemma decimal_digits: "decimal n \<noteq> [] \<and> list_all isDigit (decimal n)"
proof (induction n rule: decimal.induct)
  case (1 n)
  have d: "isDigit (char_of (48 + k))" if "k < 10" for k :: nat using that by (simp add: isDigit_def byte_in_def)
  show ?case
  proof (cases "n < 10")
    case True
    then show ?thesis using d by (subst (1 2) decimal.simps) simp
  next
    case False
    with 1 d [of "n mod 10"] show ?thesis by (subst (1 2) decimal.simps) simp
  qed
qed

lemma digits_value_snoc: "digits_value (ds @ [d]) = 10 * digits_value ds + (of_char d - 48)"
  by (simp add: digits_value_def)

lemma digits_value_decimal: "digits_value (decimal n) = n"
proof (induction n rule: decimal.induct)
  case (1 n)
  show ?case
  proof (cases "n < 10")
    case True
    then show ?thesis by (subst decimal.simps) (simp add: digits_value_def)
  next
    case False
    with 1 show ?thesis by (subst decimal.simps) (simp add: digits_value_snoc)
  qed
qed

lemma digit_char_zero: "n < 10 \<Longrightarrow> char_of (48 + n) = CHR ''0'' \<Longrightarrow> n = (0::nat)"
proof -
  assume "n < 10" and eq: "char_of (48 + n) = CHR ''0''"
  have "(of_char (char_of (48 + n) :: char) :: nat) = 48 + n" using \<open>n < 10\<close> by simp
  with eq show "n = 0" by simp
qed

lemma decimal_no_leading_zero: "0 < n \<Longrightarrow> hd (decimal n) \<noteq> CHR ''0''"
proof (induction n rule: decimal.induct)
  case (1 n)
  show ?case
  proof (cases "n < 10")
    case True
    with "1.prems" digit_char_zero [of n] show ?thesis by (subst decimal.simps) auto
  next
    case False
    with 1 decimal_digits [of "n div 10"] show ?thesis by (subst decimal.simps) simp
  qed
qed

lemma decimal_0: "decimal 0 = ''0''"
proof -
  have "char_of (of_char (CHR ''0'') :: nat) = CHR ''0''" by (rule char_of_char)
  then show ?thesis by (subst decimal.simps) simp
qed

text \<open>What may follow a number in a canonical text.\<close>

definition follows :: "string \<Rightarrow> bool" where
  "follows rest \<longleftrightarrow> rest = [] \<or> hd rest \<in> {CHR '','', CHR '']'', CHR ''}''}"

lemma follows_not_digit: "follows rest \<Longrightarrow> rest \<noteq> [] \<Longrightarrow>
   \<not> isDigit (hd rest) \<and> hd rest \<noteq> CHR ''.'' \<and> hd rest \<noteq> CHR ''e'' \<and> hd rest \<noteq> CHR ''E''"
  by (auto simp: follows_def isDigit_def byte_in_def)

lemma takeWhile_follows:
  assumes "follows rest" and "list_all isDigit ds"
  shows "takeWhile isDigit (ds @ rest) = ds"
proof -
  have "takeWhile isDigit rest = []" using follows_not_digit [OF assms(1)] by (cases rest) auto
  with assms(2) show ?thesis by (simp add: takeWhile_append2 list_all_iff)
qed

lemma parse_digits:
  assumes "follows rest" and "neg \<longrightarrow> 0 < n"
    and valid: "validateCanonicalNumber (integer_literal neg (decimal n))"
  shows "parseNumber prs ((if neg then ''-'' else []) @ decimal n @ rest) =
    Some (JNum (integer_literal neg (decimal n)), rest)"
proof -
  let ?ds = "decimal n"
  have d: "?ds \<noteq> []" "list_all isDigit ?ds" using decimal_digits [of n] by auto
  then have "isDigit (hd ?ds)" by (cases ?ds) auto
  then have minus: "hd ?ds \<noteq> CHR ''-''" by (auto simp: isDigit_def byte_in_def)
  have lead: "hd ?ds = CHR ''0'' \<Longrightarrow> ?ds = ''0''"
    using decimal_no_leading_zero [of n] decimal_0 by (cases "n = 0") auto
  note tw = takeWhile_follows [OF assms(1) d(2)]
  note nd = follows_not_digit [OF assms(1)]
  define ds where "ds = ?ds"
  have "parseNumber prs ((if neg then ''-'' else []) @ ds @ rest) = Some (JNum (integer_literal neg ds), rest)"
  proof (cases "hd ds = CHR ''0''")
    case True
    with lead have "ds = ''0''" by (simp add: ds_def)
    with nd valid show ?thesis
      by (cases neg; cases rest) (simp_all add: parseNumber_def ds_def)
  next
    case False
    then have "ds \<noteq> ''0''" "ds \<noteq> []" "hd ds \<noteq> CHR ''-''" using d minus by (auto simp: ds_def)
    with False nd valid tw show ?thesis
      by (cases neg; cases rest) (simp_all add: parseNumber_def flip: ds_def del: takeWhile_eq_all_conv)
  qed
  then show ?thesis by (simp add: ds_def)
qed

lemma parse_number_written:
  assumes "canonical (JNum x)" and "follows rest"
  shows "parseNumber prs (canonicalJSONNumber fmt x @ rest) = Some (JNum x, rest)"
proof -
  obtain n where x: "x = Integral n" and n: "\<bar>n\<bar> \<le> maxSafeInteger"
    using assms(1) by (auto split: float64.splits)
  have lit: "integer_literal (n < 0) (decimal (nat \<bar>n\<bar>)) = x"
    by (auto simp: integer_literal_def digits_value_decimal x)
  have "canonicalJSONNumber fmt x @ rest = (if n < 0 then ''-'' else []) @ decimal (nat \<bar>n\<bar>) @ rest"
    by (simp add: canonicalJSONNumber_def x)
  moreover have "validateCanonicalNumber x" using n by (simp add: validateCanonicalNumber_def x abs_le_iff)
  ultimately show ?thesis
    using parse_digits [OF assms(2), of "n < 0" "nat \<bar>n\<bar>" prs] by (simp add: lit)
qed

lemma number_head:
  assumes "canonical (JNum x)"
  shows "\<exists>c cs. canonicalJSONNumber fmt x = c # cs \<and> (c = CHR ''-'' \<or> isDigit c)"
proof -
  obtain n where x: "x = Integral n" using assms by (auto split: float64.splits)
  show ?thesis using decimal_digits [of "nat n"]
    by (cases "decimal (nat n)") (auto simp: canonicalJSONNumber_def x)
qed

section \<open>Values\<close>

lemma skip_none: "\<not> isJsonWhitespace c \<Longrightarrow> skipWhitespace (c # cs) = c # cs"
  by (simp add: skipWhitespace_def)

lemma punctuation_not_white:
  "\<not> isJsonWhitespace (CHR '','')" "\<not> isJsonWhitespace (CHR '']'')" "\<not> isJsonWhitespace (CHR ''}'')"
  "\<not> isJsonWhitespace (CHR '':'')" "\<not> isJsonWhitespace (CHR ''['')" "\<not> isJsonWhitespace (CHR ''{'')"
  "\<not> isJsonWhitespace (CHR 0x22)" "\<not> isJsonWhitespace (CHR ''-'')"
  by (simp_all add: isJsonWhitespace_def)

lemma digit_head: "isDigit c \<Longrightarrow> \<not> isJsonWhitespace c \<and> c \<notin> {CHR '']'', CHR ''}'', CHR ''['', CHR ''{'', CHR 0x22}"
  by (auto simp: isDigit_def byte_in_def isJsonWhitespace_def)

lemma value_head:
  assumes "canonical v"
  shows "\<exists>c cs. writeCanonicalJSONValue fmt v = c # cs \<and> \<not> isJsonWhitespace c \<and> c \<noteq> CHR '']'' \<and> c \<noteq> CHR ''}''"
proof (cases v)
  case (JNum x)
  with assms number_head [of x fmt] digit_head show ?thesis
    by (auto simp: punctuation_not_white simp del: canonical.simps)
qed (use assms in \<open>auto simp: isJsonWhitespace_def encodeCanonicalJSONString_def\<close>)

definition member_text :: "string \<times> string \<Rightarrow> string" where
  "member_text f = encodeCanonicalJSONString (fst f) @ CHR '':'' # snd f"

lemma length_member: "length t < length (member_text (k, t))"
  by (simp add: member_text_def)

lemma write_object:
  assumes "sorted_wrt utf16Less (map fst fs)"
  shows "writeCanonicalJSONValue fmt (JObj fs) = CHR ''{'' # join_comma (map member_text (write_fields fmt fs)) @ ''}''"
proof -
  have "sort_fields (write_fields fmt fs) = write_fields fmt fs"
    by (rule sort_fields_sorted) (simp add: write_fields_keys assms)
  then show ?thesis by (simp add: member_text_def case_prod_beta' cong: map_cong)
qed

lemma sorted_distinct: "sorted_wrt utf16Less ks \<Longrightarrow> distinct ks"
  using units_less_irrefl by (induction ks) (auto simp: utf16Less_def)

lemma parse_written_scalar:
  assumes "canonical v" and "follows rest" and "0 < m" and "\<nexists>vs. v = JArr vs" "\<nexists>fs. v = JObj fs"
  shows "parseValue prs m (writeCanonicalJSONValue fmt v @ rest) = Some (v, rest)"
proof -
  obtain k where m: "m = Suc k" using assms(3) by (cases m) auto
  show ?thesis
  proof (cases v)
    case (JNum x)
    with assms(1) obtain c cs where c: "canonicalJSONNumber fmt x = c # cs" "c = CHR ''-'' \<or> isDigit c"
      using number_head [of x fmt] by auto
    then have "\<not> isJsonWhitespace c" "c \<notin> {CHR ''['', CHR ''{'', CHR 0x22}"
      using digit_head [of c] by (auto simp: punctuation_not_white)
    then show ?thesis
      using parse_number_written [of x rest prs fmt] assms(1,2) c JNum by (simp add: m skip_none)
  next
    case (JStr t)
    with assms(1) parse_string_written [of t rest] show ?thesis
      by (simp add: m encodeCanonicalJSONString_def skip_none punctuation_not_white)
  qed (use assms in \<open>auto simp: m skipWhitespace_def isJsonWhitespace_def isDigit_def byte_in_def has_prefix_def\<close>)
qed

text \<open>One element and one member, the last of its list or followed by another.\<close>

lemma list_head:
  assumes "canonical_list (v # vs)"
  shows "\<exists>c cs. join_comma (write_list fmt (v # vs)) = c # cs \<and> \<not> isJsonWhitespace c \<and> c \<noteq> CHR '']''"
  using value_head [of v fmt] assms by (cases vs) auto

lemma fields_head: "\<exists>cs. join_comma (map member_text (write_fields fmt (f # fs))) = CHR 0x22 # cs"
  by (cases f; cases fs) (auto simp: member_text_def encodeCanonicalJSONString_def)

lemma element_last:
  assumes "canonical v" and "parseValue prs k (writeCanonicalJSONValue fmt v @ CHR '']'' # t) = Some (v, CHR '']'' # t)"
  shows "parse_elements prs (Suc k) (writeCanonicalJSONValue fmt v @ CHR '']'' # t) acc = Some (JArr (acc @ [v]), t)"
  using value_head [OF assms(1), of fmt] assms(2) by (auto simp: skip_none punctuation_not_white)

lemma element_next:
  assumes "canonical v" and "canonical_list (w # ws)" and "J = join_comma (write_list fmt (w # ws)) @ t"
    and "parseValue prs k (writeCanonicalJSONValue fmt v @ CHR '','' # J) = Some (v, CHR '','' # J)"
  shows "parse_elements prs (Suc k) (writeCanonicalJSONValue fmt v @ CHR '','' # J) acc = parse_elements prs k J (acc @ [v])"
  using value_head [OF assms(1), of fmt] list_head [OF assms(2), of fmt] assms(3,4)
  by (auto simp: skip_none punctuation_not_white simp del: write_list.simps)

lemma member_key:
  assumes "valid_utf8 key" and "canonical v"
  shows "\<exists>qs c cs. parseString (member_text (key, writeCanonicalJSONValue fmt v) @ t) =
      Some (key, CHR '':'' # writeCanonicalJSONValue fmt v @ t) \<and>
    member_text (key, writeCanonicalJSONValue fmt v) = CHR 0x22 # qs \<and>
    writeCanonicalJSONValue fmt v = c # cs \<and> \<not> isJsonWhitespace c"
  using parse_string_written [OF assms(1)] value_head [OF assms(2), of fmt]
  by (auto simp: member_text_def encodeCanonicalJSONString_def)

lemma member_last:
  assumes "valid_utf8 key" and "canonical v" and "key \<notin> fst ` set acc"
    and "parseValue prs k (writeCanonicalJSONValue fmt v @ CHR ''}'' # t) = Some (v, CHR ''}'' # t)"
  shows "parse_members prs (Suc k) (member_text (key, writeCanonicalJSONValue fmt v) @ CHR ''}'' # t) acc =
    Some (JObj (acc @ [(key, v)]), t)"
  using member_key [OF assms(1,2), of fmt "CHR ''}'' # t"] assms(3,4)
  by (auto simp: skip_none punctuation_not_white)

lemma member_next:
  assumes "valid_utf8 key" and "canonical v" and "key \<notin> fst ` set acc"
    and "J = join_comma (map member_text (write_fields fmt (f # fs))) @ t"
    and "parseValue prs k (writeCanonicalJSONValue fmt v @ CHR '','' # J) = Some (v, CHR '','' # J)"
  shows "parse_members prs (Suc k) (member_text (key, writeCanonicalJSONValue fmt v) @ CHR '','' # J) acc =
    parse_members prs k J (acc @ [(key, v)])"
proof -
  obtain js where "J = CHR 0x22 # js" using fields_head [of fmt f fs] assms(4) by auto
  with member_key [OF assms(1,2), of fmt "CHR '','' # J"] assms(3,5) show ?thesis
    by (auto simp: skip_none punctuation_not_white)
qed

lemma parse_written:
  "canonical v \<Longrightarrow> follows rest \<Longrightarrow> length (writeCanonicalJSONValue fmt v) < m \<Longrightarrow>
   parseValue prs m (writeCanonicalJSONValue fmt v @ rest) = Some (v, rest)"
  "canonical_list vs \<Longrightarrow> vs \<noteq> [] \<Longrightarrow> Suc (length (join_comma (write_list fmt vs))) < m \<Longrightarrow>
   parse_elements prs m (join_comma (write_list fmt vs) @ CHR '']'' # rest) acc = Some (JArr (acc @ vs), rest)"
  "canonical_fields fs \<Longrightarrow> fs \<noteq> [] \<Longrightarrow> distinct (map fst (facc @ fs)) \<Longrightarrow>
   Suc (length (join_comma (map member_text (write_fields fmt fs)))) < m \<Longrightarrow>
   parse_members prs m (join_comma (map member_text (write_fields fmt fs)) @ CHR ''}'' # rest) facc =
     Some (JObj (facc @ fs), rest)"
proof (induction v and vs and fs arbitrary: rest m and rest m acc and rest m facc
    rule: canonical_canonical_list_canonical_fields.induct)
  case (5 vs)
  then obtain k where m: "m = Suc k" by (cases m) auto
  show ?case
  proof (cases vs)
    case Nil
    then show ?thesis using "5.prems"(3) by (cases k) (auto simp: m skip_none punctuation_not_white)
  next
    case (Cons w ws)
    have "parse_elements prs k (join_comma (write_list fmt vs) @ CHR '']'' # rest) [] = Some (JArr ([] @ vs), rest)"
      using "5.IH" "5.prems" Cons by (simp add: m)
    then show ?thesis using list_head [of w ws fmt] "5.prems"(1) Cons
      by (auto simp: m skip_none punctuation_not_white simp del: write_list.simps canonical_list.simps)
  qed
next
  case (6 fs)
  then obtain k where m: "m = Suc k" by (cases m) auto
  have sorted: "sorted_wrt utf16Less (map fst fs)" using 6 by simp
  show ?case
  proof (cases fs)
    case Nil
    then show ?thesis using "6.prems"(3) by (cases k) (auto simp: m skip_none punctuation_not_white sort_fields_def)
  next
    case (Cons f gs)
    have len: "Suc (length (join_comma (map member_text (write_fields fmt fs)))) < k"
      using "6.prems"(3) unfolding write_object [OF sorted] by (simp add: m)
    have "parse_members prs k (join_comma (map member_text (write_fields fmt fs)) @ CHR ''}'' # rest) [] =
        Some (JObj ([] @ fs), rest)"
      by (rule "6.IH" [OF _ _ _ len]) (use "6.prems"(1) Cons sorted_distinct [OF sorted] in simp_all)
    then show ?thesis using fields_head [of fmt f gs] unfolding write_object [OF sorted]
      by (auto simp: m Cons skip_none punctuation_not_white simp del: write_fields.simps)
  qed
next
  case (8 v vs)
  then obtain k where m: "m = Suc k" by (cases m) auto
  note val = "8.IH"(1) [of _ k]
  show ?case
  proof (cases vs)
    case Nil
    with "8.prems" show ?thesis using element_last [OF _ val] by (simp add: m follows_def)
  next
    case (Cons w ws)
    let ?J = "join_comma (write_list fmt (w # ws))"
    have "join_comma (write_list fmt (v # vs)) = writeCanonicalJSONValue fmt v @ CHR '','' # ?J"
      by (simp add: Cons)
    then show ?thesis
      using "8.prems" "8.IH"(2) [of k rest "acc @ [v]"] element_next [OF _ _ refl val, of w ws "CHR '']'' # rest" acc]
      by (simp add: m Cons follows_def del: write_list.simps)
  qed
next
  case (10 key v fs)
  then obtain k where m: "m = Suc k" by (cases m) auto
  note val = "10.IH"(1) [of _ k]
  have new: "key \<notin> fst ` set facc" using "10.prems"(3) by auto
  show ?case
  proof (cases fs)
    case Nil
    with "10.prems" show ?thesis using member_last [OF _ _ new val]
      by (simp add: m follows_def member_text_def)
  next
    case (Cons g gs)
    let ?J = "join_comma (map member_text (write_fields fmt (g # gs)))"
    have "join_comma (map member_text (write_fields fmt ((key, v) # fs))) =
        member_text (key, writeCanonicalJSONValue fmt v) @ CHR '','' # ?J"
      by (cases g) (simp add: Cons)
    then show ?thesis
      using "10.prems" "10.IH"(2) [of "facc @ [(key, v)]" k rest]
        member_next [OF _ _ new refl val, of g gs "CHR ''}'' # rest"]
      using length_member [of "writeCanonicalJSONValue fmt v" key]
      by (simp add: m Cons follows_def del: write_fields.simps parse_members.simps)
  qed
qed (simp_all add: parse_written_scalar del: writeCanonicalJSONValue.simps)

section \<open>Whole documents\<close>

lemma value_last:
  assumes "canonical v"
  shows "\<exists>c cs. writeCanonicalJSONValue fmt v = cs @ [c] \<and> \<not> isJsonWhitespace c"
proof (cases v)
  case (JNum x)
  have last: "\<exists>c cs. decimal n = cs @ [c] \<and> \<not> isJsonWhitespace c" for n
    using decimal_digits [of n] digit_head by (cases "decimal n" rule: rev_cases) auto
  obtain n where x: "x = Integral n" using assms JNum by (auto split: float64.splits)
  show ?thesis using last [of "nat (- n)"] last [of "nat n"] JNum
    by (auto simp: canonicalJSONNumber_def x)
qed (auto simp: isJsonWhitespace_def encodeCanonicalJSONString_def)

lemma trim_written: "canonical v \<Longrightarrow> trimJsonWhitespace (writeCanonicalJSONValue fmt v) = writeCanonicalJSONValue fmt v"
proof -
  assume v: "canonical v"
  let ?w = "writeCanonicalJSONValue fmt v"
  have "dropWhile isJsonWhitespace ?w = ?w" using value_head [OF v, of fmt] by auto
  moreover have "dropWhile isJsonWhitespace (rev ?w) = rev ?w" using value_last [OF v, of fmt] by auto
  ultimately show "trimJsonWhitespace ?w = ?w" by (simp add: trimJsonWhitespace_def)
qed

lemma ascii_valid: "list_all (byte_in 0 0x7F) s \<Longrightarrow> valid_utf8 s"
proof -
  assume "list_all (byte_in 0 0x7F) s"
  then have "list_all utf8_seq (map (\<lambda>c. [c]) s)" by (induction s) (auto simp: utf8_seq_def lead_width_def)
  moreover have "s = concat (map (\<lambda>c. [c]) s)" by (induction s) auto
  ultimately show "valid_utf8 s" unfolding valid_utf8_iff by blast
qed

lemma valid_append: "valid_utf8 s \<Longrightarrow> valid_utf8 t \<Longrightarrow> valid_utf8 (s @ t)"
proof -
  assume "valid_utf8 s" "valid_utf8 t"
  then obtain bs cs where "s = concat bs" "list_all utf8_seq bs" "t = concat cs" "list_all utf8_seq cs"
    unfolding valid_utf8_iff by blast
  then have "s @ t = concat (bs @ cs) \<and> list_all utf8_seq (bs @ cs)" by simp
  then show "valid_utf8 (s @ t)" unfolding valid_utf8_iff by blast
qed

lemma valid_concat: "list_all valid_utf8 ss \<Longrightarrow> valid_utf8 (concat ss)"
  by (induction ss) (simp_all add: valid_append ascii_valid)

lemma utf16_units_ascii:
  assumes "list_all (byte_in 0 0x7F) s"
  shows "utf16_units s = map of_char s"
proof -
  have "list_all utf8_seq (map (\<lambda>c. [c]) s)" using assms
    by (induction s) (auto simp: utf8_seq_def lead_width_def)
  then have "go_runes (concat (map (\<lambda>c. [c]) s)) = map (Pair True) (map (\<lambda>c. [c]) s)" by (rule go_runes_concat)
  moreover have "concat (map (\<lambda>c. [c]) s) = s" by (induction s) auto
  ultimately have "utf16_units s = concat (map (\<lambda>c. rune_units (True, [c])) s)"
    by (simp add: utf16_units_def comp_def)
  also have "\<dots> = map of_char s" using assms
    by (induction s) (auto simp: rune_units_def byte_in_def)
  finally show ?thesis .
qed

lemma byte_valid:
  assumes "byte_in 0 0x7F c"
  shows "valid_utf8 (canonical_byte c)"
proof (rule ascii_valid)
  have "n < 16 \<Longrightarrow> byte_in 0 0x7F (hex_char n)" for n
    by (cases "n < 10") (simp_all add: hex_char_def byte_in_def)
  then have hex: "byte_in 0 0x1F c \<Longrightarrow> byte_in 0 0x7F (hex_char (of_char c div 16))"
    "byte_in 0 0x7F (hex_char (of_char c mod 16))"
    by (simp_all add: byte_in_def)
  show "list_all (byte_in 0 0x7F) (canonical_byte c)"
    using assms hex by (simp add: canonical_byte_def) (simp add: byte_in_def)
qed

lemma rune_valid:
  assumes "utf8_seq b"
  shows "valid_utf8 (canonical_rune (True, b))"
proof (cases "length b = 1")
  case True
  then obtain c where b: "b = [c]" by (cases b) auto
  with utf8_seq_length [OF assms] have "byte_in 0 0x7F c"
    using assms by (auto simp: lead_width_def utf8_seq_def split: if_splits)
  then show ?thesis by (simp add: canonical_rune_def b byte_valid)
next
  case False
  have "b = concat [b] \<and> list_all utf8_seq [b]" using assms by simp
  then have "valid_utf8 b" unfolding valid_utf8_iff by blast
  with False show ?thesis by (simp add: canonical_rune_def)
qed

lemma string_valid:
  assumes "valid_utf8 s"
  shows "valid_utf8 (encodeCanonicalJSONString s)"
proof -
  obtain bs where bs: "go_runes s = map (Pair True) bs" "list_all utf8_seq bs"
    using valid_runes [OF assms] by blast
  then have "valid_utf8 (concat (map canonical_rune (go_runes s)))"
    by (intro valid_concat) (auto simp: list_all_iff rune_valid)
  moreover have "valid_utf8 [CHR 0x22]" by (rule ascii_valid) (simp add: byte_in_def)
  ultimately show ?thesis
    unfolding encodeCanonicalJSONString_def by (metis append_Cons append_Nil valid_append)
qed

lemma ascii_Cons: "byte_in 0 0x7F c \<Longrightarrow> valid_utf8 s \<Longrightarrow> valid_utf8 (c # s)"
  using valid_append [of "[c]" s] ascii_valid [of "[c]"] by simp

lemma join_valid: "list_all valid_utf8 ss \<Longrightarrow> valid_utf8 (join_comma ss)"
  by (induction ss rule: join_comma.induct)
    (simp_all add: ascii_valid valid_append ascii_Cons byte_in_def)

lemma number_valid:
  assumes "canonical (JNum x)"
  shows "valid_utf8 (canonicalJSONNumber fmt x)"
proof -
  have "isDigit c \<Longrightarrow> byte_in 0 0x7F c" for c by (simp add: isDigit_def byte_in_def)
  then have "valid_utf8 (decimal n)" for n
    using decimal_digits [of n] by (intro ascii_valid) (auto simp: list_all_iff)
  then show ?thesis using assms
    by (auto simp: canonicalJSONNumber_def ascii_Cons byte_in_def split: float64.splits)
qed

lemma written_valid:
  "canonical v \<Longrightarrow> valid_utf8 (writeCanonicalJSONValue fmt v)"
  "canonical_list vs \<Longrightarrow> list_all valid_utf8 (write_list fmt vs)"
  "canonical_fields fs \<Longrightarrow> list_all valid_utf8 (map member_text (write_fields fmt fs))"
proof (induction v and vs and fs rule: canonical_canonical_list_canonical_fields.induct)
  case (3 x)
  then show ?case using number_valid [of x fmt] by simp
next
  case (6 fs)
  then have "sorted_wrt utf16Less (map fst fs)" and "list_all valid_utf8 (map member_text (write_fields fmt fs))"
    by simp_all
  then show ?case
    by (simp add: write_object ascii_Cons valid_append join_valid ascii_valid byte_in_def
        del: writeCanonicalJSONValue.simps)
qed (auto simp: ascii_Cons valid_append join_valid ascii_valid byte_in_def string_valid member_text_def)

lemma written_no_BOM:
  assumes "canonical v"
  shows "\<not> hasBOM (writeCanonicalJSONValue fmt v)"
proof (cases v)
  case (JNum x)
  with assms number_head [of x fmt] show ?thesis by (auto simp: hasBOM_def isDigit_def byte_in_def)
qed (auto simp: hasBOM_def encodeCanonicalJSONString_def)

lemma canonical_read:
  assumes "canonical v"
  shows "CanonicalJSONBytes fmt v = Some (writeCanonicalJSONValue fmt v)"
    and "ParseCanonicalJSONBytes prs (writeCanonicalJSONValue fmt v) = Some v"
proof -
  let ?w = "writeCanonicalJSONValue fmt v"
  show "CanonicalJSONBytes fmt v = Some ?w"
    by (simp add: CanonicalJSONBytes_def CanonicalJSONString_def normalize_canonical(1) [OF assms])
  have "parseValue prs (Suc (length ?w)) ?w = Some (v, [])"
    using parse_written(1) [OF assms, of "[]" fmt "Suc (length ?w)" prs] by (simp add: follows_def)
  moreover have "?w \<noteq> []" using value_head [OF assms, of fmt] by auto
  ultimately show "ParseCanonicalJSONBytes prs ?w = Some v"
    by (simp add: ParseCanonicalJSONBytes_def ParseCanonicalJSON_def written_no_BOM assms written_valid
        trim_written normalize_canonical)
qed

text \<open>
  C15.
  Signed bytes are read back as the value that was signed: for a value made of valid text, safe
  integers, booleans, lists and objects in canonical field order, the serialiser succeeds, and the
  strict parser accepts the bytes it wrote (no BOM, valid UTF-8, no duplicate key, nothing left
  over, nesting within the bound of the input length) and returns exactly that value.
\<close>
theorem canonical_roundtrip:
  assumes "canonical v"
  shows "case CanonicalJSONBytes fmt v of
           None \<Rightarrow> False
         | Some bytes \<Rightarrow> ParseCanonicalJSONBytes prs bytes = Some v"
  by (simp add: canonical_read [OF assms])

theorem canonical_roundtrip_witness:
  "case CanonicalJSONBytes (\<lambda>_. []) (JObj [(''a'', JArr [JNum (Integral (- 12)), JNull]), (''b'', JStr ''x'')]) of
     None \<Rightarrow> False
   | Some bytes \<Rightarrow> ParseCanonicalJSONBytes (\<lambda>_. None) bytes =
       Some (JObj [(''a'', JArr [JNum (Integral (- 12)), JNull]), (''b'', JStr ''x'')])"
  by (rule canonical_roundtrip) (simp add: ascii_valid utf16Less_def utf16_units_ascii byte_in_def)

end
