(* ===== verification/Hub_Signing.thy ===== *)
theory Hub_Signing
  imports Base64_URL Canonical_Roundtrip Go_Crypto Protocol_Validate
begin

text \<open>
  The signed statements of hub rooms: \<open>network_identity.go\<close> (keys and fingerprints),
  \<open>hub_signing.go\<close> (control events and receipts) and \<open>hub_admission.go\<close> (admissions). What is not
  in the repository is the record \<open>go_env\<close>: how \<open>strconv\<close> prints and reads numbers that are not
  integers, and \<open>ed25519.Verify\<close>; the signing function is an argument, as in the code. A Go map
  literal is its entries, listed by key. Decoding into a struct follows \<open>encoding/json\<close> with
  unknown fields refused: a key names a field up to letter case, \<open>null\<close> leaves the field alone,
  any other type mismatch is an error.
\<close>

section \<open>What the platform provides\<close>

record go_env =
  ge_format :: "float64 \<Rightarrow> string"
  ge_parse :: "string \<Rightarrow> float64 option"
  ge_verify :: "string \<Rightarrow> string \<Rightarrow> string \<Rightarrow> bool"

section \<open>Network keys\<close>

abbreviation NetworkKeyAlgorithmEd25519 :: string where "NetworkKeyAlgorithmEd25519 \<equiv> ''ed25519''"

record network_identity =
  nid_algorithm :: string
  nid_public_key :: string
  nid_fingerprint :: string

definition EncodeNetworkPublicKey :: "string \<Rightarrow> string" where
  "EncodeNetworkPublicKey key = EncodeToString key"

definition ParseNetworkPublicKey :: "string \<Rightarrow> string option" where
  "ParseNetworkPublicKey value =
     (case DecodeString (trim_space value) of
        None \<Rightarrow> None
      | Some raw \<Rightarrow> if length raw \<noteq> 32 then None else Some raw)"

definition NetworkKeyFingerprint :: "string \<Rightarrow> string" where
  "NetworkKeyFingerprint key = FingerprintPrefix @ hex_encode (sha256 key)"

definition ValidateNetworkIdentity :: "network_identity \<Rightarrow> bool" where
  "ValidateNetworkIdentity i =
     (if nid_algorithm i \<noteq> NetworkKeyAlgorithmEd25519 then False
      else case ParseNetworkPublicKey (nid_public_key i) of
             None \<Rightarrow> False
           | Some key \<Rightarrow> NetworkKeyFingerprint key = nid_fingerprint i)"

definition ValidateNetworkNamespace :: "string \<Rightarrow> validation_error option" where
  "ValidateNetworkNamespace i =
     (if has_prefix (to_lower (trim_space i)) ''follow-''
      then Some (Msg ''network id prefix follow- is reserved for local follow namespaces'') else None)"

section \<open>Decoding into a struct\<close>

datatype field_kind = TextField | IntField

text \<open>
  Letter case is folded as \<open>encoding/json\<close> does; outside ASCII only the Kelvin sign and the long s
  fold to an ASCII letter.
\<close>

definition fold_rune :: "string \<Rightarrow> string" where
  "fold_rune b =
     (case b of
        [c] \<Rightarrow> if byte_in 97 122 c then [char_of ((of_char c :: nat) - 32)] else b
      | _ \<Rightarrow> if b = [CHR 0xE2, CHR 0x84, CHR 0xAA] then ''K''
             else if b = [CHR 0xC5, CHR 0xBF] then ''S'' else b)"

definition foldName :: "string \<Rightarrow> string" where
  "foldName s = concat (map (fold_rune \<circ> snd) (go_runes s))"

type_synonym struct_fields = "(string \<times> field_kind) list"

definition field_named :: "struct_fields \<Rightarrow> string \<Rightarrow> (string \<times> field_kind) option" where
  "field_named spec k = find (\<lambda>f. fst f = k \<or> foldName (fst f) = foldName k) spec"

fun decode_fields :: "struct_fields \<Rightarrow> (string \<times> json) list \<Rightarrow> (string \<rightharpoonup> json) \<Rightarrow> (string \<rightharpoonup> json) option" where
  "decode_fields spec [] m = Some m"
| "decode_fields spec ((k, v) # fs) m =
     (case field_named spec k of
        None \<Rightarrow> None
      | Some (name, kind) \<Rightarrow>
          (case v of
             JNull \<Rightarrow> decode_fields spec fs m
           | JStr s \<Rightarrow> if kind = TextField then decode_fields spec fs (m(name \<mapsto> v)) else None
           | JNum (Integral n) \<Rightarrow>
               if kind = IntField \<and> - (2 ^ 63) \<le> n \<and> n < 2 ^ 63
               then decode_fields spec fs (m(name \<mapsto> v)) else None
           | _ \<Rightarrow> None))"

definition decode_struct :: "struct_fields \<Rightarrow> json \<Rightarrow> (string \<rightharpoonup> json) option" where
  "decode_struct spec v =
     (case v of JNull \<Rightarrow> Some Map.empty | JObj fs \<Rightarrow> decode_fields spec fs Map.empty | _ \<Rightarrow> None)"

definition text_of :: "(string \<rightharpoonup> json) \<Rightarrow> string \<Rightarrow> string" where
  "text_of m k = (case m k of Some (JStr s) \<Rightarrow> s | _ \<Rightarrow> [])"

definition int_of :: "(string \<rightharpoonup> json) \<Rightarrow> string \<Rightarrow> int" where
  "int_of m k = (case m k of Some (JNum (Integral n)) \<Rightarrow> n | _ \<Rightarrow> 0)"

definition parseStrictCanonical :: "go_env \<Rightarrow> struct_fields \<Rightarrow> string \<Rightarrow> (string \<times> (string \<rightharpoonup> json)) option" where
  "parseStrictCanonical env spec encoded =
     (case DecodeString encoded of
        None \<Rightarrow> None
      | Some raw \<Rightarrow>
          (case ParseCanonicalJSONBytes (ge_parse env) raw of
             None \<Rightarrow> None
           | Some v \<Rightarrow>
               if CanonicalJSONBytes (ge_format env) v \<noteq> Some raw then None
               else map_option (Pair raw) (decode_struct spec v)))"

section \<open>Digests and signatures\<close>

definition domain :: "string \<Rightarrow> string" where
  "domain name = name @ [CHR 0x00]"

abbreviation roomControlDigestDomain :: string where
  "roomControlDigestDomain \<equiv> domain ''moltnet.room-control.v1/digest''"
abbreviation roomControlSignatureDomain :: string where
  "roomControlSignatureDomain \<equiv> domain ''moltnet.room-control.v1/signature''"
abbreviation roomReceiptDigestDomain :: string where
  "roomReceiptDigestDomain \<equiv> domain ''moltnet.room-receipt.v1/digest''"
abbreviation roomReceiptSignatureDomain :: string where
  "roomReceiptSignatureDomain \<equiv> domain ''moltnet.room-receipt.v1/signature''"
abbreviation roomAdmissionDigestDomain :: string where
  "roomAdmissionDigestDomain \<equiv> domain ''moltnet.room-admission.v1/digest''"
abbreviation roomAdmissionSignatureDomain :: string where
  "roomAdmissionSignatureDomain \<equiv> domain ''moltnet.room-admission.v1/signature''"

definition domainDigest :: "string \<Rightarrow> string \<Rightarrow> string" where
  "domainDigest d bytes = hex_encode (sha256 (d @ bytes))"

definition verifyDomainSignature :: "go_env \<Rightarrow> string \<Rightarrow> string \<Rightarrow> string \<Rightarrow> string \<Rightarrow> bool" where
  "verifyDomainSignature env key d digest encoded =
     (case DecodeString encoded of
        None \<Rightarrow> False
      | Some signature \<Rightarrow>
          if length signature \<noteq> 64 \<or> length key \<noteq> 32 then False
          else ge_verify env key (d @ digest) signature)"

definition putString :: "string \<Rightarrow> string \<Rightarrow> (string \<times> json) list" where
  "putString key field = (if field \<noteq> [] then [(key, JStr field)] else [])"

datatype hub_error =
    ErrRoomControlMalformed string
  | ErrRoomControlSignature
  | ErrRoomReceiptMalformed string
  | ErrRoomReceiptSignature
  | ErrRoomAdmission string

section \<open>Control events\<close>

abbreviation RoomControlVersionV1 :: string where "RoomControlVersionV1 \<equiv> ''moltnet.room-control.v1''"
abbreviation RoomControlGenesis :: string where "RoomControlGenesis \<equiv> ''genesis''"
abbreviation RoomControlAdd :: string where "RoomControlAdd \<equiv> ''add''"
abbreviation RoomControlRemove :: string where "RoomControlRemove \<equiv> ''remove''"
abbreviation RoomControlLeave :: string where "RoomControlLeave \<equiv> ''leave''"
abbreviation RoomControlSetRole :: string where "RoomControlSetRole \<equiv> ''set_role''"
abbreviation RoomControlSetPolicy :: string where "RoomControlSetPolicy \<equiv> ''set_policy''"
abbreviation RoomRoleOwner :: string where "RoomRoleOwner \<equiv> ''owner''"

record room_control_event =
  rc_v :: string
  rc_global_room_id :: string
  rc_seq :: int
  rc_epoch :: int
  rc_prev_hash :: string
  rc_kind :: string
  rc_network_id :: string
  rc_fingerprint :: string
  rc_public_key :: string
  rc_role :: string
  rc_history :: string
  rc_created_at :: string

definition roomControlValue :: "room_control_event \<Rightarrow> json" where
  "roomControlValue e = JObj (
     [(''created_at'', JStr (rc_created_at e)), (''epoch'', JNum (Integral (rc_epoch e)))] @
     putString ''fingerprint'' (rc_fingerprint e) @
     [(''global_room_id'', JStr (rc_global_room_id e))] @
     putString ''history'' (rc_history e) @
     [(''kind'', JStr (rc_kind e))] @
     putString ''network_id'' (rc_network_id e) @
     putString ''prev_hash'' (rc_prev_hash e) @
     putString ''public_key'' (rc_public_key e) @
     putString ''role'' (rc_role e) @
     [(''seq'', JNum (Integral (rc_seq e))), (''v'', JStr (rc_v e))])"

definition control_fields :: struct_fields where
  "control_fields =
     [(''v'', TextField), (''global_room_id'', TextField), (''seq'', IntField), (''epoch'', IntField),
      (''prev_hash'', TextField), (''kind'', TextField), (''network_id'', TextField),
      (''fingerprint'', TextField), (''public_key'', TextField), (''role'', TextField),
      (''history'', TextField), (''created_at'', TextField)]"

definition control_of :: "(string \<rightharpoonup> json) \<Rightarrow> room_control_event" where
  "control_of m =
     \<lparr>rc_v = text_of m ''v'', rc_global_room_id = text_of m ''global_room_id'', rc_seq = int_of m ''seq'',
      rc_epoch = int_of m ''epoch'', rc_prev_hash = text_of m ''prev_hash'', rc_kind = text_of m ''kind'',
      rc_network_id = text_of m ''network_id'', rc_fingerprint = text_of m ''fingerprint'',
      rc_public_key = text_of m ''public_key'', rc_role = text_of m ''role'',
      rc_history = text_of m ''history'', rc_created_at = text_of m ''created_at''\<rparr>"

definition key_matches :: "string \<Rightarrow> string \<Rightarrow> bool" where
  "key_matches publicKey fingerprint =
     (case ParseNetworkPublicKey publicKey of None \<Rightarrow> False | Some key \<Rightarrow> NetworkKeyFingerprint key = fingerprint)"

definition validateRoomControlShape :: "room_control_event \<Rightarrow> hub_error option" where
  "validateRoomControlShape e =
     (let malformed = (\<lambda>reason. Some (ErrRoomControlMalformed reason));
          needsKey = (rc_kind e = RoomControlGenesis \<or> rc_kind e = RoomControlAdd)
      in if rc_v e \<noteq> RoomControlVersionV1 then malformed ''unsupported version''
         else if isl (ParseGlobalRoomID (rc_global_room_id e)) then malformed ''global room id''
         else if rc_seq e < 1 \<or> rc_epoch e \<noteq> rc_seq e then malformed ''seq must be positive and equal to epoch''
         else if (rc_seq e = 1) \<noteq> (rc_prev_hash e = []) then malformed ''only genesis has no prev_hash''
         else if rc_created_at e = [] then malformed ''created_at is required''
         else if (rc_kind e = RoomControlSetPolicy \<or> rc_kind e = RoomControlGenesis) \<and> \<not> ValidRoomHistory (rc_history e)
         then malformed ''history policy is required''
         else if \<not> (rc_kind e = RoomControlSetPolicy \<or> rc_kind e = RoomControlGenesis) \<and> rc_history e \<noteq> []
         then malformed ''history only belongs to genesis and set_policy''
         else if rc_kind e \<in> {RoomControlGenesis, RoomControlAdd, RoomControlRemove, RoomControlLeave, RoomControlSetRole} \<and>
           ValidateNetworkNamespace (rc_network_id e) \<noteq> None
         then malformed ''network_id is required''
         else if rc_kind e = RoomControlSetPolicy \<and> rc_network_id e \<noteq> [] then malformed ''set_policy names no network''
         else if rc_kind e \<notin> {RoomControlGenesis, RoomControlAdd, RoomControlRemove, RoomControlLeave, RoomControlSetRole,
             RoomControlSetPolicy}
         then malformed (''unknown kind '' @ rc_kind e)
         else if needsKey \<and> \<not> key_matches (rc_public_key e) (rc_fingerprint e)
         then malformed ''subject key does not match its fingerprint''
         else if \<not> needsKey \<and> (rc_public_key e \<noteq> [] \<or> rc_fingerprint e \<noteq> [])
         then malformed ''only genesis and add carry a key''
         else if rc_kind e = RoomControlGenesis
         then (if rc_role e \<noteq> RoomRoleOwner then malformed ''genesis role must be owner'' else None)
         else if rc_kind e = RoomControlAdd \<or> rc_kind e = RoomControlSetRole
         then (if \<not> ValidMemberRole (rc_role e) then malformed ''member role must be admin, writer or reader'' else None)
         else if rc_role e \<noteq> [] then malformed ''role does not belong to this kind'' else None)"

definition SignRoomControl ::
  "go_env \<Rightarrow> room_control_event \<Rightarrow> (string \<Rightarrow> string) \<Rightarrow> hub_error + signed_room_control \<times> string" where
  "SignRoomControl env e sign =
     (case validateRoomControlShape e of
        Some err \<Rightarrow> Inl err
      | None \<Rightarrow>
          (case CanonicalJSONBytes (ge_format env) (roomControlValue e) of
             None \<Rightarrow> Inl (ErrRoomControlMalformed ''canonical'')
           | Some bytes \<Rightarrow>
               let digest = domainDigest roomControlDigestDomain bytes
               in Inr (\<lparr>src_control = EncodeToString bytes,
                        src_signature = EncodeToString (sign (roomControlSignatureDomain @ digest))\<rparr>, digest)))"

definition ParseRoomControlUnverified ::
  "go_env \<Rightarrow> signed_room_control \<Rightarrow> hub_error + room_control_event \<times> string" where
  "ParseRoomControlUnverified env stmt =
     (case parseStrictCanonical env control_fields (src_control stmt) of
        None \<Rightarrow> Inl (ErrRoomControlMalformed ''parse'')
      | Some (raw, m) \<Rightarrow>
          let e = control_of m
          in case validateRoomControlShape e of
               Some err \<Rightarrow> Inl err
             | None \<Rightarrow>
                 if CanonicalJSONBytes (ge_format env) (roomControlValue e) \<noteq> Some raw
                 then Inl (ErrRoomControlMalformed ''non-canonical field shapes'')
                 else Inr (e, domainDigest roomControlDigestDomain raw))"

definition VerifyRoomControl ::
  "go_env \<Rightarrow> signed_room_control \<Rightarrow> string \<Rightarrow> hub_error + room_control_event \<times> string" where
  "VerifyRoomControl env stmt homeKey =
     (case ParseRoomControlUnverified env stmt of
        Inl err \<Rightarrow> Inl err
      | Inr (e, digest) \<Rightarrow>
          if \<not> verifyDomainSignature env homeKey roomControlSignatureDomain digest (src_signature stmt)
          then Inl ErrRoomControlSignature
          else Inr (e, digest))"

section \<open>Receipts\<close>

abbreviation RoomReceiptVersionV1 :: string where "RoomReceiptVersionV1 \<equiv> ''moltnet.room-receipt.v1''"

record room_receipt =
  rr_v :: string
  rr_global_room_id :: string
  rr_hub_epoch :: int
  rr_membership_epoch :: int
  rr_room_seq :: int
  rr_event_id :: string
  rr_prev_receipt_hash :: string

definition roomReceiptValue :: "room_receipt \<Rightarrow> json" where
  "roomReceiptValue r = JObj (
     [(''event_id'', JStr (rr_event_id r)), (''global_room_id'', JStr (rr_global_room_id r)),
      (''hub_epoch'', JNum (Integral (rr_hub_epoch r))),
      (''membership_epoch'', JNum (Integral (rr_membership_epoch r)))] @
     putString ''prev_receipt_hash'' (rr_prev_receipt_hash r) @
     [(''room_seq'', JNum (Integral (rr_room_seq r))), (''v'', JStr (rr_v r))])"

definition receipt_fields :: struct_fields where
  "receipt_fields =
     [(''v'', TextField), (''global_room_id'', TextField), (''hub_epoch'', IntField),
      (''membership_epoch'', IntField), (''room_seq'', IntField), (''event_id'', TextField),
      (''prev_receipt_hash'', TextField)]"

definition receipt_of :: "(string \<rightharpoonup> json) \<Rightarrow> room_receipt" where
  "receipt_of m =
     \<lparr>rr_v = text_of m ''v'', rr_global_room_id = text_of m ''global_room_id'', rr_hub_epoch = int_of m ''hub_epoch'',
      rr_membership_epoch = int_of m ''membership_epoch'', rr_room_seq = int_of m ''room_seq'',
      rr_event_id = text_of m ''event_id'', rr_prev_receipt_hash = text_of m ''prev_receipt_hash''\<rparr>"

definition validateRoomReceiptShape :: "room_receipt \<Rightarrow> hub_error option" where
  "validateRoomReceiptShape r =
     (let malformed = (\<lambda>reason. Some (ErrRoomReceiptMalformed reason))
      in if rr_v r \<noteq> RoomReceiptVersionV1 then malformed ''unsupported version''
         else if rr_hub_epoch r < 1 \<or> rr_membership_epoch r < 1 \<or> rr_room_seq r < 1
         then malformed ''epochs and room_seq must be positive''
         else if (rr_room_seq r = 1) \<noteq> (rr_prev_receipt_hash r = [])
         then malformed ''only the first receipt has no prev_receipt_hash''
         else if length (rr_event_id r) \<noteq> 64 then malformed ''event_id must be a hex digest''
         else if \<not> list_all hex_digit (rr_event_id r) then malformed ''event_id must be a hex digest''
         else if isl (ParseGlobalRoomID (rr_global_room_id r)) then malformed ''global room id''
         else None)"

definition SignRoomReceipt ::
  "go_env \<Rightarrow> room_receipt \<Rightarrow> (string \<Rightarrow> string) \<Rightarrow> hub_error + signed_room_receipt \<times> string" where
  "SignRoomReceipt env r sign =
     (case validateRoomReceiptShape r of
        Some err \<Rightarrow> Inl err
      | None \<Rightarrow>
          (case CanonicalJSONBytes (ge_format env) (roomReceiptValue r) of
             None \<Rightarrow> Inl (ErrRoomReceiptMalformed ''canonical'')
           | Some bytes \<Rightarrow>
               let digest = domainDigest roomReceiptDigestDomain bytes
               in Inr (\<lparr>srr_receipt = EncodeToString bytes,
                        srr_signature = EncodeToString (sign (roomReceiptSignatureDomain @ digest))\<rparr>, digest)))"

definition VerifyRoomReceipt ::
  "go_env \<Rightarrow> signed_room_receipt \<Rightarrow> string \<Rightarrow> hub_error + room_receipt \<times> string" where
  "VerifyRoomReceipt env stmt homeKey =
     (case parseStrictCanonical env receipt_fields (srr_receipt stmt) of
        None \<Rightarrow> Inl (ErrRoomReceiptMalformed ''parse'')
      | Some (raw, m) \<Rightarrow>
          let r = receipt_of m
          in case validateRoomReceiptShape r of
               Some err \<Rightarrow> Inl err
             | None \<Rightarrow>
                 if CanonicalJSONBytes (ge_format env) (roomReceiptValue r) \<noteq> Some raw
                 then Inl (ErrRoomReceiptMalformed ''non-canonical field shapes'')
                 else
                   let digest = domainDigest roomReceiptDigestDomain raw
                   in if \<not> verifyDomainSignature env homeKey roomReceiptSignatureDomain digest (srr_signature stmt)
                      then Inl ErrRoomReceiptSignature
                      else Inr (r, digest))"

section \<open>Admissions\<close>

abbreviation HubAdmissionVersionV1 :: string where "HubAdmissionVersionV1 \<equiv> ''moltnet.room-admission.v1''"

record room_admission =
  ra_v :: string
  ra_global_room_id :: string
  ra_network_id :: string
  ra_fingerprint :: string
  ra_public_key :: string
  ra_created_at :: string

record signed_room_admission =
  sra_admission :: string
  sra_signature :: string

definition roomAdmissionValue :: "room_admission \<Rightarrow> json" where
  "roomAdmissionValue a = JObj
     [(''created_at'', JStr (ra_created_at a)), (''fingerprint'', JStr (ra_fingerprint a)),
      (''global_room_id'', JStr (ra_global_room_id a)), (''network_id'', JStr (ra_network_id a)),
      (''public_key'', JStr (ra_public_key a)), (''v'', JStr (ra_v a))]"

definition admission_fields :: struct_fields where
  "admission_fields =
     [(''v'', TextField), (''global_room_id'', TextField), (''network_id'', TextField),
      (''fingerprint'', TextField), (''public_key'', TextField), (''created_at'', TextField)]"

definition admission_of :: "(string \<rightharpoonup> json) \<Rightarrow> room_admission" where
  "admission_of m =
     \<lparr>ra_v = text_of m ''v'', ra_global_room_id = text_of m ''global_room_id'', ra_network_id = text_of m ''network_id'',
      ra_fingerprint = text_of m ''fingerprint'', ra_public_key = text_of m ''public_key'',
      ra_created_at = text_of m ''created_at''\<rparr>"

definition validateRoomAdmission :: "room_admission \<Rightarrow> hub_error option" where
  "validateRoomAdmission a =
     (if ra_v a \<noteq> HubAdmissionVersionV1 then Some (ErrRoomAdmission ''unsupported version'')
      else if ValidateNetworkNamespace (ra_network_id a) \<noteq> None then Some (ErrRoomAdmission ''network_id is invalid'')
      else if ra_created_at a = [] then Some (ErrRoomAdmission ''created_at is required'')
      else if isl (ParseGlobalRoomID (ra_global_room_id a)) then Some (ErrRoomAdmission ''global room id'')
      else if \<not> key_matches (ra_public_key a) (ra_fingerprint a)
      then Some (ErrRoomAdmission ''key does not match its fingerprint'')
      else None)"

definition SignRoomAdmission ::
  "go_env \<Rightarrow> room_admission \<Rightarrow> (string \<Rightarrow> string) \<Rightarrow> hub_error + signed_room_admission" where
  "SignRoomAdmission env a sign =
     (case validateRoomAdmission a of
        Some err \<Rightarrow> Inl err
      | None \<Rightarrow>
          (case CanonicalJSONBytes (ge_format env) (roomAdmissionValue a) of
             None \<Rightarrow> Inl (ErrRoomAdmission ''canonical'')
           | Some bytes \<Rightarrow>
               let digest = domainDigest roomAdmissionDigestDomain bytes
               in Inr \<lparr>sra_admission = EncodeToString bytes,
                       sra_signature = EncodeToString (sign (roomAdmissionSignatureDomain @ digest))\<rparr>))"

definition VerifyRoomAdmission :: "go_env \<Rightarrow> signed_room_admission \<Rightarrow> hub_error + room_admission" where
  "VerifyRoomAdmission env stmt =
     (case parseStrictCanonical env admission_fields (sra_admission stmt) of
        None \<Rightarrow> Inl (ErrRoomAdmission ''parse'')
      | Some (raw, m) \<Rightarrow>
          let a = admission_of m
          in case validateRoomAdmission a of
               Some err \<Rightarrow> Inl err
             | None \<Rightarrow>
                 let key = (case ParseNetworkPublicKey (ra_public_key a) of None \<Rightarrow> [] | Some k \<Rightarrow> k)
                 in if \<not> verifyDomainSignature env key roomAdmissionSignatureDomain
                           (domainDigest roomAdmissionDigestDomain raw) (sra_signature stmt)
                    then Inl (ErrRoomAdmission ''signature does not verify'')
                    else Inr a)"

section \<open>Field names\<close>

definition plain_name :: "string \<Rightarrow> bool" where
  "plain_name s \<longleftrightarrow> list_all (\<lambda>c. byte_in 97 122 c \<or> c = CHR ''_'') s"

lemma go_runes_ascii:
  assumes "list_all (byte_in 0 0x7F) s"
  shows "go_runes s = map (\<lambda>c. (True, [c])) s"
proof -
  have "list_all utf8_seq (map (\<lambda>c. [c]) s)" using assms
    by (induction s) (auto simp: utf8_seq_def lead_width_def)
  then have "go_runes (concat (map (\<lambda>c. [c]) s)) = map (Pair True) (map (\<lambda>c. [c]) s)" by (rule go_runes_concat)
  moreover have "concat (map (\<lambda>c. [c]) s) = s" by (induction s) auto
  ultimately show ?thesis by (simp add: comp_def)
qed

definition upper :: "char \<Rightarrow> char" where
  "upper c = (if byte_in 97 122 c then char_of ((of_char c :: nat) - 32) else c)"

lemma foldName_plain: "plain_name s \<Longrightarrow> foldName s = map upper s"
proof -
  assume "plain_name s"
  then have "list_all (byte_in 0 0x7F) s" by (auto simp: plain_name_def list_all_iff byte_in_def)
  then have "foldName s = concat (map (\<lambda>c. fold_rune [c]) s)" by (simp add: foldName_def go_runes_ascii comp_def)
  also have "\<dots> = map upper s" by (induction s) (auto simp: fold_rune_def upper_def)
  finally show "foldName s = map upper s" .
qed

lemma of_char_upper: "(of_char (upper x) :: nat) = (if byte_in 97 122 x then of_char x - 32 else of_char x)"
  by (auto simp: upper_def byte_in_def)

lemma upper_inj:
  assumes "byte_in 97 122 c \<or> c = CHR ''_''" "byte_in 97 122 d \<or> d = CHR ''_''" "upper c = upper d"
  shows "c = d"
proof -
  define m n :: nat where "m = of_char c" and "n = of_char d"
  have bounds: "97 \<le> m \<and> m \<le> 122 \<or> m = 95" "97 \<le> n \<and> n \<le> 122 \<or> n = 95"
    using assms(1,2) by (auto simp: byte_in_def m_def n_def)
  have "(of_char (upper c) :: nat) = of_char (upper d)" using assms(3) by simp
  then have "(if 97 \<le> m \<and> m \<le> 122 then m - 32 else m) = (if 97 \<le> n \<and> n \<le> 122 then n - 32 else n)"
    unfolding of_char_upper byte_in_def m_def n_def .
  with bounds have "m = n" by (auto split: if_splits)
  then show ?thesis by (simp add: m_def n_def)
qed

lemma map_upper_inj: "plain_name s \<Longrightarrow> plain_name t \<Longrightarrow> map upper s = map upper t \<Longrightarrow> s = t"
proof (induction s arbitrary: t)
  case (Cons c cs)
  then obtain d ds where t: "t = d # ds" "upper c = upper d" "map upper cs = map upper ds" by (cases t) auto
  have "c = d" by (rule upper_inj) (use Cons.prems t in \<open>simp_all add: plain_name_def\<close>)
  moreover have "cs = ds" by (rule Cons.IH) (use Cons.prems t in \<open>simp_all add: plain_name_def\<close>)
  ultimately show ?case by (simp add: t)
qed simp

lemma foldName_inj: "plain_name s \<Longrightarrow> plain_name t \<Longrightarrow> foldName s = foldName t \<Longrightarrow> s = t"
  using map_upper_inj [of s t] by (simp add: foldName_plain)

lemma field_named_plain:
  assumes "list_all (\<lambda>f. plain_name (fst f)) spec" and "plain_name k"
  shows "field_named spec k = find (\<lambda>f. fst f = k) spec"
proof -
  have "(\<lambda>f. fst f = k \<or> foldName (fst f) = foldName k) f = (fst f = k)" if "f \<in> set spec" for f
    using that assms foldName_inj [of "fst f" k] by (auto simp: list_all_iff)
  then show ?thesis unfolding field_named_def by (intro find_cong) auto
qed

end
