(* ===== verification/Hub_Statements.thy ===== *)
theory Hub_Statements
  imports Hub_Signing
begin

text \<open>
  What signing guarantees: a signed control event, receipt or admission verifies to exactly what
  was signed, every accepted statement has one byte form, and its digest commits to its content.
\<close>

section \<open>Decoding what was encoded\<close>

definition put :: "(string \<rightharpoonup> json) \<Rightarrow> string \<Rightarrow> string \<Rightarrow> (string \<rightharpoonup> json)" where
  "put m k s = (if s = [] then m else m(k \<mapsto> JStr s))"

lemma decode_put:
  "field_named spec k = Some (k, TextField) \<Longrightarrow>
   decode_fields spec (putString k s @ fs) m = decode_fields spec fs (put m k s)"
  by (simp add: putString_def put_def)

lemma text_of_put [simp]: "text_of (put m k s) k' = (if k = k' \<and> s \<noteq> [] then s else text_of m k')"
  by (simp add: put_def text_of_def)

lemma int_of_put [simp]: "k \<noteq> k' \<Longrightarrow> int_of (put m k s) k' = int_of m k'"
  by (simp add: put_def int_of_def)

lemma of_upd [simp]:
  "text_of (m(k \<mapsto> JStr s)) k' = (if k = k' then s else text_of m k')"
  "k \<noteq> k' \<Longrightarrow> text_of (m(k \<mapsto> JNum x)) k' = text_of m k'"
  "int_of (m(k \<mapsto> JNum (Integral n))) k' = (if k = k' then n else int_of m k')"
  "k \<noteq> k' \<Longrightarrow> int_of (m(k \<mapsto> JStr s)) k' = int_of m k'"
  "text_of Map.empty k' = []" "int_of Map.empty k' = 0"
  by (simp_all add: text_of_def int_of_def)

definition int64 :: "int \<Rightarrow> bool" where
  "int64 n \<longleftrightarrow> - (2 ^ 63) \<le> n \<and> n < 2 ^ 63"

lemma decode_known:
  "field_named spec k = Some (k, TextField) \<Longrightarrow>
   decode_fields spec ((k, JStr s) # fs) m = decode_fields spec fs (m(k \<mapsto> JStr s))"
  "field_named spec k = Some (k, IntField) \<Longrightarrow> int64 n \<Longrightarrow>
   decode_fields spec ((k, JNum (Integral n)) # fs) m = decode_fields spec fs (m(k \<mapsto> JNum (Integral n)))"
  by (simp_all add: int64_def)

lemma control_named: "plain_name k \<Longrightarrow> field_named control_fields k = find (\<lambda>f. fst f = k) control_fields"
  by (rule field_named_plain) (simp_all add: control_fields_def plain_name_def byte_in_def)

lemma control_decoded:
  assumes "int64 (rc_seq e)" "int64 (rc_epoch e)"
  shows "\<exists>m. decode_struct control_fields (roomControlValue e) = Some m \<and> control_of m = e"
proof -
  have names: "field_named control_fields ''created_at'' = Some (''created_at'', TextField)"
    "field_named control_fields ''epoch'' = Some (''epoch'', IntField)"
    "field_named control_fields ''fingerprint'' = Some (''fingerprint'', TextField)"
    "field_named control_fields ''global_room_id'' = Some (''global_room_id'', TextField)"
    "field_named control_fields ''history'' = Some (''history'', TextField)"
    "field_named control_fields ''kind'' = Some (''kind'', TextField)"
    "field_named control_fields ''network_id'' = Some (''network_id'', TextField)"
    "field_named control_fields ''prev_hash'' = Some (''prev_hash'', TextField)"
    "field_named control_fields ''public_key'' = Some (''public_key'', TextField)"
    "field_named control_fields ''role'' = Some (''role'', TextField)"
    "field_named control_fields ''seq'' = Some (''seq'', IntField)"
    "field_named control_fields ''v'' = Some (''v'', TextField)"
    by (subst control_named; simp add: plain_name_def byte_in_def control_fields_def)+
  show ?thesis
    unfolding roomControlValue_def decode_struct_def
    by (simp add: names decode_put decode_known assms control_of_def del: decode_fields.simps(2))
qed

section \<open>Flat objects\<close>

text \<open>An object of texts and integers whose keys are in order is canonical as soon as it normalises.\<close>

definition flat :: "(string \<times> json) list \<Rightarrow> bool" where
  "flat fs \<longleftrightarrow> list_all (\<lambda>(k, v). case v of JStr s \<Rightarrow> True | JNum (Integral n) \<Rightarrow> True | _ \<Rightarrow> False) fs"

lemma flat_canonical: "flat fs \<Longrightarrow> normalize_fields fs \<noteq> None \<Longrightarrow> canonical_fields fs"
proof (induction fs)
  case (Cons f fs)
  obtain k v where f: "f = (k, v)" by (cases f)
  from Cons have "canonical_fields fs" by (auto simp: f flat_def split: if_splits option.splits)
  with Cons.prems show ?case
    by (cases v) (auto simp: f flat_def valid_string validateCanonicalNumber_def split: if_splits option.splits float64.splits)
qed simp

lemma flat_parts [simp]:
  "flat []" "flat (putString k s)" "flat ((k, JStr s) # fs) = flat fs" "flat ((k, JNum (Integral n)) # fs) = flat fs"
  "flat (fs @ gs) \<longleftrightarrow> flat fs \<and> flat gs"
  by (simp_all add: flat_def putString_def)

lemma subseq_subset: "subseq xs ys \<Longrightarrow> set xs \<subseteq> set ys"
  by (induction rule: list_emb.induct) auto

lemma subseq_sorted_wrt: "subseq xs ys \<Longrightarrow> sorted_wrt P ys \<Longrightarrow> sorted_wrt P xs"
proof (induction rule: list_emb.induct)
  case (list_emb_Cons2 x y xs ys)
  have "set xs \<subseteq> set ys" using list_emb_Cons2.hyps(2) by (simp add: subseq_subset)
  with list_emb_Cons2 show ?case by auto
qed auto

lemma control_canonical:
  assumes "CanonicalJSONBytes fmt (roomControlValue e) = Some bytes"
  shows "canonical (roomControlValue e)"
proof -
  let ?ks = "[''created_at'', ''epoch'', ''fingerprint'', ''global_room_id'', ''history'', ''kind'', ''network_id'',
    ''prev_hash'', ''public_key'', ''role'', ''seq'', ''v'']"
  obtain fs where fs: "roomControlValue e = JObj fs" by (simp add: roomControlValue_def)
  then have "subseq (map fst fs) ?ks" and "flat fs"
    by (auto simp: roomControlValue_def putString_def)
  moreover have "sorted_wrt utf16Less ?ks" by (simp add: utf16Less_def utf16_units_ascii byte_in_def)
  ultimately have "sorted_wrt utf16Less (map fst fs)" "flat fs" by (auto intro: subseq_sorted_wrt)
  moreover have "normalize_fields fs \<noteq> None"
    using assms by (auto simp: fs CanonicalJSONBytes_def CanonicalJSONString_def)
  ultimately show ?thesis by (simp add: fs flat_canonical)
qed

lemma canonical_fields_append [simp]:
  "canonical_fields (fs @ gs) \<longleftrightarrow> canonical_fields fs \<and> canonical_fields gs"
  by (induction fs) auto

lemma safe_int64: "\<bar>n\<bar> \<le> maxSafeInteger \<Longrightarrow> int64 n"
  by (auto simp: int64_def)

lemma parse_encoded:
  assumes "canonical v" and "decode_struct spec v = Some m"
  shows "parseStrictCanonical env spec (EncodeToString (writeCanonicalJSONValue (ge_format env) v)) =
    Some (writeCanonicalJSONValue (ge_format env) v, m)"
  using assms canonical_read [OF assms(1)] by (simp add: parseStrictCanonical_def Decode_Encode)

text \<open>What the platform promises of signatures: the signer and the key belong together.\<close>

definition signer_for :: "go_env \<Rightarrow> string \<Rightarrow> (string \<Rightarrow> string) \<Rightarrow> bool" where
  "signer_for env key sign \<longleftrightarrow>
     length key = 32 \<and> (\<forall>m. length (sign m) = 64 \<and> ge_verify env key m (sign m))"

lemma verify_signed:
  "signer_for env key sign \<Longrightarrow> verifyDomainSignature env key d digest (EncodeToString (sign (d @ digest)))"
  by (simp add: signer_for_def verifyDomainSignature_def Decode_Encode)

lemma control_encoded:
  assumes "canonical (roomControlValue e)"
  shows "\<exists>m. parseStrictCanonical env control_fields
      (EncodeToString (writeCanonicalJSONValue (ge_format env) (roomControlValue e))) =
        Some (writeCanonicalJSONValue (ge_format env) (roomControlValue e), m) \<and> control_of m = e"
proof -
  have "int64 (rc_seq e)" "int64 (rc_epoch e)"
    using assms by (auto simp: roomControlValue_def intro!: safe_int64)
  then obtain m where "decode_struct control_fields (roomControlValue e) = Some m" "control_of m = e"
    using control_decoded by blast
  then show ?thesis using parse_encoded [OF assms] by blast
qed

lemma control_verifies:
  assumes "SignRoomControl env e sign = Inr (stmt, digest)" and "signer_for env key sign"
  shows "VerifyRoomControl env stmt key = Inr (e, digest)"
proof -
  obtain bytes where shape: "validateRoomControlShape e = None"
    and bytes: "CanonicalJSONBytes (ge_format env) (roomControlValue e) = Some bytes"
    and digest: "digest = domainDigest roomControlDigestDomain bytes"
    and stmt: "stmt = \<lparr>src_control = EncodeToString bytes,
      src_signature = EncodeToString (sign (roomControlSignatureDomain @ digest))\<rparr>"
    using assms(1) by (auto simp: SignRoomControl_def Let_def split: option.splits)
  have can: "canonical (roomControlValue e)" by (rule control_canonical [OF bytes])
  have written: "bytes = writeCanonicalJSONValue (ge_format env) (roomControlValue e)"
    using bytes canonical_read(1) [OF can] by simp
  obtain m where m: "parseStrictCanonical env control_fields (EncodeToString bytes) = Some (bytes, m)" "control_of m = e"
    using control_encoded [OF can, of env] by (auto simp: written)
  have "ParseRoomControlUnverified env stmt = Inr (e, digest)"
    by (simp add: ParseRoomControlUnverified_def stmt m shape bytes digest Let_def)
  then show ?thesis using verify_signed [OF assms(2)] by (simp add: VerifyRoomControl_def stmt)
qed

text \<open>
  C14.
  Signing and verifying a control event are inverse: whatever the home signs with its key, every
  member that holds the key accepts, and reads exactly the event that was signed together with
  the digest the home computed; only the signature scheme itself is assumed.
\<close>
theorem control_sign_verify:
  assumes "SignRoomControl env e sign = Inr (stmt, digest)" and "signer_for env key sign"
  shows "VerifyRoomControl env stmt key = Inr (e, digest)"
  by (rule control_verifies [OF assms])

lemma list_all_replicate: "list_all P (replicate n x) \<longleftrightarrow> n = 0 \<or> P x"
  by (auto simp: list_all_iff)

definition sample_env :: go_env where
  "sample_env = \<lparr>ge_format = (\<lambda>_. []), ge_parse = (\<lambda>_. None), ge_verify = (\<lambda>_ _ s. s = replicate 64 (CHR ''s''))\<rparr>"

definition sample_policy :: room_control_event where
  "sample_policy =
     \<lparr>rc_v = RoomControlVersionV1, rc_global_room_id = ''sha256:'' @ replicate 64 (CHR ''0'') @ ''/research'',
      rc_seq = 2, rc_epoch = 2, rc_prev_hash = ''aa'', rc_kind = RoomControlSetPolicy, rc_network_id = [],
      rc_fingerprint = [], rc_public_key = [], rc_role = [], rc_history = ''from_join'',
      rc_created_at = ''2026-01-01T00:00:00Z''\<rparr>"

lemma sample_signer: "signer_for sample_env (replicate 32 (CHR ''k'')) (\<lambda>_. replicate 64 (CHR ''s''))"
  by (simp add: signer_for_def sample_env_def)

lemma sample_room: "ParseGlobalRoomID (''sha256:'' @ replicate 64 (CHR ''0'') @ ''/research'') =
    Inr (''sha256:'' @ replicate 64 (CHR ''0''), ''research'')"
  unfolding ParseGlobalRoomID_iff
  by (simp add: GlobalRoomID_def canonical_fingerprint_def ValidateRoomID_def ValidateMessageID_None
      messageIDPattern_def id_first_def id_char_def less_eq_char_def
      list_all_replicate lower_hex_def)

lemma sample_shape: "validateRoomControlShape sample_policy = None"
  using sample_room by (simp add: validateRoomControlShape_def sample_policy_def Let_def ValidRoomHistory_def)

lemma sample_canonical: "canonical (roomControlValue sample_policy)"
  by (simp add: roomControlValue_def putString_def sample_policy_def ascii_valid utf16Less_def utf16_units_ascii
      byte_in_def list_all_replicate)

lemma sample_signed: "\<exists>stmt digest. SignRoomControl sample_env sample_policy sign = Inr (stmt, digest)"
  using canonical_read(1) [OF sample_canonical] by (simp add: SignRoomControl_def sample_shape Let_def)

theorem control_sign_verify_witness:
  "case SignRoomControl sample_env sample_policy (\<lambda>_. replicate 64 (CHR ''s'')) of
     Inl _ \<Rightarrow> False
   | Inr (stmt, digest) \<Rightarrow> VerifyRoomControl sample_env stmt (replicate 32 (CHR ''k'')) = Inr (sample_policy, digest)"
  using sample_signed control_sign_verify [OF _ sample_signer] by force

section \<open>One form for every statement\<close>

lemma control_verified:
  assumes "VerifyRoomControl env stmt key = Inr (e, digest)"
  shows "\<exists>bytes. DecodeString (src_control stmt) = Some bytes \<and>
    CanonicalJSONBytes (ge_format env) (roomControlValue e) = Some bytes \<and>
    digest = domainDigest roomControlDigestDomain bytes \<and> validateRoomControlShape e = None \<and>
    verifyDomainSignature env key roomControlSignatureDomain digest (src_signature stmt)"
  using assms
  by (auto simp: VerifyRoomControl_def ParseRoomControlUnverified_def parseStrictCanonical_def Let_def
      split: sum.splits option.splits if_splits)

lemma control_bytes_inj:
  fixes env :: go_env
  assumes "CanonicalJSONBytes (ge_format env) (roomControlValue e) = Some bytes"
    and "CanonicalJSONBytes (ge_format env) (roomControlValue e') = Some bytes"
  shows "e = e'"
proof -
  have can: "canonical (roomControlValue e)" "canonical (roomControlValue e')"
    using assms by (auto intro: control_canonical)
  have "bytes = writeCanonicalJSONValue (ge_format env) (roomControlValue e)"
    "bytes = writeCanonicalJSONValue (ge_format env) (roomControlValue e')"
    using assms canonical_read(1) [OF can(1)] canonical_read(1) [OF can(2)] by simp_all
  with control_encoded [OF can(1), of env] control_encoded [OF can(2), of env] show ?thesis by auto
qed

text \<open>
  An accepted control event has one form: two statements that verify carry the same event exactly
  when their encodings agree up to the line breaks the base64 decoder skips; and when their
  digests agree although the events differ, the two decoded byte strings are a collision of
  SHA-256 under the control digest domain. So the digest a member stores commits to the event.
\<close>

lemma control_one_form:
  assumes "VerifyRoomControl env s1 k1 = Inr (e1, d1)" and "VerifyRoomControl env s2 k2 = Inr (e2, d2)"
  shows "(e1 = e2 \<longleftrightarrow> no_breaks (src_control s1) = no_breaks (src_control s2)) \<and>
    (d1 = d2 \<and> e1 \<noteq> e2 \<longrightarrow>
       (\<exists>b1 b2. DecodeString (src_control s1) = Some b1 \<and> DecodeString (src_control s2) = Some b2 \<and> b1 \<noteq> b2 \<and>
          sha256 (roomControlDigestDomain @ b1) = sha256 (roomControlDigestDomain @ b2)))"
proof -
  obtain b1 where b1: "DecodeString (src_control s1) = Some b1"
      "CanonicalJSONBytes (ge_format env) (roomControlValue e1) = Some b1"
      "d1 = domainDigest roomControlDigestDomain b1"
    using control_verified [OF assms(1)] by blast
  obtain b2 where b2: "DecodeString (src_control s2) = Some b2"
      "CanonicalJSONBytes (ge_format env) (roomControlValue e2) = Some b2"
      "d2 = domainDigest roomControlDigestDomain b2"
    using control_verified [OF assms(2)] by blast
  have events: "e1 = e2 \<longleftrightarrow> b1 = b2" using b1(2) b2(2) control_bytes_inj [of env e1 b1 e2] by auto
  have texts: "no_breaks (src_control s1) = no_breaks (src_control s2) \<longleftrightarrow> b1 = b2"
    using Encode_Decode [OF b1(1)] Encode_Decode [OF b2(1)] decode_quanta_encode [of b1] decode_quanta_encode [of b2]
    by (metis option.inject)
  have "d1 = d2 \<Longrightarrow> sha256 (roomControlDigestDomain @ b1) = sha256 (roomControlDigestDomain @ b2)"
    using b1(3) b2(3) by (auto simp: domainDigest_def dest: hex_encode_inj)
  with events texts b1(1) b2(1) show ?thesis by blast
qed

lemma sample_verified:
  "\<exists>stmt digest. VerifyRoomControl sample_env stmt (replicate 32 (CHR ''k'')) = Inr (sample_policy, digest)"
proof -
  define bytes where "bytes = writeCanonicalJSONValue (ge_format sample_env) (roomControlValue sample_policy)"
  define digest where "digest = domainDigest roomControlDigestDomain bytes"
  obtain m where m: "parseStrictCanonical sample_env control_fields (EncodeToString bytes) = Some (bytes, m)"
      "control_of m = sample_policy"
    using control_encoded [OF sample_canonical, of sample_env] unfolding bytes_def by blast
  let ?stmt = "\<lparr>src_control = EncodeToString bytes, src_signature = EncodeToString (replicate 64 (CHR ''s''))\<rparr>"
  have "ParseRoomControlUnverified sample_env ?stmt = Inr (sample_policy, digest)"
    using canonical_read(1) [OF sample_canonical, of "ge_format sample_env"]
    by (simp add: ParseRoomControlUnverified_def m sample_shape Let_def digest_def flip: bytes_def)
  then have "VerifyRoomControl sample_env ?stmt (replicate 32 (CHR ''k'')) = Inr (sample_policy, digest)"
    using verify_signed [OF sample_signer] by (simp add: VerifyRoomControl_def)
  then show ?thesis by blast
qed

theorem control_one_form_witness:
  "\<exists>stmt. no_breaks (src_control stmt) = no_breaks (src_control stmt) \<and>
     isl (VerifyRoomControl sample_env stmt (replicate 32 (CHR ''k''))) = False"
proof -
  obtain stmt digest where v: "VerifyRoomControl sample_env stmt (replicate 32 (CHR ''k'')) = Inr (sample_policy, digest)"
    using sample_verified by blast
  with control_one_form [OF v v] show ?thesis by (intro exI [of _ stmt]) simp
qed

text \<open>
  The message of the shape check says that a network id is required, but the check it reports only
  refuses the reserved prefix: an event that names no network passes.
\<close>

theorem empty_network_accepted:
  "validateRoomControlShape (sample_policy\<lparr>rc_kind := RoomControlRemove, rc_history := []\<rparr>) = None"
  using sample_room by (simp add: validateRoomControlShape_def sample_policy_def Let_def ValidateNetworkNamespace_def
      to_lower_def has_prefix_def)

end
