(* ===== verification/Hub_Roster.thy ===== *)
theory Hub_Roster
  imports Hub_Statements Store_Types
begin

text \<open>
  The membership of a hub room, rebuilt from its home-signed control log (\<open>hub_roster.go\<close>), the
  cache of verified rosters (\<open>hub_roster_cache.go\<close>) and one network's standing over the whole log
  (\<open>hub_access.go\<close>). Membership is a finite map, \<open>Ever\<close> the set of the networks it is true for.
  Indexing a cached log below its start panics in the code: that is \<open>None\<close>.
\<close>

section \<open>Replaying the control log\<close>

record hub_member =
  hm_network_id :: string
  hm_fingerprint :: string
  hm_public_key :: string
  hm_role :: string

record hub_roster =
  ros_global_room_id :: string
  ros_room_id :: string
  ros_home_network_id :: string
  ros_home_fingerprint :: string
  ros_home_key :: string
  ros_history :: string
  ros_epoch :: int
  ros_head_digest :: string
  ros_members :: "hub_member strmap"
  ros_ever :: "string fset"

definition zero_roster :: hub_roster where
  "zero_roster = \<lparr>ros_global_room_id = [], ros_room_id = [], ros_home_network_id = [], ros_home_fingerprint = [],
     ros_home_key = [], ros_history = [], ros_epoch = 0, ros_head_digest = [], ros_members = fmempty, ros_ever = {||}\<rparr>"

definition zero_member :: hub_member where
  "zero_member = \<lparr>hm_network_id = [], hm_fingerprint = [], hm_public_key = [], hm_role = []\<rparr>"

definition canWrite :: "hub_roster \<Rightarrow> string \<Rightarrow> hub_member \<times> bool" where
  "canWrite r network =
     (case fmlookup (ros_members r) network of
        None \<Rightarrow> (zero_member, False)
      | Some member \<Rightarrow> (member, RoomRoleCanWrite (hm_role member)))"

definition networks :: "hub_roster \<Rightarrow> string list" where
  "networks r = sorted_list_of_fset (fmdom (ros_members r))"

abbreviation hubControlError :: "string \<Rightarrow> hub_error + 'a" where
  "hubControlError reason \<equiv> Inl (ErrRoomControlMalformed reason)"

text \<open>The key an event is checked with: a genesis event names it, any other is signed by the home.\<close>

definition control_key :: "go_env \<Rightarrow> hub_roster \<Rightarrow> hub_control_record \<Rightarrow> hub_error + string" where
  "control_key env roster record =
     (if hc_seq record = 1
      then (case ParseRoomControlUnverified env (hc_control record) of
              Inl err \<Rightarrow> Inl err
            | Inr (event, _) \<Rightarrow>
                (case ParseNetworkPublicKey (rc_public_key event) of
                   None \<Rightarrow> hubControlError ''genesis key''
                 | Some key \<Rightarrow> Inr key))
      else Inr (ros_home_key roster))"

definition event_member :: "room_control_event \<Rightarrow> string \<Rightarrow> hub_member" where
  "event_member event role =
     \<lparr>hm_network_id = rc_network_id event, hm_fingerprint = rc_fingerprint event,
      hm_public_key = rc_public_key event, hm_role = role\<rparr>"

text \<open>The change one event makes, once its signature and place in the chain are known.\<close>

definition apply_event ::
  "hub_roster \<Rightarrow> string \<Rightarrow> string \<Rightarrow> room_control_event \<Rightarrow> hub_error + hub_roster" where
  "apply_event roster key digest event =
     (let next = roster\<lparr>ros_epoch := rc_epoch event, ros_head_digest := digest\<rparr>;
          network = rc_network_id event;
          subject = fmlookup (ros_members next) network;
          remember = (\<lambda>r. if network \<noteq> [] then r\<lparr>ros_ever := finsert network (ros_ever r)\<rparr> else r)
      in if rc_kind event = RoomControlGenesis then
           (let (fingerprint, roomID) = (case ParseGlobalRoomID (rc_global_room_id event) of
                                           Inl _ \<Rightarrow> ([], []) | Inr fr \<Rightarrow> fr)
            in if rc_seq event \<noteq> 1 \<or> fingerprint \<noteq> rc_fingerprint event
               then hubControlError ''genesis must be first and name the home key in the global room id''
               else Inr (remember (next\<lparr>
                      ros_global_room_id := rc_global_room_id event, ros_room_id := roomID,
                      ros_home_network_id := network, ros_home_fingerprint := rc_fingerprint event,
                      ros_home_key := key, ros_history := rc_history event,
                      ros_members := fmupd network (event_member event RoomRoleOwner) (ros_members next)\<rparr>)))
         else if rc_kind event = RoomControlAdd then
           (if subject \<noteq> None \<or> network = ros_home_network_id next
            then hubControlError ''cannot add: already a member''
            else Inr (remember (next\<lparr>
                   ros_members := fmupd network (event_member event (rc_role event)) (ros_members next)\<rparr>)))
         else if rc_kind event = RoomControlRemove \<or> rc_kind event = RoomControlLeave then
           (if subject = None \<or> network = ros_home_network_id next
            then hubControlError ''not a removable member''
            else Inr (remember (next\<lparr>ros_members := fmdrop network (ros_members next)\<rparr>)))
         else if rc_kind event = RoomControlSetRole then
           (case subject of
              None \<Rightarrow> hubControlError ''cannot set the role''
            | Some member \<Rightarrow>
                if network = ros_home_network_id next then hubControlError ''cannot set the role''
                else Inr (remember (next\<lparr>
                       ros_members := fmupd network (member\<lparr>hm_role := rc_role event\<rparr>) (ros_members next)\<rparr>)))
         else if rc_kind event = RoomControlSetPolicy then
           Inr (remember (next\<lparr>ros_history := rc_history event\<rparr>))
         else hubControlError ''unknown control kind'')"

definition applyHubControl :: "go_env \<Rightarrow> hub_roster \<Rightarrow> hub_control_record \<Rightarrow> hub_error + hub_roster" where
  "applyHubControl env roster record =
     (case control_key env roster record of
        Inl err \<Rightarrow> Inl err
      | Inr key \<Rightarrow>
          (case VerifyRoomControl env (hc_control record) key of
             Inl err \<Rightarrow> Inl err
           | Inr (event, digest) \<Rightarrow>
               if digest \<noteq> hc_digest record \<or> rc_seq event \<noteq> hc_seq record \<or>
                 ros_global_room_id roster \<noteq> [] \<and> rc_global_room_id event \<noteq> ros_global_room_id roster
               then hubControlError ''control event does not match its stored record''
               else if rc_prev_hash event \<noteq> ros_head_digest roster
               then hubControlError ''control event does not chain to the previous event''
               else apply_event roster key digest event))"

fun replay_loop ::
  "go_env \<Rightarrow> hub_roster \<Rightarrow> int \<Rightarrow> hub_control_record list \<Rightarrow> int \<Rightarrow> hub_error + hub_roster" where
  "replay_loop env roster index [] limit = Inr roster"
| "replay_loop env roster index (record # records) limit =
     (if hc_seq record \<noteq> index + 1 then hubControlError ''control log seq''
      else if limit > 0 \<and> hc_seq record > limit then Inr roster
      else case applyHubControl env roster record of
             Inl err \<Rightarrow> Inl err
           | Inr next \<Rightarrow> replay_loop env next (index + 1) records limit)"

definition replayHubRoster :: "go_env \<Rightarrow> hub_control_record list \<Rightarrow> int \<Rightarrow> hub_error + hub_roster" where
  "replayHubRoster env records limit =
     (if records = [] then hubControlError ''empty control log''
      else case replay_loop env zero_roster 0 records limit of
             Inl err \<Rightarrow> Inl err
           | Inr roster \<Rightarrow>
               if limit > 0 \<and> ros_epoch roster \<noteq> limit
               then hubControlError ''control log does not reach epoch'' else Inr roster)"

section \<open>The cache\<close>

record verified_control_log =
  vcl_digests :: "string list"
  vcl_rosters :: "hub_roster list"

type_synonym hub_roster_cache = "verified_control_log strmap"

definition prefixOf :: "verified_control_log \<Rightarrow> hub_control_record list \<Rightarrow> bool" where
  "prefixOf l records \<longleftrightarrow>
     length (vcl_digests l) \<le> length records \<and>
     list_all (\<lambda>(digest, record). hc_digest record = digest) (zip (vcl_digests l) records)"

text \<open>The loop over the records the log does not hold yet: the log it leaves, and the error it stops at.\<close>

fun extend_log ::
  "go_env \<Rightarrow> verified_control_log \<Rightarrow> hub_control_record list \<Rightarrow> hub_error option \<times> verified_control_log" where
  "extend_log env l [] = (None, l)"
| "extend_log env l (record # records) =
     (if hc_seq record \<noteq> int (length (vcl_digests l)) + 1
      then (Some (ErrRoomControlMalformed ''control log seq''), l)
      else
        let previous = (if vcl_rosters l = [] then zero_roster else last (vcl_rosters l))
        in case applyHubControl env previous record of
             Inl err \<Rightarrow> (Some err, l)
           | Inr next \<Rightarrow>
               extend_log env (l\<lparr>vcl_digests := vcl_digests l @ [hc_digest record],
                                 vcl_rosters := vcl_rosters l @ [next]\<rparr>) records)"

definition cached_roster ::
  "go_env \<Rightarrow> hub_roster_cache \<Rightarrow> string \<Rightarrow> hub_control_record list \<Rightarrow> int \<Rightarrow>
   (hub_error + hub_roster) option \<times> hub_roster_cache" where
  "cached_roster env c globalRoomID records limit =
     (if records = [] then (Some (hubControlError ''empty control log''), c)
      else
        let held = (case fmlookup c globalRoomID of
                      None \<Rightarrow> None
                    | Some l \<Rightarrow> if prefixOf l records then Some l else None);
            start = (case held of None \<Rightarrow> \<lparr>vcl_digests = [], vcl_rosters = []\<rparr> | Some l \<Rightarrow> l);
            (err, l) = extend_log env start (drop (length (vcl_digests start)) records)
        in case err of
             Some e \<Rightarrow> (Some (Inl e), if held = None then c else fmupd globalRoomID l c)
           | None \<Rightarrow>
               (if limit = 0 then Some (Inr (vcl_rosters l ! (length records - 1)))
                else if limit > int (length records) then Some (hubControlError ''control log does not reach epoch'')
                else if limit < 0 then None
                else Some (Inr (vcl_rosters l ! nat (limit - 1))),
                fmupd globalRoomID l c))"

section \<open>Standing over the whole log\<close>

record hub_access =
  ha_member :: "bool list"
  ha_full_history :: "bool list"

fun access_loop ::
  "go_env \<Rightarrow> string \<Rightarrow> hub_roster \<Rightarrow> int \<Rightarrow> hub_control_record list \<Rightarrow> hub_access \<Rightarrow> hub_error + hub_access" where
  "access_loop env network roster index [] access = Inr access"
| "access_loop env network roster index (record # records) access =
     (if hc_seq record \<noteq> index + 1 then hubControlError ''control log seq''
      else case applyHubControl env roster record of
             Inl err \<Rightarrow> Inl err
           | Inr next \<Rightarrow>
               access_loop env network next (index + 1) records
                 (access\<lparr>ha_member := ha_member access @ [network |\<in>| fmdom (ros_members next)],
                         ha_full_history := ha_full_history access @ [ros_history next = ''full_history'']\<rparr>))"

definition hubAccessFor :: "go_env \<Rightarrow> hub_control_record list \<Rightarrow> string \<Rightarrow> hub_error + hub_access" where
  "hubAccessFor env records network =
     access_loop env network zero_roster 0 records \<lparr>ha_member = [], ha_full_history = []\<rparr>"

definition memberAt :: "hub_access \<Rightarrow> int \<Rightarrow> bool" where
  "memberAt a epoch \<longleftrightarrow> epoch \<ge> 1 \<and> epoch \<le> int (length (ha_member a)) \<and> ha_member a ! nat (epoch - 1)"

fun last_true :: "bool list \<Rightarrow> nat \<Rightarrow> nat" where
  "last_true m 0 = 0"
| "last_true m (Suc e) = (if m ! e then Suc e else last_true m e)"

definition lastMemberEpoch :: "hub_access \<Rightarrow> int" where
  "lastMemberEpoch a = int (last_true (ha_member a) (length (ha_member a)))"

definition current_member :: "hub_access \<Rightarrow> bool" where
  "current_member a \<longleftrightarrow> ha_member a \<noteq> [] \<and> last (ha_member a)"

definition controlLimit :: "hub_access \<Rightarrow> int" where
  "controlLimit a =
     (if current_member a then int (length (ha_member a))
      else
        let l = lastMemberEpoch a
        in if l = 0 then 0 else l + 1)"

definition messageVisible :: "hub_access \<Rightarrow> int \<Rightarrow> bool" where
  "messageVisible a epoch \<longleftrightarrow>
     (if memberAt a epoch then True
      else if epoch < 1 \<or> epoch > int (length (ha_full_history a)) \<or> \<not> ha_full_history a ! nat (epoch - 1)
      then False
      else lastMemberEpoch a > epoch)"

end
