(* ===== verification/Roster_Properties.thy ===== *)
theory Roster_Properties
  imports Hub_Roster
begin

text \<open>
  What replaying a control log guarantees: the cache returns what a replay from scratch returns,
  the home stays the one owner, the head digest commits to the whole log, and a network is served
  nothing that was placed after its last membership.
\<close>

section \<open>The rosters along a log\<close>

fun rosters_of :: "go_env \<Rightarrow> hub_roster \<Rightarrow> int \<Rightarrow> hub_control_record list \<Rightarrow> hub_error + hub_roster list" where
  "rosters_of env r i [] = Inr []"
| "rosters_of env r i (x # xs) =
     (if hc_seq x \<noteq> i + 1 then hubControlError ''control log seq''
      else case applyHubControl env r x of
             Inl e \<Rightarrow> Inl e
           | Inr r' \<Rightarrow> (case rosters_of env r' (i + 1) xs of Inl e \<Rightarrow> Inl e | Inr rs \<Rightarrow> Inr (r' # rs)))"

lemma rosters_length: "rosters_of env r i xs = Inr rs \<Longrightarrow> length rs = length xs"
  by (induction env r i xs arbitrary: rs rule: rosters_of.induct) (auto split: if_splits sum.splits)

lemma rosters_append:
  "rosters_of env r i (xs @ ys) =
     (case rosters_of env r i xs of
        Inl e \<Rightarrow> Inl e
      | Inr rs \<Rightarrow> (case rosters_of env (last (r # rs)) (i + int (length xs)) ys of
                     Inl e \<Rightarrow> Inl e | Inr rs' \<Rightarrow> Inr (rs @ rs')))"
  by (induction env r i xs rule: rosters_of.induct) (auto split: sum.split simp: add.assoc)

lemma apply_success:
  assumes "applyHubControl env r x = Inr r'"
  obtains key event where "control_key env r x = Inr key" "VerifyRoomControl env (hc_control x) key = Inr (event, hc_digest x)"
    "rc_seq event = hc_seq x" "ros_global_room_id r \<noteq> [] \<Longrightarrow> rc_global_room_id event = ros_global_room_id r"
    "rc_prev_hash event = ros_head_digest r" "apply_event r key (hc_digest x) event = Inr r'"
  using assms by (fastforce simp: applyHubControl_def split: sum.splits if_splits)

lemma apply_event_head:
  "apply_event r key d e = Inr r' \<Longrightarrow> ros_epoch r' = rc_epoch e \<and> ros_head_digest r' = d"
  by (auto simp: apply_event_def Let_def split: if_splits option.splits prod.splits)

lemma shape_epoch: "validateRoomControlShape e = None \<Longrightarrow> rc_epoch e = rc_seq e \<and> 1 \<le> rc_seq e"
  by (auto simp: validateRoomControlShape_def Let_def split: if_splits)

lemma apply_epoch:
  assumes "applyHubControl env r x = Inr r'"
  shows "ros_epoch r' = hc_seq x \<and> ros_head_digest r' = hc_digest x"
proof -
  obtain key event where "VerifyRoomControl env (hc_control x) key = Inr (event, hc_digest x)"
      "rc_seq event = hc_seq x" "apply_event r key (hc_digest x) event = Inr r'"
    using apply_success [OF assms] by metis
  then show ?thesis using control_verified apply_event_head shape_epoch by metis
qed

lemma rosters_epoch: "rosters_of env r i xs = Inr rs \<Longrightarrow> n < length rs \<Longrightarrow> ros_epoch (rs ! n) = i + int n + 1"
proof (induction env r i xs arbitrary: rs n rule: rosters_of.induct)
  case (2 env r i x xs)
  then obtain r' rs' where r: "hc_seq x = i + 1" "applyHubControl env r x = Inr r'"
      "rosters_of env r' (i + 1) xs = Inr rs'" "rs = r' # rs'"
    by (auto split: if_splits sum.splits)
  show ?case using apply_epoch [OF r(2)] "2.IH" [OF _ r(2) r(3)] "2.prems"(2) r
    by (cases n) auto
qed simp

lemma replay_all:
  "limit \<le> 0 \<Longrightarrow> replay_loop env r i xs limit =
     (case rosters_of env r i xs of Inl e \<Rightarrow> Inl e | Inr rs \<Rightarrow> Inr (last (r # rs)))"
  by (induction env r i xs rule: rosters_of.induct) (auto split: sum.split)

lemma replay_some:
  "rosters_of env r i xs = Inr rs \<Longrightarrow> 0 < limit \<Longrightarrow> i \<le> limit \<Longrightarrow>
   replay_loop env r i xs limit = Inr ((r # rs) ! min (nat (limit - i)) (length rs))"
proof (induction env r i xs arbitrary: rs rule: rosters_of.induct)
  case (2 env r i x xs)
  then obtain r' rs' where r: "hc_seq x = i + 1" "applyHubControl env r x = Inr r'"
      "rosters_of env r' (i + 1) xs = Inr rs'" "rs = r' # rs'"
    by (auto split: if_splits sum.splits)
  show ?case
  proof (cases "i = limit")
    case False
    then have "nat (limit - i) = Suc (nat (limit - (i + 1)))" using "2.prems" by simp
    with False "2.IH" [OF _ r(2) r(3)] "2.prems" r show ?thesis by simp
  qed (use "2.prems" r in simp)
qed simp

lemma replay_eq:
  assumes "0 \<le> limit" and "xs \<noteq> []"
  shows "(case replayHubRoster env xs 0 of Inl e \<Rightarrow> Inl e | Inr _ \<Rightarrow> replayHubRoster env xs limit) =
    (case rosters_of env zero_roster 0 xs of
       Inl e \<Rightarrow> Inl e
     | Inr rs \<Rightarrow> if limit = 0 then Inr (last rs)
               else if int (length xs) < limit then hubControlError ''control log does not reach epoch''
               else Inr (rs ! nat (limit - 1)))"
proof (cases "rosters_of env zero_roster 0 xs")
  case (Inl e)
  then show ?thesis using assms by (simp add: replayHubRoster_def replay_all)
next
  case (Inr rs)
  have len: "length rs = length xs" by (rule rosters_length [OF Inr])
  then have ne: "rs \<noteq> []" using assms(2) by auto
  show ?thesis
  proof (cases "limit = 0")
    case True
    then show ?thesis using assms Inr ne by (simp add: replayHubRoster_def replay_all)
  next
    case False
    define n where "n = min (nat limit) (length rs) - 1"
    have "0 < min (nat limit) (length rs)" using ne False assms(1) by simp
    then have n: "n < length rs" "min (nat limit) (length rs) = Suc n"
      using min.cobounded2 [of "nat limit" "length rs"] unfolding n_def by linarith+
    have "replay_loop env zero_roster 0 xs limit = Inr (rs ! n)"
      using replay_some [OF Inr, of limit] False assms(1) n by simp
    moreover have "ros_epoch (rs ! n) = int n + 1" using rosters_epoch [OF Inr n(1)] by simp
    moreover have "Suc n = nat limit \<and> limit \<le> int (length xs) \<or> Suc n = length xs \<and> int (length xs) < limit"
      using n(2) assms(1) unfolding len min_def by (auto split: if_splits)
    then have "int n + 1 = limit \<longleftrightarrow> limit \<le> int (length xs)" "limit \<le> int (length xs) \<Longrightarrow> n = nat (limit - 1)"
      using False assms(1) by linarith+
    ultimately show ?thesis using assms Inr ne False
      by (auto simp: replayHubRoster_def replay_all)
  qed
qed

section \<open>The cache\<close>

definition log_ok :: "go_env \<Rightarrow> hub_control_record list \<Rightarrow> verified_control_log \<Rightarrow> bool" where
  "log_ok env xs l \<longleftrightarrow>
     vcl_digests l = map hc_digest xs \<and> rosters_of env zero_roster 0 xs = Inr (vcl_rosters l)"

text \<open>Every held log was verified on records of a set \<open>U\<close> in which a digest names one record.\<close>

definition cache_ok :: "go_env \<Rightarrow> hub_control_record set \<Rightarrow> hub_roster_cache \<Rightarrow> bool" where
  "cache_ok env U c \<longleftrightarrow> (\<forall>room l. fmlookup c room = Some l \<longrightarrow> (\<exists>xs. set xs \<subseteq> U \<and> log_ok env xs l))"

lemma log_ok_snoc:
  assumes "log_ok env xs l"
  shows "rosters_of env zero_roster 0 (xs @ [x]) =
     (if hc_seq x \<noteq> int (length (vcl_digests l)) + 1 then hubControlError ''control log seq''
      else case applyHubControl env (if vcl_rosters l = [] then zero_roster else last (vcl_rosters l)) x of
             Inl e \<Rightarrow> Inl e | Inr r \<Rightarrow> Inr (vcl_rosters l @ [r]))"
  using assms by (auto simp: log_ok_def rosters_append split: sum.splits)

lemma rosters_fail: "rosters_of env r i xs = Inl e \<Longrightarrow> rosters_of env r i (xs @ ys) = Inl e"
  by (simp add: rosters_append)

lemma extend_log_spec:
  "log_ok env xs l \<Longrightarrow> extend_log env l ys = (err, l') \<Longrightarrow>
   (case err of
      None \<Rightarrow> log_ok env (xs @ ys) l'
    | Some e \<Rightarrow> rosters_of env zero_roster 0 (xs @ ys) = Inl e \<and> (\<exists>n. log_ok env (xs @ take n ys) l'))"
proof (induction env l ys arbitrary: xs rule: extend_log.induct)
  case (2 env l y ys)
  note snoc = log_ok_snoc [OF "2.prems"(1), of y]
  let ?prev = "if vcl_rosters l = [] then zero_roster else last (vcl_rosters l)"
  show ?case
  proof (cases "hc_seq y = int (length (vcl_digests l)) + 1 \<and> (\<exists>r. applyHubControl env ?prev y = Inr r)")
    case False
    then have "\<exists>e. err = Some e \<and> rosters_of env zero_roster 0 (xs @ [y]) = Inl e \<and> l' = l"
      using "2.prems"(2) snoc by (auto simp: Let_def split: sum.splits if_splits)
    then obtain e where e: "err = Some e" "rosters_of env zero_roster 0 (xs @ [y]) = Inl e" "l' = l" by blast
    moreover have "log_ok env (xs @ take 0 (y # ys)) l'" using "2.prems"(1) e by simp
    ultimately show ?thesis using rosters_fail [OF e(2), of ys] by (auto intro: exI [of _ 0])
  next
    case True
    then obtain r where r: "hc_seq y = int (length (vcl_digests l)) + 1" "applyHubControl env ?prev y = Inr r" by blast
    let ?l = "l\<lparr>vcl_digests := vcl_digests l @ [hc_digest y], vcl_rosters := vcl_rosters l @ [r]\<rparr>"
    have ok: "log_ok env (xs @ [y]) ?l" using snoc r "2.prems"(1) by (simp add: log_ok_def)
    have step: "extend_log env ?l ys = (err, l')" using "2.prems"(2) r by (simp add: Let_def)
    have IH: "case err of None \<Rightarrow> log_ok env ((xs @ [y]) @ ys) l'
      | Some e \<Rightarrow> rosters_of env zero_roster 0 ((xs @ [y]) @ ys) = Inl e \<and> (\<exists>n. log_ok env ((xs @ [y]) @ take n ys) l')"
      using "2.IH" [OF _ refl r(2) ok step] r(1) by simp
    show ?thesis
    proof (cases err)
      case None
      with IH show ?thesis by simp
    next
      case (Some e)
      with IH obtain n where "log_ok env (xs @ take (Suc n) (y # ys)) l'" by auto
      then have "\<exists>n. log_ok env (xs @ take n (y # ys)) l'" ..
      with IH Some show ?thesis by simp
    qed
  qed
qed simp

lemma prefix_same:
  assumes "prefixOf l ys" "log_ok env xs l" "set xs \<subseteq> U" "set ys \<subseteq> U" "inj_on hc_digest U"
  shows "xs = take (length (vcl_digests l)) ys"
proof -
  have len: "length xs = length (vcl_digests l)" "length xs \<le> length ys"
    using assms(1,2) by (auto simp: prefixOf_def log_ok_def)
  have eq: "map hc_digest xs = map hc_digest (take (length xs) ys)"
  proof (rule nth_equalityI)
    fix i assume "i < length (map hc_digest xs)"
    then have i: "i < length xs" by simp
    then have "(vcl_digests l ! i, ys ! i) \<in> set (zip (vcl_digests l) ys)"
      using len by (auto simp: set_zip intro!: exI [of _ i])
    then have "hc_digest (ys ! i) = vcl_digests l ! i" using assms(1) by (auto simp: prefixOf_def list_all_iff)
    moreover have "vcl_digests l ! i = hc_digest (xs ! i)" using i assms(2) by (simp add: log_ok_def)
    ultimately show "map hc_digest xs ! i = map hc_digest (take (length xs) ys) ! i"
      using i len(2) by simp
  qed (use len in simp)
  have "set (take (length xs) ys) \<subseteq> U" using assms(4) set_take_subset [of "length xs" ys] by blast
  then have inj: "inj_on hc_digest (set xs \<union> set (take (length xs) ys))"
    using assms(3) by (intro inj_on_subset [OF assms(5)]) simp
  have "xs = take (length xs) ys" by (rule iffD1 [OF inj_on_map_eq_map [OF inj] eq])
  then show ?thesis unfolding len(1) .
qed

text \<open>The log a lookup starts from: the held one when it is a prefix, an empty one otherwise.\<close>

definition held_log :: "hub_roster_cache \<Rightarrow> string \<Rightarrow> hub_control_record list \<Rightarrow> verified_control_log option" where
  "held_log c room xs =
     (case fmlookup c room of None \<Rightarrow> None | Some l \<Rightarrow> if prefixOf l xs then Some l else None)"

definition start_log :: "hub_roster_cache \<Rightarrow> string \<Rightarrow> hub_control_record list \<Rightarrow> verified_control_log" where
  "start_log c room xs =
     (case held_log c room xs of None \<Rightarrow> \<lparr>vcl_digests = [], vcl_rosters = []\<rparr> | Some l \<Rightarrow> l)"

lemma start_log_ok:
  assumes "cache_ok env U c" and "set xs \<subseteq> U" and "inj_on hc_digest U"
  shows "log_ok env (take (length (vcl_digests (start_log c room xs))) xs) (start_log c room xs)"
proof (cases "held_log c room xs")
  case None
  then show ?thesis by (simp add: start_log_def log_ok_def)
next
  case (Some l)
  then have l: "fmlookup c room = Some l" "prefixOf l xs" "start_log c room xs = l"
    by (auto simp: held_log_def start_log_def split: option.splits if_splits)
  then obtain ys where ys: "set ys \<subseteq> U" "log_ok env ys l" using assms(1) unfolding cache_ok_def by blast
  then show ?thesis using prefix_same [OF l(2) ys(2) ys(1) assms(2,3)] l(3) by simp
qed

lemma cached_roster_eq:
  assumes "xs \<noteq> []"
  shows "cached_roster env c room xs limit =
    (case extend_log env (start_log c room xs) (drop (length (vcl_digests (start_log c room xs))) xs) of
       (Some e, l) \<Rightarrow> (Some (Inl e), if held_log c room xs = None then c else fmupd room l c)
     | (None, l) \<Rightarrow>
         (if limit = 0 then Some (Inr (vcl_rosters l ! (length xs - 1)))
          else if limit > int (length xs) then Some (hubControlError ''control log does not reach epoch'')
          else if limit < 0 then None
          else Some (Inr (vcl_rosters l ! nat (limit - 1))), fmupd room l c))"
  using assms
  by (simp add: cached_roster_def held_log_def start_log_def Let_def split: prod.split option.split)

lemma cache_ok_upd:
  "cache_ok env U c \<Longrightarrow> set xs \<subseteq> U \<Longrightarrow> log_ok env xs l \<Longrightarrow> cache_ok env U (fmupd room l c)"
  by (auto simp: cache_ok_def)

text \<open>
  C10.
  The roster cache is exact: as long as a digest names one record among the stored ones, a lookup
  through the cache, whatever the cache holds from earlier lookups, returns what verifying and
  replaying the whole log from scratch returns, errors included; and what it remembers, even when
  verification stops half way, is again a verified prefix of such a log.
\<close>
theorem roster_cache_exact:
  assumes "cache_ok env U c" and "set records \<subseteq> U" and "inj_on hc_digest U" and "0 \<le> limit"
  shows "cache_ok env U (snd (cached_roster env c room records limit)) \<and>
    fst (cached_roster env c room records limit) = Some
      (case replayHubRoster env records 0 of Inl e \<Rightarrow> Inl e | Inr _ \<Rightarrow> replayHubRoster env records limit)"
proof (cases "records = []")
  case True
  then show ?thesis using assms(1) by (simp add: cached_roster_def replayHubRoster_def)
next
  case False
  define l where "l = start_log c room records"
  define n where "n = length (vcl_digests l)"
  have l: "log_ok env (take n records) l" unfolding l_def n_def by (rule start_log_ok [OF assms(1-3)])
  obtain err l' where ext: "extend_log env l (drop n records) = (err, l')" by fastforce
  note spec = extend_log_spec [OF l ext]
  note eq = cached_roster_eq [OF False, of env c room limit, folded l_def, folded n_def, unfolded ext]
  note replay = replay_eq [OF assms(4) False, of env]
  show ?thesis
  proof (cases err)
    case (Some e)
    with spec obtain k where k: "log_ok env (take n records @ take k (drop n records)) l'"
      and fail: "rosters_of env zero_roster 0 records = Inl e" by auto
    have "set (take n records @ take k (drop n records)) \<subseteq> U"
      using assms(2) set_take_subset set_drop_subset by (metis Un_subset_iff set_append subset_trans)
    then have "cache_ok env U (fmupd room l' c)" using cache_ok_upd [OF assms(1) _ k] by simp
    with fail Some eq replay assms(1) show ?thesis by simp
  next
    case None
    with spec have ok: "log_ok env records l'" by simp
    then have rosters: "rosters_of env zero_roster 0 records = Inr (vcl_rosters l')" by (simp add: log_ok_def)
    have "length (vcl_rosters l') = length records" by (rule rosters_length [OF rosters])
    then have "last (vcl_rosters l') = vcl_rosters l' ! (length records - 1)"
      using False by (simp add: last_conv_nth [of "vcl_rosters l'"] flip: length_greater_0_conv)
    with None eq replay rosters cache_ok_upd [OF assms(1,2) ok] assms(4) show ?thesis by simp
  qed
qed

section \<open>The home and its members\<close>

definition member_wf :: "string \<Rightarrow> string \<Rightarrow> hub_member \<Rightarrow> bool" where
  "member_wf home n m \<longleftrightarrow>
     hm_network_id m = n \<and> key_matches (hm_public_key m) (hm_fingerprint m) \<and> (n \<noteq> home \<longrightarrow> ValidMemberRole (hm_role m))"

definition roster_wf :: "hub_roster \<Rightarrow> bool" where
  "roster_wf r \<longleftrightarrow>
     ParseGlobalRoomID (ros_global_room_id r) = Inr (ros_home_fingerprint r, ros_room_id r) \<and>
     NetworkKeyFingerprint (ros_home_key r) = ros_home_fingerprint r \<and>
     ValidRoomHistory (ros_history r) \<and>
     (case fmlookup (ros_members r) (ros_home_network_id r) of
        None \<Rightarrow> False
      | Some m \<Rightarrow> hm_role m = RoomRoleOwner \<and> hm_fingerprint m = ros_home_fingerprint r) \<and>
     (\<forall>n m. fmlookup (ros_members r) n = Some m \<longrightarrow>
        member_wf (ros_home_network_id r) n m \<and> (n \<noteq> [] \<longrightarrow> n |\<in>| ros_ever r))"

lemma shape_facts:
  assumes "validateRoomControlShape e = None"
  shows "rc_kind e \<in> {RoomControlGenesis, RoomControlSetPolicy} \<Longrightarrow> ValidRoomHistory (rc_history e)"
    "rc_kind e \<in> {RoomControlGenesis, RoomControlAdd} \<Longrightarrow> key_matches (rc_public_key e) (rc_fingerprint e)"
    "rc_kind e \<in> {RoomControlAdd, RoomControlSetRole} \<Longrightarrow> ValidMemberRole (rc_role e)"
    "rc_kind e \<notin> {RoomControlGenesis, RoomControlAdd} \<Longrightarrow> rc_public_key e = []"
    "\<not> isl (ParseGlobalRoomID (rc_global_room_id e))"
  using assms by (auto simp: validateRoomControlShape_def Let_def split: if_splits)

text \<open>The kinds of event after genesis, with what each needs.\<close>

lemma apply_event_cases:
  assumes "apply_event r key d e = Inr r'" and "rc_seq e \<noteq> 1"
  obtains
    (add) m where "rc_kind e = RoomControlAdd" "m = event_member e (rc_role e)" "rc_network_id e \<noteq> ros_home_network_id r"
      "fmlookup (ros_members r) (rc_network_id e) = None"
      "ros_members r' = fmupd (rc_network_id e) m (ros_members r)" "ros_history r' = ros_history r"
  | (remove) "rc_kind e \<in> {RoomControlRemove, RoomControlLeave}" "rc_network_id e \<noteq> ros_home_network_id r"
      "ros_members r' = fmdrop (rc_network_id e) (ros_members r)" "ros_history r' = ros_history r"
  | (set_role) m where "rc_kind e = RoomControlSetRole" "fmlookup (ros_members r) (rc_network_id e) = Some m"
      "rc_network_id e \<noteq> ros_home_network_id r"
      "ros_members r' = fmupd (rc_network_id e) (m\<lparr>hm_role := rc_role e\<rparr>) (ros_members r)" "ros_history r' = ros_history r"
  | (set_policy) "rc_kind e = RoomControlSetPolicy" "ros_members r' = ros_members r" "ros_history r' = rc_history e"
  using assms by (auto simp: apply_event_def Let_def split: if_splits option.splits prod.splits sum.splits)

lemma apply_event_frame:
  assumes "apply_event r key d e = Inr r'" and "rc_seq e \<noteq> 1"
  shows "ros_global_room_id r' = ros_global_room_id r \<and> ros_room_id r' = ros_room_id r \<and>
    ros_home_network_id r' = ros_home_network_id r \<and> ros_home_fingerprint r' = ros_home_fingerprint r \<and>
    ros_home_key r' = ros_home_key r \<and>
    ros_ever r' = (if rc_network_id e \<noteq> [] then finsert (rc_network_id e) (ros_ever r) else ros_ever r)"
  using assms by (auto simp: apply_event_def Let_def split: if_splits option.splits prod.splits sum.splits)

lemma apply_event_wf:
  assumes wf: "roster_wf r" and ev: "apply_event r key d e = Inr r'" "rc_seq e \<noteq> 1"
    and shape: "validateRoomControlShape e = None"
  shows "roster_wf r'"
proof -
  note frame = apply_event_frame [OF ev]
  note facts = shape_facts [OF shape]
  from ev show ?thesis
  proof (cases rule: apply_event_cases)
    case (add m)
    then have "member_wf (ros_home_network_id r) (rc_network_id e) m"
      using facts(2,3) by (simp add: member_wf_def event_member_def)
    with wf add frame show ?thesis by (auto simp: roster_wf_def split: option.splits)
  next
    case remove
    with wf frame show ?thesis by (auto simp: roster_wf_def split: option.splits)
  next
    case (set_role m)
    then have "member_wf (ros_home_network_id r) (rc_network_id e) (m\<lparr>hm_role := rc_role e\<rparr>)"
      using facts(3) wf by (auto simp: member_wf_def roster_wf_def)
    with wf set_role frame show ?thesis by (auto simp: roster_wf_def split: option.splits)
  next
    case set_policy
    with wf facts(1) frame show ?thesis by (auto simp: roster_wf_def split: option.splits)
  qed
qed

text \<open>A log that starts with an \<open>add\<close> ends there: the roster it leaves names no home and no key.\<close>

definition homeless :: "hub_roster \<Rightarrow> bool" where
  "homeless r \<longleftrightarrow> ros_home_key r = [] \<and> ros_global_room_id r = []"

lemma first_event_wf:
  assumes "applyHubControl env zero_roster x = Inr r" and "hc_seq x = 1"
  shows "roster_wf r \<or> homeless r"
proof -
  obtain key e where key: "control_key env zero_roster x = Inr key"
    and verified: "VerifyRoomControl env (hc_control x) key = Inr (e, hc_digest x)"
    and e: "apply_event zero_roster key (hc_digest x) e = Inr r"
    using apply_success [OF assms(1)] by metis
  have shape: "validateRoomControlShape e = None" using control_verified [OF verified] by blast
  note facts = shape_facts [OF shape]
  have pk: "ParseNetworkPublicKey (rc_public_key e) = Some key"
    using key verified assms(2)
    by (auto simp: control_key_def VerifyRoomControl_def split: sum.splits option.splits if_splits)
  show ?thesis
  proof (cases "rc_kind e = RoomControlGenesis")
    case True
    then have "NetworkKeyFingerprint key = rc_fingerprint e" "key_matches (rc_public_key e) (rc_fingerprint e)"
      "ValidRoomHistory (rc_history e)"
      using facts pk by (auto simp: key_matches_def)
    with True e facts(5) show ?thesis
      by (auto simp: apply_event_def Let_def roster_wf_def member_wf_def event_member_def zero_roster_def
          split: sum.splits if_splits prod.splits)
  next
    case False
    then show ?thesis using e
      by (auto simp: apply_event_def Let_def homeless_def zero_roster_def split: if_splits option.splits)
  qed
qed

lemma apply_wf:
  assumes "applyHubControl env r x = Inr r'" and "roster_wf r \<or> homeless r" and "hc_seq x \<noteq> 1"
  shows "roster_wf r' \<and> roster_wf r"
proof -
  obtain key e where key: "control_key env r x = Inr key"
    and verified: "VerifyRoomControl env (hc_control x) key = Inr (e, hc_digest x)"
    and e: "rc_seq e = hc_seq x" "apply_event r key (hc_digest x) e = Inr r'"
    using apply_success [OF assms(1)] by metis
  have shape: "validateRoomControlShape e = None"
    and sig: "verifyDomainSignature env key roomControlSignatureDomain (hc_digest x) (src_signature (hc_control x))"
    using control_verified [OF verified] by blast+
  have "\<not> homeless r"
    using sig key assms(3) by (auto simp: homeless_def control_key_def verifyDomainSignature_def split: option.splits)
  with apply_event_wf [OF _ e(2) _ shape] assms(2,3) e(1) show ?thesis by auto
qed

lemma rosters_wf_from:
  "rosters_of env r i xs = Inr rs \<Longrightarrow> roster_wf r \<or> homeless r \<Longrightarrow> 0 < i \<Longrightarrow> \<forall>r' \<in> set rs. roster_wf r'"
proof (induction env r i xs arbitrary: rs rule: rosters_of.induct)
  case (2 env r i x xs)
  then obtain r' rs' where r: "hc_seq x = i + 1" "applyHubControl env r x = Inr r'"
      "rosters_of env r' (i + 1) xs = Inr rs'" "rs = r' # rs'"
    by (auto split: if_splits sum.splits)
  have "roster_wf r'" using apply_wf [OF r(2) "2.prems"(2)] r(1) "2.prems"(3) by simp
  with "2.IH" [OF _ r(2) r(3)] r "2.prems" show ?case by simp
qed simp

lemma rosters_wf:
  assumes "rosters_of env zero_roster 0 xs = Inr rs" and "r \<in> set rs"
  shows "roster_wf r \<or> homeless r"
proof (cases xs)
  case (Cons x ys)
  with assms(1) obtain r' rs' where r: "hc_seq x = 1" "applyHubControl env zero_roster x = Inr r'"
      "rosters_of env r' 1 ys = Inr rs'" "rs = r' # rs'"
    by (auto split: if_splits sum.splits)
  with first_event_wf [OF r(2,1)] rosters_wf_from [OF r(3)] assms(2) show ?thesis by auto
qed (use assms in simp)

lemma replay_in_rosters:
  assumes "replayHubRoster env xs limit = Inr r" and "limit \<le> 0"
  shows "\<exists>rs. rosters_of env zero_roster 0 xs = Inr rs \<and> r \<in> set rs \<and> r = last rs \<and> rs \<noteq> []"
proof -
  have ne: "xs \<noteq> []" using assms(1) by (auto simp: replayHubRoster_def)
  with assms obtain rs where rs: "rosters_of env zero_roster 0 xs = Inr rs" "r = last (zero_roster # rs)"
    by (auto simp: replayHubRoster_def replay_all split: sum.splits if_splits)
  moreover have "rs \<noteq> []" using rosters_length [OF rs(1)] ne by auto
  ultimately show ?thesis by auto
qed

text \<open>
  C12.
  Whatever control log verifies up to its head, the roster it yields is well formed: the global
  room id names the home key's own fingerprint, the home is a member with the role owner under
  that key, no other network is ever given that role, every member's key matches its
  fingerprint, every current member is on record as admitted, and the epoch is the number of
  events. The check the callers make, that the roster names the room, is the hypothesis on the
  global room id.
\<close>
theorem replayed_roster_well_formed:
  assumes "replayHubRoster env records 0 = Inr r" and "ros_global_room_id r \<noteq> []"
  shows "roster_wf r \<and> ros_epoch r = int (length records)"
proof -
  obtain rs where rs: "rosters_of env zero_roster 0 records = Inr rs" "r \<in> set rs" "r = last rs" "rs \<noteq> []"
    using replay_in_rosters [OF assms(1)] by auto
  have "ros_epoch (rs ! (length rs - 1)) = int (length rs)"
    using rosters_epoch [OF rs(1), of "length rs - 1"] rs(4) by (cases rs) auto
  with rs rosters_length [OF rs(1)] rosters_wf [OF rs(1,2)] assms(2) show ?thesis
    by (simp add: homeless_def last_conv_nth)
qed

section \<open>A room of one\<close>

text \<open>A signed genesis, on which the hypotheses of the properties can be checked.\<close>

definition sample_key :: string where
  "sample_key = replicate 32 (CHR ''k'')"

definition sample_genesis :: room_control_event where
  "sample_genesis =
     \<lparr>rc_v = RoomControlVersionV1, rc_global_room_id = GlobalRoomID (NetworkKeyFingerprint sample_key) ''research'',
      rc_seq = 1, rc_epoch = 1, rc_prev_hash = [], rc_kind = RoomControlGenesis, rc_network_id = ''home'',
      rc_fingerprint = NetworkKeyFingerprint sample_key, rc_public_key = EncodeNetworkPublicKey sample_key,
      rc_role = RoomRoleOwner, rc_history = ''from_join'', rc_created_at = ''2026-01-01T00:00:00Z''\<rparr>"

definition control_text :: "room_control_event \<Rightarrow> string" where
  "control_text e = writeCanonicalJSONValue (ge_format sample_env) (roomControlValue e)"

definition sample_signed_record :: "room_control_event \<Rightarrow> hub_control_record" where
  "sample_signed_record e =
     \<lparr>hc_global_room_id = rc_global_room_id e, hc_seq = rc_seq e,
      hc_digest = domainDigest roomControlDigestDomain (control_text e),
      hc_control = \<lparr>src_control = EncodeToString (control_text e), src_signature = EncodeToString (replicate 64 (CHR ''s''))\<rparr>\<rparr>"

abbreviation sample_record :: hub_control_record where
  "sample_record \<equiv> sample_signed_record sample_genesis"

lemma signed_record_verified:
  assumes "canonical (roomControlValue e)" and "validateRoomControlShape e = None"
  shows "ParseRoomControlUnverified sample_env (hc_control (sample_signed_record e)) = Inr (e, hc_digest (sample_signed_record e))"
    and "VerifyRoomControl sample_env (hc_control (sample_signed_record e)) sample_key = Inr (e, hc_digest (sample_signed_record e))"
proof -
  obtain m where m: "parseStrictCanonical sample_env control_fields (EncodeToString (control_text e)) = Some (control_text e, m)"
      "control_of m = e"
    using control_encoded [OF assms(1), of sample_env] unfolding control_text_def by blast
  show parse: "ParseRoomControlUnverified sample_env (hc_control (sample_signed_record e)) = Inr (e, hc_digest (sample_signed_record e))"
    using canonical_read(1) [OF assms(1), of "ge_format sample_env"]
    by (simp add: ParseRoomControlUnverified_def sample_signed_record_def m assms(2) Let_def flip: control_text_def)
  have "verifyDomainSignature sample_env sample_key d x (EncodeToString (replicate 64 (CHR ''s'')))" for d x
    using verify_signed [OF sample_signer] by (simp add: sample_key_def)
  with parse show "VerifyRoomControl sample_env (hc_control (sample_signed_record e)) sample_key =
      Inr (e, hc_digest (sample_signed_record e))"
    by (simp add: VerifyRoomControl_def) (simp add: sample_signed_record_def)
qed

lemma ParseNetworkPublicKey_Encode:
  assumes "length key = 32"
  shows "ParseNetworkPublicKey (EncodeNetworkPublicKey key) = Some key"
proof -
  have "graphic c" if "c \<in> set b64_alphabet" for c
    using that by (auto simp: b64_alphabet_def graphic_def less_eq_char_def)
  then have "trim_space (EncodeToString key) = EncodeToString key"
    using set_EncodeToString [of key] by (intro trim_space_graphic) auto
  with assms show ?thesis by (simp add: ParseNetworkPublicKey_def EncodeNetworkPublicKey_def Decode_Encode)
qed

lemma hex_digit_chars: "c \<in> hex_digits \<Longrightarrow> lower_hex c \<and> byte_in 0 0x7F c"
  by (auto simp: hex_digits_def lower_hex_def byte_in_def less_eq_char_def)

lemma fingerprint_chars:
  "canonical_fingerprint (NetworkKeyFingerprint key)" "list_all (byte_in 0 0x7F) (NetworkKeyFingerprint key)"
proof -
  have "\<forall>c \<in> set (hex_encode (sha256 key)). lower_hex c \<and> byte_in 0 0x7F c"
    using set_hex_encode [of "sha256 key"] hex_digit_chars by auto
  then show "canonical_fingerprint (NetworkKeyFingerprint key)" "list_all (byte_in 0 0x7F) (NetworkKeyFingerprint key)"
    by (auto simp: canonical_fingerprint_def NetworkKeyFingerprint_def list_all_iff byte_in_def)
qed

lemma research_room: "ParseGlobalRoomID (GlobalRoomID (NetworkKeyFingerprint key) ''research'') =
    Inr (NetworkKeyFingerprint key, ''research'')"
  unfolding ParseGlobalRoomID_iff
  by (simp add: fingerprint_chars ValidateRoomID_def ValidateMessageID_None messageIDPattern_def id_first_def id_char_def
      less_eq_char_def)

lemma sample_parse: "ParseNetworkPublicKey (EncodeNetworkPublicKey sample_key) = Some sample_key"
  by (rule ParseNetworkPublicKey_Encode) (simp add: sample_key_def)

lemma sample_matches: "key_matches (EncodeNetworkPublicKey sample_key) (NetworkKeyFingerprint sample_key)"
  by (simp add: key_matches_def sample_parse)

lemma sample_genesis_shape: "validateRoomControlShape sample_genesis = None"
  by (simp add: validateRoomControlShape_def sample_genesis_def research_room sample_matches ValidRoomHistory_def
      ValidateNetworkNamespace_def Let_def) code_simp

lemma alphabet_ascii: "c \<in> set b64_alphabet \<Longrightarrow> byte_in 0 0x7F c"
  by (auto simp: b64_alphabet_def byte_in_def)

lemma sample_genesis_canonical: "canonical (roomControlValue sample_genesis)"
proof -
  have "list_all (byte_in 0 0x7F) (EncodeToString sample_key)"
    using set_EncodeToString [of sample_key] alphabet_ascii by (auto simp: list_all_iff)
  then show ?thesis
    by (simp add: roomControlValue_def putString_def sample_genesis_def ascii_valid utf16Less_def utf16_units_ascii
        byte_in_def fingerprint_chars GlobalRoomID_def EncodeNetworkPublicKey_def)
qed

lemmas sample_record_verified = signed_record_verified [OF sample_genesis_canonical sample_genesis_shape]

lemma GlobalRoomID_nonempty: "GlobalRoomID f r \<noteq> []"
  by (simp add: GlobalRoomID_def)

lemma sample_applied: "\<exists>r. applyHubControl sample_env zero_roster sample_record = Inr r \<and>
    ros_global_room_id r = rc_global_room_id sample_genesis \<and> ros_global_room_id r \<noteq> [] \<and>
    ''home'' |\<in>| fmdom (ros_members r) \<and> ros_head_digest r = hc_digest sample_record"
proof -
  have key: "control_key sample_env zero_roster sample_record = Inr sample_key"
    using sample_record_verified(1) by (simp add: control_key_def sample_genesis_def sample_parse) (simp add: sample_signed_record_def sample_genesis_def)
  then show ?thesis using sample_record_verified(2)
    by (simp add: applyHubControl_def key) (simp add: sample_signed_record_def zero_roster_def sample_genesis_def apply_event_def
        Let_def research_room GlobalRoomID_nonempty)
qed

lemma sample_replayed: "\<exists>r. replayHubRoster sample_env [sample_record] 0 = Inr r \<and>
    ros_global_room_id r = rc_global_room_id sample_genesis \<and> ros_global_room_id r \<noteq> [] \<and>
    ''home'' |\<in>| fmdom (ros_members r) \<and> ros_head_digest r = hc_digest sample_record"
proof -
  have "hc_seq sample_record = 1" by (simp add: sample_signed_record_def sample_genesis_def)
  with sample_applied show ?thesis by (auto simp: replayHubRoster_def)
qed

theorem replayed_roster_well_formed_witness:
  "\<exists>r. replayHubRoster sample_env [sample_record] 0 = Inr r \<and> roster_wf r \<and> ros_epoch r = 1"
proof -
  obtain r where "replayHubRoster sample_env [sample_record] 0 = Inr r" "ros_global_room_id r \<noteq> []"
    using sample_replayed by blast
  with replayed_roster_well_formed [OF this] show ?thesis by auto
qed

theorem roster_cache_exact_witness:
  "fst (cached_roster sample_env fmempty ''room'' [sample_record] 0) = Some (replayHubRoster sample_env [sample_record] 0)"
proof -
  have "fst (cached_roster sample_env fmempty ''room'' [sample_record] 0) = Some
      (case replayHubRoster sample_env [sample_record] 0 of
         Inl e \<Rightarrow> Inl e | Inr _ \<Rightarrow> replayHubRoster sample_env [sample_record] 0)"
    using roster_cache_exact [of sample_env "{sample_record}" fmempty "[sample_record]" 0 "''room''"]
    by (simp add: cache_ok_def)
  with sample_replayed show ?thesis by auto
qed

text \<open>
  The comment on the replay says that the records start at genesis; no check enforces it. A log
  of one self-signed \<open>add\<close> is accepted, and leaves a roster with a member and without a home.
\<close>

definition sample_add :: room_control_event where
  "sample_add = sample_genesis\<lparr>rc_kind := RoomControlAdd, rc_role := ''writer'', rc_history := []\<rparr>"

lemma sample_add_shape: "validateRoomControlShape sample_add = None"
  by (simp add: validateRoomControlShape_def sample_add_def sample_genesis_def research_room sample_matches
      ValidateNetworkNamespace_def ValidMemberRole_def Let_def) code_simp

lemma sample_add_canonical: "canonical (roomControlValue sample_add)"
  using sample_genesis_canonical
  by (simp add: roomControlValue_def putString_def sample_add_def sample_genesis_def ascii_valid utf16Less_def
      utf16_units_ascii byte_in_def GlobalRoomID_def EncodeNetworkPublicKey_def fingerprint_chars)

theorem log_without_genesis_accepted:
  "\<exists>r. replayHubRoster sample_env [sample_signed_record sample_add] 0 = Inr r \<and> ros_home_network_id r = [] \<and>
     ''home'' |\<in>| fmdom (ros_members r)"
proof -
  note verified = signed_record_verified [OF sample_add_canonical sample_add_shape]
  have "control_key sample_env zero_roster (sample_signed_record sample_add) = Inr sample_key"
    using verified(1)
    by (simp add: control_key_def sample_add_def sample_genesis_def sample_parse)
      (simp add: sample_signed_record_def)
  with verified(2) show ?thesis
    by (simp add: replayHubRoster_def applyHubControl_def)
      (simp add: sample_signed_record_def zero_roster_def sample_add_def sample_genesis_def apply_event_def Let_def)
qed

end
