(* ===== verification/Roster_Access.thy ===== *)
theory Roster_Access
  imports Roster_Properties
begin

text \<open>
  What a head digest commits to, and what a network may read: its standing over the whole control
  log, derived from the same replay.
\<close>

section \<open>The hash chain\<close>

definition control_bytes :: "hub_control_record \<Rightarrow> string option" where
  "control_bytes x = DecodeString (src_control (hc_control x))"

definition collides :: "hub_control_record list \<Rightarrow> hub_control_record list \<Rightarrow> bool" where
  "collides xs ys \<longleftrightarrow>
     (\<exists>x \<in> set xs. \<exists>y \<in> set ys. \<exists>b b'. control_bytes x = Some b \<and> control_bytes y = Some b' \<and> b \<noteq> b' \<and>
        sha256 (roomControlDigestDomain @ b) = sha256 (roomControlDigestDomain @ b'))"

lemma rosters_snoc:
  assumes "rosters_of env zero_roster 0 (xs @ [x]) = Inr rs"
  obtains rs' r where "rosters_of env zero_roster 0 xs = Inr rs'" "hc_seq x = int (length xs) + 1"
    "applyHubControl env (last (zero_roster # rs')) x = Inr r" "rs = rs' @ [r]"
  using assms by (auto simp: rosters_append split: sum.splits if_splits)

lemma rosters_head:
  assumes "rosters_of env zero_roster 0 xs = Inr rs"
  shows "ros_head_digest (last (zero_roster # rs)) = (if xs = [] then [] else hc_digest (last xs))"
proof (cases xs rule: rev_cases)
  case Nil
  with assms show ?thesis by (simp add: zero_roster_def)
next
  case (snoc ys y)
  with assms obtain rs' r where "applyHubControl env (last (zero_roster # rs')) y = Inr r" "rs = rs' @ [r]"
    using rosters_snoc by metis
  with apply_epoch snoc show ?thesis by fastforce
qed

lemma applied_event:
  assumes "applyHubControl env r x = Inr r'"
  obtains e b where "control_bytes x = Some b" "CanonicalJSONBytes (ge_format env) (roomControlValue e) = Some b"
    "hc_digest x = domainDigest roomControlDigestDomain b" "rc_seq e = hc_seq x" "rc_prev_hash e = ros_head_digest r"
proof -
  obtain key e where e: "VerifyRoomControl env (hc_control x) key = Inr (e, hc_digest x)" "rc_seq e = hc_seq x"
      "rc_prev_hash e = ros_head_digest r"
    using apply_success [OF assms] by metis
  from control_verified [OF e(1)] that e(2,3) show ?thesis by (auto simp: control_bytes_def)
qed

lemma chain_commits:
  fixes env :: go_env
  shows "rosters_of env zero_roster 0 xs = Inr rs \<Longrightarrow> rosters_of env zero_roster 0 ys = Inr rs' \<Longrightarrow>
    xs \<noteq> [] \<Longrightarrow> ys \<noteq> [] \<Longrightarrow> hc_digest (last xs) = hc_digest (last ys) \<Longrightarrow> \<not> collides xs ys \<Longrightarrow>
    map control_bytes xs = map control_bytes ys \<and> map hc_digest xs = map hc_digest ys"
proof (induction xs arbitrary: ys rs rs' rule: rev_induct)
  case (snoc x xs)
  obtain zs y where ys: "ys = zs @ [y]" using snoc.prems(4) by (cases ys rule: rev_cases) auto
  obtain qs r where x: "rosters_of env zero_roster 0 xs = Inr qs" "hc_seq x = int (length xs) + 1"
      "applyHubControl env (last (zero_roster # qs)) x = Inr r"
    using rosters_snoc [OF snoc.prems(1)] by metis
  obtain qs' r' where y: "rosters_of env zero_roster 0 zs = Inr qs'" "hc_seq y = int (length zs) + 1"
      "applyHubControl env (last (zero_roster # qs')) y = Inr r'"
    using rosters_snoc [OF snoc.prems(2) [unfolded ys]] by metis
  obtain e b where e: "control_bytes x = Some b" "CanonicalJSONBytes (ge_format env) (roomControlValue e) = Some b"
      "hc_digest x = domainDigest roomControlDigestDomain b" "rc_seq e = hc_seq x"
      "rc_prev_hash e = ros_head_digest (last (zero_roster # qs))"
    using applied_event [OF x(3)] by metis
  obtain e' b' where e': "control_bytes y = Some b'" "CanonicalJSONBytes (ge_format env) (roomControlValue e') = Some b'"
      "hc_digest y = domainDigest roomControlDigestDomain b'" "rc_seq e' = hc_seq y"
      "rc_prev_hash e' = ros_head_digest (last (zero_roster # qs'))"
    using applied_event [OF y(3)] by metis
  have digest: "hc_digest x = hc_digest y" using snoc.prems(5) ys by simp
  then have "sha256 (roomControlDigestDomain @ b) = sha256 (roomControlDigestDomain @ b')"
    using e(3) e'(3) by (auto simp: domainDigest_def dest: hex_encode_inj)
  then have b: "b = b'" using snoc.prems(6) e(1) e'(1) ys unfolding collides_def by force
  then have "e = e'" using control_bytes_inj e(2) e'(2) by blast
  then have len: "length xs = length zs"
    and prev: "(if xs = [] then [] else hc_digest (last xs)) = (if zs = [] then [] else hc_digest (last zs))"
    using e(4,5) e'(4,5) x(2) y(2) rosters_head [OF x(1)] rosters_head [OF y(1)] by auto
  have "map control_bytes xs = map control_bytes zs \<and> map hc_digest xs = map hc_digest zs"
  proof (cases "xs = []")
    case False
    moreover have "\<not> collides xs zs" using snoc.prems(6) ys unfolding collides_def by simp
    moreover have "zs \<noteq> []" using False len by auto
    ultimately show ?thesis using snoc.IH [OF x(1) y(1)] prev by simp
  qed (use len in simp)
  then show ?case using b digest e(1) e'(1) ys by simp
qed simp

lemma replay_head:
  assumes "replayHubRoster env xs 0 = Inr r"
  shows "\<exists>rs. rosters_of env zero_roster 0 xs = Inr rs \<and> xs \<noteq> [] \<and> ros_head_digest r = hc_digest (last xs)"
proof -
  obtain rs where rs: "rosters_of env zero_roster 0 xs = Inr rs" "r = last rs" "rs \<noteq> []"
    using replay_in_rosters [OF assms] by auto
  moreover have "xs \<noteq> []" using rosters_length [OF rs(1)] rs(3) by auto
  ultimately show ?thesis using rosters_head [OF rs(1)] by auto
qed

text \<open>
  C11.
  The head digest commits to the whole control log: two logs that verify and whose rosters have
  the same head digest hold, event by event, the same signed bytes, so that a home which shows
  two members different histories under one head has found two byte strings that collide under
  SHA-256; the collision would be among the logs' own control events.
\<close>
theorem head_digest_commits:
  fixes env :: go_env
  assumes "replayHubRoster env xs 0 = Inr r" and "replayHubRoster env ys 0 = Inr r'"
    and "ros_head_digest r = ros_head_digest r'" and "\<not> collides xs ys"
  shows "map control_bytes xs = map control_bytes ys \<and> map hc_digest xs = map hc_digest ys"
proof -
  obtain rs where x: "rosters_of env zero_roster 0 xs = Inr rs" "xs \<noteq> []" "ros_head_digest r = hc_digest (last xs)"
    using replay_head [OF assms(1)] by blast
  obtain rs' where y: "rosters_of env zero_roster 0 ys = Inr rs'" "ys \<noteq> []" "ros_head_digest r' = hc_digest (last ys)"
    using replay_head [OF assms(2)] by blast
  show ?thesis using chain_commits [OF x(1) y(1) x(2) y(2)] x(3) y(3) assms(3,4) by simp
qed

theorem head_digest_commits_witness:
  "\<not> collides [sample_record] [sample_record] \<and>
   map hc_digest [sample_record] = map hc_digest [sample_record\<lparr>hc_global_room_id := ''x''\<rparr>]"
proof -
  obtain r where r: "replayHubRoster sample_env [sample_record] 0 = Inr r" using sample_replayed by blast
  have nc: "\<not> collides [sample_record] [sample_record]" by (auto simp: collides_def)
  have "map hc_digest [sample_record] = map hc_digest [sample_record]"
    using head_digest_commits [OF r r refl nc] by blast
  with nc show ?thesis by simp
qed

section \<open>Standing\<close>

lemma last_true_le: "last_true m n \<le> n"
  by (induction n) (auto intro: le_SucI)

lemma last_true_member: "last_true m n = Suc k \<Longrightarrow> m ! k"
  by (induction n) (auto split: if_splits)

lemma last_true_above: "last_true m n < Suc k \<Longrightarrow> k < n \<Longrightarrow> \<not> m ! k"
  by (induction n) (auto split: if_splits simp: less_Suc_eq)

lemma lastMemberEpoch_bounds: "0 \<le> lastMemberEpoch a \<and> lastMemberEpoch a \<le> int (length (ha_member a))"
  by (simp add: lastMemberEpoch_def last_true_le)

lemma lastMemberEpoch_member: "0 < lastMemberEpoch a \<Longrightarrow> memberAt a (lastMemberEpoch a)"
proof -
  assume "0 < lastMemberEpoch a"
  then obtain k where k: "last_true (ha_member a) (length (ha_member a)) = Suc k"
    by (cases "last_true (ha_member a) (length (ha_member a))") (auto simp: lastMemberEpoch_def)
  then have "Suc k \<le> length (ha_member a)" using last_true_le [of "ha_member a" "length (ha_member a)"] by simp
  with k last_true_member [OF k] show ?thesis by (simp add: memberAt_def lastMemberEpoch_def)
qed

lemma memberAt_last: "memberAt a e \<Longrightarrow> e \<le> lastMemberEpoch a"
proof (rule ccontr)
  assume m: "memberAt a e" and "\<not> e \<le> lastMemberEpoch a"
  then have "last_true (ha_member a) (length (ha_member a)) < Suc (nat (e - 1))" "nat (e - 1) < length (ha_member a)"
    by (auto simp: memberAt_def lastMemberEpoch_def)
  with last_true_above m show False by (auto simp: memberAt_def)
qed

lemma later_member: "(\<exists>e'. e < e' \<and> memberAt a e') \<longleftrightarrow> e < lastMemberEpoch a" if "0 \<le> e"
  using memberAt_last lastMemberEpoch_member that by (metis order_le_less_trans order_less_le_trans)

text \<open>Standing is what the replay says at every epoch.\<close>

lemma access_loop_eq:
  "access_loop env network r i xs a =
     (case rosters_of env r i xs of
        Inl e \<Rightarrow> Inl e
      | Inr rs \<Rightarrow> Inr (a\<lparr>ha_member := ha_member a @ map (\<lambda>r. network |\<in>| fmdom (ros_members r)) rs,
                        ha_full_history := ha_full_history a @ map (\<lambda>r. ros_history r = ''full_history'') rs\<rparr>))"
  by (induction env network r i xs a rule: access_loop.induct) (auto split: sum.split)

lemma hubAccessFor_eq:
  "hubAccessFor env xs network =
     (case rosters_of env zero_roster 0 xs of
        Inl e \<Rightarrow> Inl e
      | Inr rs \<Rightarrow> Inr \<lparr>ha_member = map (\<lambda>r. network |\<in>| fmdom (ros_members r)) rs,
                      ha_full_history = map (\<lambda>r. ros_history r = ''full_history'') rs\<rparr>)"
  by (simp add: hubAccessFor_def access_loop_eq split: sum.split)

lemma access_replay:
  assumes "rosters_of env zero_roster 0 xs = Inr rs" and "1 \<le> e" and "e \<le> int (length xs)"
  shows "replayHubRoster env xs e = Inr (rs ! nat (e - 1))"
proof -
  have ne: "xs \<noteq> []" using assms by auto
  have "replayHubRoster env xs 0 \<noteq> Inl err" for err using assms(1) ne by (auto simp: replayHubRoster_def replay_all)
  then obtain r where "replayHubRoster env xs 0 = Inr r" by (cases "replayHubRoster env xs 0") auto
  with replay_eq [of e xs env] assms ne show ?thesis by simp
qed

lemma replay_beyond:
  assumes "rosters_of env zero_roster 0 xs = Inr rs" and "int (length xs) < e"
  shows "replayHubRoster env xs e \<noteq> Inr r"
proof (cases "xs = []")
  case False
  then have "replayHubRoster env xs 0 \<noteq> Inl err" for err using assms(1) by (auto simp: replayHubRoster_def replay_all)
  then obtain r0 where "replayHubRoster env xs 0 = Inr r0" by (cases "replayHubRoster env xs 0") auto
  with replay_eq [of e xs env] assms False show ?thesis by simp
qed (simp add: replayHubRoster_def)

text \<open>
  C13.
  History is served by standing: when the control log verifies, a message placed at an epoch is
  visible to a network exactly when the roster replayed at that epoch has the network as a
  member, or ran under full history and some roster replayed at a later epoch has it; so nothing
  placed after a network's last membership is ever served to it, whatever cursor it asks with.
\<close>
theorem message_visible_exact:
  assumes "hubAccessFor env records network = Inr a"
  shows "messageVisible a epoch \<longleftrightarrow>
    (\<exists>r. 1 \<le> epoch \<and> replayHubRoster env records epoch = Inr r \<and>
       (network |\<in>| fmdom (ros_members r) \<or>
        ros_history r = ''full_history'' \<and>
        (\<exists>later r'. epoch < later \<and> replayHubRoster env records later = Inr r' \<and> network |\<in>| fmdom (ros_members r'))))"
proof -
  obtain rs where rs: "rosters_of env zero_roster 0 records = Inr rs"
    and a: "ha_member a = map (\<lambda>r. network |\<in>| fmdom (ros_members r)) rs"
      "ha_full_history a = map (\<lambda>r. ros_history r = ''full_history'') rs"
    using assms by (auto simp: hubAccessFor_eq split: sum.splits)
  note len = rosters_length [OF rs]
  have at: "replayHubRoster env records e = Inr r \<longleftrightarrow> e \<le> int (length rs) \<and> r = rs ! nat (e - 1)" if "1 \<le> e" for e r
  proof (cases "e \<le> int (length records)")
    case True
    with access_replay [OF rs that] len show ?thesis by auto
  next
    case False
    then show ?thesis using replay_beyond [OF rs, of e] len by simp
  qed
  have member: "memberAt a e \<longleftrightarrow> 1 \<le> e \<and> (\<exists>r. replayHubRoster env records e = Inr r \<and> network |\<in>| fmdom (ros_members r))" for e
  proof (cases "1 \<le> e \<and> e \<le> int (length rs)")
    case True
    then have "nat (e - 1) < length rs" by auto
    with True at [of e "rs ! nat (e - 1)"] show ?thesis by (auto simp: memberAt_def a)
  next
    case False
    then show ?thesis using at [of e] by (auto simp: memberAt_def a)
  qed
  have "messageVisible a epoch \<longleftrightarrow> memberAt a epoch \<or>
      1 \<le> epoch \<and> epoch \<le> int (length rs) \<and> ros_history (rs ! nat (epoch - 1)) = ''full_history'' \<and>
      (\<exists>later. epoch < later \<and> memberAt a later)"
    using later_member [of epoch a] by (auto simp: messageVisible_def a)
  also have "\<dots> \<longleftrightarrow> (\<exists>r. 1 \<le> epoch \<and> replayHubRoster env records epoch = Inr r \<and>
       (network |\<in>| fmdom (ros_members r) \<or>
        ros_history r = ''full_history'' \<and>
        (\<exists>later r'. epoch < later \<and> replayHubRoster env records later = Inr r' \<and> network |\<in>| fmdom (ros_members r'))))"
  proof (cases "1 \<le> epoch \<and> epoch \<le> int (length rs)")
    case True
    then have "replayHubRoster env records epoch = Inr (rs ! nat (epoch - 1))" using at by blast
    with True show ?thesis unfolding member by (simp; force)
  next
    case False
    then have "\<not> (1 \<le> epoch \<and> replayHubRoster env records epoch = Inr r)" for r using at by blast
    with False show ?thesis unfolding member by blast
  qed
  finally show ?thesis .
qed

theorem message_visible_exact_witness:
  "\<exists>a. hubAccessFor sample_env [sample_record] ''home'' = Inr a \<and> messageVisible a 1"
proof -
  obtain r where r: "applyHubControl sample_env zero_roster sample_record = Inr r" "''home'' |\<in>| fmdom (ros_members r)"
    using sample_applied by blast
  have seq: "hc_seq sample_record = 1" by (simp add: sample_signed_record_def sample_genesis_def)
  have rs: "rosters_of sample_env zero_roster 0 [sample_record] = Inr [r]" using r seq by simp
  then obtain a where a: "hubAccessFor sample_env [sample_record] ''home'' = Inr a" by (simp add: hubAccessFor_eq)
  have "replayHubRoster sample_env [sample_record] 1 = Inr r" using access_replay [OF rs, of 1] by simp
  with message_visible_exact [OF a, of 1] a r(2) show ?thesis by auto
qed

text \<open>
  A network that is no longer a member may read the control log up to the event that ended its
  last membership, and a current member all of it.
\<close>

lemma current_last: "current_member a \<longleftrightarrow> ha_member a \<noteq> [] \<and> lastMemberEpoch a = int (length (ha_member a))"
proof (cases "ha_member a" rule: rev_cases)
  case (snoc m x)
  then show ?thesis using last_true_le [of "m @ [x]" "length m"]
    by (auto simp: current_member_def lastMemberEpoch_def nth_append)
qed (simp add: current_member_def)

end
