(* ===== verification/Auth_Claims.thy ===== *)
theory Auth_Claims
  imports Hub_Signing
begin

text \<open>
  Credentials and the authentication policy: \<open>internal/auth\<close> (\<open>claims.go\<close>, \<open>context.go\<close>,
  \<open>policy.go\<close>, \<open>token.go\<close>, \<open>origin.go\<close>). The maps of scopes and agents are finite sets. A request
  context is the record \<open>request_context\<close> of the values the middleware puts there. What the code
  takes from \<open>net/url\<close>, \<open>net\<close> and \<open>net/http\<close> (parsed URLs, split addresses, the headers of a
  request) are arguments.
\<close>

section \<open>Claims\<close>

abbreviation ScopeObserve :: string where "ScopeObserve \<equiv> ''observe''"
abbreviation ScopeWrite :: string where "ScopeWrite \<equiv> ''write''"
abbreviation ScopeAdmin :: string where "ScopeAdmin \<equiv> ''admin''"
abbreviation ScopeAttach :: string where "ScopeAttach \<equiv> ''attach''"
abbreviation ScopePair :: string where "ScopePair \<equiv> ''pair''"
abbreviation ModeNone :: string where "ModeNone \<equiv> ''none''"
abbreviation ModeBearer :: string where "ModeBearer \<equiv> ''bearer''"
abbreviation ModeOpen :: string where "ModeOpen \<equiv> ''open''"
abbreviation AgentRegistrationDisabled :: string where "AgentRegistrationDisabled \<equiv> ''disabled''"
abbreviation AgentRegistrationToken :: string where "AgentRegistrationToken \<equiv> ''token''"
abbreviation AgentRegistrationOpen :: string where "AgentRegistrationOpen \<equiv> ''open''"
abbreviation AgentTokenPrefix :: string where "AgentTokenPrefix \<equiv> ''magt_v1_''"

record claims =
  cl_token_id :: string
  cl_credential_key :: string
  cl_network :: string
  cl_scopes :: "string fset"
  cl_agents :: "string fset"

definition Allows :: "claims \<Rightarrow> string \<Rightarrow> bool" where
  "Allows c scope \<longleftrightarrow> cl_scopes c \<noteq> {||} \<and> scope |\<in>| cl_scopes c"

definition AllowsAny :: "claims \<Rightarrow> string list \<Rightarrow> bool" where
  "AllowsAny c scopes \<longleftrightarrow> list_ex (Allows c) scopes"

definition Operator :: "claims \<Rightarrow> bool" where
  "Operator c \<longleftrightarrow> Allows c ScopeAdmin \<and> Allows c ScopeWrite"

definition AllowsAgent :: "claims \<Rightarrow> string \<Rightarrow> bool" where
  "AllowsAgent c agentID \<longleftrightarrow> cl_agents c = {||} \<or> trim_space agentID |\<in>| cl_agents c"

definition HasAgentRestriction :: "claims \<Rightarrow> bool" where
  "HasAgentRestriction c \<longleftrightarrow> cl_agents c \<noteq> {||}"

definition StaticToken :: "claims \<Rightarrow> bool" where
  "StaticToken c \<longleftrightarrow> has_prefix (trim_space (cl_credential_key c)) ''token:''"

definition AgentToken :: "claims \<Rightarrow> bool" where
  "AgentToken c \<longleftrightarrow> has_prefix (trim_space (cl_credential_key c)) ''agent-token:''"

definition AgentIDs :: "claims \<Rightarrow> string list" where
  "AgentIDs c = filter (\<lambda>a. trim_space a \<noteq> []) (sorted_list_of_fset (cl_agents c))"

record token_config =
  tc_id :: string
  tc_value :: string
  tc_network :: string
  tc_scopes :: "string list"
  tc_agents :: "string list"

definition StaticCredentialKey :: "string \<Rightarrow> string" where
  "StaticCredentialKey tokenID = ''token:'' @ trim_space tokenID"

definition TokenConfigID :: "token_config \<Rightarrow> string" where
  "TokenConfigID token =
     (let i = trim_space (tc_id token)
      in if i \<noteq> [] then i else ''tok_'' @ hex_encode (take 8 (sha256 (trim_space (tc_value token)))))"

definition TokenConfigCredentialKey :: "token_config \<Rightarrow> string" where
  "TokenConfigCredentialKey token = StaticCredentialKey (TokenConfigID token)"

definition NewStaticClaims :: "token_config \<Rightarrow> claims" where
  "NewStaticClaims config =
     \<lparr>cl_token_id = trim_space (tc_id config),
      cl_credential_key = StaticCredentialKey (trim_space (tc_id config)),
      cl_network = trim_space (tc_network config),
      cl_scopes = fset_of_list (tc_scopes config),
      cl_agents = fset_of_list (filter (\<lambda>a. a \<noteq> []) (map trim_space (tc_agents config)))\<rparr>"

definition NewAgentTokenClaims :: "string \<Rightarrow> string \<Rightarrow> claims" where
  "NewAgentTokenClaims agentID credentialKey =
     \<lparr>cl_token_id = [], cl_credential_key = trim_space credentialKey, cl_network = [],
      cl_scopes = {|ScopeObserve, ScopeWrite, ScopeAttach|},
      cl_agents = (if trim_space agentID \<noteq> [] then {|trim_space agentID|} else {||})\<rparr>"

definition NewCredentialClaims :: "string \<Rightarrow> claims" where
  "NewCredentialClaims credentialKey =
     \<lparr>cl_token_id = [], cl_credential_key = trim_space credentialKey, cl_network = [], cl_scopes = {||}, cl_agents = {||}\<rparr>"

section \<open>The request context\<close>

record request_context =
  rx_claims :: "claims option"
  rx_mode :: "string option"
  rx_public_read :: "bool option"
  rx_registration :: "string option"

definition background :: request_context where
  "background = \<lparr>rx_claims = None, rx_mode = None, rx_public_read = None, rx_registration = None\<rparr>"

definition WithClaims :: "request_context \<Rightarrow> claims \<Rightarrow> request_context" where
  "WithClaims ctx c = ctx\<lparr>rx_claims := Some c\<rparr>"

definition WithMode :: "request_context \<Rightarrow> string \<Rightarrow> request_context" where
  "WithMode ctx mode = ctx\<lparr>rx_mode := Some (trim_space mode)\<rparr>"

definition ModeFromContext :: "request_context \<Rightarrow> string" where
  "ModeFromContext ctx =
     (case rx_mode ctx of
        None \<Rightarrow> ModeNone | Some mode \<Rightarrow> if trim_space mode = [] then ModeNone else trim_space mode)"

definition WithPublicRead :: "request_context \<Rightarrow> bool \<Rightarrow> request_context" where
  "WithPublicRead ctx enabled = ctx\<lparr>rx_public_read := Some enabled\<rparr>"

definition PublicReadFromContext :: "request_context \<Rightarrow> bool" where
  "PublicReadFromContext ctx \<longleftrightarrow> rx_public_read ctx = Some True"

definition WithAgentRegistration :: "request_context \<Rightarrow> string \<Rightarrow> request_context" where
  "WithAgentRegistration ctx policy = ctx\<lparr>rx_registration := Some (trim_space policy)\<rparr>"

definition AgentRegistrationFromContext :: "request_context \<Rightarrow> string" where
  "AgentRegistrationFromContext ctx =
     (case rx_registration ctx of
        None \<Rightarrow> AgentRegistrationDisabled
      | Some policy \<Rightarrow> if trim_space policy = [] then AgentRegistrationDisabled else trim_space policy)"

section \<open>Allowed origins\<close>

text \<open>A parsed URL is its scheme, host and path; an address splits into host and port.\<close>

record net_env =
  ne_parse_url :: "string \<Rightarrow> (string \<times> string \<times> string) option"
  ne_split_host_port :: "string \<Rightarrow> (string \<times> string) option"
  ne_join_host_port :: "string \<Rightarrow> string \<Rightarrow> string"

definition normalizeOrigin :: "net_env \<Rightarrow> string \<Rightarrow> string option" where
  "normalizeOrigin net value =
     (case ne_parse_url net (trim_space value) of
        None \<Rightarrow> None
      | Some (scheme, host, path) \<Rightarrow>
          if scheme = [] \<or> host = [] then None
          else if path \<noteq> [] \<and> path \<noteq> ''/'' then None
          else Some (scheme @ ''://'' @ host))"

definition trim_brackets :: "string \<Rightarrow> string" where
  "trim_brackets s =
     (let b = (\<lambda>c. c = CHR ''['' \<or> c = CHR '']'') in rev (dropWhile b (rev (dropWhile b s))))"

definition defaultOrigins :: "net_env \<Rightarrow> string \<Rightarrow> string list" where
  "defaultOrigins net listenAddr =
     (case ne_split_host_port net (trim_space listenAddr) of
        None \<Rightarrow> []
      | Some (host, port) \<Rightarrow>
          let trimmedHost = trim_space host;
              hosts = [''localhost'', ''127.0.0.1''] @
                (if trimmedHost \<noteq> [] \<and> trimmedHost \<noteq> ''0.0.0.0'' \<and> trimmedHost \<noteq> ''::''
                 then [trim_brackets trimmedHost] else [])
          in concat (map (\<lambda>item. [''http://'' @ ne_join_host_port net item port,
                                  ''https://'' @ ne_join_host_port net item port]) hosts))"

definition normalizeOrigins :: "net_env \<Rightarrow> string list \<Rightarrow> string \<Rightarrow> string list" where
  "normalizeOrigins net origins listenAddr =
     (let normalized = List.map_filter (normalizeOrigin net) origins
      in if normalized \<noteq> [] then normalized else defaultOrigins net listenAddr)"

section \<open>The policy\<close>

record auth_config =
  ac_mode :: string
  ac_public_read :: bool
  ac_agent_registration :: string
  ac_listen_addr :: string
  ac_allowed_origins :: "string list"
  ac_trust_forwarded_proto :: bool
  ac_require_pair_network_binding :: bool
  ac_tokens :: "token_config list"

record auth_policy =
  ap_mode :: string
  ap_public_read :: bool
  ap_agent_registration :: string
  ap_allowed_origins :: "string fset"
  ap_trust_forwarded_proto :: bool
  ap_tokens :: "(string \<times> token_config) list"

datatype policy_error =
    UnsupportedMode string
  | UnsupportedRegistration string
  | TokenRequired
  | BadTokenNetwork nat
  | BadTokenValue nat
  | NoTokenScopes nat
  | UnsupportedScope nat string

definition isSupportedScope :: "string \<Rightarrow> bool" where
  "isSupportedScope scope \<longleftrightarrow> scope \<in> set [ScopeObserve, ScopeWrite, ScopeAdmin, ScopeAttach, ScopePair]"

fun add_tokens :: "nat \<Rightarrow> token_config list \<Rightarrow> auth_policy \<Rightarrow> policy_error + auth_policy" where
  "add_tokens index [] p = Inr p"
| "add_tokens index (token # rest) p =
     (let v = trim_space (tc_value token)
      in if ValidateNetworkNamespace (tc_network token) \<noteq> None then Inl (BadTokenNetwork index)
         else if v = [] then Inl (BadTokenValue index)
         else if tc_scopes token = [] then Inl (NoTokenScopes index)
         else (case find (\<lambda>s. \<not> isSupportedScope s) (tc_scopes token) of
                 Some s \<Rightarrow> Inl (UnsupportedScope index s)
               | None \<Rightarrow>
                   add_tokens (Suc index) rest
                     (p\<lparr>ap_tokens := ap_tokens p @ [(sha256 v, token\<lparr>tc_id := TokenConfigID token\<rparr>)]\<rparr>)))"

definition NewPolicy :: "net_env \<Rightarrow> auth_config \<Rightarrow> policy_error + auth_policy" where
  "NewPolicy net config =
     (let mode = (if trim_space (ac_mode config) = [] then ModeNone else trim_space (ac_mode config))
      in if mode \<notin> set [ModeNone, ModeBearer, ModeOpen] then Inl (UnsupportedMode mode)
         else
           let registration0 = (if trim_space (ac_agent_registration config) = [] then AgentRegistrationDisabled
                                else trim_space (ac_agent_registration config));
               publicRead = (mode = ModeOpen \<or> ac_public_read config);
               registration = (if mode = ModeOpen then AgentRegistrationOpen else registration0)
           in if registration \<notin> set [AgentRegistrationDisabled, AgentRegistrationToken, AgentRegistrationOpen]
              then Inl (UnsupportedRegistration registration)
              else
                let policy = \<lparr>ap_mode = mode, ap_public_read = publicRead, ap_agent_registration = registration,
                      ap_allowed_origins = fset_of_list (normalizeOrigins net (ac_allowed_origins config) (ac_listen_addr config)),
                      ap_trust_forwarded_proto = ac_trust_forwarded_proto config, ap_tokens = []\<rparr>
                in if mode = ModeNone then Inr policy
                   else if mode = ModeBearer \<and> ac_tokens config = [] then Inl TokenRequired
                   else add_tokens 0 (ac_tokens config) policy)"

datatype auth_error = Unauthorized string | Forbidden string

definition lookupToken :: "auth_policy \<Rightarrow> string \<Rightarrow> token_config option" where
  "lookupToken p v = map_option snd (find (\<lambda>t. fst t = sha256 (trim_space v)) (ap_tokens p))"

definition StaticClaimsForToken :: "auth_policy \<Rightarrow> string \<Rightarrow> claims option" where
  "StaticClaimsForToken p v =
     (if ap_mode p = ModeNone then None else map_option NewStaticClaims (lookupToken p v))"

definition AuthenticateToken :: "auth_policy \<Rightarrow> string \<Rightarrow> string \<Rightarrow> auth_error + claims" where
  "AuthenticateToken p v scope =
     (case StaticClaimsForToken p v of
        None \<Rightarrow> Inl (Unauthorized ''invalid token'')
      | Some c \<Rightarrow> if \<not> Allows c scope then Inl (Forbidden ''forbidden'') else Inr c)"

text \<open>The parts of a request that carry a token: header, cookie, path and query parameter.\<close>

record token_request =
  tq_authorization :: string
  tq_cookie :: "string option"
  tq_path :: string
  tq_access_token :: string

definition allowsQueryAccessToken :: "token_request \<Rightarrow> bool" where
  "allowsQueryAccessToken r \<longleftrightarrow>
     trim_space (tq_path r) = ''/console'' \<or> has_prefix (trim_space (tq_path r)) ''/console/''"

definition RequestToken :: "token_request \<Rightarrow> auth_error + string option" where
  "RequestToken r =
     (let header = trim_space (tq_authorization r)
      in if header \<noteq> [] then
           (if \<not> has_prefix header ''Bearer '' then Inl (Unauthorized ''invalid authorization header'')
            else
              let token = trim_space (trim_prefix header ''Bearer '')
              in if token = [] then Inl (Unauthorized ''authorization token is required'') else Inr (Some token))
         else
           (case tq_cookie r of
              Some cookie \<Rightarrow>
                if trim_space cookie \<noteq> [] then Inr (Some (trim_space cookie))
                else if allowsQueryAccessToken r \<and> trim_space (tq_access_token r) \<noteq> []
                then Inr (Some (trim_space (tq_access_token r))) else Inr None
            | None \<Rightarrow>
                if allowsQueryAccessToken r \<and> trim_space (tq_access_token r) \<noteq> []
                then Inr (Some (trim_space (tq_access_token r))) else Inr None))"

definition zero_claims :: claims where
  "zero_claims = NewCredentialClaims []"

definition AuthenticateRequest :: "auth_policy \<Rightarrow> token_request \<Rightarrow> string \<Rightarrow> auth_error + claims" where
  "AuthenticateRequest p request scope =
     (if ap_mode p = ModeNone then Inr zero_claims
      else case RequestToken request of
             Inl e \<Rightarrow> Inl e
           | Inr None \<Rightarrow> Inl (Unauthorized ''authorization required'')
           | Inr (Some token) \<Rightarrow> AuthenticateToken p token scope)"

definition CheckOrigin :: "net_env \<Rightarrow> auth_policy \<Rightarrow> string \<Rightarrow> bool" where
  "CheckOrigin net p header =
     (let origin = trim_space header
      in if origin = [] then True
         else case normalizeOrigin net origin of None \<Rightarrow> False | Some o' \<Rightarrow> o' |\<in>| ap_allowed_origins p)"

definition AgentTokenCredentialKey :: "string \<Rightarrow> string" where
  "AgentTokenCredentialKey token = ''agent-token:'' @ hex_encode (sha256 (trim_space token))"

definition LooksLikeAgentToken :: "string \<Rightarrow> bool" where
  "LooksLikeAgentToken token \<longleftrightarrow> has_prefix (trim_space token) AgentTokenPrefix"

definition agent_token :: "string \<Rightarrow> string" where
  "agent_token randomBytes = AgentTokenPrefix @ EncodeToString randomBytes"

section \<open>What a policy grants\<close>

lemma Allows_iff [simp]: "Allows c s \<longleftrightarrow> s |\<in>| cl_scopes c"
  by (auto simp: Allows_def)

lemma Operator_iff: "Operator c \<longleftrightarrow> ScopeAdmin |\<in>| cl_scopes c \<and> ScopeWrite |\<in>| cl_scopes c"
  by (simp add: Operator_def)

lemma set_AgentIDs: "set (AgentIDs c) = {a. a |\<in>| cl_agents c \<and> trim_space a \<noteq> []}"
  by (auto simp: AgentIDs_def)

lemma agent_token_claims:
  "\<not> Operator (NewAgentTokenClaims a k)" "\<not> Allows (NewAgentTokenClaims a k) ScopePair"
  by (simp_all add: Operator_def NewAgentTokenClaims_def)

lemma add_tokens_tokens:
  "add_tokens i ts p = Inr p' \<Longrightarrow>
   ap_tokens p' = ap_tokens p @ map (\<lambda>t. (sha256 (trim_space (tc_value t)), t\<lparr>tc_id := TokenConfigID t\<rparr>)) ts \<and>
   ap_mode p' = ap_mode p \<and> (\<forall>t \<in> set ts. set (tc_scopes t) \<subseteq> Collect isSupportedScope)"
proof (induction i ts p rule: add_tokens.induct)
  case (2 i t ts p)
  then show ?case by (auto simp: Let_def find_None_iff split: if_splits option.splits)
qed simp

end
