(* ===== verification/Key_Pins.thy ===== *)
theory Key_Pins
  imports Hub_Signing
begin

text \<open>
  The trust store for the keys of other networks: \<open>internal/netkeys/pins.go\<close> and
  \<open>bindings.go\<close>. The store is the record of its two maps, the pins and the pairing bindings; the
  file-backed form reads the same maps from a file, changes them and writes them back under a
  lock, and checks on every read what \<open>pins_file_ok\<close> states. The clock is an argument.
  Shown: every operation leaves a store that can be read back, and a verified key stays.
\<close>

section \<open>Pins\<close>

abbreviation KeyTrustVerified :: string where "KeyTrustVerified \<equiv> ''verified''"
abbreviation KeyTrustIntroduced :: string where "KeyTrustIntroduced \<equiv> ''introduced''"
abbreviation KeyTrustUnconfirmed :: string where "KeyTrustUnconfirmed \<equiv> ''unconfirmed''"
abbreviation SignatureStateVerified :: string where "SignatureStateVerified \<equiv> ''verified''"
abbreviation SignatureStateIntroduced :: string where "SignatureStateIntroduced \<equiv> ''introduced''"
abbreviation SignatureStateUnconfirmed :: string where "SignatureStateUnconfirmed \<equiv> ''unconfirmed''"
abbreviation PinSourceInvite :: string where "PinSourceInvite \<equiv> ''invite''"
abbreviation PinSourcePairing :: string where "PinSourcePairing \<equiv> ''pairing''"
abbreviation PinSourceOperator :: string where "PinSourceOperator \<equiv> ''operator''"
abbreviation PinSourceRoom :: string where "PinSourceRoom \<equiv> ''room''"

record pin =
  pin_network_id :: string
  pin_fingerprint :: string
  pin_public_key :: string
  pin_trust :: string
  pin_source :: string
  pin_source_id :: string
  pin_introduced_by :: string
  pin_pinned_at :: time

record pin_store =
  pins :: "pin strmap"
  bindings :: "string list strmap"

definition NewMemoryPinStore :: pin_store where
  "NewMemoryPinStore = \<lparr>pins = fmempty, bindings = fmempty\<rparr>"

datatype pin_error =
    BadPinFingerprint validation_error
  | InvalidPin string
  | ErrPinConflict string string string

text \<open>The checks of \<open>validatePin\<close> on the key and on the trust level.\<close>

definition pin_key_error :: "pin \<Rightarrow> pin_error option" where
  "pin_key_error p =
     (if pin_public_key p = [] then None
      else case ParseNetworkPublicKey (pin_public_key p) of
             None \<Rightarrow> Some (InvalidPin ''public key'')
           | Some key \<Rightarrow> if NetworkKeyFingerprint key \<noteq> pin_fingerprint p
                         then Some (InvalidPin ''pin public key does not match its fingerprint'') else None)"

definition pin_trust_error :: "pin \<Rightarrow> pin_error option" where
  "pin_trust_error p =
     (if pin_trust p = KeyTrustVerified then
        (if pin_introduced_by p \<noteq> [] then Some (InvalidPin ''a verified pin cannot be introduced by a room home'')
         else None)
      else if pin_trust p = KeyTrustIntroduced then
        (if pin_introduced_by p = []
         then Some (InvalidPin ''an introduced pin must name the room home that introduced it'') else None)
      else if pin_trust p = KeyTrustUnconfirmed then
        (if pin_source p \<noteq> PinSourcePairing \<or> pin_introduced_by p \<noteq> []
         then Some (InvalidPin ''an unconfirmed pin comes only from first contact over a pairing'') else None)
      else Some (InvalidPin ''unsupported pin trust''))"

definition validatePin :: "pin \<Rightarrow> pin_error option" where
  "validatePin p =
     (if pin_network_id p \<noteq> trim_space (pin_network_id p)
      then Some (InvalidPin ''pin network id has surrounding whitespace'')
      else if ValidateNetworkNamespace (pin_network_id p) \<noteq> None then Some (InvalidPin ''pin network id'')
      else if pin_key_error p \<noteq> None then pin_key_error p
      else if pin_trust_error p \<noteq> None then pin_trust_error p
      else if pin_source p \<in> set [PinSourceInvite, PinSourcePairing, PinSourceOperator, PinSourceRoom] then None
      else Some (InvalidPin ''unsupported pin source''))"

text \<open>What \<open>decodePinsFile\<close> checks of each entry.\<close>

definition pin_ok :: "string \<Rightarrow> pin \<Rightarrow> bool" where
  "pin_ok key p \<longleftrightarrow>
     key = pin_network_id p \<and> NormalizeFingerprint (pin_fingerprint p) = Inr (pin_fingerprint p) \<and>
     pin_pinned_at p \<noteq> 0 \<and> validatePin p = None"

definition pins_file_ok :: "pin strmap \<Rightarrow> bool" where
  "pins_file_ok m \<longleftrightarrow> list_all (\<lambda>(key, p). pin_ok key p) (sorted_list_of_fmap m)"

section \<open>Reading\<close>

definition Lookup :: "string \<Rightarrow> pin_store \<Rightarrow> pin option" where
  "Lookup networkID s = fmlookup (pins s) (trim_space networkID)"

definition List_pins :: "pin_store \<Rightarrow> pin list" where
  "List_pins s = sort_key pin_network_id (fmvalues (pins s))"

definition pairingBindings :: "string \<Rightarrow> pin_store \<Rightarrow> string list" where
  "pairingBindings pairingID s = fmget [] (bindings s) pairingID"

definition PairingNetworks :: "string \<Rightarrow> pin_store \<Rightarrow> string list" where
  "PairingNetworks pairingID s =
     (if pairingID = [] then []
      else sort (fold (\<lambda>p known.
             if (pin_source p = PinSourcePairing \<or> pin_source p = PinSourceInvite) \<and>
                pin_source_id p = pairingID \<and> pin_network_id p \<notin> set known
             then known @ [pin_network_id p] else known) (List_pins s) (pairingBindings pairingID s)))"

section \<open>Changing\<close>

definition BindPairing :: "string \<Rightarrow> string \<Rightarrow> pin_store \<Rightarrow> pin_store" where
  "BindPairing pairingID0 networkID0 s =
     (let pairingID = trim_space pairingID0; networkID = trim_space networkID0
      in if pairingID = [] \<or> networkID = [] then s
         else if networkID \<in> set (pairingBindings pairingID s) then s
         else s\<lparr>bindings := fmupd pairingID (sort (pairingBindings pairingID s @ [networkID])) (bindings s)\<rparr>)"

definition ForgetPairing :: "string \<Rightarrow> pin_store \<Rightarrow> pin_store" where
  "ForgetPairing pairingID s = s\<lparr>bindings := fmdrop (trim_space pairingID) (bindings s)\<rparr>"

text \<open>The function \<open>PinKeyCreated\<close> gives to \<open>update\<close>: the pin stored and whether it is new.\<close>

definition pin_update :: "pin \<Rightarrow> pin strmap \<Rightarrow> pin_error + (pin \<times> bool)" where
  "pin_update p m =
     (case fmlookup m (pin_network_id p) of
        None \<Rightarrow> Inr (p, True)
      | Some existing \<Rightarrow>
          if pin_fingerprint existing \<noteq> pin_fingerprint p \<and> pin_trust existing \<noteq> KeyTrustVerified \<and>
             pin_trust p = KeyTrustVerified
          then Inr (p, True)
          else if pin_fingerprint existing \<noteq> pin_fingerprint p
          then Inl (ErrPinConflict (pin_network_id p) (pin_fingerprint existing) (pin_fingerprint p))
          else
            let keyed = (if pin_public_key existing = [] \<and> pin_public_key p \<noteq> []
                         then existing\<lparr>pin_public_key := pin_public_key p\<rparr> else existing);
                trusted = (if pin_trust keyed \<noteq> KeyTrustVerified \<and> pin_trust p = KeyTrustVerified
                           then keyed\<lparr>pin_trust := pin_trust p, pin_source := pin_source p,
                                      pin_source_id := pin_source_id p, pin_introduced_by := []\<rparr>
                           else keyed)
            in Inr (trusted, False))"

definition PinKeyCreated :: "time \<Rightarrow> pin \<Rightarrow> pin_store \<Rightarrow> (pin_error + (pin \<times> bool)) \<times> pin_store" where
  "PinKeyCreated now p0 s =
     (let p1 = p0\<lparr>pin_network_id := trim_space (pin_network_id p0)\<rparr>
      in case NormalizeFingerprint (pin_fingerprint p1) of
           Inl e \<Rightarrow> (Inl (BadPinFingerprint e), s)
         | Inr fingerprint \<Rightarrow>
             let p2 = p1\<lparr>pin_fingerprint := fingerprint\<rparr>
             in case validatePin p2 of
                  Some e \<Rightarrow> (Inl e, s)
                | None \<Rightarrow>
                    let p = (if pin_pinned_at p2 = 0 then p2\<lparr>pin_pinned_at := now\<rparr> else p2)
                    in case pin_update p (pins s) of
                         Inl e \<Rightarrow> (Inl e, s)
                       | Inr (stored, created) \<Rightarrow>
                           let s' = s\<lparr>pins := fmupd (pin_network_id p) stored (pins s)\<rparr>
                           in (Inr (stored, created),
                               if pin_source p = PinSourcePairing \<or> pin_source p = PinSourceInvite
                               then BindPairing (pin_source_id p) (pin_network_id p) s' else s'))"

definition PinKey :: "time \<Rightarrow> pin \<Rightarrow> pin_store \<Rightarrow> (pin_error + pin) \<times> pin_store" where
  "PinKey now p s =
     (case PinKeyCreated now p s of
        (Inl e, s') \<Rightarrow> (Inl e, s') | (Inr (stored, _), s') \<Rightarrow> (Inr stored, s'))"

definition ForgetExact :: "pin \<Rightarrow> pin_store \<Rightarrow> pin_store" where
  "ForgetExact p s =
     (case fmlookup (pins s) (pin_network_id p) of
        None \<Rightarrow> s
      | Some existing \<Rightarrow>
          if pin_fingerprint existing \<noteq> pin_fingerprint p \<or> pin_trust existing \<noteq> pin_trust p \<or>
             pin_source_id existing \<noteq> pin_source_id p \<or> pin_pinned_at existing \<noteq> pin_pinned_at p
          then s else s\<lparr>pins := fmdrop (pin_network_id p) (pins s)\<rparr>)"

definition Forget :: "string \<Rightarrow> pin_store \<Rightarrow> bool \<times> pin_store" where
  "Forget networkID s =
     (if trim_space networkID |\<in>| fmdom (pins s)
      then (True, s\<lparr>pins := fmdrop (trim_space networkID) (pins s)\<rparr>) else (False, s))"

section \<open>Frames\<close>

lemma pins_BindPairing [simp]: "pins (BindPairing a b s) = pins s"
  by (simp add: BindPairing_def Let_def)

lemma pins_ForgetPairing [simp]: "pins (ForgetPairing a s) = pins s"
  by (simp add: ForgetPairing_def)

lemma pins_file_ok_iff: "pins_file_ok m \<longleftrightarrow> (\<forall>k p. fmlookup m k = Some p \<longrightarrow> pin_ok k p)"
  by (auto simp: pins_file_ok_def list_all_iff set_sorted_list_of_fmap)

lemma pins_file_ok_upd: "pins_file_ok m \<Longrightarrow> pin_ok k p \<Longrightarrow> pins_file_ok (fmupd k p m)"
  by (auto simp: pins_file_ok_iff)

lemma pins_file_ok_drop: "pins_file_ok m \<Longrightarrow> pins_file_ok (fmdrop k m)"
  by (auto simp: pins_file_ok_iff split: if_splits)



section \<open>The store stays readable\<close>

definition pin_key_ok :: "pin \<Rightarrow> bool" where
  "pin_key_ok p \<longleftrightarrow> pin_public_key p = [] \<or>
     (\<exists>key. ParseNetworkPublicKey (pin_public_key p) = Some key \<and> NetworkKeyFingerprint key = pin_fingerprint p)"

definition pin_trust_ok :: "pin \<Rightarrow> bool" where
  "pin_trust_ok p \<longleftrightarrow>
     pin_trust p = KeyTrustVerified \<and> pin_introduced_by p = [] \<or>
     pin_trust p = KeyTrustIntroduced \<and> pin_introduced_by p \<noteq> [] \<or>
     pin_trust p = KeyTrustUnconfirmed \<and> pin_source p = PinSourcePairing \<and> pin_introduced_by p = []"

lemma pin_key_error_None: "pin_key_error p = None \<longleftrightarrow> pin_key_ok p"
  by (auto simp: pin_key_error_def pin_key_ok_def split: option.splits)

lemma pin_trust_error_None: "pin_trust_error p = None \<longleftrightarrow> pin_trust_ok p"
  by (simp add: pin_trust_error_def pin_trust_ok_def)

lemma validatePin_None:
  "validatePin p = None \<longleftrightarrow>
     trim_space (pin_network_id p) = pin_network_id p \<and> ValidateNetworkNamespace (pin_network_id p) = None \<and>
     pin_key_ok p \<and>
     (pin_trust_ok p \<and> pin_source p \<in> set [PinSourceInvite, PinSourcePairing, PinSourceOperator, PinSourceRoom])"
  unfolding validatePin_def pin_key_error_None [symmetric] pin_trust_error_None [symmetric] by auto

lemma NormalizeFingerprint_fixed:
  "NormalizeFingerprint x = Inr y \<Longrightarrow> NormalizeFingerprint y = Inr y"
  using NormalizeFingerprint_canonical canonical_fingerprint_iff by blast

text \<open>A call is refused and changes nothing, or stores what \<open>pin_update\<close> makes of a valid pin.\<close>

lemma PinKeyCreated_cases:
  obtains (refused) e where "PinKeyCreated now p s = (Inl e, s)"
  | (stored) q stored created s' where "PinKeyCreated now p s = (Inr (stored, created), s')"
      "pin_update q (pins s) = Inr (stored, created)" "pins s' = fmupd (pin_network_id q) stored (pins s)"
      "now \<noteq> 0 \<Longrightarrow> pin_ok (pin_network_id q) q" "pin_network_id q = trim_space (pin_network_id p)"
      "NormalizeFingerprint (pin_fingerprint p) = Inr (pin_fingerprint q)"
proof -
  define p1 where "p1 = p\<lparr>pin_network_id := trim_space (pin_network_id p)\<rparr>"
  show thesis
  proof (cases "NormalizeFingerprint (pin_fingerprint p1)")
    case (Inl e)
    then show thesis by (intro refused [of "BadPinFingerprint e"]) (simp add: PinKeyCreated_def p1_def)
  next
    case (Inr fingerprint)
    define p2 where "p2 = p1\<lparr>pin_fingerprint := fingerprint\<rparr>"
    define q where "q = (if pin_pinned_at p2 = 0 then p2\<lparr>pin_pinned_at := now\<rparr> else p2)"
    show thesis
    proof (cases "validatePin p2")
      case (Some e)
      with Inr show thesis by (intro refused [of e]) (simp add: PinKeyCreated_def p1_def p2_def Let_def)
    next
      case None
      have step: "PinKeyCreated now p s =
        (case pin_update q (pins s) of
           Inl e \<Rightarrow> (Inl e, s)
         | Inr (stored, created) \<Rightarrow>
             (Inr (stored, created),
              if pin_source q = PinSourcePairing \<or> pin_source q = PinSourceInvite
              then BindPairing (pin_source_id q) (pin_network_id q)
                     (s\<lparr>pins := fmupd (pin_network_id q) stored (pins s)\<rparr>)
              else s\<lparr>pins := fmupd (pin_network_id q) stored (pins s)\<rparr>))"
        using Inr None
        by (simp only: PinKeyCreated_def Let_def p1_def [symmetric] sum.case p2_def [symmetric]
              option.case q_def [symmetric])
      show thesis
      proof (cases "pin_update q (pins s)")
        case (Inl e)
        with step show thesis by (intro refused [of e]) simp
      next
        case (Inr r)
        obtain kept created where r: "r = (kept, created)" by force
        have "validatePin q = None"
          using None by (simp add: q_def validatePin_None pin_key_ok_def pin_trust_ok_def)
        then show thesis
          using step Inr r \<open>NormalizeFingerprint (pin_fingerprint p1) = Inr fingerprint\<close>
          by (intro stored [of kept created _ q])
            (auto simp: p1_def p2_def q_def pin_ok_def NormalizeFingerprint_fixed)
      qed
    qed
  qed
qed

lemma pin_update_ok:
  assumes "pin_update p m = Inr (stored, created)" and "pins_file_ok m" and "pin_ok (pin_network_id p) p"
  shows "pin_ok (pin_network_id p) stored"
proof (cases "fmlookup m (pin_network_id p)")
  case (Some existing)
  with assms(2) have "pin_ok (pin_network_id p) existing" by (simp add: pins_file_ok_iff)
  note old = this and new = assms(3)
  consider "stored = p"
    | "pin_fingerprint existing = pin_fingerprint p"
      "pin_network_id stored = pin_network_id existing \<and> pin_fingerprint stored = pin_fingerprint existing \<and>
       pin_pinned_at stored = pin_pinned_at existing"
      "pin_public_key stored = pin_public_key existing \<or> pin_public_key stored = pin_public_key p"
      "pin_trust stored = pin_trust existing \<and> pin_source stored = pin_source existing \<and>
         pin_introduced_by stored = pin_introduced_by existing \<or>
       pin_trust stored = KeyTrustVerified \<and> pin_source stored = pin_source p \<and> pin_introduced_by stored = []"
    using assms(1) Some by (auto simp: pin_update_def Let_def split: if_splits)
  then show ?thesis
  proof cases
    case 2
    from 2(1,2) old have same: "pin_network_id stored = pin_network_id p" "pin_pinned_at stored \<noteq> 0"
        "pin_fingerprint stored = pin_fingerprint p" "pin_network_id existing = pin_network_id p"
      by (auto simp: pin_ok_def)
    have key: "pin_key_ok stored"
      using 2(1,3) old new same by (auto simp: pin_ok_def validatePin_None pin_key_ok_def)
    have trust: "pin_trust_ok stored \<and> pin_source stored \<in> set [PinSourceInvite, PinSourcePairing, PinSourceOperator, PinSourceRoom]"
        using 2(4)
      proof
        assume "pin_trust stored = pin_trust existing \<and> pin_source stored = pin_source existing \<and>
          pin_introduced_by stored = pin_introduced_by existing"
        moreover have "validatePin existing = None" using old by (simp add: pin_ok_def)
        ultimately show ?thesis by (simp only: validatePin_None pin_trust_ok_def)
      next
        assume "pin_trust stored = KeyTrustVerified \<and> pin_source stored = pin_source p \<and> pin_introduced_by stored = []"
        moreover have "validatePin p = None" using new by (simp add: pin_ok_def)
        ultimately show ?thesis by (simp only: validatePin_None pin_trust_ok_def) blast
      qed
    have "trim_space (pin_network_id p) = pin_network_id p \<and> ValidateNetworkNamespace (pin_network_id p) = None"
      using new by (simp add: pin_ok_def validatePin_None)
    then have "validatePin stored = None"
      unfolding validatePin_None using key trust same by simp
    with same new show ?thesis by (simp add: pin_ok_def)
  qed (use new in simp)
qed (use assms in \<open>simp add: pin_update_def\<close>)


definition sample_pin :: pin where
  "sample_pin =
     \<lparr>pin_network_id = ''net-b'', pin_fingerprint = FingerprintPrefix @ replicate 64 (CHR ''a''), pin_public_key = [],
      pin_trust = KeyTrustVerified, pin_source = PinSourceInvite, pin_source_id = ''pair-b'',
      pin_introduced_by = [], pin_pinned_at = 7\<rparr>"

definition sample_pins :: pin_store where
  "sample_pins = \<lparr>pins = fmupd ''net-b'' sample_pin fmempty, bindings = fmempty\<rparr>"

lemma sample_network [simp]: "trim_space ''net-b'' = ''net-b''"
  by (rule trim_space_graphic) (simp add: graphic_def less_eq_char_def)

lemma sample_fingerprint [simp]:
  "NormalizeFingerprint (FingerprintPrefix @ replicate 64 (CHR ''a'')) = Inr (FingerprintPrefix @ replicate 64 (CHR ''a''))"
  by (simp only: canonical_fingerprint_iff [symmetric] canonical_fingerprint_def)
    (auto simp: list_all_iff lower_hex_def less_eq_char_def)

lemma sample_pins_ok: "pins_file_ok (pins sample_pins)"
proof -
  have "ValidateNetworkNamespace ''net-b'' = None"
    by (simp add: ValidateNetworkNamespace_def to_lower_def byte_lower_def less_eq_char_def has_prefix_def)
  then have "pin_ok ''net-b'' sample_pin"
    unfolding pin_ok_def validatePin_None pin_key_ok_def pin_trust_ok_def
    by (simp add: sample_pin_def del: append.simps)
  then show ?thesis by (simp add: pins_file_ok_iff sample_pins_def)
qed


section \<open>Verified keys stay\<close>

definition verified_pin :: "string \<Rightarrow> string \<Rightarrow> pin_store \<Rightarrow> bool" where
  "verified_pin network fingerprint s \<longleftrightarrow>
     (case Lookup network s of
        None \<Rightarrow> False | Some p \<Rightarrow> pin_fingerprint p = fingerprint \<and> pin_trust p = KeyTrustVerified)"

lemma pin_update_verified:
  assumes "pin_update q m = Inr (stored, created)" and "fmlookup m (pin_network_id q) = Some p"
    and "pin_trust p = KeyTrustVerified"
  shows "pin_fingerprint stored = pin_fingerprint p \<and> pin_trust stored = KeyTrustVerified \<and>
         pin_fingerprint q = pin_fingerprint p"
  using assms by (auto simp: pin_update_def Let_def split: if_splits)

text \<open>
  C37. 
  A verified key is never replaced: no pinning, whatever it offers and from whatever source,
  takes the place of a verified pin, and one that offers another fingerprint for that network
  is refused without changing the store.\<close>
theorem verified_pin_kept:
  assumes "verified_pin network fingerprint s"
  shows "verified_pin network fingerprint (snd (PinKeyCreated now p s)) \<and>
         (trim_space (pin_network_id p) = trim_space network \<and>
          NormalizeFingerprint (pin_fingerprint p) \<noteq> Inr fingerprint \<longrightarrow>
          (\<exists>e. PinKeyCreated now p s = (Inl e, s)))"
proof (cases rule: PinKeyCreated_cases [of now p s])
  case (stored q kept created s')
  from assms obtain old where old: "fmlookup (pins s) (trim_space network) = Some old"
    "pin_fingerprint old = fingerprint" "pin_trust old = KeyTrustVerified"
    by (auto simp: verified_pin_def Lookup_def split: option.splits)
  show ?thesis
  proof (cases "trim_space network = pin_network_id q")
    case True
    with old stored pin_update_verified [of q "pins s" kept created old]
    show ?thesis by (simp add: verified_pin_def Lookup_def)
  next
    case False
    with old stored show ?thesis by (auto simp: verified_pin_def Lookup_def)
  qed
qed (use assms in simp)


theorem verified_pin_kept_witness:
  "verified_pin ''net-b'' (pin_fingerprint sample_pin)
     (snd (PinKeyCreated 9 (sample_pin\<lparr>pin_fingerprint := ''sha256:bb''\<rparr>) sample_pins))"
proof -
  have "verified_pin ''net-b'' (pin_fingerprint sample_pin) sample_pins"
    by (simp add: verified_pin_def Lookup_def sample_pins_def sample_pin_def)
  then show ?thesis using verified_pin_kept by blast
qed

end
