(* ===== verification/Service_Access.thy ===== *)
theory Service_Access
  imports Auth_Claims Key_Pins Hub_Roster Pairing_Outbox
begin

text \<open>
  Who may read and write what: the service state (\<open>internal/rooms/service.go\<close>), its errors
  (\<open>errors.go\<close>), the lookup of pairings (\<open>pairings.go\<close>), the pairing behind a credential and the
  federation gates (\<open>federation_access.go\<close>), hub rooms by id and the gate on writes into them
  (\<open>hub_state.go\<close>, \<open>hub_place.go\<close>), and the room policies (\<open>access_policy.go\<close>). The service runs on
  the in-memory store, whose reads cannot fail; what the code does when the store lacks an
  interface is kept as the flags \<open>sv_agent_registry\<close>, \<open>sv_hubs\<close>, \<open>sv_deliveries\<close>. The list of hub
  rooms and the roster are read from the store: \<open>Hub_Rooms_Cache\<close> and \<open>Roster_Properties\<close> relate
  the caches to that. Shown: what a peer may write is confined to rooms federated to it.
\<close>

section \<open>State and errors\<close>

record service =
  sv_network_id :: string
  sv_network_name :: string
  sv_allow_human_ingress :: bool
  sv_disable_direct_messages :: bool
  sv_require_pair_network_binding :: bool
  sv_pairings :: "pairing list"
  sv_store :: memory_store
  sv_agent_registry :: bool
  sv_hubs :: bool
  sv_deliveries :: bool
  sv_key_pins :: pin_store
  sv_learned_pair_networks :: "string strmap"

datatype service_error =
    UnknownRoom string
  | UnknownThread string
  | UnknownDM string
  | UnknownPairing string
  | InvalidRoomRequest string
  | InvalidMessage string
  | DMTopologyConflict
  | AgentConflict string
  | AgentRegistered string
  | AgentRequiresToken string
  | AgentTokenInvalid string
  | AgentRegistrationRequired string
  | AgentForbidden string
  | HumanUnauthorized
  | HumanIngressDisabled
  | DirectMessagesDisabled
  | ReadForbidden string
  | WriteForbidden string
  | FollowReadOnly string
  | HubForbidden string
  | HubInvalid string
  | HubControl hub_error
  | SignatureRejected string
  | StoreFailed store_error

definition getRoom :: "service \<Rightarrow> string \<Rightarrow> room option" where
  "getRoom s roomID = GetRoomContext (trim_space roomID) (sv_store s)"

definition getThread :: "service \<Rightarrow> string \<Rightarrow> thread option" where
  "getThread s threadID = GetThreadContext (trim_space threadID) (sv_store s)"

definition getDirectConversation :: "service \<Rightarrow> string \<Rightarrow> direct_conversation option" where
  "getDirectConversation s dmID = GetDirectConversationContext (trim_space dmID) (sv_store s)"

definition registeredAgent :: "service \<Rightarrow> string \<Rightarrow> agent_registration option" where
  "registeredAgent s agentID =
     (if \<not> sv_agent_registry s then None else GetRegisteredAgentContext (trim_space agentID) (sv_store s))"

section \<open>Pairings\<close>

abbreviation PairingStatusRevoked :: string where "PairingStatusRevoked \<equiv> ''revoked''"

definition EqualFold :: "string \<Rightarrow> string \<Rightarrow> bool" where
  "EqualFold a b \<longleftrightarrow> foldName a = foldName b"

definition revoked :: "pairing \<Rightarrow> bool" where
  "revoked p \<longleftrightarrow> EqualFold (trim_space (pr_status p)) PairingStatusRevoked"

fun unique_active_loop :: "pairing option \<Rightarrow> pairing list \<Rightarrow> (pairing \<Rightarrow> bool) \<Rightarrow> pairing option" where
  "unique_active_loop found [] match = found"
| "unique_active_loop found (p # ps) match =
     (if \<not> match p then unique_active_loop found ps match
      else if revoked p then None
      else if found \<noteq> None then None
      else unique_active_loop (Some p) ps match)"

definition firstUniqueActivePairing ::
  "pairing list \<Rightarrow> (pairing \<Rightarrow> bool) \<Rightarrow> string \<Rightarrow> service_error + pairing" where
  "firstUniqueActivePairing ps match lookupKey =
     (case unique_active_loop None ps match of
        None \<Rightarrow> Inl (UnknownPairing lookupKey) | Some p \<Rightarrow> Inr p)"

definition findPairingByID :: "service \<Rightarrow> string \<Rightarrow> service_error + pairing" where
  "findPairingByID s pairingID0 =
     (let pairingID = trim_space pairingID0
      in if pairingID = [] then Inl (UnknownPairing pairingID)
         else firstUniqueActivePairing (sv_pairings s) (\<lambda>p. pr_id p = pairingID) pairingID)"

definition findPairingByRemoteNetwork :: "service \<Rightarrow> string \<Rightarrow> service_error + pairing" where
  "findPairingByRemoteNetwork s network0 =
     (let network = trim_space network0
      in firstUniqueActivePairing (sv_pairings s) (\<lambda>p. trim_space (pr_remote_network_id p) = network) network)"

definition revokedPairingIDs :: "service \<Rightarrow> strset" where
  "revokedPairingIDs s = fset_of_list (map pr_id (filter revoked (sv_pairings s)))"

section \<open>The pairing behind a credential\<close>

definition pairingForPairScopedContext :: "service \<Rightarrow> request_context \<Rightarrow> pairing option" where
  "pairingForPairScopedContext s ctx =
     (case rx_claims ctx of
        None \<Rightarrow> None
      | Some c \<Rightarrow>
          if \<not> Allows c ScopePair then None
          else if Operator c then None
          else (case findPairingByID s (cl_token_id c) of
                  Inr p \<Rightarrow> Some p
                | Inl _ \<Rightarrow>
                    let network = trim_space (cl_network c)
                    in if network = [] then None
                       else (case findPairingByRemoteNetwork s network of Inl _ \<Rightarrow> None | Inr p \<Rightarrow> Some p)))"

definition pairScopedWriteAllowed :: "service \<Rightarrow> request_context \<Rightarrow> room \<Rightarrow> bool" where
  "pairScopedWriteAllowed s ctx r =
     (case rx_claims ctx of
        None \<Rightarrow> True
      | Some c \<Rightarrow>
          if \<not> Allows c ScopePair \<or> Operator c then True
          else (case pairingForPairScopedContext s ctx of
                  None \<Rightarrow> False
                | Some p \<Rightarrow> \<not> IsRoomLink p \<and> RoomFederationAllows (rm_federation r) (pr_id p)))"

definition roomVisibleToPairScopedContext :: "service \<Rightarrow> request_context \<Rightarrow> room \<Rightarrow> bool" where
  "roomVisibleToPairScopedContext s ctx r =
     (case rx_claims ctx of
        None \<Rightarrow> True
      | Some c \<Rightarrow>
          if \<not> Allows c ScopePair \<or> Operator c then True
          else (case pairingForPairScopedContext s ctx of
                  None \<Rightarrow> False
                | Some p \<Rightarrow> \<not> IsRoomLink p \<and> RoomFederationAllows (rm_federation r) (pr_id p)))"

section \<open>Hub rooms\<close>

definition hubRooms :: "service \<Rightarrow> hub_room list" where
  "hubRooms s = (if \<not> sv_hubs s then [] else HubRoomsContext (sv_store s))"

definition hubRoomByGlobal :: "service \<Rightarrow> string \<Rightarrow> hub_room option" where
  "hubRoomByGlobal s globalRoomID = find (\<lambda>h. hr_global_room_id h = globalRoomID) (hubRooms s)"

definition hubRoomByLocal :: "service \<Rightarrow> string \<Rightarrow> hub_room option" where
  "hubRoomByLocal s localRoomID = find (\<lambda>h. hr_local_room_id h = localRoomID) (hubRooms s)"

definition joinedHubRoom :: "service \<Rightarrow> string \<Rightarrow> bool" where
  "joinedHubRoom s roomID = (case hubRoomByLocal s roomID of None \<Rightarrow> False | Some h \<Rightarrow> \<not> IsHome h)"

definition hubRoster :: "go_env \<Rightarrow> service \<Rightarrow> hub_room \<Rightarrow> int \<Rightarrow> hub_error + hub_roster" where
  "hubRoster env s h limit = replayHubRoster env (HubControlLogContext (hr_global_room_id h) 0 (sv_store s)) limit"

definition hubRoomForTarget :: "service \<Rightarrow> target \<Rightarrow> hub_room option" where
  "hubRoomForTarget s t =
     (if \<not> sv_hubs s \<or> tgt_kind t \<noteq> TargetKindRoom \<and> tgt_kind t \<noteq> TargetKindThread then None
      else
        let roomID =
          (if tgt_kind t = TargetKindThread
           then (case getThread s (tgt_thread_id t) of
                   Some th \<Rightarrow> thr_room_id th | None \<Rightarrow> trim_space (tgt_room_id t))
           else trim_space (tgt_room_id t))
        in hubRoomByLocal s roomID)"

definition enforceHubWrite ::
  "go_env \<Rightarrow> service \<Rightarrow> request_context \<Rightarrow> target \<Rightarrow> string \<Rightarrow> service_error option" where
  "enforceHubWrite env s ctx t roomID =
     (case hubRoomForTarget s t of
        None \<Rightarrow> None
      | Some h \<Rightarrow>
          if (case rx_claims ctx of None \<Rightarrow> False | Some c \<Rightarrow> Allows c ScopePair \<and> \<not> Operator c)
          then Some (HubForbidden ''hub room messages from peers must be signed hub submissions'')
          else if tgt_kind t \<noteq> TargetKindRoom
          then Some (HubInvalid ''hub rooms carry room messages only (no threads in v1)'')
          else (case hubRoster env s h 0 of
                  Inl e \<Rightarrow> Some (HubControl e)
                | Inr roster \<Rightarrow>
                    if \<not> snd (canWrite roster (sv_network_id s)) then Some (WriteForbidden roomID) else None))"

section \<open>Agent identities\<close>

definition normalizedAgentIdentity :: "string \<Rightarrow> string \<Rightarrow> string \<times> string" where
  "normalizedAgentIdentity defaultNetworkID v =
     (let trimmed = trim_space v
      in case ParseScopedAgentID trimmed of
           Some (n, a) \<Rightarrow> (trim_space n, trim_space a)
         | None \<Rightarrow>
             (case ParseAgentFQID trimmed of
                Some (n, a) \<Rightarrow> (trim_space n, trim_space a)
              | None \<Rightarrow> (trim_space defaultNetworkID, trimmed)))"

definition AgentIdentityMatches :: "string \<Rightarrow> string \<Rightarrow> string \<Rightarrow> string \<Rightarrow> bool" where
  "AgentIdentityMatches credentialNetwork credentialID parentNetwork parentID =
     (let (allowedNetwork, allowedAgent) = normalizedAgentIdentity credentialNetwork credentialID;
          (candidateNetwork, candidateAgent) = normalizedAgentIdentity parentNetwork parentID
      in allowedNetwork \<noteq> [] \<and> allowedAgent \<noteq> [] \<and>
         allowedNetwork = candidateNetwork \<and> allowedAgent = candidateAgent)"

text \<open>The id an actor would take on this network, and whether it names this network at all.\<close>

definition agentCollisionID :: "service \<Rightarrow> actor \<Rightarrow> string \<times> bool" where
  "agentCollisionID s a =
     (case ParseScopedAgentID (act_id a) of
        Some (n, i) \<Rightarrow> (trim_space i, trim_space n = sv_network_id s)
      | None \<Rightarrow>
          (case ParseAgentFQID (act_id a) of
             Some (n, i) \<Rightarrow> (trim_space i, trim_space n = sv_network_id s)
           | None \<Rightarrow>
               if (case ParseAgentFQID (act_fqid a) of
                     Some (n, _) \<Rightarrow> trim_space n \<noteq> sv_network_id s | None \<Rightarrow> False)
               then (trim_space (act_id a), False)
               else if trim_space (act_network_id a) \<noteq> [] \<and> trim_space (act_network_id a) \<noteq> sv_network_id s
               then (trim_space (act_id a), False)
               else (trim_space (act_id a), True)))"

section \<open>Writing to a room\<close>

definition actorIsRoomMember :: "room \<Rightarrow> actor \<Rightarrow> bool" where
  "actorIsRoomMember r a = list_ex (\<lambda>m. ActorMatchesIdentity (rm_network_id r) a m) (rm_members r)"

definition registeredAgentActorCanWrite :: "service \<Rightarrow> actor \<Rightarrow> claims option \<Rightarrow> bool" where
  "registeredAgentActorCanWrite s a claims =
     (case claims of
        None \<Rightarrow> False
      | Some c \<Rightarrow>
          if \<not> AgentToken c then False
          else
            let (agentID, local) = agentCollisionID s a
            in if \<not> local \<or> trim_space agentID = [] \<or> \<not> AllowsAgent c agentID then False
               else (case registeredAgent s agentID of
                       None \<Rightarrow> False
                     | Some registration \<Rightarrow> reg_credential_key registration = trim_space (cl_credential_key c)))"

definition canWriteRoom :: "service \<Rightarrow> request_context \<Rightarrow> room \<Rightarrow> actor \<Rightarrow> bool" where
  "canWriteRoom s ctx r a =
     (if rm_follow r \<noteq> None then False
      else if ModeFromContext ctx = ModeNone \<and> rx_claims ctx = None then True
      else if (case rx_claims ctx of None \<Rightarrow> False | Some c \<Rightarrow> Operator c) then True
      else
        let policy = NormalizeRoomWritePolicy (rm_write_policy r)
        in if policy = RoomWritePolicyOperators
           then (case rx_claims ctx of None \<Rightarrow> False | Some c \<Rightarrow> StaticToken c \<and> Allows c ScopeWrite)
           else if actorIsRoomMember r a then True
           else if policy = RoomWritePolicyRegisteredAgents
           then registeredAgentActorCanWrite s a (rx_claims ctx)
           else False)"

definition normalizeRoomAccess :: "room \<Rightarrow> room" where
  "normalizeRoomAccess r =
     r\<lparr>rm_visibility := NormalizeRoomVisibility (rm_visibility r),
       rm_write_policy := NormalizeRoomWritePolicy (rm_write_policy r),
       rm_members := SortedUniqueTrimmedStrings (rm_members r)\<rparr>"

definition roomForWrite :: "service \<Rightarrow> target \<Rightarrow> service_error + room" where
  "roomForWrite s t =
     (let roomID =
        (if tgt_kind t = TargetKindThread
         then (case getThread s (tgt_thread_id t) of
                 Some th \<Rightarrow> thr_room_id th | None \<Rightarrow> trim_space (tgt_room_id t))
         else trim_space (tgt_room_id t))
      in case getRoom s roomID of
           None \<Rightarrow> Inl (UnknownRoom roomID)
         | Some r \<Rightarrow> Inr (normalizeRoomAccess r))"

definition enforceTargetWritePolicy ::
  "go_env \<Rightarrow> service \<Rightarrow> request_context \<Rightarrow> target \<Rightarrow> actor \<Rightarrow> service_error option" where
  "enforceTargetWritePolicy env s ctx t a =
     (case roomForWrite s t of
        Inl e \<Rightarrow> Some e
      | Inr r \<Rightarrow>
          if rm_id r = [] then None
          else (case enforceHubWrite env s ctx t (rm_id r) of
                  Some e \<Rightarrow> Some e
                | None \<Rightarrow>
                    if \<not> canWriteRoom s ctx r a \<and> rm_follow r \<noteq> None then Some (FollowReadOnly (rm_id r))
                    else if \<not> pairScopedWriteAllowed s ctx r then Some (WriteForbidden (rm_id r))
                    else if canWriteRoom s ctx r a then None
                    else Some (WriteForbidden (rm_id r))))"

section \<open>Reading\<close>

text \<open>Whether one of the agents a credential is restricted to is among the given ids.\<close>

definition allowed_among :: "service \<Rightarrow> claims \<Rightarrow> string \<Rightarrow> string list \<Rightarrow> bool" where
  "allowed_among s c parentNetwork parentIDs =
     list_ex (\<lambda>agentID. AllowsAgent c agentID \<and>
       list_ex (\<lambda>m. AgentIdentityMatches (sv_network_id s) agentID parentNetwork m) parentIDs) (AgentIDs c)"

definition canReadRoom :: "service \<Rightarrow> request_context \<Rightarrow> room \<Rightarrow> bool" where
  "canReadRoom s ctx r =
     (if ModeFromContext ctx = ModeNone \<and> \<not> PublicReadFromContext ctx then True
      else if pairingForPairScopedContext s ctx \<noteq> None then True
      else if (case rx_claims ctx of None \<Rightarrow> False | Some c \<Rightarrow> HasAgentRestriction c)
      then (let c = the (rx_claims ctx)
            in if NormalizeRoomVisibility (rm_visibility r) = RoomVisibilityPublic then True
               else if allowed_among s c (rm_network_id r) (rm_members r) then True
               else joinedHubRoom s (rm_id r))
      else if (case rx_claims ctx of None \<Rightarrow> False | Some c \<Rightarrow> AllowsAny c [ScopeObserve, ScopeAdmin]) then True
      else PublicReadFromContext ctx \<and> NormalizeRoomVisibility (rm_visibility r) = RoomVisibilityPublic)"

definition canReadDirectConversation :: "service \<Rightarrow> request_context \<Rightarrow> direct_conversation \<Rightarrow> bool" where
  "canReadDirectConversation s ctx d =
     (case rx_claims ctx of
        None \<Rightarrow> True
      | Some c \<Rightarrow> if \<not> HasAgentRestriction c then True
                  else allowed_among s c (dc_network_id d) (dc_participant_ids d))"

definition zero_actor :: actor where
  "zero_actor = \<lparr>act_type = [], act_id = [], act_name = [], act_network_id = [], act_fqid = [],
     act_credential_bound = False\<rparr>"

definition actorFromClaims :: "request_context \<Rightarrow> actor" where
  "actorFromClaims ctx =
     (case rx_claims ctx of
        None \<Rightarrow> zero_actor
      | Some c \<Rightarrow> if \<not> Allows c ScopeWrite then zero_actor
                  else (case AgentIDs c of
                          [agentID] \<Rightarrow> zero_actor\<lparr>act_type := ''agent'', act_id := agentID\<rparr>
                        | _ \<Rightarrow> zero_actor))"

definition roomAccessReason :: "request_context \<Rightarrow> room \<Rightarrow> string" where
  "roomAccessReason ctx r =
     (if PublicReadFromContext ctx \<and> NormalizeRoomVisibility (rm_visibility r) = RoomVisibilityPublic
      then ''public-read'' else ''private'') @ ''/'' @ NormalizeRoomWritePolicy (rm_write_policy r) @ ''-write''"

definition readableRoom :: "service \<Rightarrow> request_context \<Rightarrow> room \<Rightarrow> room option" where
  "readableRoom s ctx r0 =
     (let r = normalizeRoomAccess r0
      in if canReadRoom s ctx r
         then Some (r\<lparr>rm_access := Some \<lparr>acc_can_read = True,
                acc_can_write = canWriteRoom s ctx r (actorFromClaims ctx),
                acc_reason = roomAccessReason ctx r\<rparr>\<rparr>)
         else None)"

definition service_get_room :: "service \<Rightarrow> request_context \<Rightarrow> string \<Rightarrow> service_error + room" where
  "service_get_room s ctx roomID =
     (case getRoom s (trim_space roomID) of
        None \<Rightarrow> Inl (UnknownRoom roomID)
      | Some r \<Rightarrow> (case readableRoom s ctx r of None \<Rightarrow> Inl (ReadForbidden (rm_id r)) | Some r' \<Rightarrow> Inr r'))"


section \<open>Lookups and identities\<close>

lemma unique_active_loop_eq:
  "unique_active_loop found ps P =
     (case found of
        Some f \<Rightarrow> if filter P ps = [] then Some f else None
      | None \<Rightarrow> (case filter P ps of [p] \<Rightarrow> if revoked p then None else Some p | _ \<Rightarrow> None))"
  by (induction found ps P rule: unique_active_loop.induct) (auto split: option.splits list.splits)

lemma firstUniqueActivePairing_iff:
  "firstUniqueActivePairing ps P k = Inr p \<longleftrightarrow> filter P ps = [p] \<and> \<not> revoked p"
  by (auto simp: firstUniqueActivePairing_def unique_active_loop_eq split: option.splits list.splits)

lemma filter_single: "filter P xs = [x] \<Longrightarrow> x \<in> set xs \<and> P x"
  by (metis filter_eq_ConsD in_set_conv_decomp)

text \<open>
  A pairing is found by its id exactly when one configured pairing has that id and it is not
  revoked: an unknown, revoked or ambiguous id resolves to nothing, never to the first match.\<close>
lemma pairing_found_iff:
  "findPairingByID s i = Inr p \<longleftrightarrow>
     trim_space i \<noteq> [] \<and> filter (\<lambda>q. pr_id q = trim_space i) (sv_pairings s) = [p] \<and> \<not> revoked p"
  by (simp add: findPairingByID_def Let_def firstUniqueActivePairing_iff)

lemma findPairingByID_lookup:
  "findPairingByID s i = Inr p \<longleftrightarrow>
     trim_space i \<noteq> [] \<and> filter (\<lambda>q. pr_id q = trim_space i) (sv_pairings s) = [p] \<and> \<not> revoked p"
  by (simp add: findPairingByID_def Let_def firstUniqueActivePairing_iff)

lemma pairing_resolved:
  assumes "pairingForPairScopedContext s ctx = Some p"
  obtains c where "rx_claims ctx = Some c" "Allows c ScopePair" "\<not> Operator c" "p \<in> set (sv_pairings s)"
    "\<not> revoked p" "pr_id p = trim_space (cl_token_id c) \<or>
       trim_space (cl_network c) \<noteq> [] \<and> trim_space (pr_remote_network_id p) = trim_space (cl_network c)"
  using assms
  by (auto simp: pairingForPairScopedContext_def findPairingByID_lookup findPairingByRemoteNetwork_def
      firstUniqueActivePairing_iff Let_def dest!: filter_single split: option.splits if_splits sum.splits)

lemma ParseScopedAgentID_trim [simp]: "ParseScopedAgentID (trim_space v) = ParseScopedAgentID v"
  by (simp add: ParseScopedAgentID_def)

lemma ParseAgentFQID_trim [simp]: "ParseAgentFQID (trim_space v) = ParseAgentFQID v"
  by (simp add: ParseAgentFQID_def)

lemma normalized_spellings:
  assumes "messageIDPattern n" and "messageIDPattern a" and "CHR '':'' \<notin> set n" and "CHR '':'' \<notin> set a"
  shows "normalizedAgentIdentity d (ScopedAgentID n a) = (n, a)"
    and "normalizedAgentIdentity d (AgentFQID n a) = (n, a)"
    and "normalizedAgentIdentity n a = (n, a)"
proof -
  note ids = valid_id_trim [OF assms(1)] valid_id_trim [OF assms(2)]
  show "normalizedAgentIdentity d (ScopedAgentID n a) = (n, a)"
    using ParseScopedAgentID_ScopedAgentID [OF assms(1-3)] ids
    by (simp add: normalizedAgentIdentity_def ParseScopedAgentID_trim)
  show "normalizedAgentIdentity d (AgentFQID n a) = (n, a)"
    using ParseAgentFQID_AgentFQID [OF assms(1,2)] ParseScopedAgentID_AgentFQID [OF assms(1,2)] ids
    by (simp add: normalizedAgentIdentity_def ParseScopedAgentID_trim ParseAgentFQID_trim)
  show "normalizedAgentIdentity n a = (n, a)"
    using ParseScopedAgentID_bare [OF assms(2,4)] ParseAgentFQID_bare [OF assms(2)] ids
    by (simp add: normalizedAgentIdentity_def)
qed

text \<open>The three ways to write a local agent's id.\<close>

definition spellings :: "string \<Rightarrow> string \<Rightarrow> string list" where
  "spellings n a = [a, ScopedAgentID n a, AgentFQID n a]"

lemma spelling_facts:
  assumes "messageIDPattern n" and "messageIDPattern a" and "CHR '':'' \<notin> set n" and "CHR '':'' \<notin> set a"
    and "x \<in> set (spellings n a)"
  shows "normalizedAgentIdentity n x = (n, a)" and "trim_space x = x" and "x \<noteq> []"
proof -
  show "normalizedAgentIdentity n x = (n, a)"
    using assms(5) normalized_spellings [OF assms(1-4)] by (auto simp: spellings_def)
  show "trim_space x = x"
    using assms(5) valid_id_trim [OF assms(2)] ScopedAgentID_trim [OF assms(1,2)] AgentFQID_trim [OF assms(1,2)]
    by (auto simp: spellings_def)
  show "x \<noteq> []"
    using assms(5) valid_id_nonempty [OF assms(1)] valid_id_nonempty [OF assms(2)] valid_id_trim [OF assms(1)]
      valid_id_trim [OF assms(2)]
    by (auto simp: spellings_def ScopedAgentID_def AgentFQID_def)
qed

text \<open>
  Membership gives read access by identity, not by spelling: a credential for a local agent
  reads every room of the network that lists the agent, whether the room and the credential
  write the agent as a bare id, as network and id, or as a fully qualified id.\<close>
lemma member_reads_room:
  assumes "messageIDPattern n" and "messageIDPattern a" and "CHR '':'' \<notin> set n" and "CHR '':'' \<notin> set a"
    and "sv_network_id s = n" and "rm_network_id r = n" and "rx_claims ctx = Some c"
    and "x \<in> set (spellings n a)" and "x |\<in>| cl_agents c" and "y \<in> set (spellings n a)" and "y \<in> set (rm_members r)"
  shows "canReadRoom s ctx r"
proof -
  note x = spelling_facts [OF assms(1-4,8)] and y = spelling_facts [OF assms(1-4,10)]
  have "AgentIdentityMatches n x n y"
    using x(1) y(1) valid_id_nonempty [OF assms(1)] valid_id_nonempty [OF assms(2)]
    by (simp add: AgentIdentityMatches_def)
  moreover have "x \<in> set (AgentIDs c)" "AllowsAgent c x"
    using assms(9) x(2,3) by (simp_all add: set_AgentIDs AllowsAgent_def)
  ultimately have "allowed_among s c (rm_network_id r) (rm_members r)"
    using assms(5,6,11) by (auto simp: allowed_among_def list_ex_iff)
  moreover have "HasAgentRestriction c" using assms(9) by (auto simp: HasAgentRestriction_def)
  ultimately show ?thesis using assms(7) by (simp add: canReadRoom_def)
qed

section \<open>What a peer may write\<close>

text \<open>
  C32. 
  A peer writes only where it was let in: an accepted write under a pair credential that is
  not an operator's resolves to one configured, unrevoked pairing that carries rooms, the
  room's federation admits that pairing, the room mirrors no followed room, and the target
  is in no hub room.\<close>
theorem peer_write_confined:
  assumes "enforceTargetWritePolicy env s ctx t a = None" and "roomForWrite s t = Inr r" and "rm_id r \<noteq> []"
    and "rx_claims ctx = Some c" and "Allows c ScopePair" and "\<not> Operator c"
  shows "\<exists>p. pairingForPairScopedContext s ctx = Some p \<and> p \<in> set (sv_pairings s) \<and> \<not> revoked p \<and>
           \<not> IsRoomLink p \<and> RoomFederationAllows (rm_federation r) (pr_id p) \<and> rm_follow r = None \<and>
           hubRoomForTarget s t = None"
proof -
  from assms have hub: "enforceHubWrite env s ctx t (rm_id r) = None"
    and may: "canWriteRoom s ctx r a" and peer: "pairScopedWriteAllowed s ctx r"
    by (auto simp: enforceTargetWritePolicy_def split: option.splits if_splits)
  from may have "rm_follow r = None" by (simp add: canWriteRoom_def split: if_splits)
  moreover from hub assms(4-6) have "hubRoomForTarget s t = None"
    by (simp add: enforceHubWrite_def split: option.splits if_splits)
  moreover from peer assms(4-6) obtain p where p: "pairingForPairScopedContext s ctx = Some p"
      "\<not> IsRoomLink p" "RoomFederationAllows (rm_federation r) (pr_id p)"
    by (auto simp: pairScopedWriteAllowed_def split: option.splits)
  moreover from p(1) have "p \<in> set (sv_pairings s)" "\<not> revoked p"
    by (auto elim: pairing_resolved)
  ultimately show ?thesis by blast
qed


section \<open>A sample service\<close>

definition sample_pairing :: pairing where
  "sample_pairing =
     \<lparr>pr_id = ''pair-b'', pr_remote_network_id = ''net-b'', pr_remote_network_name = [], pr_remote_base_url = [],
      pr_relay = None, pr_status = ''connected'', pr_diagnostics = None, pr_delivery = None, pr_delivery_limits = None,
      pr_token = [], pr_scope = []\<rparr>"

definition sample_room :: room where
  "sample_room =
     \<lparr>rm_follow = None, rm_id = ''lobby'', rm_network_id = ''net-a'', rm_fqid = [], rm_name = [],
      rm_members = [''net-b:bo'', ''net-a:al''], rm_visibility = ''private'', rm_write_policy = ''members'',
      rm_federation = Some \<lparr>fed_mode = ''all'', fed_pairings = []\<rparr>, rm_access = None, rm_created_at = 1,
      rm_last_message_at = None\<rparr>"

definition sample_service :: service where
  "sample_service =
     \<lparr>sv_network_id = ''net-a'', sv_network_name = [], sv_allow_human_ingress = False, sv_disable_direct_messages = False,
      sv_require_pair_network_binding = False, sv_pairings = [sample_pairing],
      sv_store = NewMemoryStore\<lparr>rooms := fmupd ''lobby'' sample_room fmempty\<rparr>, sv_agent_registry = True, sv_hubs = True,
      sv_deliveries = True, sv_key_pins = NewMemoryPinStore, sv_learned_pair_networks = fmempty\<rparr>"

definition sample_peer :: request_context where
  "sample_peer = WithMode (WithClaims background
     \<lparr>cl_token_id = ''pair-b'', cl_credential_key = ''token:pair-b'', cl_network = [],
      cl_scopes = {|ScopePair, ScopeWrite|}, cl_agents = {||}\<rparr>) ModeBearer"

definition sample_actor :: actor where
  "sample_actor = \<lparr>act_type = ''agent'', act_id = ''bo'', act_name = [], act_network_id = ''net-b'', act_fqid = [],
     act_credential_bound = False\<rparr>"

definition sample_target :: target where
  "sample_target = \<lparr>tgt_kind = TargetKindRoom, tgt_room_id = ''lobby'', tgt_thread_id = [], tgt_parent_message_id = [],
     tgt_dm_id = [], tgt_participant_ids = []\<rparr>"

lemma sample_room_for_write: "roomForWrite sample_service sample_target = Inr (normalizeRoomAccess sample_room)"
  by code_simp

lemma sample_write: "enforceTargetWritePolicy env sample_service sample_peer sample_target sample_actor = None"
proof -
  have "hubRoomForTarget sample_service sample_target = None" by code_simp
  moreover have "canWriteRoom sample_service sample_peer (normalizeRoomAccess sample_room) sample_actor" by code_simp
  moreover have "pairScopedWriteAllowed sample_service sample_peer (normalizeRoomAccess sample_room)" by code_simp
  ultimately show ?thesis
    by (simp add: enforceTargetWritePolicy_def sample_room_for_write enforceHubWrite_def)
qed

theorem peer_write_confined_witness:
  "\<exists>p. pairingForPairScopedContext sample_service sample_peer = Some p \<and>
     RoomFederationAllows (rm_federation (normalizeRoomAccess sample_room)) (pr_id p)"
proof -
  have "rm_id (normalizeRoomAccess sample_room) \<noteq> []" by (simp add: normalizeRoomAccess_def sample_room_def)
  moreover obtain c where "rx_claims sample_peer = Some c" "Allows c ScopePair" "\<not> Operator c"
    by (simp add: sample_peer_def WithMode_def WithClaims_def background_def Operator_iff)
  ultimately show ?thesis using peer_write_confined [OF sample_write sample_room_for_write] by blast
qed

definition sample_reader :: request_context where
  "sample_reader = WithMode (WithClaims background
     \<lparr>cl_token_id = [], cl_credential_key = [], cl_network = [], cl_scopes = {|ScopeObserve|}, cl_agents = {|''al''|}\<rparr>) ModeBearer"

lemma member_reads_room_example: "canReadRoom sample_service sample_reader sample_room"
  by (rule member_reads_room [where n = "''net-a''" and a = "''al''" and x = "''al''" and y = "''net-a:al''"
        and c = "the (rx_claims sample_reader)"])
    (simp_all add: sample_service_def sample_room_def sample_reader_def WithMode_def WithClaims_def background_def
      spellings_def ScopedAgentID_def trim_space_graphic graphic_def less_eq_char_def messageIDPattern_def id_first_def id_char_def)

end
