(* ===== verification/Sender_Identity.thy ===== *)
theory Sender_Identity
  imports Service_Access
begin

text \<open>
  Who a message is from: the credential of a request and agent registration
  (\<open>internal/rooms/agents.go\<close>), the network a pair credential speaks for (\<open>pairing_binding.go\<close>), the
  check of a sender (\<open>sender_identity.go\<close>) and the parts of \<open>messaging.go\<close> that normalise what a
  sender states. The checks learn: they return the service with the networks learnt. New ids,
  the clock and random bytes are arguments.
  Shown: a registered agent is spoken for only by its credential or an operator, and an
  unbound pair credential speaks for one network.
\<close>

section \<open>The credential of a request\<close>

definition credentialKeyFromContext :: "request_context \<Rightarrow> string option" where
  "credentialKeyFromContext ctx =
     (case rx_claims ctx of
        None \<Rightarrow> None
      | Some c \<Rightarrow>
          if trim_space (cl_credential_key c) \<noteq> [] then Some (trim_space (cl_credential_key c))
          else if trim_space (cl_token_id c) \<noteq> [] then Some (StaticCredentialKey (trim_space (cl_token_id c)))
          else None)"

definition registrationCredentialKey :: "request_context \<Rightarrow> string" where
  "registrationCredentialKey ctx =
     (case credentialKeyFromContext ctx of Some k \<Rightarrow> k | None \<Rightarrow> ''anonymous'')"

text \<open>The credential key a registration is made under and the token issued for it.\<close>

definition registrationCredential :: "request_context \<Rightarrow> string \<Rightarrow> string \<times> string" where
  "registrationCredential ctx randomBytes =
     (case credentialKeyFromContext ctx of
        Some k \<Rightarrow> (k, [])
      | None \<Rightarrow>
          if AgentRegistrationFromContext ctx = AgentRegistrationOpen \<or> ModeFromContext ctx = ModeOpen
          then (AgentTokenCredentialKey (agent_token randomBytes), agent_token randomBytes)
          else (''anonymous'', []))"

section \<open>Agent ids\<close>

text \<open>
  \<open>strings.ToLower\<close> on one code point, as far as a slug tells code points apart: outside ASCII only
  the Kelvin sign and the capital I with a dot have a lower case letter in ASCII.
\<close>

definition rune_lower :: "string \<Rightarrow> string" where
  "rune_lower b =
     (case b of
        [c] \<Rightarrow> [byte_lower c]
      | _ \<Rightarrow> if b = [CHR 0xE2, CHR 0x84, CHR 0xAA] then ''k''
             else if b = [CHR 0xC4, CHR 0xB0] then ''i'' else b)"

definition slug_char :: "char \<Rightarrow> bool" where
  "slug_char c \<longleftrightarrow> CHR ''a'' \<le> c \<and> c \<le> CHR ''z'' \<or> CHR ''0'' \<le> c \<and> c \<le> CHR ''9''"

fun slug_loop :: "bool \<Rightarrow> string list \<Rightarrow> string" where
  "slug_loop lastDash [] = []"
| "slug_loop lastDash (r # rs) =
     (if length r = 1 \<and> slug_char (hd r) then hd r # slug_loop False rs
      else if \<not> lastDash then CHR ''-'' # slug_loop True rs
      else slug_loop lastDash rs)"

definition trim_dashes :: "string \<Rightarrow> string" where
  "trim_dashes s = rev (dropWhile (\<lambda>c. c = CHR ''-'') (rev (dropWhile (\<lambda>c. c = CHR ''-'') s)))"

definition slugAgentID :: "string \<Rightarrow> string" where
  "slugAgentID v =
     (let slug = trim_dashes (slug_loop False (map (rune_lower \<circ> snd) (go_runes (trim_space v))))
      in if slug = [] then ''agent'' else slug)"

definition shortSuffix :: "string \<Rightarrow> string" where
  "shortSuffix v =
     (let trimmed = trim_space v
      in if length trimmed \<le> 8 then trimmed else drop (length trimmed - 8) trimmed)"

record register_agent_request =
  rar_requested_agent_id :: string
  rar_name :: string

text \<open>
  The loop of \<open>resolveRequestedAgentID\<close>: the attempts still to make, the current one first;
  \<open>fresh attempt\<close> is the id \<open>newPrefixedID\<close> makes in it.
\<close>

fun resolve_loop :: "service \<Rightarrow> (nat \<Rightarrow> string) \<Rightarrow> string \<Rightarrow> nat list \<Rightarrow> string option" where
  "resolve_loop s fresh base [] = None"
| "resolve_loop s fresh base (attempt # attempts) =
     (let candidate = (if attempt > 0 then base @ ''-'' @ shortSuffix (fresh attempt) else base)
      in if registeredAgent s candidate = None then Some candidate
         else resolve_loop s fresh base attempts)"

definition resolveRequestedAgentID ::
  "service \<Rightarrow> (nat \<Rightarrow> string) \<Rightarrow> register_agent_request \<Rightarrow> service_error + string" where
  "resolveRequestedAgentID s fresh request =
     (let agentID = trim_space (rar_requested_agent_id request)
      in if agentID \<noteq> [] then
           (if ValidateMemberID agentID \<noteq> None then Inl (InvalidMessage ''requested_agent_id'') else Inr agentID)
         else (case resolve_loop s fresh (slugAgentID (rar_name request)) [0..<100] of
                 None \<Rightarrow> Inl (InvalidMessage ''unable to generate unique agent id'')
               | Some candidate \<Rightarrow> Inr candidate))"

text \<open>What a registration takes from outside: new ids, the actor's id, random bytes, the clock.\<close>

record registration_inputs =
  ri_fresh :: "nat \<Rightarrow> string"
  ri_actor_uid :: string
  ri_random :: string
  ri_now :: time

definition registerAgent ::
  "service \<Rightarrow> agent_registration \<Rightarrow> (store_error + registration_result) \<times> service" where
  "registerAgent s registration =
     (if \<not> sv_agent_registry s then (Inr \<lparr>rr_registration = registration, rr_created = True\<rparr>, s)
      else let (result, st) = RegisterAgentContext registration (sv_store s) in (result, s\<lparr>sv_store := st\<rparr>))"

text \<open>The end of \<open>RegisterAgentContext\<close>: the registration is stored and the token handed out.\<close>

definition store_registration ::
  "service \<Rightarrow> string \<Rightarrow> string \<Rightarrow> agent_registration \<Rightarrow> (service_error + registration_result) \<times> service" where
  "store_registration s agentID issuedToken registration =
     (case registerAgent s registration of
        (Inl e, s') \<Rightarrow>
          (if e = ErrAgentCredential
           then (if issuedToken \<noteq> [] then Inl (AgentRegistered agentID) else Inl (AgentConflict agentID))
           else Inl (StoreFailed e), s')
      | (Inr registered, s') \<Rightarrow>
          (Inr (if issuedToken \<noteq> []
                then registered\<lparr>rr_registration := (rr_registration registered)\<lparr>reg_agent_token := issuedToken\<rparr>\<rparr>
                else registered), s'))"

definition service_register_agent ::
  "service \<Rightarrow> request_context \<Rightarrow> registration_inputs \<Rightarrow> register_agent_request \<Rightarrow>
   (service_error + registration_result) \<times> service" where
  "service_register_agent s ctx inputs request =
     (case resolveRequestedAgentID s (ri_fresh inputs) request of
        Inl e \<Rightarrow> (Inl e, s)
      | Inr agentID \<Rightarrow>
          if (case rx_claims ctx of None \<Rightarrow> False | Some c \<Rightarrow> \<not> AllowsAgent c agentID)
          then (if AgentToken (the (rx_claims ctx)) then (Inl (AgentTokenInvalid agentID), s)
                else (Inl (AgentForbidden ''requested_agent_id is not allowed for this token''), s))
          else
            let (credentialKey, issuedToken) = registrationCredential ctx (ri_random inputs);
                registration = \<lparr>reg_network_id = sv_network_id s, reg_agent_id = agentID,
                  reg_actor_uid = ri_actor_uid inputs, reg_actor_uri = AgentFQID (sv_network_id s) agentID,
                  reg_display_name = trim_space (rar_name request), reg_agent_token = [],
                  reg_credential_key = credentialKey, reg_created_at = ri_now inputs, reg_updated_at = ri_now inputs\<rparr>
            in case registeredAgent s agentID of
                 None \<Rightarrow> store_registration s agentID issuedToken registration
               | Some existing \<Rightarrow>
                   if reg_credential_key existing = credentialKey then store_registration s agentID issuedToken registration
                   else if (case rx_claims ctx of None \<Rightarrow> False | Some c \<Rightarrow> Allows c ScopeAdmin)
                   then store_registration s agentID issuedToken (registration\<lparr>reg_credential_key := reg_credential_key existing,
                          reg_actor_uid := reg_actor_uid existing, reg_actor_uri := reg_actor_uri existing,
                          reg_created_at := reg_created_at existing\<rparr>)
                   else if trim_space credentialKey = ''anonymous'' \<or> issuedToken \<noteq> []
                   then (Inl (AgentRegistered agentID), s)
                   else (Inl (AgentConflict agentID), s))"

definition AuthenticateAgentToken :: "service \<Rightarrow> string \<Rightarrow> claims option" where
  "AuthenticateAgentToken s token =
     (if \<not> sv_agent_registry s \<or> \<not> LooksLikeAgentToken token then None
      else map_option (\<lambda>r. NewAgentTokenClaims (reg_agent_id r) (reg_credential_key r))
             (GetRegisteredAgentByCredentialKeyContext (AgentTokenCredentialKey token) (sv_store s)))"

section \<open>The network a pair credential speaks for\<close>

definition pairBindingKey :: "claims \<Rightarrow> string" where
  "pairBindingKey c =
     (if trim_space (cl_token_id c) \<noteq> [] then ''token:'' @ trim_space (cl_token_id c)
      else trim_space (cl_credential_key c))"

text \<open>Whether the origin matches, whether this is the first contact, and what is learnt.\<close>

definition bindOrMatchPairNetwork :: "string \<Rightarrow> string \<Rightarrow> service \<Rightarrow> (bool \<times> bool) \<times> service" where
  "bindOrMatchPairNetwork credentialKey originNetworkID s =
     (case fmlookup (sv_learned_pair_networks s) credentialKey of
        Some learned \<Rightarrow> ((learned = originNetworkID, False), s)
      | None \<Rightarrow>
          ((True, True),
           s\<lparr>sv_learned_pair_networks := fmupd credentialKey originNetworkID (sv_learned_pair_networks s)\<rparr>))"

definition unboundOriginConflict :: "service \<Rightarrow> request_context \<Rightarrow> string \<Rightarrow> string option" where
  "unboundOriginConflict s ctx originNetworkID =
     (case pairingForPairScopedContext s ctx of
        None \<Rightarrow> None
      | Some p \<Rightarrow>
          if (case findPairingByRemoteNetwork s originNetworkID of
                Inl _ \<Rightarrow> False | Inr other \<Rightarrow> pr_id other \<noteq> pr_id p)
          then Some ''origin network is config-bound to a different pairing''
          else if sv_deliveries s \<and>
            (let known = ps_remote_network_id (PairingDeliveryStateContext (pr_id p) (sv_store s))
             in known \<noteq> [] \<and> known \<noteq> originNetworkID)
          then Some ''origin network differs from the network this pairing's peer reported in discovery''
          else None)"

definition pinnedPairingNetworks :: "service \<Rightarrow> request_context \<Rightarrow> string list option" where
  "pinnedPairingNetworks s ctx =
     (case pairingForPairScopedContext s ctx of
        None \<Rightarrow> None
      | Some p \<Rightarrow>
          let known = PairingNetworks (pr_id p) (sv_key_pins s) in if known = [] then None else Some known)"

definition pairCredentialMatchesOrigin ::
  "service \<Rightarrow> request_context \<Rightarrow> claims \<Rightarrow> string \<Rightarrow> bool \<Rightarrow> bool \<times> service" where
  "pairCredentialMatchesOrigin s ctx c originNetworkID strict =
     (if trim_space (cl_network c) \<noteq> [] then (trim_space (cl_network c) = originNetworkID, s)
      else
        let credentialKey = pairBindingKey c
        in if credentialKey = [] then (\<not> strict, s)
           else if strict then (False, s)
           else if unboundOriginConflict s ctx originNetworkID \<noteq> None then (False, s)
           else (case pinnedPairingNetworks s ctx of
                   Some pinned \<Rightarrow>
                     if originNetworkID \<notin> set pinned then (False, s)
                     else (True, snd (bindOrMatchPairNetwork credentialKey originNetworkID s))
                 | None \<Rightarrow>
                     let ((matched, _), s') = bindOrMatchPairNetwork credentialKey originNetworkID s
                     in (matched, s')))"

section \<open>The check of a sender\<close>

definition actorHasExplicitConsistentNetworkID :: "actor \<Rightarrow> string \<Rightarrow> bool" where
  "actorHasExplicitConsistentNetworkID a networkID =
     (if trim_space (act_network_id a) \<noteq> networkID then False
      else
        let differs = (\<lambda>parsed. case parsed of Some (n, _) \<Rightarrow> trim_space n \<noteq> networkID | None \<Rightarrow> False)
        in \<not> differs (ParseAgentFQID (act_fqid a)) \<and> \<not> differs (ParseScopedAgentID (act_id a)) \<and>
           \<not> differs (ParseAgentFQID (act_id a)))"

text \<open>The claims of a request that names a remote origin under a pair credential.\<close>

definition remote_pair_claims :: "service \<Rightarrow> request_context \<Rightarrow> message_origin \<Rightarrow> (string \<times> claims) option" where
  "remote_pair_claims s ctx origin =
     (let originNetworkID = trim_space (org_network_id origin)
      in if originNetworkID = [] \<or> originNetworkID = sv_network_id s then None
         else (case rx_claims ctx of
                 None \<Rightarrow> None
               | Some c \<Rightarrow> if \<not> Allows c ScopePair then None else Some (originNetworkID, c)))"

definition remoteOriginRequiresPairCheck :: "service \<Rightarrow> request_context \<Rightarrow> actor \<Rightarrow> message_origin \<Rightarrow> bool" where
  "remoteOriginRequiresPairCheck s ctx a origin =
     (case remote_pair_claims s ctx origin of
        None \<Rightarrow> False | Some (networkID, _) \<Rightarrow> \<not> actorHasExplicitConsistentNetworkID a networkID)"

datatype remote_origin_status = NotPairScoped | Paired | PairUnbound

definition remoteOriginPairStatus ::
  "service \<Rightarrow> request_context \<Rightarrow> actor \<Rightarrow> message_origin \<Rightarrow> remote_origin_status \<times> service" where
  "remoteOriginPairStatus s ctx a origin =
     (case remote_pair_claims s ctx origin of
        None \<Rightarrow> (NotPairScoped, s)
      | Some (networkID, c) \<Rightarrow>
          if \<not> actorHasExplicitConsistentNetworkID a networkID then (NotPairScoped, s)
          else (case pairCredentialMatchesOrigin s ctx c networkID (sv_require_pair_network_binding s) of
                  (True, s') \<Rightarrow> (Paired, s') | (False, s') \<Rightarrow> (PairUnbound, s')))"

text \<open>The second half of \<open>validateHumanSender\<close>, after the origin has been checked.\<close>

definition human_ingress :: "request_context \<Rightarrow> bool \<Rightarrow> service_error option" where
  "human_ingress ctx remoteOrigin =
     (if ModeFromContext ctx = ModeNone then None
      else case rx_claims ctx of
             None \<Rightarrow> Some HumanUnauthorized
           | Some c \<Rightarrow>
               if remoteOrigin \<and> Allows c ScopePair then None
               else if AgentToken c \<or> \<not> StaticToken c \<or> \<not> Allows c ScopeWrite
               then Some (AgentForbidden ''human ingress requires a static write token'') else None)"

definition validateHumanSender ::
  "service \<Rightarrow> request_context \<Rightarrow> message_origin \<Rightarrow> service_error option \<times> service" where
  "validateHumanSender s ctx origin =
     (let originNetworkID = trim_space (org_network_id origin)
      in if originNetworkID \<noteq> [] \<and> originNetworkID \<noteq> sv_network_id s
         then (case remote_pair_claims s ctx origin of
                 None \<Rightarrow> (Some (AgentForbidden ''remote-origin human sender requires pair scope''), s)
               | Some (_, c) \<Rightarrow>
                   (case pairCredentialMatchesOrigin s ctx c originNetworkID (sv_require_pair_network_binding s) of
                      (False, s') \<Rightarrow>
                        (Some (AgentForbidden ''remote-origin human sender requires a pair credential bound to this network''), s')
                    | (True, s') \<Rightarrow> (human_ingress ctx True, s')))
         else (human_ingress ctx False, s))"

text \<open>The checks against the registration of the agent, after the checks on the claims.\<close>

definition registration_conflict :: "request_context \<Rightarrow> string \<Rightarrow> agent_registration \<Rightarrow> service_error option" where
  "registration_conflict ctx agentID registration =
     (let mode = ModeFromContext ctx;
          claims = rx_claims ctx;
          key = registrationCredentialKey ctx;
          same = reg_credential_key registration = key;
          may_write = (case claims of None \<Rightarrow> False | Some c \<Rightarrow> Allows c ScopeWrite)
      in if trim_space key = ''anonymous'' \<and> mode = ModeOpen then Some (AgentRequiresToken agentID)
         else if trim_space key = ''anonymous'' \<and> same then None
         else if same then
           (if mode = ModeOpen \<and> \<not> may_write then Some (AgentForbidden ''agent requires write scope'') else None)
         else if (case claims of None \<Rightarrow> False | Some c \<Rightarrow> Operator c) then None
         else if (case claims of None \<Rightarrow> False | Some c \<Rightarrow> AgentToken c) then Some (AgentTokenInvalid agentID)
         else if mode = ModeOpen \<and> claims = None then Some (AgentRequiresToken agentID)
         else if mode = ModeOpen \<and> claims \<noteq> None \<and> \<not> may_write
         then Some (AgentForbidden ''agent requires write scope'')
         else Some (AgentConflict agentID))"

definition local_sender_error :: "service \<Rightarrow> request_context \<Rightarrow> actor \<Rightarrow> service_error option" where
  "local_sender_error s ctx a =
     (let (agentID, local) = agentCollisionID s a;
          mode = ModeFromContext ctx
      in if agentID = [] then None
         else if mode = ModeOpen \<and> \<not> local then Some (AgentForbidden ''remote-origin agent requires pair scope'')
         else if \<not> local \<and> rx_claims ctx \<noteq> None then Some (AgentConflict agentID)
         else if \<not> sv_agent_registry s then None
         else
           let claims_error =
             (case rx_claims ctx of
                None \<Rightarrow> None
              | Some c \<Rightarrow>
                  if Allows c ScopePair \<and> \<not> Allows c ScopeWrite
                  then Some (AgentForbidden ''pair tokens cannot assert local agents'')
                  else if \<not> AllowsAgent c agentID
                  then (if AgentToken c then Some (AgentTokenInvalid agentID)
                        else Some (AgentForbidden ''agent is not allowed for this token''))
                  else None)
           in if claims_error \<noteq> None then claims_error
              else (case registeredAgent s agentID of
                      None \<Rightarrow> if mode = ModeOpen then Some (AgentRegistrationRequired agentID) else None
                    | Some registration \<Rightarrow> registration_conflict ctx agentID registration))"

definition validateSenderIdentity ::
  "service \<Rightarrow> request_context \<Rightarrow> actor \<Rightarrow> message_origin \<Rightarrow> service_error option \<times> service" where
  "validateSenderIdentity s ctx a origin =
     (if remoteOriginRequiresPairCheck s ctx a origin then (Some (AgentConflict ''remote origin actor''), s)
      else if trim_space (act_type a) = ''human'' then validateHumanSender s ctx origin
      else case remoteOriginPairStatus s ctx a origin of
             (Paired, s') \<Rightarrow> (None, s')
           | (PairUnbound, s') \<Rightarrow>
               (Some (AgentForbidden ''remote-origin agent requires a pair credential bound to network''), s')
           | (NotPairScoped, s') \<Rightarrow> (local_sender_error s' ctx a, s'))"

definition senderCredentialBound :: "service \<Rightarrow> request_context \<Rightarrow> actor \<Rightarrow> bool" where
  "senderCredentialBound s ctx a =
     (if trim_space (act_type a) = ''human'' \<or> trim_space (act_network_id a) \<noteq> sv_network_id s then False
      else
        let (agentID, local) = agentCollisionID s a
        in if \<not> local \<or> agentID = [] \<or> trim_space (act_id a) \<noteq> agentID \<or>
              trim_space (act_fqid a) \<noteq> AgentFQID (sv_network_id s) agentID then False
           else (case rx_claims ctx of
                   None \<Rightarrow> False
                 | Some c \<Rightarrow>
                     if \<not> Allows c ScopeWrite \<or> Allows c ScopePair then False
                     else (case AgentIDs c of
                             [only] \<Rightarrow>
                               if trim_space only \<noteq> agentID then False
                               else (case registeredAgent s agentID of
                                       None \<Rightarrow> False
                                     | Some registration \<Rightarrow>
                                         trim_space (cl_credential_key c) \<noteq> [] \<and>
                                         trim_space (cl_credential_key c) = trim_space (reg_credential_key registration))
                           | _ \<Rightarrow> False)))"

section \<open>What a sender states\<close>

definition canonicalOriginIDs :: "message_origin \<Rightarrow> message_origin" where
  "canonicalOriginIDs origin =
     origin\<lparr>org_network_id := trim_space (org_network_id origin), org_message_id := trim_space (org_message_id origin)\<rparr>"

definition stripPeerTestimony :: "send_message_request \<Rightarrow> send_message_request" where
  "stripPeerTestimony r =
     r\<lparr>smr_origin := (smr_origin r)\<lparr>org_claimed_author := None, org_claimed_network_id := [],
          org_claimed_message_id := [], org_claimed_discovery_network_id := []\<rparr>,
       smr_cause_event_ids := []\<rparr>"

fun dm_topology_loop :: "service \<Rightarrow> actor \<Rightarrow> string list \<Rightarrow> strset \<Rightarrow> bool \<Rightarrow> service_error option" where
  "dm_topology_loop s a [] ids included =
     (if fcard ids < 2 \<or> \<not> included then Some DMTopologyConflict else None)"
| "dm_topology_loop s a (participantID # rest) ids included =
     (let (networkID, agentID) = normalizedAgentIdentity (sv_network_id s) participantID;
          canonicalID = ScopedAgentID networkID agentID
      in if canonicalID |\<in>| ids then Some DMTopologyConflict
         else dm_topology_loop s a rest (finsert canonicalID ids)
                (included \<or> AgentIdentityMatches (act_network_id a) (act_id a) (sv_network_id s) participantID))"

definition validateDMSenderTopology :: "service \<Rightarrow> target \<Rightarrow> actor \<Rightarrow> service_error option" where
  "validateDMSenderTopology s t a =
     (if tgt_kind t \<noteq> TargetKindDM then None
      else dm_topology_loop s a (UniqueTrimmedStrings (tgt_participant_ids t)) {||} False)"

definition normalize_origin :: "service \<Rightarrow> request_context \<Rightarrow> message_origin \<Rightarrow> string \<Rightarrow> message_origin" where
  "normalize_origin s ctx origin messageID =
     origin\<lparr>org_network_id := (if trim_space (org_network_id origin) = [] then sv_network_id s
                               else trim_space (org_network_id origin)),
            org_message_id := (if trim_space (org_message_id origin) = [] then messageID else org_message_id origin),
            org_received_via := (case pairingForPairScopedContext s ctx of None \<Rightarrow> [] | Some p \<Rightarrow> pr_id p)\<rparr>"

end
