(* ===== verification/Sender_Properties.thy ===== *)
theory Sender_Properties
  imports Sender_Identity
begin

text \<open>
  What the checks of \<open>Sender_Identity\<close> guarantee: nobody speaks for a registered agent without
  its credential, an unbound pair credential speaks for the network it first named, a
  registration keeps the identity of every agent, a slug is an id up to its length, and an agent
  that registered in an open network can speak under the token it was given.
\<close>

section \<open>Nobody speaks for a registered agent\<close>

lemma remote_actor_not_local:
  assumes "remote_pair_claims s ctx origin = Some (n, c)" and "actorHasExplicitConsistentNetworkID a n"
  shows "\<not> snd (agentCollisionID s a)"
proof -
  from assms(1) have "n \<noteq> sv_network_id s" "n \<noteq> []"
    by (auto simp: remote_pair_claims_def Let_def split: if_splits option.splits)
  with assms(2) show ?thesis
    by (auto simp: actorHasExplicitConsistentNetworkID_def agentCollisionID_def Let_def split: option.splits if_splits)
qed

lemma not_paired:
  assumes "remoteOriginPairStatus s ctx a origin = (st, s')" and "snd (agentCollisionID s a)"
  shows "st = NotPairScoped \<and> s' = s"
  using assms remote_actor_not_local [of s ctx origin _ _ a]
  by (auto simp: remoteOriginPairStatus_def split: option.splits if_splits)

lemma registration_conflict_None:
  assumes "registration_conflict ctx i registration = None"
  shows "reg_credential_key registration = registrationCredentialKey ctx \<or>
         (\<exists>c. rx_claims ctx = Some c \<and> Operator c)"
  using assms by (auto simp: registration_conflict_def Let_def split: if_splits option.splits)

text \<open>
  C30. 
  Nobody speaks for a registered agent without its credential: when a message from a
  non-human actor that names a local registered agent is accepted, whatever origin it states,
  the request carries the key the agent registered with or is an operator's, and a credential
  restricted to some agents is restricted to this one.\<close>
theorem no_impersonation:
  assumes "validateSenderIdentity s ctx a origin = (None, s')" and "trim_space (act_type a) \<noteq> ''human''"
    and "agentCollisionID s a = (i, True)" and "i \<noteq> []" and "sv_agent_registry s" and "registeredAgent s i = Some r"
  shows "(reg_credential_key r = registrationCredentialKey ctx \<or> (\<exists>c. rx_claims ctx = Some c \<and> Operator c)) \<and>
         (\<forall>c. rx_claims ctx = Some c \<longrightarrow> AllowsAgent c i)"
proof -
  obtain st s1 where st: "remoteOriginPairStatus s ctx a origin = (st, s1)" by force
  with not_paired [OF st] assms(3) have "st = NotPairScoped" "s1 = s" by auto
  with assms(1,2) st have "local_sender_error s ctx a = None"
    by (auto simp: validateSenderIdentity_def split: if_splits)
  with assms(3-6) have "registration_conflict ctx i r = None" "\<forall>c. rx_claims ctx = Some c \<longrightarrow> AllowsAgent c i"
    by (auto simp: local_sender_error_def Let_def split: if_splits option.splits)
  then show ?thesis using registration_conflict_None by blast
qed

section \<open>A pair credential speaks for one network\<close>

lemma bindOrMatch_learned:
  "fmlookup (sv_learned_pair_networks s) j = Some m \<Longrightarrow>
     fmlookup (sv_learned_pair_networks (snd (bindOrMatchPairNetwork k n s))) j = Some m"
  "fst (fst (bindOrMatchPairNetwork k n s)) \<Longrightarrow>
     fmlookup (sv_learned_pair_networks (snd (bindOrMatchPairNetwork k n s))) k = Some n"
  by (auto simp: bindOrMatchPairNetwork_def split: option.splits)

lemma matches_keeps_learned:
  assumes "pairCredentialMatchesOrigin s ctx c n strict = (ok, s')"
    and "fmlookup (sv_learned_pair_networks s) j = Some m"
  shows "fmlookup (sv_learned_pair_networks s') j = Some m"
proof -
  have "s' = s \<or> s' = snd (bindOrMatchPairNetwork (pairBindingKey c) n s)"
    using assms(1) by (auto simp: pairCredentialMatchesOrigin_def Let_def split: if_splits option.splits prod.splits)
  then show ?thesis using assms(2) bindOrMatch_learned(1) by auto
qed

lemma matches_binds:
  assumes "pairCredentialMatchesOrigin s ctx c n strict = (True, s')"
    and "trim_space (cl_network c) = []" and "pairBindingKey c \<noteq> []" and "pinnedPairingNetworks s ctx = None"
  shows "fmlookup (sv_learned_pair_networks s') (pairBindingKey c) = Some n"
proof -
  have "s' = snd (bindOrMatchPairNetwork (pairBindingKey c) n s)" "fst (fst (bindOrMatchPairNetwork (pairBindingKey c) n s))"
    using assms by (auto simp: pairCredentialMatchesOrigin_def Let_def split: if_splits prod.splits)
  then show ?thesis using bindOrMatch_learned(2) by simp
qed

text \<open>Any number of checks of any senders.\<close>

inductive sender_checks :: "service \<Rightarrow> service \<Rightarrow> bool" where
  none: "sender_checks s s"
| check: "sender_checks s s1 \<Longrightarrow> validateSenderIdentity s1 ctx a origin = (e, s2) \<Longrightarrow> sender_checks s s2"

lemma validate_keeps_learned:
  assumes "validateSenderIdentity s ctx a origin = (e, s')"
    and "fmlookup (sv_learned_pair_networks s) j = Some m"
  shows "fmlookup (sv_learned_pair_networks s') j = Some m"
  using assms matches_keeps_learned [OF _ assms(2)]
  by (auto simp: validateSenderIdentity_def validateHumanSender_def remoteOriginPairStatus_def Let_def
      split: if_splits option.splits prod.splits bool.splits remote_origin_status.splits)

lemma checks_keep_learned:
  "sender_checks s s' \<Longrightarrow> fmlookup (sv_learned_pair_networks s) j = Some m \<Longrightarrow>
   fmlookup (sv_learned_pair_networks s') j = Some m"
  by (induction rule: sender_checks.induct) (auto dest: validate_keeps_learned)


section \<open>Slugs\<close>

lemma slug_loop_chars: "c \<in> set (slug_loop d rs) \<Longrightarrow> slug_char c \<or> c = CHR ''-''"
  by (induction d rs rule: slug_loop.induct) (auto split: if_splits)

lemma slug_char_id: "slug_char c \<Longrightarrow> id_first c" "slug_char c \<Longrightarrow> id_char c"
  by (auto simp: slug_char_def id_first_def id_char_def)

lemma trim_dashes_facts:
  "set (trim_dashes s) \<subseteq> set s" "trim_dashes s \<noteq> [] \<Longrightarrow> hd (trim_dashes s) \<noteq> CHR ''-''"
proof -
  let ?d = "\<lambda>c. c = CHR ''-''"
  show "set (trim_dashes s) \<subseteq> set s"
    by (auto simp: trim_dashes_def dest!: set_dropWhileD)
  assume ne: "trim_dashes s \<noteq> []"
  obtain u where u: "dropWhile ?d s = trim_dashes s @ u"
    by (metis dropWhile_eq_drop append_take_drop_id rev_append rev_rev_ident takeWhile_dropWhile_id trim_dashes_def)
  then have "hd (trim_dashes s) = hd (dropWhile ?d s)" "dropWhile ?d s \<noteq> []" using ne by auto
  then show "hd (trim_dashes s) \<noteq> CHR ''-''" using hd_dropWhile [of ?d s] by simp
qed


section \<open>Registration\<close>

lemma registerAgent_keeps:
  assumes "registerAgent s registration = (result, s')" and "registeredAgent s i = Some r"
  shows "\<exists>r'. registeredAgent s' i = Some r' \<and> reg_credential_key r' = reg_credential_key r \<and>
     reg_actor_uid r' = reg_actor_uid r \<and> reg_actor_uri r' = reg_actor_uri r"
  using assms
  by (auto simp: registerAgent_def registeredAgent_def RegisterAgentContext_def GetRegisteredAgentContext_def Let_def
      split: if_splits option.splits prod.splits)

lemma store_registration_keeps:
  assumes "store_registration s agentID tok registration = (result, s')" and "registeredAgent s i = Some r"
  shows "\<exists>r'. registeredAgent s' i = Some r' \<and> reg_credential_key r' = reg_credential_key r \<and>
     reg_actor_uid r' = reg_actor_uid r \<and> reg_actor_uri r' = reg_actor_uri r"
proof -
  obtain res where "registerAgent s registration = (res, s')"
    using assms(1) by (auto simp: store_registration_def split: prod.splits sum.splits)
  then show ?thesis using assms(2) by (rule registerAgent_keeps)
qed

text \<open>
  Registration never changes who an agent is: after any registration request, accepted or
  refused, under any credential, an administrator's included, every registered agent still has
  the credential key, actor id and actor URI it had.\<close>
lemma registration_keeps_identity:
  assumes "service_register_agent s ctx inputs request = (result, s')" and "registeredAgent s i = Some r"
  shows "\<exists>r'. registeredAgent s' i = Some r' \<and> reg_credential_key r' = reg_credential_key r \<and>
     reg_actor_uid r' = reg_actor_uid r \<and> reg_actor_uri r' = reg_actor_uri r"
proof -
  from assms(1) have "s' = s \<or> (\<exists>agentID tok registration. store_registration s agentID tok registration = (result, s'))"
    by (auto simp: service_register_agent_def Let_def split: sum.splits if_splits option.splits prod.splits)
  then show ?thesis using assms(2) store_registration_keeps by auto
qed


section \<open>From registration to the first message\<close>

lemma find_unique:
  assumes "x \<in> set xs" and "P x" and "\<And>y. y \<in> set xs \<Longrightarrow> P y \<Longrightarrow> y = x"
  shows "find P xs = Some x"
proof -
  have "find P xs \<noteq> None" using assms(1,2) unfolding find_None_iff by blast
  then obtain y where y: "find P xs = Some y" by blast
  then have "y \<in> set xs" "P y" by (auto simp: find_Some_iff)
  with y assms(3) show ?thesis by simp
qed

lemma graphic_b64: "list_all graphic b64_alphabet" "list_all graphic ''0123456789abcdef''"
  "list_all graphic AgentTokenPrefix" "list_all graphic ''agent-token:''"
  by code_simp+

lemma agent_token_trim [simp]: "trim_space (agent_token b) = agent_token b"
proof (rule trim_space_graphic)
  have "set (agent_token b) \<subseteq> set AgentTokenPrefix \<union> set b64_alphabet"
    unfolding agent_token_def set_append using set_EncodeToString by blast
  then show "\<forall>c \<in> set (agent_token b). graphic c" using graphic_b64(1,3) unfolding list_all_iff by blast
qed

lemma agent_key_trim [simp]: "trim_space (AgentTokenCredentialKey t) = AgentTokenCredentialKey t"
proof (rule trim_space_graphic)
  have "set (AgentTokenCredentialKey t) \<subseteq> set ''agent-token:'' \<union> hex_digits"
    unfolding AgentTokenCredentialKey_def set_append using set_hex_encode by blast
  then show "\<forall>c \<in> set (AgentTokenCredentialKey t). graphic c"
    using graphic_b64(2,4) unfolding list_all_iff hex_digits_def by blast
qed

lemma store_registration_issued:
  assumes "store_registration s agentID tok registration = (Inr res, s')" and "rr_created res"
    and "reg_agent_token (rr_registration res) \<noteq> []" and "sv_agent_registry s"
  shows "tok = reg_agent_token (rr_registration res) \<and> reg_agent_id (rr_registration res) = reg_agent_id registration \<and>
         s' = s\<lparr>sv_store := sv_store s'\<rparr> \<and> fmlookup (agents (sv_store s)) (reg_agent_id registration) = None \<and>
         agents (sv_store s') = fmupd (reg_agent_id registration) (registration\<lparr>reg_agent_token := []\<rparr>) (agents (sv_store s))"
  using assms
  by (auto simp: store_registration_def registerAgent_def RegisterAgentContext_def Let_def
      split: sum.splits prod.splits option.splits if_splits)

text \<open>The registration a request stores when it was issued a token for a new agent.\<close>

lemma issued_registration:
  assumes "service_register_agent s ctx inputs request = (Inr res, s')" and "rr_created res"
    and "reg_agent_token (rr_registration res) \<noteq> []" and "sv_agent_registry s"
    and "trim_space (reg_agent_id (rr_registration res)) = reg_agent_id (rr_registration res)"
  shows "reg_agent_token (rr_registration res) = agent_token (ri_random inputs) \<and> s' = s\<lparr>sv_store := sv_store s'\<rparr> \<and>
    (\<exists>r. agents (sv_store s') = fmupd (reg_agent_id (rr_registration res)) r (agents (sv_store s)) \<and>
       reg_agent_id r = reg_agent_id (rr_registration res) \<and>
       reg_credential_key r = AgentTokenCredentialKey (reg_agent_token (rr_registration res)))"
proof -
  obtain key tok where cred: "registrationCredential ctx (ri_random inputs) = (key, tok)" by force
  have tok: "tok \<noteq> [] \<Longrightarrow> tok = agent_token (ri_random inputs) \<and> key = AgentTokenCredentialKey tok"
    using cred by (auto simp: registrationCredential_def split: option.splits if_splits)
  obtain agentID where agentID: "resolveRequestedAgentID s (ri_fresh inputs) request = Inr agentID"
    using assms(1) by (auto simp: service_register_agent_def split: sum.splits)
  define R where "R = \<lparr>reg_network_id = sv_network_id s, reg_agent_id = agentID, reg_actor_uid = ri_actor_uid inputs,
    reg_actor_uri = AgentFQID (sv_network_id s) agentID, reg_display_name = trim_space (rar_name request),
    reg_agent_token = [], reg_credential_key = key, reg_created_at = ri_now inputs, reg_updated_at = ri_now inputs\<rparr>"
  have "store_registration s agentID tok R = (Inr res, s') \<or>
    (\<exists>e. registeredAgent s agentID = Some e \<and>
       store_registration s agentID tok (R\<lparr>reg_credential_key := reg_credential_key e, reg_actor_uid := reg_actor_uid e,
         reg_actor_uri := reg_actor_uri e, reg_created_at := reg_created_at e\<rparr>) = (Inr res, s'))"
    using assms(1) by (auto simp: service_register_agent_def cred agentID Let_def R_def split: if_splits option.splits)
  then obtain registration where
    stored: "store_registration s agentID tok registration = (Inr res, s')" "reg_agent_id registration = agentID"
    and key: "registeredAgent s agentID = None \<Longrightarrow> reg_credential_key registration = key"
    by (auto simp: R_def)
  note issued = store_registration_issued [OF stored(1) assms(2-4)]
  with stored(2) assms(4,5) have "registeredAgent s agentID = None"
    by (auto simp: registeredAgent_def GetRegisteredAgentContext_def)
  with issued tok key stored(2) assms(3) show ?thesis by auto
qed

text \<open>
  C36. 
  An agent that registers can speak: in a network whose registration is open, the token issued
  for a new agent authenticates as that agent, and under the claims it gives a message from the
  agent with no remote origin passes the check of the sender, provided no other agent's
  credential has the digest of the new token.\<close>
theorem registered_agent_can_speak:
  assumes "service_register_agent s ctx inputs request = (Inr res, s')" and "rr_created res" and "sv_agent_registry s"
    and "token = reg_agent_token (rr_registration res)" and "token \<noteq> []"
    and "\<forall>r \<in> set (fmvalues (agents (sv_store s))). reg_credential_key r \<noteq> AgentTokenCredentialKey token"
    and "agentCollisionID s a = (reg_agent_id (rr_registration res), True)" and "reg_agent_id (rr_registration res) \<noteq> []"
    and "trim_space (act_type a) \<noteq> ''human''" and "trim_space (org_network_id origin) \<in> {[], sv_network_id s}"
  shows "\<exists>c. AuthenticateAgentToken s' token = Some c \<and>
             validateSenderIdentity s' (WithMode (WithClaims background c) ModeOpen) a origin = (None, s')"
proof -
  let ?i = "reg_agent_id (rr_registration res)"
  let ?c = "NewAgentTokenClaims ?i (AgentTokenCredentialKey token)"
  let ?ctx = "WithMode (WithClaims background ?c) ModeOpen"
  have trim: "trim_space ?i = ?i"
    using assms(7) by (auto simp: agentCollisionID_def split: option.splits if_splits dest!: sym [of _ ?i])
  obtain r where tok: "token = agent_token (ri_random inputs)" and s': "s' = s\<lparr>sv_store := sv_store s'\<rparr>"
    and agents: "agents (sv_store s') = fmupd ?i r (agents (sv_store s))"
    and r: "reg_agent_id r = ?i" "reg_credential_key r = AgentTokenCredentialKey token"
    using issued_registration [OF assms(1,2) _ assms(3) trim] assms(4,5) by auto
  have fields: "sv_network_id s' = sv_network_id s" "sv_agent_registry s'"
    by (subst s', simp add: assms(3))+
  have "find (\<lambda>x. reg_credential_key x = AgentTokenCredentialKey token) (fmvalues (agents (sv_store s'))) = Some r"
    using assms(6) r(2) by (intro find_unique) (auto simp: agents set_fmvalues split: if_splits)
  moreover have "AgentTokenCredentialKey token \<noteq> []" by (simp add: AgentTokenCredentialKey_def)
  moreover have "LooksLikeAgentToken token"
    by (simp add: tok LooksLikeAgentToken_def has_prefix_def) (simp add: agent_token_def)
  ultimately have auth: "AuthenticateAgentToken s' token = Some ?c"
    using fields r by (simp add: AuthenticateAgentToken_def GetRegisteredAgentByCredentialKeyContext_def)
  have "trim_space ModeOpen = ModeOpen" by code_simp
  then have claims: "rx_claims ?ctx = Some ?c" "ModeFromContext ?ctx = ModeOpen"
    by (simp_all add: WithMode_def WithClaims_def ModeFromContext_def)
  have scopes: "\<not> Allows ?c ScopePair" "Allows ?c ScopeWrite" "\<not> Operator ?c" "AllowsAgent ?c ?i"
    using assms(8) trim by (auto simp: NewAgentTokenClaims_def Operator_iff AllowsAgent_def)
  have agent: "registeredAgent s' ?i = Some r"
    using fields trim by (simp add: registeredAgent_def GetRegisteredAgentContext_def agents)
  have "registrationCredentialKey ?ctx = AgentTokenCredentialKey token"
    using \<open>AgentTokenCredentialKey token \<noteq> []\<close> claims(1)
    by (simp add: registrationCredentialKey_def credentialKeyFromContext_def NewAgentTokenClaims_def)
  moreover have "AgentTokenCredentialKey token \<noteq> ''anonymous''" by (simp add: AgentTokenCredentialKey_def)
  ultimately have conflict: "registration_conflict ?ctx ?i r = None"
    unfolding registration_conflict_def Let_def claims option.case using r scopes by simp
  have local: "agentCollisionID s' a = (?i, True)"
    using assms(7) unfolding agentCollisionID_def fields(1) .
  have "local_sender_error s' ?ctx a = None"
    unfolding local_sender_error_def Let_def local claims option.case prod.case agent conflict
    using fields(2) scopes by simp
  moreover have "remote_pair_claims s' ?ctx origin = None"
    using assms(10) fields by (auto simp: remote_pair_claims_def)
  ultimately have "validateSenderIdentity s' ?ctx a origin = (None, s')"
    using assms(9) by (simp add: validateSenderIdentity_def remoteOriginRequiresPairCheck_def remoteOriginPairStatus_def)
  with auth show ?thesis by blast
qed


section \<open>Sample checks\<close>

definition sample_registration :: agent_registration where
  "sample_registration = \<lparr>reg_network_id = ''net-a'', reg_agent_id = ''al'', reg_actor_uid = ''uid'', reg_actor_uri = [],
     reg_display_name = [], reg_agent_token = [], reg_credential_key = ''token:t1'', reg_created_at = 1, reg_updated_at = 1\<rparr>"

definition sample_home :: service where
  "sample_home = sample_service\<lparr>sv_store := NewMemoryStore\<lparr>agents := fmupd ''al'' sample_registration fmempty\<rparr>\<rparr>"

definition sample_writer :: request_context where
  "sample_writer = WithMode (WithClaims background
     \<lparr>cl_token_id = ''t1'', cl_credential_key = [], cl_network = [], cl_scopes = {|ScopeWrite|}, cl_agents = {||}\<rparr>) ModeBearer"

definition sample_local :: actor where
  "sample_local = \<lparr>act_type = ''agent'', act_id = ''al'', act_name = [], act_network_id = [], act_fqid = [], act_credential_bound = False\<rparr>"

definition sample_origin :: "string \<Rightarrow> message_origin" where
  "sample_origin n = \<lparr>org_claimed_author = None, org_claimed_network_id = [], org_claimed_message_id = [],
     org_claimed_discovery_network_id = [], org_network_id = n, org_message_id = ''m1'', org_received_via = []\<rparr>"

lemma sample_speaks: "fst (validateSenderIdentity sample_home sample_writer sample_local (sample_origin [])) = None"
  by code_simp

theorem no_impersonation_witness:
  "reg_credential_key sample_registration = registrationCredentialKey sample_writer"
proof -
  have "validateSenderIdentity sample_home sample_writer sample_local (sample_origin []) =
      (None, snd (validateSenderIdentity sample_home sample_writer sample_local (sample_origin [])))"
    using sample_speaks by (simp add: prod_eq_iff)
  moreover have "trim_space (act_type sample_local) \<noteq> ''human''" "agentCollisionID sample_home sample_local = (''al'', True)"
    "sv_agent_registry sample_home" "registeredAgent sample_home ''al'' = Some sample_registration"
    by code_simp+
  moreover have "\<not> (\<exists>c. rx_claims sample_writer = Some c \<and> Operator c)"
    by (simp add: sample_writer_def WithMode_def WithClaims_def Operator_iff)
  ultimately show ?thesis
    using no_impersonation [of sample_home sample_writer sample_local "sample_origin []" _ "''al''" sample_registration] by blast
qed

abbreviation sample_pair_claims :: claims where
  "sample_pair_claims \<equiv> the (rx_claims sample_peer)"


definition sample_request :: register_agent_request where
  "sample_request = \<lparr>rar_requested_agent_id = ''al'', rar_name = ''Al''\<rparr>"

definition sample_inputs :: registration_inputs where
  "sample_inputs = \<lparr>ri_fresh = (\<lambda>n. ''agent_x''), ri_actor_uid = ''actor_x'', ri_random = ''01234567'', ri_now = 5\<rparr>"

lemma registration_keeps_identity_example:
  "\<exists>r'. registeredAgent (snd (service_register_agent sample_home sample_writer sample_inputs sample_request)) ''al'' = Some r' \<and>
        reg_credential_key r' = ''token:t1''"
proof -
  have "registeredAgent sample_home ''al'' = Some sample_registration" by code_simp
  then show ?thesis
    using registration_keeps_identity [of sample_home sample_writer sample_inputs sample_request _ _ "''al''"]
    by (fastforce simp: sample_registration_def prod_eq_iff)
qed


definition sample_open :: request_context where
  "sample_open = WithMode background ModeOpen"

definition sample_result :: "(service_error + registration_result) \<times> service" where
  "sample_result = service_register_agent sample_service sample_open sample_inputs sample_request"

lemma sample_registers:
  "\<exists>res s'. sample_result = (Inr res, s') \<and> rr_created res \<and> reg_agent_id (rr_registration res) = ''al'' \<and>
     reg_agent_token (rr_registration res) = agent_token ''01234567''"
proof -
  have "resolveRequestedAgentID sample_service (ri_fresh sample_inputs) sample_request = Inr ''al''"
    "registeredAgent sample_service ''al'' = None" "sv_agent_registry sample_service"
    "fmlookup (agents (sv_store sample_service)) ''al'' = None" "rx_claims sample_open = None"
    "ModeFromContext sample_open = ModeOpen"
    by code_simp+
  moreover from this have "registrationCredential sample_open ''01234567'' =
      (AgentTokenCredentialKey (agent_token ''01234567''), agent_token ''01234567'')"
    by (simp add: registrationCredential_def credentialKeyFromContext_def)
  moreover have "agent_token ''01234567'' \<noteq> []" by (simp add: agent_token_def)
  ultimately show ?thesis
    by (simp add: sample_result_def service_register_agent_def store_registration_def registerAgent_def
        RegisterAgentContext_def sample_inputs_def Let_def)
qed

theorem registered_agent_can_speak_witness:
  "\<exists>s' c. AuthenticateAgentToken s' (agent_token ''01234567'') = Some c \<and>
     validateSenderIdentity s' (WithMode (WithClaims background c) ModeOpen) sample_local (sample_origin []) = (None, s')"
proof -
  obtain res s' where res: "service_register_agent sample_service sample_open sample_inputs sample_request = (Inr res, s')"
      "rr_created res" "reg_agent_id (rr_registration res) = ''al''"
      "agent_token ''01234567'' = reg_agent_token (rr_registration res)"
    using sample_registers by (auto simp: sample_result_def)
  have facts: "sv_agent_registry sample_service" "fmvalues (agents (sv_store sample_service)) = []"
      "agentCollisionID sample_service sample_local = (''al'', True)" "trim_space (act_type sample_local) \<noteq> ''human''"
      "trim_space (org_network_id (sample_origin [])) = []"
    by code_simp+
  have "agent_token ''01234567'' \<noteq> []" by (simp add: agent_token_def)
  then show ?thesis
    using registered_agent_can_speak [OF res(1,2) facts(1) res(4), of sample_local "sample_origin []"] facts res(3) by auto
qed

end
