(* ===== verification/Event_Visibility.thy ===== *)
theory Event_Visibility
  imports Service_Access
begin

text \<open>
  What a restricted credential is shown: the events of its stream and the artifacts it may list
  (\<open>internal/rooms/private_visibility.go\<close>), the filter of the stream (\<open>query.go\<close>), and the rooms
  and agents of a paired network (\<open>pairing_visibility.go\<close>). A channel is the list of the events
  sent on it.
  Shown: a restricted stream carries an event only when what the event is about is in the store
  and readable, and discovery shows an agent only as a member of rooms it shows.
\<close>

section \<open>Identities and networks\<close>

abbreviation EventTypeRoomCreated :: string where "EventTypeRoomCreated \<equiv> ''room.created''"
abbreviation EventTypeRoomMembersUpdated :: string where "EventTypeRoomMembersUpdated \<equiv> ''room.members.updated''"
abbreviation EventTypeRoomRemoved :: string where "EventTypeRoomRemoved \<equiv> ''room.removed''"
abbreviation EventTypeThreadCreated :: string where "EventTypeThreadCreated \<equiv> ''thread.created''"
abbreviation EventTypeDMCreated :: string where "EventTypeDMCreated \<equiv> ''dm.created''"
abbreviation EventTypeAgentConnected :: string where "EventTypeAgentConnected \<equiv> ''agent.connected''"
abbreviation EventTypeAgentDisconnected :: string where "EventTypeAgentDisconnected \<equiv> ''agent.disconnected''"
abbreviation EventTypeAgentRemoved :: string where "EventTypeAgentRemoved \<equiv> ''agent.removed''"
abbreviation EventTypeAgentWakeDelivered :: string where "EventTypeAgentWakeDelivered \<equiv> ''agent.wake.delivered''"
abbreviation EventTypeAgentWakeFailed :: string where "EventTypeAgentWakeFailed \<equiv> ''agent.wake.failed''"

text \<open>The loop over the networks an event supplies: they must agree, the last one stands.\<close>

fun supplied_network :: "string \<Rightarrow> bool \<Rightarrow> string list \<Rightarrow> (string \<times> bool) option" where
  "supplied_network networkID seen [] = Some (networkID, seen)"
| "supplied_network networkID seen (supplied0 # rest) =
     (let supplied = trim_space supplied0
      in if supplied = [] then supplied_network networkID seen rest
         else if seen \<and> networkID \<noteq> supplied then None
         else supplied_network supplied True rest)"

definition resolvedAgentEventIdentity :: "string \<Rightarrow> string \<Rightarrow> agent_event \<Rightarrow> (string \<times> string) option" where
  "resolvedAgentEventIdentity defaultNetworkID outerNetwork agent =
     (let agentID = trim_space (ae_agent_id agent)
      in if agentID = [] then None
         else case supplied_network (trim_space defaultNetworkID) False [outerNetwork, ae_network_id agent] of
                None \<Rightarrow> None
              | Some (networkID, seen) \<Rightarrow>
                  if trim_space (ae_fqid agent) = []
                  then (if networkID = [] then None else Some (networkID, agentID))
                  else (case ParseAgentFQID (trim_space (ae_fqid agent)) of
                          None \<Rightarrow> None
                        | Some (fqNetwork, fqAgent) \<Rightarrow>
                            if trim_space fqAgent \<noteq> agentID then None
                            else if seen \<and> networkID \<noteq> trim_space fqNetwork then None
                            else if trim_space fqNetwork = [] then None
                            else Some (trim_space fqNetwork, agentID)))"

definition AgentEventIdentityMatches :: "string \<Rightarrow> string \<Rightarrow> event \<Rightarrow> bool" where
  "AgentEventIdentityMatches defaultNetworkID candidate e =
     (case evt_agent e of
        None \<Rightarrow> False
      | Some agent \<Rightarrow>
          (case resolvedAgentEventIdentity defaultNetworkID (evt_network_id e) agent of
             None \<Rightarrow> False
           | Some (eventNetwork, eventAgent) \<Rightarrow>
               eventNetwork \<noteq> [] \<and> (eventNetwork, eventAgent) = normalizedAgentIdentity defaultNetworkID candidate))"

definition networkIdentityEqual :: "string \<Rightarrow> string \<Rightarrow> bool" where
  "networkIdentityEqual authoritative supplied \<longleftrightarrow>
     trim_space supplied = [] \<or> trim_space authoritative = trim_space supplied"

definition eventNetworksMatch :: "string \<Rightarrow> string \<Rightarrow> string list \<Rightarrow> bool" where
  "eventNetworksMatch authoritative fallback supplied =
     (let expected = (if trim_space authoritative = [] then trim_space fallback else trim_space authoritative)
      in list_all (\<lambda>n. trim_space n = [] \<or> trim_space n = expected) supplied \<and> (expected \<noteq> [] \<or> supplied = []))"

definition messageNetworksMatch :: "string \<Rightarrow> string \<Rightarrow> string \<Rightarrow> message option \<Rightarrow> bool" where
  "messageNetworksMatch authoritative fallback outer m =
     (case m of None \<Rightarrow> False | Some msg \<Rightarrow> eventNetworksMatch authoritative fallback [outer, msg_network_id msg])"

definition participantsEqual :: "string list \<Rightarrow> string list \<Rightarrow> bool" where
  "participantsEqual left right \<longleftrightarrow> SortedUniqueTrimmedStrings left = SortedUniqueTrimmedStrings right"

definition roomsSecurityEqual :: "room \<Rightarrow> room \<Rightarrow> bool" where
  "roomsSecurityEqual l r \<longleftrightarrow>
     rm_id l = rm_id r \<and> networkIdentityEqual (rm_network_id l) (rm_network_id r) \<and> rm_fqid l = rm_fqid r \<and>
     rm_name l = rm_name r \<and> rm_visibility l = rm_visibility r \<and> rm_write_policy l = rm_write_policy r \<and>
     participantsEqual (rm_members l) (rm_members r)"

definition threadsSecurityEqual :: "thread \<Rightarrow> thread \<Rightarrow> bool" where
  "threadsSecurityEqual l r \<longleftrightarrow>
     thr_id l = thr_id r \<and> networkIdentityEqual (thr_network_id l) (thr_network_id r) \<and> thr_fqid l = thr_fqid r \<and>
     thr_room_id l = thr_room_id r \<and> thr_parent_message_id l = thr_parent_message_id r"

definition directConversationsSecurityEqual :: "direct_conversation \<Rightarrow> direct_conversation \<Rightarrow> bool" where
  "directConversationsSecurityEqual l r \<longleftrightarrow>
     dc_id l = dc_id r \<and> networkIdentityEqual (dc_network_id l) (dc_network_id r) \<and> dc_fqid l = dc_fqid r \<and>
     participantsEqual (dc_participant_ids l) (dc_participant_ids r)"

section \<open>Events\<close>

definition agent_event_allowed :: "service \<Rightarrow> claims \<Rightarrow> event \<Rightarrow> bool" where
  "agent_event_allowed s c e =
     list_ex (\<lambda>agentID. AllowsAgent c agentID \<and> AgentEventIdentityMatches (sv_network_id s) agentID e) (AgentIDs c)"

definition room_visible :: "service \<Rightarrow> request_context \<Rightarrow> string \<Rightarrow> bool" where
  "room_visible s ctx roomID = (case getRoom s roomID of None \<Rightarrow> False | Some r \<Rightarrow> canReadRoom s ctx r)"

definition room_event_visible :: "service \<Rightarrow> request_context \<Rightarrow> event \<Rightarrow> bool" where
  "room_event_visible s ctx e =
     (case evt_room e of
        None \<Rightarrow> False
      | Some payload \<Rightarrow>
          (case getRoom s (rm_id payload) of
             None \<Rightarrow> False
           | Some r \<Rightarrow>
               eventNetworksMatch (rm_network_id r) (sv_network_id s) [evt_network_id e, rm_network_id payload] \<and>
               roomsSecurityEqual r payload \<and> canReadRoom s ctx r))"

definition thread_event_visible :: "service \<Rightarrow> request_context \<Rightarrow> event \<Rightarrow> bool" where
  "thread_event_visible s ctx e =
     (case evt_thread e of
        None \<Rightarrow> False
      | Some payload \<Rightarrow>
          (case getThread s (thr_id payload) of
             None \<Rightarrow> False
           | Some th \<Rightarrow>
               if \<not> threadsSecurityEqual th payload then False
               else (case getRoom s (thr_room_id th) of
                       None \<Rightarrow> False
                     | Some r \<Rightarrow>
                         eventNetworksMatch (rm_network_id r) (sv_network_id s) [evt_network_id e, thr_network_id payload] \<and>
                         room_visible s ctx (thr_room_id th))))"

definition dm_event_visible :: "service \<Rightarrow> request_context \<Rightarrow> event \<Rightarrow> bool" where
  "dm_event_visible s ctx e =
     (case evt_dm e of
        None \<Rightarrow> False
      | Some payload \<Rightarrow>
          (case getDirectConversation s (dc_id payload) of
             None \<Rightarrow> False
           | Some d \<Rightarrow>
               eventNetworksMatch (dc_network_id d) (sv_network_id s) [evt_network_id e, dc_network_id payload] \<and>
               directConversationsSecurityEqual d payload \<and> canReadDirectConversation s ctx d))"

definition message_event_visible :: "service \<Rightarrow> request_context \<Rightarrow> event \<Rightarrow> bool" where
  "message_event_visible s ctx e =
     (case evt_message e of
        None \<Rightarrow> False
      | Some m \<Rightarrow>
          let t = msg_target m
          in if tgt_kind t = TargetKindDM then
               (case getDirectConversation s (tgt_dm_id t) of
                  None \<Rightarrow> False
                | Some d \<Rightarrow>
                    messageNetworksMatch (dc_network_id d) (sv_network_id s) (evt_network_id e) (Some m) \<and>
                    participantsEqual (dc_participant_ids d) (tgt_participant_ids t) \<and> canReadDirectConversation s ctx d)
             else if tgt_kind t = TargetKindThread then
               (case getThread s (tgt_thread_id t) of
                  None \<Rightarrow> False
                | Some th \<Rightarrow>
                    (case getRoom s (thr_room_id th) of
                       None \<Rightarrow> False
                     | Some r \<Rightarrow>
                         messageNetworksMatch (rm_network_id r) (sv_network_id s) (evt_network_id e) (Some m) \<and>
                         (tgt_room_id t = [] \<or> tgt_room_id t = thr_room_id th) \<and> room_visible s ctx (thr_room_id th)))
             else if tgt_kind t \<noteq> TargetKindRoom then False
             else (case getRoom s (tgt_room_id t) of
                     None \<Rightarrow> False
                   | Some r \<Rightarrow>
                       messageNetworksMatch (rm_network_id r) (sv_network_id s) (evt_network_id e) (Some m) \<and>
                       canReadRoom s ctx r))"

definition eventVisible :: "service \<Rightarrow> request_context \<Rightarrow> event \<Rightarrow> bool" where
  "eventVisible s ctx e =
     (if evt_type e = EventTypeReplayGap then True
      else case rx_claims ctx of
             None \<Rightarrow> True
           | Some c \<Rightarrow>
               if \<not> HasAgentRestriction c then True
               else if evt_type e \<in> set [EventTypeRoomCreated, EventTypeRoomMembersUpdated, EventTypeRoomRemoved]
               then room_event_visible s ctx e
               else if evt_type e = EventTypeThreadCreated then thread_event_visible s ctx e
               else if evt_type e = EventTypeMessageCreated then message_event_visible s ctx e
               else if evt_type e = EventTypeDMCreated then dm_event_visible s ctx e
               else if evt_type e \<in> set [EventTypeAgentConnected, EventTypeAgentDisconnected, EventTypeAgentRemoved,
                                        EventTypeAgentWakeDelivered, EventTypeAgentWakeFailed]
               then agent_event_allowed s c e
               else False)"

definition directMessageEvent :: "event \<Rightarrow> bool" where
  "directMessageEvent e \<longleftrightarrow>
     evt_dm e \<noteq> None \<or>
     (case evt_message e of None \<Rightarrow> False | Some m \<Rightarrow> tgt_kind (msg_target m) = TargetKindDM)"

text \<open>Each event comes with the service as it is when the event is read from the stream.\<close>

definition filterEvents :: "service \<Rightarrow> request_context \<Rightarrow> (service \<times> event) list \<Rightarrow> event list" where
  "filterEvents s ctx stream =
     (let restricted = (case rx_claims ctx of None \<Rightarrow> False | Some c \<Rightarrow> HasAgentRestriction c)
      in if \<not> sv_disable_direct_messages s \<and> \<not> restricted then map snd stream
         else map snd (filter (\<lambda>(now, e). \<not> (sv_disable_direct_messages s \<and> directMessageEvent e \<or>
                                             restricted \<and> \<not> eventVisible now ctx e)) stream))"

section \<open>Artifacts\<close>

definition room_scope_error :: "service \<Rightarrow> request_context \<Rightarrow> string \<Rightarrow> service_error option" where
  "room_scope_error s ctx roomID =
     (case getRoom s roomID of
        None \<Rightarrow> Some (UnknownRoom roomID)
      | Some r \<Rightarrow> if readableRoom s ctx r = None then Some (ReadForbidden roomID) else None)"

definition validateArtifactScope :: "service \<Rightarrow> request_context \<Rightarrow> artifact_filter \<Rightarrow> service_error option" where
  "validateArtifactScope s ctx f =
     (if length (filter (\<lambda>i. i \<noteq> []) [af_room_id f, af_thread_id f, af_dm_id f]) \<noteq> 1
      then Some (InvalidRoomRequest ''exactly one artifact parent is required'')
      else if af_room_id f \<noteq> [] then room_scope_error s ctx (af_room_id f)
      else if af_thread_id f \<noteq> [] then
        (case getThread s (af_thread_id f) of
           None \<Rightarrow> Some (UnknownThread (af_thread_id f))
         | Some th \<Rightarrow> room_scope_error s ctx (thr_room_id th))
      else (case getDirectConversation s (af_dm_id f) of
              None \<Rightarrow> Some (UnknownDM (af_dm_id f))
            | Some d \<Rightarrow>
                if \<not> canReadDirectConversation s ctx d
                then Some (AgentForbidden ''direct conversation is not readable'') else None))"


section \<open>The rooms and agents of a paired network\<close>

definition validPairingIdentity :: "string \<Rightarrow> string \<Rightarrow> (string \<times> string) option" where
  "validPairingIdentity networkID agentID =
     (if ValidateMessageID (trim_space networkID) \<noteq> None \<or> ValidateMessageID (trim_space agentID) \<noteq> None
      then None else Some (trim_space networkID, trim_space agentID))"

definition canonicalPairingIdentity :: "string \<Rightarrow> string \<Rightarrow> (string \<times> string) option" where
  "canonicalPairingIdentity defaultNetworkID v =
     (case ParseScopedAgentID (trim_space v) of
        Some (n, a) \<Rightarrow> validPairingIdentity n a
      | None \<Rightarrow>
          (case ParseAgentFQID (trim_space v) of
             Some (n, a) \<Rightarrow> validPairingIdentity n a
           | None \<Rightarrow> validPairingIdentity defaultNetworkID (trim_space v)))"

definition pairingDiscoveryRestricted :: "request_context \<Rightarrow> bool" where
  "pairingDiscoveryRestricted ctx \<longleftrightarrow>
     (case rx_claims ctx of None \<Rightarrow> False | Some c \<Rightarrow> HasAgentRestriction c)"

definition allowedPairingViewerIdentities :: "service \<Rightarrow> claims \<Rightarrow> strset" where
  "allowedPairingViewerIdentities s c =
     fset_of_list (List.map_filter (\<lambda>agentID.
       if \<not> AllowsAgent c agentID then None
       else case canonicalPairingIdentity (sv_network_id s) agentID of
              None \<Rightarrow> None
            | Some (n, a) \<Rightarrow> if n \<noteq> sv_network_id s then None else Some (ScopedAgentID n a)) (AgentIDs c))"

definition pairingRoomAuthorityMatches :: "pairing \<Rightarrow> room \<Rightarrow> bool" where
  "pairingRoomAuthorityMatches p r =
     (let expectedNetwork = trim_space (pr_remote_network_id p);
          roomID = trim_space (rm_id r)
      in if expectedNetwork = [] \<or> ValidateRoomID roomID \<noteq> None then False
         else if trim_space (rm_network_id r) \<noteq> [] \<and> trim_space (rm_network_id r) \<noteq> expectedNetwork then False
         else if trim_space (rm_fqid r) \<noteq> [] \<and> trim_space (rm_fqid r) \<noteq> RoomFQID expectedNetwork roomID then False
         else True)"

text \<open>The identities of the members of a room that parse, in the room's order.\<close>

definition member_identities :: "string \<Rightarrow> room \<Rightarrow> string list" where
  "member_identities defaultNetworkID r =
     List.map_filter (\<lambda>m. map_option (\<lambda>(n, a). ScopedAgentID n a) (canonicalPairingIdentity defaultNetworkID m)) (rm_members r)"

definition pairingRoomContainsAny :: "room \<Rightarrow> string \<Rightarrow> strset \<Rightarrow> bool" where
  "pairingRoomContainsAny r defaultNetworkID allowed =
     list_ex (\<lambda>i. i |\<in>| allowed) (member_identities defaultNetworkID r)"

definition filterPairingRooms :: "service \<Rightarrow> request_context \<Rightarrow> pairing \<Rightarrow> room list \<Rightarrow> room list" where
  "filterPairingRooms s ctx p remote =
     (if \<not> pairingDiscoveryRestricted ctx then remote
      else
        let allowed = allowedPairingViewerIdentities s (the (rx_claims ctx))
        in filter (\<lambda>r. pairingRoomAuthorityMatches p r \<and>
                       (NormalizeRoomVisibility (rm_visibility r) = RoomVisibilityPublic \<or>
                        pairingRoomContainsAny r (pr_remote_network_id p) allowed)) remote)"

definition pairingRoomMemberships :: "pairing \<Rightarrow> room list \<Rightarrow> strset strmap" where
  "pairingRoomMemberships p remote =
     fold (\<lambda>r m. if \<not> pairingRoomAuthorityMatches p r then m
                 else fmupd (rm_id r) (fset_of_list (member_identities (pr_remote_network_id p) r)) m) remote fmempty"

definition pairingAgentIdentity :: "pairing \<Rightarrow> agent_summary \<Rightarrow> string option" where
  "pairingAgentIdentity p agent =
     (let supplied = trim_space (as_network_id agent);
          defaultNetworkID = (if supplied \<noteq> [] then supplied else trim_space (pr_remote_network_id p))
      in case canonicalPairingIdentity defaultNetworkID (as_id agent) of
           None \<Rightarrow> None
         | Some (networkID, agentID) \<Rightarrow>
             if supplied \<noteq> [] \<and> supplied \<noteq> networkID then None
             else if trim_space (as_fqid agent) \<noteq> [] \<and>
               (case ParseAgentFQID (trim_space (as_fqid agent)) of
                  None \<Rightarrow> True
                | Some (fqNetwork, fqAgent) \<Rightarrow> trim_space fqNetwork \<noteq> networkID \<or> trim_space fqAgent \<noteq> agentID)
             then None
             else Some (ScopedAgentID networkID agentID))"

text \<open>One agent of the remote listing: shown with the visible rooms it is a member of, or not at all.\<close>

definition visible_agent :: "pairing \<Rightarrow> strset strmap \<Rightarrow> agent_summary list \<Rightarrow> agent_summary \<Rightarrow> agent_summary option" where
  "visible_agent p standing remote agent =
     (case pairingAgentIdentity p agent of
        None \<Rightarrow> None
      | Some identity \<Rightarrow>
          if identity = [] \<or> length (filter (\<lambda>a. pairingAgentIdentity p a = Some identity) remote) \<noteq> 1 then None
          else
            let roomIDs = filter (\<lambda>i. identity |\<in>| fmget {||} standing i) (sorted_list_of_fset (fmdom standing))
            in if roomIDs = [] then None else Some (agent\<lparr>as_rooms := roomIDs\<rparr>))"

definition filterPairingAgents ::
  "request_context \<Rightarrow> pairing \<Rightarrow> agent_summary list \<Rightarrow> room list \<Rightarrow> agent_summary list" where
  "filterPairingAgents ctx p remote visibleRooms =
     (if \<not> pairingDiscoveryRestricted ctx then remote
      else List.map_filter (visible_agent p (pairingRoomMemberships p visibleRooms) remote) remote)"

section \<open>A restricted stream\<close>

text \<open>The room and the direct conversation an event is about.\<close>

definition event_room :: "service \<Rightarrow> event \<Rightarrow> string option" where
  "event_room s e =
     (if evt_type e \<in> set [EventTypeRoomCreated, EventTypeRoomMembersUpdated, EventTypeRoomRemoved]
      then map_option rm_id (evt_room e)
      else if evt_type e = EventTypeThreadCreated
      then Option.bind (evt_thread e) (\<lambda>th. map_option thr_room_id (getThread s (thr_id th)))
      else Option.bind (evt_message e) (\<lambda>m.
        if tgt_kind (msg_target m) = TargetKindThread
        then map_option thr_room_id (getThread s (tgt_thread_id (msg_target m)))
        else Some (tgt_room_id (msg_target m))))"

definition event_dm :: "event \<Rightarrow> string option" where
  "event_dm e =
     (if evt_type e = EventTypeDMCreated then map_option dc_id (evt_dm e)
      else map_option (\<lambda>m. tgt_dm_id (msg_target m)) (evt_message e))"

lemma dm_readable:
  "rx_claims ctx = Some c \<Longrightarrow> HasAgentRestriction c \<Longrightarrow> canReadDirectConversation s ctx d \<Longrightarrow>
   allowed_among s c (dc_network_id d) (dc_participant_ids d)"
  by (simp add: canReadDirectConversation_def)

lemma message_event_confined:
  assumes "message_event_visible s ctx e" and "evt_type e = EventTypeMessageCreated"
  shows "(\<exists>i r. event_room s e = Some i \<and> getRoom s i = Some r \<and> canReadRoom s ctx r) \<or>
         (\<exists>i d. event_dm e = Some i \<and> getDirectConversation s i = Some d \<and> canReadDirectConversation s ctx d)"
  using assms
  by (auto simp: message_event_visible_def room_visible_def event_room_def event_dm_def Let_def
      split: option.splits if_splits)

lemma parent_event_confined:
  "room_event_visible s ctx e \<Longrightarrow>
     evt_type e \<in> set [EventTypeRoomCreated, EventTypeRoomMembersUpdated, EventTypeRoomRemoved] \<Longrightarrow>
     \<exists>i r. event_room s e = Some i \<and> getRoom s i = Some r \<and> canReadRoom s ctx r"
  "thread_event_visible s ctx e \<Longrightarrow> evt_type e = EventTypeThreadCreated \<Longrightarrow>
     \<exists>i r. event_room s e = Some i \<and> getRoom s i = Some r \<and> canReadRoom s ctx r"
  "dm_event_visible s ctx e \<Longrightarrow> evt_type e = EventTypeDMCreated \<Longrightarrow>
     \<exists>i d. event_dm e = Some i \<and> getDirectConversation s i = Some d \<and> canReadDirectConversation s ctx d"
    apply (auto simp: room_event_visible_def event_room_def split: option.splits)[1]
   apply (auto simp: thread_event_visible_def room_visible_def event_room_def split: option.splits if_splits)[1]
  apply (auto simp: dm_event_visible_def event_dm_def split: option.splits)[1]
  done

text \<open>
  C33. 
  A restricted stream fails closed: every event it carries, other than the notice of a gap, is
  about a room that is in the store and readable under the credential when the event is read, a
  direct conversation in the store with one of the credential's agents among its participants, or one of those
  agents itself.\<close>
theorem restricted_stream_confined:
  assumes "rx_claims ctx = Some c" and "HasAgentRestriction c" and "e \<in> set (filterEvents s0 ctx stream)"
    and "evt_type e \<noteq> EventTypeReplayGap"
  shows "\<exists>s. (s, e) \<in> set stream \<and>
    ((\<exists>i r. event_room s e = Some i \<and> getRoom s i = Some r \<and> canReadRoom s ctx r) \<or>
     (\<exists>i d. event_dm e = Some i \<and> getDirectConversation s i = Some d \<and>
            allowed_among s c (dc_network_id d) (dc_participant_ids d)) \<or>
     agent_event_allowed s c e)"
proof -
  obtain s where s: "(s, e) \<in> set stream" "eventVisible s ctx e" using assms(1-3) by (auto simp: filterEvents_def Let_def)
  from s(2) assms(1,2,4) consider
      "room_event_visible s ctx e" "evt_type e \<in> set [EventTypeRoomCreated, EventTypeRoomMembersUpdated, EventTypeRoomRemoved]"
    | "thread_event_visible s ctx e" "evt_type e = EventTypeThreadCreated"
    | "message_event_visible s ctx e" "evt_type e = EventTypeMessageCreated"
    | "dm_event_visible s ctx e" "evt_type e = EventTypeDMCreated"
    | "agent_event_allowed s c e"
    by (simp add: eventVisible_def split: if_splits)
  then have "(\<exists>i r. event_room s e = Some i \<and> getRoom s i = Some r \<and> canReadRoom s ctx r) \<or>
     (\<exists>i d. event_dm e = Some i \<and> getDirectConversation s i = Some d \<and>
            allowed_among s c (dc_network_id d) (dc_participant_ids d)) \<or> agent_event_allowed s c e"
    using parent_event_confined message_event_confined dm_readable [OF assms(1,2)] by cases blast+
  with s(1) show ?thesis by blast
qed


section \<open>Discovery over a pairing\<close>

lemma fold_agent_memberships:
  "fmlookup (fold (\<lambda>r m. if \<not> pairingRoomAuthorityMatches p r then m
                 else fmupd (rm_id r) (fset_of_list (member_identities (pr_remote_network_id p) r)) m) rs m0) i = Some ids \<Longrightarrow>
   fmlookup m0 i = Some ids \<or>
   (\<exists>r \<in> set rs. rm_id r = i \<and> ids = fset_of_list (member_identities (pr_remote_network_id p) r))"
proof (induction rs arbitrary: m0)
  case (Cons r rs)
  from Cons.IH [OF Cons.prems [unfolded fold_Cons comp_apply]] show ?case by (auto split: if_splits)
qed simp

lemma memberships_room:
  assumes "identity |\<in>| fmget {||} (pairingRoomMemberships p rs) i"
  obtains r where "r \<in> set rs" "rm_id r = i" "identity \<in> set (member_identities (pr_remote_network_id p) r)"
proof -
  from assms obtain ids where "fmlookup (pairingRoomMemberships p rs) i = Some ids" "identity |\<in>| ids"
    by (auto simp: fmget_def split: option.splits)
  then show thesis
    using fold_agent_memberships [of p rs fmempty i ids] that
    by (auto simp: pairingRoomMemberships_def fset_of_list_elem)
qed

lemma visible_agent_Some:
  assumes "visible_agent p standing remote agent = Some shown"
  obtains identity roomIDs where "pairingAgentIdentity p agent = Some identity"
    "length (filter (\<lambda>a. pairingAgentIdentity p a = Some identity) remote) = 1"
    "shown = agent\<lparr>as_rooms := roomIDs\<rparr>" "roomIDs \<noteq> []"
    "\<forall>i \<in> set roomIDs. identity |\<in>| fmget {||} standing i"
proof -
  from assms obtain identity where identity: "pairingAgentIdentity p agent = Some identity"
    by (auto simp: visible_agent_def split: option.splits)
  let ?ids = "filter (\<lambda>i. identity |\<in>| fmget {||} standing i) (sorted_list_of_fset (fmdom standing))"
  let ?one = "length (filter (\<lambda>a. pairingAgentIdentity p a = Some identity) remote) = 1"
  have "visible_agent p standing remote agent =
    (if identity = [] \<or> \<not> ?one then None
     else if ?ids = [] then None else Some (agent\<lparr>as_rooms := ?ids\<rparr>))"
    by (simp only: visible_agent_def identity option.case Let_def)
  with assms have "?one" "?ids \<noteq> []" "shown = agent\<lparr>as_rooms := ?ids\<rparr>"
    by (metis option.distinct(1) option.inject)+
  moreover have "\<forall>i \<in> set ?ids. identity |\<in>| fmget {||} standing i" by simp
  ultimately show thesis using identity by (intro that [of identity ?ids])
qed

text \<open>
  C34. 
  What a restricted credential discovers over a pairing is confined to rooms it may see: every
  agent shown is the only one of the remote listing with its identity, is shown with at least
  one room, and is a member, by identity, of each room it is shown with; and each such room is
  of the paired network and public or has one of the credential's own agents as a member.\<close>
theorem discovery_confined:
  assumes "rx_claims ctx = Some c" and "HasAgentRestriction c"
    and "shown \<in> set (filterPairingAgents ctx p remote (filterPairingRooms s ctx p rs))"
  shows "\<exists>agent identity. agent \<in> set remote \<and> shown = agent\<lparr>as_rooms := as_rooms shown\<rparr> \<and>
    filter (\<lambda>a. pairingAgentIdentity p a = Some identity) remote = [agent] \<and> as_rooms shown \<noteq> [] \<and>
    (\<forall>i \<in> set (as_rooms shown). \<exists>r \<in> set rs. rm_id r = i \<and> pairingRoomAuthorityMatches p r \<and>
       identity \<in> set (member_identities (pr_remote_network_id p) r) \<and>
       (NormalizeRoomVisibility (rm_visibility r) = RoomVisibilityPublic \<or>
        pairingRoomContainsAny r (pr_remote_network_id p) (allowedPairingViewerIdentities s c)))"
proof -
  have restricted: "pairingDiscoveryRestricted ctx" using assms(1,2) by (simp add: pairingDiscoveryRestricted_def)
  let ?rooms = "filterPairingRooms s ctx p rs"
  obtain agent where agent: "agent \<in> set remote"
      "visible_agent p (pairingRoomMemberships p ?rooms) remote agent = Some shown"
    using assms(3) restricted by (auto simp: filterPairingAgents_def List.map_filter_def)
  from agent(2) obtain identity roomIDs where identity: "pairingAgentIdentity p agent = Some identity"
      "length (filter (\<lambda>a. pairingAgentIdentity p a = Some identity) remote) = 1"
      "shown = agent\<lparr>as_rooms := roomIDs\<rparr>" "roomIDs \<noteq> []"
      "\<forall>i \<in> set roomIDs. identity |\<in>| fmget {||} (pairingRoomMemberships p ?rooms) i"
    by (rule visible_agent_Some)
  have "filter (\<lambda>a. pairingAgentIdentity p a = Some identity) remote = [agent]"
  proof -
    obtain x where x: "filter (\<lambda>a. pairingAgentIdentity p a = Some identity) remote = [x]"
      using identity(2) by (auto simp: length_Suc_conv)
    have "agent \<in> set (filter (\<lambda>a. pairingAgentIdentity p a = Some identity) remote)" using agent(1) identity(1) by simp
    with x show ?thesis by simp
  qed
  moreover have "\<exists>r \<in> set rs. rm_id r = i \<and> pairingRoomAuthorityMatches p r \<and>
       identity \<in> set (member_identities (pr_remote_network_id p) r) \<and>
       (NormalizeRoomVisibility (rm_visibility r) = RoomVisibilityPublic \<or>
        pairingRoomContainsAny r (pr_remote_network_id p) (allowedPairingViewerIdentities s c))"
    if "i \<in> set roomIDs" for i
  proof -
    from identity(5) that obtain r where "r \<in> set ?rooms" "rm_id r = i"
        "identity \<in> set (member_identities (pr_remote_network_id p) r)"
      by (blast elim: memberships_room)
    with restricted assms(1) show ?thesis by (auto simp: filterPairingRooms_def Let_def)
  qed
  ultimately have "shown = agent\<lparr>as_rooms := as_rooms shown\<rparr> \<and> as_rooms shown \<noteq> [] \<and>
    filter (\<lambda>a. pairingAgentIdentity p a = Some identity) remote = [agent] \<and>
    (\<forall>i \<in> set (as_rooms shown). \<exists>r \<in> set rs. rm_id r = i \<and> pairingRoomAuthorityMatches p r \<and>
       identity \<in> set (member_identities (pr_remote_network_id p) r) \<and>
       (NormalizeRoomVisibility (rm_visibility r) = RoomVisibilityPublic \<or>
        pairingRoomContainsAny r (pr_remote_network_id p) (allowedPairingViewerIdentities s c)))"
    using identity(3,4) by auto
  then show ?thesis using agent(1) by blast
qed


section \<open>Samples\<close>

definition sample_message_event :: event where
  "sample_message_event = \<lparr>evt_id = ''e1'', evt_type = EventTypeMessageCreated, evt_network_id = ''net-a'', evt_agent = None,
     evt_message = Some \<lparr>msg_id = ''m1'', msg_network_id = ''net-a'',
       msg_origin = \<lparr>org_claimed_author = None, org_claimed_network_id = [], org_claimed_message_id = [],
         org_claimed_discovery_network_id = [], org_network_id = ''net-a'', org_message_id = ''m1'', org_received_via = []\<rparr>,
       msg_target = sample_target, msg_from = sample_actor, msg_parts = [], msg_mentions = [], msg_created_at = 3\<rparr>,
     evt_room = None, evt_thread = None, evt_dm = None, evt_pairing = None, evt_replay_gap = None, evt_created_at = 3\<rparr>"

lemma sample_event_shown: "filterEvents sample_service sample_reader [(sample_service, sample_message_event)] = [sample_message_event]"
  by code_simp

theorem restricted_stream_confined_witness:
  "\<exists>i r. event_room sample_service sample_message_event = Some i \<and> getRoom sample_service i = Some r \<and>
         canReadRoom sample_service sample_reader r"
proof -
  obtain c where c: "rx_claims sample_reader = Some c" "HasAgentRestriction c"
    by (simp add: sample_reader_def WithMode_def WithClaims_def background_def HasAgentRestriction_def)
  have "event_dm sample_message_event = Some []" "\<forall>c. \<not> agent_event_allowed sample_service c sample_message_event"
    "getDirectConversation sample_service [] = None" "evt_type sample_message_event \<noteq> EventTypeReplayGap"
    by (simp_all add: event_dm_def sample_message_event_def sample_target_def agent_event_allowed_def list_ex_iff
        AgentEventIdentityMatches_def) code_simp
  then show ?thesis
    using restricted_stream_confined [OF c, of sample_message_event sample_service "[(sample_service, sample_message_event)]"]
      sample_event_shown by auto
qed

definition sample_remote_room :: room where
  "sample_remote_room = sample_room\<lparr>rm_id := ''plaza'', rm_network_id := ''net-b'', rm_members := [''net-a:al'', ''bo'']\<rparr>"

definition sample_remote_agent :: agent_summary where
  "sample_remote_agent = \<lparr>as_id = ''bo'', as_name = [], as_actor_uid = [], as_fqid = [], as_network_id = ''net-b'',
     as_rooms = [''plaza'', ''vault''], as_connected = True\<rparr>"

lemma sample_discovery:
  "filterPairingAgents sample_reader sample_pairing [sample_remote_agent]
     (filterPairingRooms sample_service sample_reader sample_pairing [sample_remote_room]) =
   [sample_remote_agent\<lparr>as_rooms := [''plaza'']\<rparr>]"
  by code_simp

theorem discovery_confined_witness:
  "pairingRoomContainsAny sample_remote_room (pr_remote_network_id sample_pairing)
     (allowedPairingViewerIdentities sample_service (the (rx_claims sample_reader)))"
proof -
  have c: "rx_claims sample_reader = Some (the (rx_claims sample_reader))" "HasAgentRestriction (the (rx_claims sample_reader))"
    by (simp_all add: sample_reader_def WithMode_def WithClaims_def background_def HasAgentRestriction_def)
  have "NormalizeRoomVisibility (rm_visibility sample_remote_room) \<noteq> RoomVisibilityPublic" by code_simp
  then show ?thesis
    using discovery_confined [OF c, of "sample_remote_agent\<lparr>as_rooms := [''plaza'']\<rparr>" sample_pairing "[sample_remote_agent]"
        sample_service "[sample_remote_room]"]
    by (auto simp: sample_discovery)
qed

end
