(* ===== verification/Hub_Rooms_Cache.thy ===== *)
theory Hub_Rooms_Cache
  imports Hub_Store
begin

text \<open>
  The list of hub rooms kept in memory (\<open>internal/rooms/hub_rooms_cache.go\<close>). A call of
  \<open>hubRooms\<close> takes the cache's lock twice with a read of the store in between, so it is three
  steps: look and note the generation, read the store, keep the list if the generation is still
  the same. A creation (\<open>hub_home.go\<close>, \<open>hub_member.go\<close>) writes to the store and then
  invalidates. The relation \<open>hub_rooms_step\<close> interleaves any number of calls and creations.
  Shown: when no creation is between its two steps, the cache never answers with anything but
  the store's list.
\<close>

section \<open>The cache\<close>

record hub_rooms_cache =
  hrc_rooms :: "hub_room list"
  hrc_valid :: bool
  hrc_gen :: nat

definition empty_hub_rooms_cache :: hub_rooms_cache where
  "empty_hub_rooms_cache = \<lparr>hrc_rooms = [], hrc_valid = False, hrc_gen = 0\<rparr>"

text \<open>What \<open>hubRooms\<close> does under the lock, before and after it reads the store.\<close>

definition cached_hub_rooms :: "hub_rooms_cache \<Rightarrow> hub_room list option" where
  "cached_hub_rooms c = (if hrc_valid c then Some (hrc_rooms c) else None)"

definition keep_hub_rooms :: "nat \<Rightarrow> hub_room list \<Rightarrow> hub_rooms_cache \<Rightarrow> hub_rooms_cache" where
  "keep_hub_rooms gen loaded c =
     (if hrc_gen c = gen then c\<lparr>hrc_rooms := loaded, hrc_valid := True\<rparr> else c)"

definition invalidateHubRooms :: "hub_rooms_cache \<Rightarrow> hub_rooms_cache" where
  "invalidateHubRooms c = c\<lparr>hrc_gen := hrc_gen c + 1, hrc_valid := False, hrc_rooms := []\<rparr>"

section \<open>Calls and creations\<close>

text \<open>A load under way is the generation it noted and, once it has read the store, what it read.\<close>

record hub_rooms_system =
  hy_store :: memory_store
  hy_cache :: hub_rooms_cache
  hy_loads :: "(nat \<times> hub_room list option) list"
  hy_creating :: nat

inductive hub_rooms_step :: "hub_rooms_system \<Rightarrow> hub_rooms_system \<Rightarrow> bool" where
  miss: "cached_hub_rooms (hy_cache S) = None \<Longrightarrow>
    hub_rooms_step S (S\<lparr>hy_loads := hy_loads S @ [(hrc_gen (hy_cache S), None)]\<rparr>)"
| load: "i < length (hy_loads S) \<Longrightarrow> hy_loads S ! i = (g, None) \<Longrightarrow>
    hub_rooms_step S (S\<lparr>hy_loads := (hy_loads S)[i := (g, Some (HubRoomsContext (hy_store S)))]\<rparr>)"
| keep: "hy_loads S = before @ (g, Some loaded) # after \<Longrightarrow>
    hub_rooms_step S (S\<lparr>hy_loads := before @ after, hy_cache := keep_hub_rooms g loaded (hy_cache S)\<rparr>)"
| create: "createHubRoomLocked h genesis (hy_store S) = (e, st) \<Longrightarrow>
    hub_rooms_step S (S\<lparr>hy_store := st, hy_creating := hy_creating S + 1\<rparr>)"
| invalidate: "hy_creating S = Suc n \<Longrightarrow>
    hub_rooms_step S (S\<lparr>hy_creating := n, hy_cache := invalidateHubRooms (hy_cache S)\<rparr>)"
| other: "HubRoomsContext st = HubRoomsContext (hy_store S) \<Longrightarrow> hub_rooms_step S (S\<lparr>hy_store := st\<rparr>)"

inductive hub_rooms_reachable :: "hub_rooms_system \<Rightarrow> bool" where
  start: "hub_rooms_reachable \<lparr>hy_store = st, hy_cache = empty_hub_rooms_cache, hy_loads = [], hy_creating = 0\<rparr>"
| step: "hub_rooms_reachable S \<Longrightarrow> hub_rooms_step S S' \<Longrightarrow> hub_rooms_reachable S'"

section \<open>The cache refines the store\<close>

definition cache_inv :: "hub_rooms_system \<Rightarrow> bool" where
  "cache_inv S \<longleftrightarrow>
     (\<forall>l \<in> set (hy_loads S). fst l \<le> hrc_gen (hy_cache S)) \<and>
     (hy_creating S = 0 \<longrightarrow>
        (hrc_valid (hy_cache S) \<longrightarrow> hrc_rooms (hy_cache S) = HubRoomsContext (hy_store S)) \<and>
        (\<forall>loaded. (hrc_gen (hy_cache S), Some loaded) \<in> set (hy_loads S) \<longrightarrow> loaded = HubRoomsContext (hy_store S)))"

lemma cache_inv_step:
  assumes "hub_rooms_step S S'" and "cache_inv S"
  shows "cache_inv S'"
  using assms
proof cases
  case (load i g)
  then show ?thesis using assms(2)
    by (auto simp: cache_inv_def dest!: subsetD [OF set_update_subset_insert] nth_mem)
next
  case (invalidate n)
  with assms(2) show ?thesis by (fastforce simp: cache_inv_def invalidateHubRooms_def)
qed (use assms(2) in \<open>auto simp: cache_inv_def keep_hub_rooms_def\<close>)

lemma reachable_cache_inv: "hub_rooms_reachable S \<Longrightarrow> cache_inv S"
proof (induction rule: hub_rooms_reachable.induct)
  case (start st)
  show ?case by (simp add: cache_inv_def empty_hub_rooms_cache_def)
qed (rule cache_inv_step)

text \<open>
  C35. 
  The cached list of hub rooms refines the store's: in every interleaving of calls and
  creations, when every creation has also invalidated the cache, an answer from the cache is
  the list the store would give. A load that started before an invalidation cannot put an
  older list back.\<close>
theorem hub_rooms_cache_refines:
  assumes "hub_rooms_reachable S" and "hy_creating S = 0" and "cached_hub_rooms (hy_cache S) = Some answer"
  shows "answer = HubRoomsContext (hy_store S)"
  using reachable_cache_inv [OF assms(1)] assms(2,3)
  by (auto simp: cache_inv_def cached_hub_rooms_def split: if_splits)


text \<open>One call after another: the first loads and keeps, the second is answered from the cache.\<close>

theorem hub_rooms_cache_refines_witness:
  "cached_hub_rooms (keep_hub_rooms 0 (HubRoomsContext NewMemoryStore) empty_hub_rooms_cache) = Some (HubRoomsContext NewMemoryStore)"
proof -
  let ?S0 = "\<lparr>hy_store = NewMemoryStore, hy_cache = empty_hub_rooms_cache, hy_loads = [], hy_creating = 0\<rparr>"
  let ?S1 = "?S0\<lparr>hy_loads := [(0, None)]\<rparr>"
  let ?S2 = "?S1\<lparr>hy_loads := [(0, Some (HubRoomsContext NewMemoryStore))]\<rparr>"
  let ?S3 = "?S2\<lparr>hy_loads := [], hy_cache := keep_hub_rooms 0 (HubRoomsContext NewMemoryStore) empty_hub_rooms_cache\<rparr>"
  have "hub_rooms_step ?S0 ?S1"
    using hub_rooms_step.miss [of ?S0] by (simp add: cached_hub_rooms_def empty_hub_rooms_cache_def)
  moreover have "hub_rooms_step ?S1 ?S2" using hub_rooms_step.load [of 0 ?S1 0] by simp
  moreover have "hub_rooms_step ?S2 ?S3" using hub_rooms_step.keep [of ?S2 "[]" 0 "HubRoomsContext NewMemoryStore" "[]"] by simp
  ultimately have "hub_rooms_reachable ?S3" by (meson hub_rooms_reachable.intros)
  then show ?thesis
    using hub_rooms_cache_refines [of ?S3]
    by (simp add: cached_hub_rooms_def keep_hub_rooms_def empty_hub_rooms_cache_def)
qed

end
