(* ===== verification/Message_Envelope.thy ===== *)
theory Message_Envelope
  imports Hub_Statements
begin

text \<open>
  The signed envelope of a message: \<open>pkg/protocol/envelope.go\<close> and \<open>envelope_canonical.go\<close>. An
  envelope states the target, author, parts and mentions of a message and the network it came
  from; its canonical bytes are digested and signed with the network's key. The data of a part is
  a Go map, listed by its entries. Decoding into nested structs follows \<open>encoding/json\<close> as in
  \<open>Hub_Signing\<close>: \<open>null\<close> leaves a text or a struct alone and clears a pointer, a slice or a map; a key
  that comes again, in another letter case, is decoded into what is there. (The memory of a slice
  beyond its length, which a third spelling of one key could reach, is not modelled: an envelope
  with such keys is refused because it does not encode to its own bytes.)
\<close>

section \<open>Envelopes\<close>

abbreviation EnvelopeVersionV1 :: string where "EnvelopeVersionV1 \<equiv> ''moltnet.envelope.v1''"
abbreviation envelopeDigestDomain :: string where
  "envelopeDigestDomain \<equiv> domain ''moltnet.envelope.v1/digest''"
abbreviation envelopeSignatureDomain :: string where
  "envelopeSignatureDomain \<equiv> domain ''moltnet.envelope.v1/signature''"

datatype envelope_error =
    ErrEnvelopeMalformed string
  | ErrEnvelopeSignature
  | ErrEnvelopeMismatch
  | ErrEnvelopeUnrepresentable

record envelope_actor =
  ea_type :: string
  ea_id :: string
  ea_name :: string

record envelope_target =
  et_kind :: string
  et_room_id :: string
  et_thread_id :: string
  et_parent_message_id :: string
  et_dm_id :: string
  et_participant_ids :: "string list"

record message_envelope =
  me_v :: string
  me_global_room_id :: string
  me_membership_epoch :: "int option"
  me_target :: envelope_target
  me_origin_network_id :: string
  me_origin_fingerprint :: string
  me_origin_message_id :: string
  me_origin_seq :: "int option"
  me_author :: envelope_actor
  me_created_at :: string
  me_parts :: "part list"
  me_mentions :: "string list"

definition EnvelopeFromRequest :: "send_message_request \<Rightarrow> string \<Rightarrow> string \<Rightarrow> message_envelope" where
  "EnvelopeFromRequest r originFingerprint createdAt =
     \<lparr>me_v = EnvelopeVersionV1, me_global_room_id = [], me_membership_epoch = None,
      me_target =
        \<lparr>et_kind = tgt_kind (smr_target r), et_room_id = tgt_room_id (smr_target r),
         et_thread_id = tgt_thread_id (smr_target r),
         et_parent_message_id = tgt_parent_message_id (smr_target r), et_dm_id = tgt_dm_id (smr_target r),
         et_participant_ids = tgt_participant_ids (smr_target r)\<rparr>,
      me_origin_network_id = org_network_id (smr_origin r), me_origin_fingerprint = originFingerprint,
      me_origin_message_id = org_message_id (smr_origin r), me_origin_seq = None,
      me_author = \<lparr>ea_type = act_type (smr_from r), ea_id = act_id (smr_from r), ea_name = act_name (smr_from r)\<rparr>,
      me_created_at = createdAt, me_parts = smr_parts r, me_mentions = smr_mentions r\<rparr>"

section \<open>Part data through JSON\<close>

text \<open>
  \<open>json.Marshal\<close> followed by \<open>json.Unmarshal\<close>: bytes that are not text become the replacement
  character, a number that is not finite is refused, and the entries of a map are written by key
  and read one after the other. A map that was read is listed in canonical order.
\<close>

definition marshalled_text :: "string \<Rightarrow> string" where
  "marshalled_text s = concat (map (\<lambda>(ok, b). if ok then b else replacement) (go_runes s))"

fun put_member :: "string \<Rightarrow> json \<Rightarrow> (string \<times> json) list \<Rightarrow> (string \<times> json) list" where
  "put_member k v [] = [(k, v)]"
| "put_member k v ((k', v') # fs) =
     (if k = k' then (k, v) # fs
      else if utf16Less k k' then (k, v) # (k', v') # fs else (k', v') # put_member k v fs)"

fun json_reread :: "json \<Rightarrow> json option"
  and reread_list :: "json list \<Rightarrow> json list option"
  and reread_members :: "(string \<times> json) list \<Rightarrow> (string \<times> json) list option" where
  "json_reread JNull = Some JNull"
| "json_reread (JBool b) = Some (JBool b)"
| "json_reread (JNum x) = (if x = NonFinite then None else Some (JNum x))"
| "json_reread (JStr s) = Some (JStr (marshalled_text s))"
| "json_reread (JArr vs) = map_option JArr (reread_list vs)"
| "json_reread (JObj fs) =
     map_option (\<lambda>gs. JObj (fold (\<lambda>(k, v). put_member (marshalled_text k) v) (sort_key fst gs) []))
       (reread_members fs)"
| "reread_list [] = Some []"
| "reread_list (v # vs) =
     (case json_reread v of None \<Rightarrow> None | Some v' \<Rightarrow> map_option ((#) v') (reread_list vs))"
| "reread_members [] = Some []"
| "reread_members ((k, v) # fs) =
     (case json_reread v of None \<Rightarrow> None | Some v' \<Rightarrow> map_option ((#) (k, v')) (reread_members fs))"

section \<open>Canonical form\<close>

definition stringValues :: "string list \<Rightarrow> json" where
  "stringValues values = JArr (map JStr values)"

definition put_strings :: "string \<Rightarrow> string list \<Rightarrow> (string \<times> json) list" where
  "put_strings key values = (if values \<noteq> [] then [(key, stringValues values)] else [])"

definition put_int :: "string \<Rightarrow> int option \<Rightarrow> (string \<times> json) list" where
  "put_int key v = (case v of None \<Rightarrow> [] | Some n \<Rightarrow> [(key, JNum (Integral n))])"

definition envelopeTargetValue :: "envelope_target \<Rightarrow> json" where
  "envelopeTargetValue t = JObj (
     putString ''dm_id'' (et_dm_id t) @
     [(''kind'', JStr (et_kind t))] @
     putString ''parent_message_id'' (et_parent_message_id t) @
     put_strings ''participant_ids'' (et_participant_ids t) @
     putString ''room_id'' (et_room_id t) @
     putString ''thread_id'' (et_thread_id t))"

definition envelopeActorValue :: "envelope_actor \<Rightarrow> json" where
  "envelopeActorValue a = JObj (
     [(''id'', JStr (ea_id a))] @ putString ''name'' (ea_name a) @ [(''type'', JStr (ea_type a))])"

definition envelopePartValue :: "part \<Rightarrow> json option" where
  "envelopePartValue p =
     (let with_data = (\<lambda>data. JObj (data @
            putString ''filename'' (part_filename p) @
            [(''kind'', JStr (part_kind p))] @
            putString ''media_type'' (part_media_type p) @
            putString ''text'' (part_text p) @
            putString ''url'' (part_url p)))
      in if part_data p = [] then Some (with_data [])
         else (case json_reread (JObj (part_data p)) of
                 None \<Rightarrow> None
               | Some data \<Rightarrow>
                   (case normalizeCanonicalValue data of
                      None \<Rightarrow> None
                    | Some normalized \<Rightarrow> Some (with_data [(''data'', normalized)]))))"

fun part_values :: "part list \<Rightarrow> json list option" where
  "part_values [] = Some []"
| "part_values (p # ps) =
     (case envelopePartValue p of None \<Rightarrow> None | Some v \<Rightarrow> map_option ((#) v) (part_values ps))"

definition envelopeCanonicalValue :: "message_envelope \<Rightarrow> json option" where
  "envelopeCanonicalValue e =
     map_option (\<lambda>parts. JObj (
         [(''author'', envelopeActorValue (me_author e)), (''created_at'', JStr (me_created_at e))] @
         putString ''global_room_id'' (me_global_room_id e) @
         put_int ''membership_epoch'' (me_membership_epoch e) @
         put_strings ''mentions'' (me_mentions e) @
         [(''origin_fingerprint'', JStr (me_origin_fingerprint e)),
          (''origin_message_id'', JStr (me_origin_message_id e)),
          (''origin_network_id'', JStr (me_origin_network_id e))] @
         put_int ''origin_seq'' (me_origin_seq e) @
         [(''parts'', JArr parts), (''target'', envelopeTargetValue (me_target e)), (''v'', JStr (me_v e))]))
       (part_values (me_parts e))"

definition EnvelopeCanonicalBytes :: "go_env \<Rightarrow> message_envelope \<Rightarrow> string option" where
  "EnvelopeCanonicalBytes env e =
     (case envelopeCanonicalValue e of None \<Rightarrow> None | Some v \<Rightarrow> CanonicalJSONBytes (ge_format env) v)"

definition EnvelopeDigest :: "string \<Rightarrow> string" where
  "EnvelopeDigest bytes = hex_encode (sha256 (envelopeDigestDomain @ bytes))"

definition envelopeSignatureInput :: "string \<Rightarrow> string" where
  "envelopeSignatureInput digest = envelopeSignatureDomain @ digest"

section \<open>Decoding\<close>

type_synonym 'a decoder = "json \<Rightarrow> 'a \<Rightarrow> 'a option"

definition decode_text :: "string decoder" where
  "decode_text v old = (case v of JNull \<Rightarrow> Some old | JStr s \<Rightarrow> Some s | _ \<Rightarrow> None)"

definition decode_int_pointer :: "int option decoder" where
  "decode_int_pointer v old =
     (case v of
        JNull \<Rightarrow> Some None
      | JNum (Integral n) \<Rightarrow> if - (2 ^ 63) \<le> n \<and> n < 2 ^ 63 then Some (Some n) else None
      | _ \<Rightarrow> None)"

fun decode_elements :: "'a decoder \<Rightarrow> 'a \<Rightarrow> json list \<Rightarrow> 'a list \<Rightarrow> 'a list option" where
  "decode_elements d zero [] old = Some []"
| "decode_elements d zero (v # vs) old =
     (case d v (case old of [] \<Rightarrow> zero | x # _ \<Rightarrow> x) of
        None \<Rightarrow> None
      | Some x \<Rightarrow> map_option ((#) x) (decode_elements d zero vs (drop 1 old)))"

definition decode_slice :: "'a decoder \<Rightarrow> 'a \<Rightarrow> 'a list decoder" where
  "decode_slice d zero v old =
     (case v of JNull \<Rightarrow> Some [] | JArr vs \<Rightarrow> decode_elements d zero vs old | _ \<Rightarrow> None)"

definition decode_map :: "(string \<times> json) list decoder" where
  "decode_map v old =
     (case v of JNull \<Rightarrow> Some [] | JObj fs \<Rightarrow> Some (fold (\<lambda>(k, x). put_member k x) fs old) | _ \<Rightarrow> None)"

type_synonym 'a members = "(string \<times> 'a decoder) list"

definition member_decoder :: "'a members \<Rightarrow> string \<Rightarrow> 'a decoder option" where
  "member_decoder spec k = map_option snd (find (\<lambda>f. fst f = k \<or> foldName (fst f) = foldName k) spec)"

fun decode_members :: "'a members \<Rightarrow> (string \<times> json) list \<Rightarrow> 'a \<Rightarrow> 'a option" where
  "decode_members spec [] x = Some x"
| "decode_members spec ((k, v) # fs) x =
     (case member_decoder spec k of
        None \<Rightarrow> None
      | Some d \<Rightarrow> (case d v x of None \<Rightarrow> None | Some y \<Rightarrow> decode_members spec fs y))"

definition decode_record :: "'a members \<Rightarrow> 'a decoder" where
  "decode_record spec v x =
     (case v of JNull \<Rightarrow> Some x | JObj fs \<Rightarrow> decode_members spec fs x | _ \<Rightarrow> None)"

definition into :: "('a \<Rightarrow> 'b) \<Rightarrow> (('b \<Rightarrow> 'b) \<Rightarrow> 'a \<Rightarrow> 'a) \<Rightarrow> 'b decoder \<Rightarrow> 'a decoder" where
  "into get upd d v x = map_option (\<lambda>y. upd (\<lambda>_. y) x) (d v (get x))"

definition actor_members :: "envelope_actor members" where
  "actor_members =
     [(''type'', into ea_type ea_type_update decode_text), (''id'', into ea_id ea_id_update decode_text),
      (''name'', into ea_name ea_name_update decode_text)]"

definition target_members :: "envelope_target members" where
  "target_members =
     [(''kind'', into et_kind et_kind_update decode_text),
      (''room_id'', into et_room_id et_room_id_update decode_text),
      (''thread_id'', into et_thread_id et_thread_id_update decode_text),
      (''parent_message_id'', into et_parent_message_id et_parent_message_id_update decode_text),
      (''dm_id'', into et_dm_id et_dm_id_update decode_text),
      (''participant_ids'', into et_participant_ids et_participant_ids_update (decode_slice decode_text []))]"

definition part_members :: "part members" where
  "part_members =
     [(''kind'', into part_kind part_kind_update decode_text),
      (''text'', into part_text part_text_update decode_text),
      (''media_type'', into part_media_type part_media_type_update decode_text),
      (''url'', into part_url part_url_update decode_text),
      (''filename'', into part_filename part_filename_update decode_text),
      (''data'', into part_data part_data_update decode_map)]"

definition zero_part :: part where
  "zero_part = \<lparr>part_kind = [], part_text = [], part_media_type = [], part_url = [], part_filename = [],
     part_data = []\<rparr>"

definition envelope_members :: "message_envelope members" where
  "envelope_members =
     [(''v'', into me_v me_v_update decode_text),
      (''global_room_id'', into me_global_room_id me_global_room_id_update decode_text),
      (''membership_epoch'', into me_membership_epoch me_membership_epoch_update decode_int_pointer),
      (''target'', into me_target me_target_update (decode_record target_members)),
      (''origin_network_id'', into me_origin_network_id me_origin_network_id_update decode_text),
      (''origin_fingerprint'', into me_origin_fingerprint me_origin_fingerprint_update decode_text),
      (''origin_message_id'', into me_origin_message_id me_origin_message_id_update decode_text),
      (''origin_seq'', into me_origin_seq me_origin_seq_update decode_int_pointer),
      (''author'', into me_author me_author_update (decode_record actor_members)),
      (''created_at'', into me_created_at me_created_at_update decode_text),
      (''parts'', into me_parts me_parts_update (decode_slice (decode_record part_members) zero_part)),
      (''mentions'', into me_mentions me_mentions_update (decode_slice decode_text []))]"

definition zero_envelope :: message_envelope where
  "zero_envelope =
     \<lparr>me_v = [], me_global_room_id = [], me_membership_epoch = None,
      me_target = \<lparr>et_kind = [], et_room_id = [], et_thread_id = [], et_parent_message_id = [], et_dm_id = [],
        et_participant_ids = []\<rparr>,
      me_origin_network_id = [], me_origin_fingerprint = [], me_origin_message_id = [], me_origin_seq = None,
      me_author = \<lparr>ea_type = [], ea_id = [], ea_name = []\<rparr>, me_created_at = [], me_parts = [], me_mentions = []\<rparr>"

section \<open>Signing and verifying\<close>

definition validateEnvelopeFields :: "message_envelope \<Rightarrow> envelope_error option" where
  "validateEnvelopeFields e =
     (let missing = (\<lambda>field. Some (ErrEnvelopeMalformed (field @ '' is required'')))
      in if me_v e \<noteq> EnvelopeVersionV1 then Some (ErrEnvelopeMalformed ''unsupported version'')
         else if et_kind (me_target e) = [] then missing ''target.kind''
         else if me_origin_network_id e = [] then missing ''origin_network_id''
         else if me_origin_message_id e = [] then missing ''origin_message_id''
         else if ea_type (me_author e) = [] \<or> ea_id (me_author e) = [] then missing ''author''
         else if me_created_at e = [] then missing ''created_at''
         else if me_origin_network_id e \<noteq> trim_space (me_origin_network_id e) \<or>
           me_origin_message_id e \<noteq> trim_space (me_origin_message_id e)
         then Some (ErrEnvelopeMalformed ''origin ids must not have surrounding whitespace'')
         else if NormalizeFingerprint (me_origin_fingerprint e) \<noteq> Inr (me_origin_fingerprint e)
         then Some (ErrEnvelopeMalformed ''origin_fingerprint'') else None)"

definition SignEnvelope ::
  "go_env \<Rightarrow> message_envelope \<Rightarrow> string \<Rightarrow> (string \<Rightarrow> string) \<Rightarrow> envelope_error + signed_envelope \<times> string" where
  "SignEnvelope env e publicKey sign =
     (if me_origin_fingerprint e \<noteq> NetworkKeyFingerprint publicKey
      then Inl (ErrEnvelopeMalformed ''origin fingerprint does not match the signing key'')
      else case validateEnvelopeFields e of
             Some err \<Rightarrow> Inl err
           | None \<Rightarrow>
               (case EnvelopeCanonicalBytes env e of
                  None \<Rightarrow> Inl ErrEnvelopeUnrepresentable
                | Some bytes \<Rightarrow>
                    let digest = EnvelopeDigest bytes
                    in Inr (\<lparr>se_envelope = EncodeToString bytes,
                             se_public_key = EncodeNetworkPublicKey publicKey,
                             se_signature = EncodeToString (sign (envelopeSignatureInput digest))\<rparr>, digest)))"

definition ParseSignedEnvelope ::
  "go_env \<Rightarrow> signed_envelope \<Rightarrow> envelope_error + message_envelope \<times> string" where
  "ParseSignedEnvelope env stmt =
     (case DecodeString (se_envelope stmt) of
        None \<Rightarrow> Inl (ErrEnvelopeMalformed ''envelope is not unpadded base64url'')
      | Some raw \<Rightarrow>
          (case ParseCanonicalJSONBytes (ge_parse env) raw of
             None \<Rightarrow> Inl (ErrEnvelopeMalformed ''parse'')
           | Some v \<Rightarrow>
               if CanonicalJSONBytes (ge_format env) v \<noteq> Some raw
               then Inl (ErrEnvelopeMalformed ''envelope bytes are not canonical'')
               else (case decode_record envelope_members v zero_envelope of
                       None \<Rightarrow> Inl (ErrEnvelopeMalformed ''decode'')
                     | Some e \<Rightarrow>
                         (case validateEnvelopeFields e of
                            Some err \<Rightarrow> Inl err
                          | None \<Rightarrow>
                              if EnvelopeCanonicalBytes env e \<noteq> Some raw
                              then Inl (ErrEnvelopeMalformed ''envelope has non-canonical field shapes'')
                              else Inr (e, EnvelopeDigest raw)))))"

definition VerifySignedEnvelope ::
  "go_env \<Rightarrow> signed_envelope \<Rightarrow> envelope_error + message_envelope \<times> string" where
  "VerifySignedEnvelope env stmt =
     (case ParseSignedEnvelope env stmt of
        Inl err \<Rightarrow> Inl err
      | Inr (e, digest) \<Rightarrow>
          (case ParseNetworkPublicKey (se_public_key stmt) of
             None \<Rightarrow> Inl (ErrEnvelopeMalformed ''public key'')
           | Some publicKey \<Rightarrow>
               if NetworkKeyFingerprint publicKey \<noteq> me_origin_fingerprint e then Inl ErrEnvelopeSignature
               else (case DecodeString (se_signature stmt) of
                       None \<Rightarrow> Inl ErrEnvelopeSignature
                     | Some signature \<Rightarrow>
                         if length signature \<noteq> 64 then Inl ErrEnvelopeSignature
                         else if \<not> ge_verify env publicKey (envelopeSignatureInput digest) signature
                         then Inl ErrEnvelopeSignature
                         else Inr (e, digest))))"

definition expected_envelope :: "message_envelope \<Rightarrow> send_message_request \<Rightarrow> message_envelope" where
  "expected_envelope e r =
     (EnvelopeFromRequest r (me_origin_fingerprint e) (me_created_at e))
       \<lparr>me_global_room_id := me_global_room_id e, me_membership_epoch := me_membership_epoch e,
        me_origin_seq := me_origin_seq e\<rparr>"

definition EnvelopeMatchesRequest ::
  "go_env \<Rightarrow> message_envelope \<Rightarrow> send_message_request \<Rightarrow> envelope_error option" where
  "EnvelopeMatchesRequest env e r =
     (case EnvelopeCanonicalBytes env (expected_envelope e r) of
        None \<Rightarrow> Some ErrEnvelopeMismatch
      | Some want \<Rightarrow> if EnvelopeCanonicalBytes env e \<noteq> Some want then Some ErrEnvelopeMismatch else None)"

end
