(* ===== verification/Envelope_Binding.thy ===== *)
theory Envelope_Binding
  imports Message_Envelope Roster_Properties
begin

text \<open>
  What an envelope guarantees: a signed envelope verifies to what was signed, and a message that
  matches a verified envelope is, field for field, the message its origin signed.
\<close>

section \<open>Ordered values\<close>

text \<open>A value whose objects are in order and whose numbers are integers is canonical as soon as it normalises.\<close>

fun ordered :: "json \<Rightarrow> bool"
  and ordered_list :: "json list \<Rightarrow> bool"
  and ordered_fields :: "(string \<times> json) list \<Rightarrow> bool" where
  "ordered JNull = True"
| "ordered (JBool b) = True"
| "ordered (JNum x) = (case x of Integral n \<Rightarrow> True | _ \<Rightarrow> False)"
| "ordered (JStr s) = True"
| "ordered (JArr vs) = ordered_list vs"
| "ordered (JObj fs) = (sorted_wrt utf16Less (map fst fs) \<and> ordered_fields fs)"
| "ordered_list [] = True"
| "ordered_list (v # vs) = (ordered v \<and> ordered_list vs)"
| "ordered_fields [] = True"
| "ordered_fields ((k, v) # fs) = (ordered v \<and> ordered_fields fs)"

lemma ordered_canonical:
  "ordered v \<Longrightarrow> normalizeCanonicalValue v \<noteq> None \<Longrightarrow> canonical v"
  "ordered_list vs \<Longrightarrow> normalize_list vs \<noteq> None \<Longrightarrow> canonical_list vs"
  "ordered_fields fs \<Longrightarrow> normalize_fields fs \<noteq> None \<Longrightarrow> canonical_fields fs"
proof (induction v and vs and fs rule: ordered_ordered_list_ordered_fields.induct)
  case (3 x)
  then show ?case by (auto simp: validateCanonicalNumber_def split: if_splits float64.splits)
qed (auto simp: valid_string split: if_splits option.splits)

lemma canonical_ordered:
  "canonical v \<Longrightarrow> ordered v" "canonical_list vs \<Longrightarrow> ordered_list vs" "canonical_fields fs \<Longrightarrow> ordered_fields fs"
  by (induction v and vs and fs rule: ordered_ordered_list_ordered_fields.induct) (auto split: float64.splits)

lemma ordered_fields_append [simp]:
  "ordered_fields (fs @ gs) \<longleftrightarrow> ordered_fields fs \<and> ordered_fields gs"
  by (induction fs) auto

lemma ordered_strings: "ordered_list (map JStr ss)"
  by (induction ss) auto

lemma ordered_parts [simp]:
  "ordered_fields (putString k s)" "ordered_fields (put_strings k ss)" "ordered_fields (put_int k i)"
  by (simp_all add: putString_def put_strings_def put_int_def stringValues_def ordered_strings split: option.splits)

section \<open>Part data survives\<close>

lemma marshalled_valid: "valid_utf8 s \<Longrightarrow> marshalled_text s = s"
proof -
  assume s: "valid_utf8 s"
  then obtain bs where bs: "s = concat bs" "list_all utf8_seq bs" by (auto simp: valid_utf8_iff)
  then have "go_runes s = map (Pair True) bs" by (simp add: go_runes_concat)
  then show ?thesis by (simp add: marshalled_text_def bs(1) comp_def)
qed

lemma put_member_filter:
  assumes "sorted_wrt utf16Less (map fst fs)" and "(k, v) \<in> set fs"
  shows "put_member k v (filter P fs) = filter (\<lambda>f. f = (k, v) \<or> P f) fs"
  using assms
proof (induction fs)
  case (Cons f fs)
  obtain k' v' where f: "f = (k', v')" by (cases f)
  show ?case
  proof (cases "f = (k, v)")
    case True
    with Cons.prems have later: "utf16Less k k2" if "(k2, v2) \<in> set fs" for k2 v2 using that by force
    have "k2 \<noteq> k" if "(k2, v2) \<in> set fs" for k2 v2 using later [OF that] utf16Less_asym by blast
    then have rest: "filter (\<lambda>f. f = (k, v) \<or> P f) fs = filter P fs" by (intro filter_cong) auto
    show ?thesis
    proof (cases "P f")
      case True2: True
      with \<open>f = (k, v)\<close> rest show ?thesis by simp
    next
      case False
      have "put_member k v (filter P fs) = (k, v) # filter P fs"
      proof (cases "filter P fs")
        case (Cons g gs)
        then have "g \<in> set (filter P fs)" by simp
        then have "g \<in> set fs" by simp
        then have "utf16Less k (fst g)" using later [of "fst g" "snd g"] by simp
        with Cons show ?thesis using utf16Less_asym by (cases g) auto
      qed simp
      with False \<open>f = (k, v)\<close> rest show ?thesis by simp
    qed
  next
    case False
    with Cons.prems have mem: "(k, v) \<in> set fs" by simp
    with Cons.prems(1) f have "utf16Less k' k" by force
    then have "k' \<noteq> k" "\<not> utf16Less k k'" using utf16Less_asym by blast+
    with Cons.IH [OF _ mem] Cons.prems(1) False show ?thesis by (auto simp: f)
  qed
qed simp

lemma put_members_all:
  assumes "sorted_wrt utf16Less (map fst fs)" and "set gs \<subseteq> set fs"
  shows "fold (\<lambda>(k, v). put_member k v) gs [] = filter (\<lambda>f. f \<in> set gs) fs"
  using assms(2)
proof (induction gs rule: rev_induct)
  case (snoc g gs)
  obtain k v where g: "g = (k, v)" by (cases g)
  have "fold (\<lambda>(k, v). put_member k v) (gs @ [g]) [] = put_member k v (filter (\<lambda>f. f \<in> set gs) fs)"
    using snoc by (simp add: g)
  also have "\<dots> = filter (\<lambda>f. f = (k, v) \<or> f \<in> set gs) fs"
    by (rule put_member_filter [OF assms(1)]) (use snoc.prems g in auto)
  finally show ?case by (auto simp: g intro!: filter_cong)
qed simp

lemma put_members_same:
  assumes "sorted_wrt utf16Less (map fst fs)" and "set gs = set fs"
  shows "fold (\<lambda>(k, v). put_member k v) gs [] = fs"
  using put_members_all [OF assms(1), of gs] assms(2) by simp

lemma fold_members_texts:
  "list_all (\<lambda>(k, v). valid_utf8 k) gs \<Longrightarrow>
   fold (\<lambda>(k, v). put_member (marshalled_text k) v) gs acc = fold (\<lambda>(k, v). put_member k v) gs acc"
  by (induction gs arbitrary: acc) (auto simp: marshalled_valid)

lemma canonical_keys: "canonical_fields fs \<Longrightarrow> list_all (\<lambda>(k, v). valid_utf8 k) fs"
  by (induction fs) auto

lemma reread_canonical:
  "canonical v \<Longrightarrow> json_reread v = Some v"
  "canonical_list vs \<Longrightarrow> reread_list vs = Some vs"
  "canonical_fields fs \<Longrightarrow> reread_members fs = Some fs"
proof (induction v and vs and fs rule: canonical_canonical_list_canonical_fields.induct)
  case (6 fs)
  then have "list_all (\<lambda>(k, v). valid_utf8 k) (sort_key fst fs)"
    using canonical_keys [of fs] by (simp add: list_all_iff)
  with 6 show ?case by (simp add: fold_members_texts put_members_same)
qed (auto simp: marshalled_valid split: float64.splits)

section \<open>Decoding what was encoded\<close>

lemma member_decoder_plain:
  assumes "list_all (\<lambda>f. plain_name (fst f)) spec" and "plain_name k"
  shows "member_decoder spec k = map_option snd (find (\<lambda>f. fst f = k) spec)"
proof -
  have "(\<lambda>f. fst f = k \<or> foldName (fst f) = foldName k) f = (fst f = k)" if "f \<in> set spec" for f
    using that assms foldName_inj [of "fst f" k] by (auto simp: list_all_iff)
  then have "find (\<lambda>f. fst f = k \<or> foldName (fst f) = foldName k) spec = find (\<lambda>f. fst f = k) spec"
    by (intro find_cong) auto
  then show ?thesis by (simp add: member_decoder_def)
qed

lemma decode_member:
  "member_decoder spec k = Some (into get upd d) \<Longrightarrow> d v (get x) = Some y \<Longrightarrow>
   decode_members spec ((k, v) # fs) x = decode_members spec fs (upd (\<lambda>_. y) x)"
  by (simp add: into_def)

lemma decode_text_member:
  "member_decoder spec k = Some (into get upd decode_text) \<Longrightarrow>
   decode_members spec ((k, JStr s) # fs) x = decode_members spec fs (upd (\<lambda>_. s) x)"
  by (simp add: into_def decode_text_def)

lemma decode_put_text:
  "member_decoder spec k = Some (into get upd decode_text) \<Longrightarrow> upd (\<lambda>_. []) x = x \<Longrightarrow>
   decode_members spec (putString k s @ fs) x = decode_members spec fs (upd (\<lambda>_. s) x)"
  by (cases "s = []") (simp_all add: putString_def into_def decode_text_def)

lemma decode_texts: "decode_slice decode_text [] (stringValues ss) [] = Some ss"
proof -
  have "decode_elements decode_text [] (map JStr ss) [] = Some ss" by (induction ss) (simp_all add: decode_text_def)
  then show ?thesis by (simp add: decode_slice_def stringValues_def)
qed

lemma decode_put_texts:
  "member_decoder spec k = Some (into get upd (decode_slice decode_text [])) \<Longrightarrow> get x = [] \<Longrightarrow>
   upd (\<lambda>_. []) x = x \<Longrightarrow>
   decode_members spec (put_strings k ss @ fs) x = decode_members spec fs (upd (\<lambda>_. ss) x)"
  by (cases "ss = []") (simp_all add: put_strings_def into_def decode_texts)

lemma decode_put_int:
  "member_decoder spec k = Some (into get upd decode_int_pointer) \<Longrightarrow> upd (\<lambda>_. None) x = x \<Longrightarrow>
   (\<And>n. i = Some n \<Longrightarrow> int64 n) \<Longrightarrow>
   decode_members spec (put_int k i @ fs) x = decode_members spec fs (upd (\<lambda>_. i) x)"
  by (cases i) (simp_all add: put_int_def into_def decode_int_pointer_def int64_def)

lemma actor_named:
  "member_decoder actor_members ''type'' = Some (into ea_type ea_type_update decode_text)"
  "member_decoder actor_members ''id'' = Some (into ea_id ea_id_update decode_text)"
  "member_decoder actor_members ''name'' = Some (into ea_name ea_name_update decode_text)"
  by (subst member_decoder_plain; simp add: plain_name_def byte_in_def actor_members_def)+

lemma actor_decoded:
  "decode_record actor_members (envelopeActorValue a) \<lparr>ea_type = [], ea_id = [], ea_name = []\<rparr> = Some a"
  by (simp add: decode_record_def envelopeActorValue_def decode_text_member [OF actor_named(2)]
      decode_put_text [OF actor_named(3)] decode_text_member [OF actor_named(1)] del: decode_members.simps(2))

lemma target_named:
  "member_decoder target_members ''kind'' = Some (into et_kind et_kind_update decode_text)"
  "member_decoder target_members ''room_id'' = Some (into et_room_id et_room_id_update decode_text)"
  "member_decoder target_members ''thread_id'' = Some (into et_thread_id et_thread_id_update decode_text)"
  "member_decoder target_members ''parent_message_id'' =
     Some (into et_parent_message_id et_parent_message_id_update decode_text)"
  "member_decoder target_members ''dm_id'' = Some (into et_dm_id et_dm_id_update decode_text)"
  "member_decoder target_members ''participant_ids'' =
     Some (into et_participant_ids et_participant_ids_update (decode_slice decode_text []))"
  by (subst member_decoder_plain; simp add: plain_name_def byte_in_def target_members_def)+

lemma decode_last: "decode_members spec fs x = decode_members spec (fs @ []) x"
  by simp

lemma target_decoded:
  "decode_record target_members (envelopeTargetValue t) (me_target zero_envelope) = Some t"
proof -
  let ?fs = "putString ''dm_id'' (et_dm_id t) @ [(''kind'', JStr (et_kind t))] @
     putString ''parent_message_id'' (et_parent_message_id t) @
     put_strings ''participant_ids'' (et_participant_ids t) @
     putString ''room_id'' (et_room_id t) @ putString ''thread_id'' (et_thread_id t) @ []"
  have "decode_members target_members ?fs (me_target zero_envelope) = Some t"
    unfolding zero_envelope_def
    by (simp del: decode_members.simps(2) append_Nil2
        add: decode_put_text [OF target_named(5)] decode_text_member [OF target_named(1)]
          decode_put_text [OF target_named(4)] decode_put_texts [OF target_named(6)]
          decode_put_text [OF target_named(2)] decode_put_text [OF target_named(3)])
  then show ?thesis by (simp add: decode_record_def envelopeTargetValue_def)
qed

definition data_canonical :: "part list \<Rightarrow> bool" where
  "data_canonical ps \<longleftrightarrow> list_all (\<lambda>p. canonical (JObj (part_data p))) ps"

lemma part_named:
  "member_decoder part_members ''kind'' = Some (into part_kind part_kind_update decode_text)"
  "member_decoder part_members ''text'' = Some (into part_text part_text_update decode_text)"
  "member_decoder part_members ''media_type'' = Some (into part_media_type part_media_type_update decode_text)"
  "member_decoder part_members ''url'' = Some (into part_url part_url_update decode_text)"
  "member_decoder part_members ''filename'' = Some (into part_filename part_filename_update decode_text)"
  "member_decoder part_members ''data'' = Some (into part_data part_data_update decode_map)"
  by (subst member_decoder_plain; simp add: plain_name_def byte_in_def part_members_def)+

abbreviation part_texts :: "part \<Rightarrow> (string \<times> json) list" where
  "part_texts p \<equiv> putString ''filename'' (part_filename p) @ [(''kind'', JStr (part_kind p))] @
     putString ''media_type'' (part_media_type p) @ putString ''text'' (part_text p) @
     putString ''url'' (part_url p)"

lemma part_value:
  assumes "canonical (JObj (part_data p))"
  shows "envelopePartValue p =
    Some (JObj ((if part_data p = [] then [] else [(''data'', JObj (part_data p))]) @ part_texts p))"
  using reread_canonical(1) [OF assms] normalize_canonical(1) [OF assms]
  by (simp add: envelopePartValue_def Let_def del: json_reread.simps normalizeCanonicalValue.simps)

lemma data_decoded: "canonical (JObj d) \<Longrightarrow> decode_map (JObj d) [] = Some d"
  using put_members_same [of d d] by (simp add: decode_map_def)

lemma texts_decoded:
  "decode_members part_members (part_texts p @ [])
     \<lparr>part_kind = [], part_text = [], part_media_type = [], part_url = [], part_filename = [], part_data = d\<rparr> =
   Some (p\<lparr>part_data := d\<rparr>)"
  by (simp del: decode_members.simps(2) append_Nil2
      add: decode_put_text [OF part_named(5)] decode_text_member [OF part_named(1)]
        decode_put_text [OF part_named(3)] decode_put_text [OF part_named(2)] decode_put_text [OF part_named(4)])

lemma part_decoded:
  assumes "canonical (JObj (part_data p))"
  shows "envelopePartValue p = Some v \<Longrightarrow> decode_record part_members v zero_part = Some p"
  using texts_decoded [of p "part_data p"] data_decoded [OF assms]
  by (auto simp: part_value [OF assms] decode_record_def zero_part_def decode_member [OF part_named(6)]
      simp del: decode_members.simps(2))

lemma parts_decoded:
  assumes "data_canonical ps" and "part_values ps = Some vs"
  shows "decode_slice (decode_record part_members) zero_part (JArr vs) [] = Some ps"
proof -
  have "decode_elements (decode_record part_members) zero_part vs [] = Some ps"
    using assms
  proof (induction ps arbitrary: vs)
    case (Cons p ps)
    then obtain v vs' where v: "envelopePartValue p = Some v" "part_values ps = Some vs'" "vs = v # vs'"
      by (auto split: option.splits)
    have "decode_record part_members v zero_part = Some p"
      by (rule part_decoded [OF _ v(1)]) (use Cons.prems(1) in \<open>simp add: data_canonical_def\<close>)
    with Cons.IH [OF _ v(2)] Cons.prems(1) show ?case by (simp add: v(3) data_canonical_def)
  qed simp
  then show ?thesis by (simp add: decode_slice_def)
qed

lemma envelope_named:
  "member_decoder envelope_members ''v'' = Some (into me_v me_v_update decode_text)"
  "member_decoder envelope_members ''global_room_id'' =
     Some (into me_global_room_id me_global_room_id_update decode_text)"
  "member_decoder envelope_members ''membership_epoch'' =
     Some (into me_membership_epoch me_membership_epoch_update decode_int_pointer)"
  "member_decoder envelope_members ''target'' = Some (into me_target me_target_update (decode_record target_members))"
  "member_decoder envelope_members ''origin_network_id'' =
     Some (into me_origin_network_id me_origin_network_id_update decode_text)"
  "member_decoder envelope_members ''origin_fingerprint'' =
     Some (into me_origin_fingerprint me_origin_fingerprint_update decode_text)"
  "member_decoder envelope_members ''origin_message_id'' =
     Some (into me_origin_message_id me_origin_message_id_update decode_text)"
  "member_decoder envelope_members ''origin_seq'' = Some (into me_origin_seq me_origin_seq_update decode_int_pointer)"
  "member_decoder envelope_members ''author'' = Some (into me_author me_author_update (decode_record actor_members))"
  "member_decoder envelope_members ''created_at'' = Some (into me_created_at me_created_at_update decode_text)"
  "member_decoder envelope_members ''parts'' =
     Some (into me_parts me_parts_update (decode_slice (decode_record part_members) zero_part))"
  "member_decoder envelope_members ''mentions'' = Some (into me_mentions me_mentions_update (decode_slice decode_text []))"
  by (subst member_decoder_plain; simp add: plain_name_def byte_in_def envelope_members_def)+

definition safe_ints :: "message_envelope \<Rightarrow> bool" where
  "safe_ints e \<longleftrightarrow> (\<forall>n. me_membership_epoch e = Some n \<or> me_origin_seq e = Some n \<longrightarrow> int64 n)"

lemma envelope_decoded:
  assumes v: "envelopeCanonicalValue e = Some v" and data: "data_canonical (me_parts e)" and ints: "safe_ints e"
  shows "decode_record envelope_members v zero_envelope = Some e"
proof -
  obtain vs where vs: "part_values (me_parts e) = Some vs"
    using v by (auto simp: envelopeCanonicalValue_def)
  let ?fs = "[(''author'', envelopeActorValue (me_author e)), (''created_at'', JStr (me_created_at e))] @
         putString ''global_room_id'' (me_global_room_id e) @
         put_int ''membership_epoch'' (me_membership_epoch e) @
         put_strings ''mentions'' (me_mentions e) @
         [(''origin_fingerprint'', JStr (me_origin_fingerprint e)),
          (''origin_message_id'', JStr (me_origin_message_id e)),
          (''origin_network_id'', JStr (me_origin_network_id e))] @
         put_int ''origin_seq'' (me_origin_seq e) @
         [(''parts'', JArr vs), (''target'', envelopeTargetValue (me_target e)), (''v'', JStr (me_v e))]"
  have "decode_members envelope_members ?fs zero_envelope = Some e"
    using ints target_decoded [of "me_target e"]
    by (simp del: decode_members.simps(2) append_Nil2
        add: decode_member [OF envelope_named(9)] actor_decoded decode_text_member [OF envelope_named(10)]
          decode_put_text [OF envelope_named(2)] decode_put_int [OF envelope_named(3)]
          decode_put_texts [OF envelope_named(12)] decode_text_member [OF envelope_named(6)]
          decode_text_member [OF envelope_named(7)] decode_text_member [OF envelope_named(5)]
          decode_put_int [OF envelope_named(8)] decode_member [OF envelope_named(11)] parts_decoded [OF data vs]
          decode_member [OF envelope_named(4)] decode_text_member [OF envelope_named(1)]
          zero_envelope_def safe_ints_def)
  moreover have "v = JObj ?fs" using v vs by (simp add: envelopeCanonicalValue_def)
  ultimately show ?thesis by (simp add: decode_record_def)
qed

section \<open>Canonical bytes\<close>

lemma keys_sorted:
  assumes "subseq ks ks'" and "sorted_wrt utf16Less ks'"
  shows "sorted_wrt utf16Less ks"
  using subseq_sorted_wrt [OF assms] .

lemma put_keys:
  "map fst (putString k s) = (if s = [] then [] else [k])"
  "map fst (put_strings k ss) = (if ss = [] then [] else [k])"
  "map fst (put_int k i) = (case i of None \<Rightarrow> [] | Some _ \<Rightarrow> [k])"
  by (simp_all add: putString_def put_strings_def put_int_def split: option.splits)

lemma actor_ordered: "ordered (envelopeActorValue a)"
proof -
  have "sorted_wrt utf16Less [''id'', ''name'', ''type'']" by (simp add: utf16Less_def utf16_units_ascii byte_in_def)
  then show ?thesis by (auto simp: envelopeActorValue_def put_keys)
qed

lemma target_ordered: "ordered (envelopeTargetValue t)"
proof -
  let ?ks = "[''dm_id'', ''kind'', ''parent_message_id'', ''participant_ids'', ''room_id'', ''thread_id'']"
  have "sorted_wrt utf16Less ?ks" by (simp add: utf16Less_def utf16_units_ascii byte_in_def)
  then show ?thesis by (auto simp: envelopeTargetValue_def put_keys intro: keys_sorted)
qed

lemma part_ordered:
  assumes "canonical (JObj (part_data p))" and "envelopePartValue p = Some v"
  shows "ordered v"
proof -
  let ?ks = "[''data'', ''filename'', ''kind'', ''media_type'', ''text'', ''url'']"
  have "sorted_wrt utf16Less ?ks" by (simp add: utf16Less_def utf16_units_ascii byte_in_def)
  moreover have "ordered (JObj (part_data p))" by (rule canonical_ordered(1) [OF assms(1)])
  ultimately show ?thesis
    using assms(2) unfolding part_value [OF assms(1)] by (auto simp: put_keys intro: keys_sorted split: if_splits)
qed

lemma parts_ordered: "data_canonical ps \<Longrightarrow> part_values ps = Some vs \<Longrightarrow> ordered_list vs"
proof (induction ps arbitrary: vs)
  case (Cons p ps)
  then obtain v vs' where v: "envelopePartValue p = Some v" "part_values ps = Some vs'" "vs = v # vs'"
    by (auto split: option.splits)
  have "ordered v" by (rule part_ordered [OF _ v(1)]) (use Cons.prems(1) in \<open>simp add: data_canonical_def\<close>)
  with Cons.IH [OF _ v(2)] Cons.prems(1) show ?case by (simp add: v(3) data_canonical_def)
qed simp

lemma envelope_ordered:
  assumes "data_canonical (me_parts e)" and "envelopeCanonicalValue e = Some v"
  shows "ordered v"
proof -
  let ?ks = "[''author'', ''created_at'', ''global_room_id'', ''membership_epoch'', ''mentions'',
    ''origin_fingerprint'', ''origin_message_id'', ''origin_network_id'', ''origin_seq'', ''parts'', ''target'', ''v'']"
  obtain vs where vs: "part_values (me_parts e) = Some vs" using assms(2) by (auto simp: envelopeCanonicalValue_def)
  have sorted: "sorted_wrt utf16Less ?ks" by (simp add: utf16Less_def utf16_units_ascii byte_in_def)
  have "sorted_wrt utf16Less (map fst fs)" "ordered_fields fs" if "v = JObj fs" for fs
    using assms(2) that parts_ordered [OF assms(1) vs] actor_ordered [of "me_author e"] target_ordered [of "me_target e"]
    by (auto simp: envelopeCanonicalValue_def vs put_keys intro!: keys_sorted [OF _ sorted] split: option.splits)
  moreover obtain fs where "v = JObj fs" using assms(2) by (auto simp: envelopeCanonicalValue_def)
  ultimately show ?thesis by simp
qed

lemma canonical_put_int: "canonical_fields (put_int k i) \<Longrightarrow> i = Some n \<Longrightarrow> valid_utf8 k \<and> \<bar>n\<bar> \<le> maxSafeInteger"
  by (simp add: put_int_def)

lemma envelope_canonical:
  assumes "data_canonical (me_parts e)" and "EnvelopeCanonicalBytes env e = Some bytes"
  shows "\<exists>v. envelopeCanonicalValue e = Some v \<and> canonical v \<and> safe_ints e \<and>
    bytes = writeCanonicalJSONValue (ge_format env) v"
proof -
  obtain v where v: "envelopeCanonicalValue e = Some v" "CanonicalJSONBytes (ge_format env) v = Some bytes"
    using assms(2) by (auto simp: EnvelopeCanonicalBytes_def split: option.splits)
  have can: "canonical v"
    by (rule ordered_canonical(1) [OF envelope_ordered [OF assms(1) v(1)]])
      (use v(2) in \<open>auto simp: CanonicalJSONBytes_def CanonicalJSONString_def\<close>)
  then have "canonical_fields (put_int ''membership_epoch'' (me_membership_epoch e))"
    "canonical_fields (put_int ''origin_seq'' (me_origin_seq e))"
    using v(1) by (auto simp: envelopeCanonicalValue_def)
  then have "safe_ints e" using canonical_put_int safe_int64 by (auto simp: safe_ints_def)
  with can v canonical_read(1) [OF can, of "ge_format env"] show ?thesis by auto
qed

text \<open>What is read from the bytes of an envelope is that envelope.\<close>

lemma envelope_read:
  assumes "data_canonical (me_parts e)" and "EnvelopeCanonicalBytes env e = Some bytes"
  shows "\<exists>v. ParseCanonicalJSONBytes (ge_parse env) bytes = Some v \<and>
    CanonicalJSONBytes (ge_format env) v = Some bytes \<and> decode_record envelope_members v zero_envelope = Some e"
proof -
  obtain v where v: "envelopeCanonicalValue e = Some v" "canonical v" "safe_ints e"
      "bytes = writeCanonicalJSONValue (ge_format env) v"
    using envelope_canonical [OF assms] by blast
  with envelope_decoded [OF v(1) assms(1) v(3)] canonical_read [OF v(2)] show ?thesis by auto
qed

section \<open>Signing and verifying\<close>

lemma envelope_verifies:
  assumes "SignEnvelope env e key sign = Inr (stmt, digest)" and "signer_for env key sign"
    and "data_canonical (me_parts e)"
  shows "VerifySignedEnvelope env stmt = Inr (e, digest)"
proof -
  obtain bytes where key: "me_origin_fingerprint e = NetworkKeyFingerprint key"
    and ok: "validateEnvelopeFields e = None" and bytes: "EnvelopeCanonicalBytes env e = Some bytes"
    and digest: "digest = EnvelopeDigest bytes"
    and stmt: "stmt = \<lparr>se_envelope = EncodeToString bytes, se_public_key = EncodeNetworkPublicKey key,
      se_signature = EncodeToString (sign (envelopeSignatureInput digest))\<rparr>"
    using assms(1) by (auto simp: SignEnvelope_def Let_def split: if_splits option.splits)
  have len: "length key = 32" using assms(2) by (simp add: signer_for_def)
  have "ParseSignedEnvelope env stmt = Inr (e, digest)"
    using envelope_read [OF assms(3) bytes] by (auto simp: ParseSignedEnvelope_def stmt Decode_Encode ok bytes digest)
  moreover have "ParseNetworkPublicKey (se_public_key stmt) = Some key"
    using len by (simp add: stmt ParseNetworkPublicKey_Encode)
  ultimately show ?thesis
    using assms(2) by (simp add: VerifySignedEnvelope_def key stmt Decode_Encode signer_for_def)
qed

lemma envelope_parsed:
  assumes "ParseSignedEnvelope env stmt = Inr (e, digest)"
  shows "\<exists>raw v. DecodeString (se_envelope stmt) = Some raw \<and> EnvelopeCanonicalBytes env e = Some raw \<and>
    ParseCanonicalJSONBytes (ge_parse env) raw = Some v \<and>
    decode_record envelope_members v zero_envelope = Some e \<and>
    validateEnvelopeFields e = None \<and> digest = EnvelopeDigest raw"
  using assms by (auto simp: ParseSignedEnvelope_def split: option.splits if_splits)

lemma envelope_verified:
  assumes "VerifySignedEnvelope env stmt = Inr (e, digest)"
  shows "\<exists>raw key signature. DecodeString (se_envelope stmt) = Some raw \<and>
    EnvelopeCanonicalBytes env e = Some raw \<and> digest = EnvelopeDigest raw \<and>
    ParseNetworkPublicKey (se_public_key stmt) = Some key \<and> NetworkKeyFingerprint key = me_origin_fingerprint e \<and>
    DecodeString (se_signature stmt) = Some signature \<and>
    ge_verify env key (envelopeSignatureInput digest) signature"
  using assms envelope_parsed [of env stmt e digest]
  by (auto simp: VerifySignedEnvelope_def split: sum.splits option.splits if_splits)

text \<open>A verified envelope and a message that matches it state the same message.\<close>

lemma envelope_bound:
  assumes "VerifySignedEnvelope env stmt = Inr (e, digest)" and "EnvelopeMatchesRequest env e r = None"
    and "data_canonical (smr_parts r)"
  shows "e = expected_envelope e r"
proof -
  have parsed: "ParseSignedEnvelope env stmt = Inr (e, digest)"
    using assms(1) by (auto simp: VerifySignedEnvelope_def split: sum.splits option.splits if_splits)
  obtain raw v where v: "EnvelopeCanonicalBytes env e = Some raw" "ParseCanonicalJSONBytes (ge_parse env) raw = Some v"
      "decode_record envelope_members v zero_envelope = Some e"
    using envelope_parsed [OF parsed] by blast
  have want: "EnvelopeCanonicalBytes env (expected_envelope e r) = Some raw"
    using assms(2) v(1) by (auto simp: EnvelopeMatchesRequest_def split: option.splits if_splits)
  have "data_canonical (me_parts (expected_envelope e r))"
    using assms(3) by (simp add: expected_envelope_def EnvelopeFromRequest_def)
  from envelope_read [OF this want] v show ?thesis by auto
qed

end
