(* ===== verification/Hub_Invites.thy ===== *)
theory Hub_Invites
  imports Go_Prelude
begin

text \<open>
  Room invites (\<open>internal/hubinvites/store.go\<close>): the grants a home minted, the joins a member
  still has to finish, and the pairing each member network was admitted over. The file-backed
  form reads these three lists from a file and writes them back under a lock.
  Shown: a room has one link per network, and a grant is spent once removed.
\<close>

record hub_grant =
  hg_pairing_id :: string
  hg_global_room_id :: string
  hg_role :: string
  hg_exp :: time

record pending_join =
  pj_pairing_id :: string
  pj_global_room_id :: string
  pj_local_room_id :: string
  pj_exp :: time
  pj_status :: string
  pj_last_error :: string

record hub_link =
  hl_pairing_id :: string
  hl_global_room_id :: string
  hl_network_id :: string

record hub_invites =
  hi_grants :: "hub_grant list"
  hi_joins :: "pending_join list"
  hi_links :: "hub_link list"

abbreviation JoinExpired :: string where "JoinExpired \<equiv> ''expired''"

definition NewMemoryInvites :: hub_invites where
  "NewMemoryInvites = \<lparr>hi_grants = [], hi_joins = [], hi_links = []\<rparr>"

definition Pending :: "pending_join \<Rightarrow> bool" where
  "Pending j \<longleftrightarrow> pj_status j = []"

definition withoutGrant :: "hub_grant list \<Rightarrow> string \<Rightarrow> string \<Rightarrow> hub_grant list" where
  "withoutGrant grants pairingID globalRoomID =
     filter (\<lambda>g. hg_pairing_id g \<noteq> pairingID \<or> hg_global_room_id g \<noteq> globalRoomID) grants"

definition withoutJoin :: "pending_join list \<Rightarrow> string \<Rightarrow> pending_join list" where
  "withoutJoin joins globalRoomID = filter (\<lambda>j. pj_global_room_id j \<noteq> globalRoomID) joins"

definition AddGrant :: "hub_grant \<Rightarrow> hub_invites \<Rightarrow> hub_invites" where
  "AddGrant grant s =
     s\<lparr>hi_grants := withoutGrant (hi_grants s) (hg_pairing_id grant) (hg_global_room_id grant) @ [grant]\<rparr>"

definition Grant :: "string \<Rightarrow> string \<Rightarrow> time \<Rightarrow> hub_invites \<Rightarrow> hub_grant option" where
  "Grant pairingID globalRoomID now s =
     find (\<lambda>g. hg_pairing_id g = pairingID \<and> hg_global_room_id g = globalRoomID \<and> now < hg_exp g) (hi_grants s)"

definition RemoveGrant :: "string \<Rightarrow> string \<Rightarrow> hub_invites \<Rightarrow> hub_invites" where
  "RemoveGrant pairingID globalRoomID s = s\<lparr>hi_grants := withoutGrant (hi_grants s) pairingID globalRoomID\<rparr>"

definition AddJoin :: "pending_join \<Rightarrow> hub_invites \<Rightarrow> hub_invites" where
  "AddJoin join s = s\<lparr>hi_joins := withoutJoin (hi_joins s) (pj_global_room_id join) @ [join]\<rparr>"

definition RemoveJoin :: "string \<Rightarrow> hub_invites \<Rightarrow> hub_invites" where
  "RemoveJoin globalRoomID s = s\<lparr>hi_joins := withoutJoin (hi_joins s) globalRoomID\<rparr>"

definition UpdateJoin :: "pending_join \<Rightarrow> hub_invites \<Rightarrow> hub_invites" where
  "UpdateJoin join s =
     s\<lparr>hi_joins := map (\<lambda>j. if pj_global_room_id j = pj_global_room_id join then join else j) (hi_joins s)\<rparr>"

definition SetLink :: "hub_link \<Rightarrow> hub_invites \<Rightarrow> hub_invites" where
  "SetLink link s =
     s\<lparr>hi_links := filter (\<lambda>l. hl_global_room_id l \<noteq> hl_global_room_id link \<or>
                                hl_network_id l \<noteq> hl_network_id link) (hi_links s) @ [link]\<rparr>"

definition Links :: "string \<Rightarrow> hub_invites \<Rightarrow> hub_link list" where
  "Links globalRoomID s = filter (\<lambda>l. hl_global_room_id l = globalRoomID) (hi_links s)"

section \<open>Grants and links\<close>

lemma Grant_Some:
  "Grant p g now s = Some grant \<Longrightarrow>
   grant \<in> set (hi_grants s) \<and> hg_pairing_id grant = p \<and> hg_global_room_id grant = g \<and> now < hg_exp grant"
  by (auto simp: Grant_def find_Some_iff)

lemma Grant_after_RemoveGrant [simp]: "Grant p g now (RemoveGrant p g s) = None"
  by (auto simp: Grant_def RemoveGrant_def withoutGrant_def find_None_iff)

definition links_unique :: "hub_invites \<Rightarrow> bool" where
  "links_unique s \<longleftrightarrow> distinct (map (\<lambda>l. (hl_global_room_id l, hl_network_id l)) (hi_links s))"

lemma links_unique_SetLink: "links_unique s \<Longrightarrow> links_unique (SetLink link s)"
  unfolding links_unique_def SetLink_def by (auto simp: distinct_map inj_on_def intro: distinct_map_filter)

lemma SetLink_links:
  "link \<in> set (Links (hl_global_room_id link) (SetLink link s))"
  "hl_global_room_id link \<noteq> g \<Longrightarrow> Links g (SetLink link s) = Links g s"
  by (auto simp: Links_def SetLink_def intro: filter_cong)

end
