(* ===== verification/Hub_Home.thy ===== *)
theory Hub_Home
  imports Service_Access Hub_Invites Sender_Identity
begin

text \<open>
  The home of a hub room: administration (\<open>internal/rooms/hub_home.go\<close>), the pairings members are
  linked over (\<open>hub_links.go\<close>), admission and leaving (\<open>hub_admission.go\<close>), the next receipt
  (\<open>hub_place.go\<close>) and whom a placed message goes to (\<open>hub_state.go\<close>). The record \<open>hub_service\<close> adds
  to the service what only hub rooms use: the invites and the signing identity. The clock and
  its text are arguments. The lock \<open>hubMu\<close> is held over every reading of the log that is followed
  by a change of it.
  Shown: what the home appends, every member can replay; the receipt it signs next, its store
  accepts; a member is admitted under the key it proved, by spending one live invite.
\<close>

section \<open>State\<close>

record home_identity =
  id_public :: string
  id_sign :: "string \<Rightarrow> string"

record hub_service =
  hz_service :: service
  hz_invites :: hub_invites
  hz_identity :: "home_identity option"

record hub_clock =
  hk_now :: time
  hk_text :: string

text \<open>The errors of the hub paths; \<open>HomeRefused\<close> is an error of the service itself.\<close>

datatype home_error =
    HomeRefused service_error
  | HubNotFound string
  | HubUnavailable string
  | HubConflict store_error
  | HubPinRefused pin_error
  | HubStoreFailed store_error
  | HubLogInvalid hub_error

definition hz_store :: "hub_service \<Rightarrow> memory_store" where
  "hz_store z = sv_store (hz_service z)"

definition hz_with_store :: "memory_store \<Rightarrow> hub_service \<Rightarrow> hub_service" where
  "hz_with_store st z = z\<lparr>hz_service := (hz_service z)\<lparr>sv_store := st\<rparr>\<rparr>"

definition hz_with_pins :: "pin_store \<Rightarrow> hub_service \<Rightarrow> hub_service" where
  "hz_with_pins ps z = z\<lparr>hz_service := (hz_service z)\<lparr>sv_key_pins := ps\<rparr>\<rparr>"

definition requireHubOperator :: "request_context \<Rightarrow> home_error option" where
  "requireHubOperator ctx =
     (case rx_claims ctx of
        None \<Rightarrow> if ModeFromContext ctx = ModeNone then None
                else Some (HomeRefused (HubForbidden ''hub room administration requires an operator credential''))
      | Some c \<Rightarrow>
          if Operator c \<or> Allows c ScopeAdmin \<and> \<not> Allows c ScopePair then None
          else Some (HomeRefused (HubForbidden ''hub room administration requires an operator credential'')))"

definition requireHubs :: "hub_service \<Rightarrow> home_error option" where
  "requireHubs z =
     (if \<not> sv_hubs (hz_service z) then Some (HubUnavailable ''this message store does not support hub rooms'')
      else if hz_identity z = None
      then Some (HubUnavailable ''hub rooms need a network signing key (a durable keys directory)'') else None)"

record hub_room_view =
  hv_room :: hub_room
  hv_epoch :: int
  hv_history :: string
  hv_members :: "string strmap"

definition hubRoomView :: "go_env \<Rightarrow> hub_service \<Rightarrow> hub_room \<Rightarrow> home_error + hub_room_view" where
  "hubRoomView env z h =
     (case hubRoster env (hz_service z) h 0 of
        Inl e \<Rightarrow> Inl (HubLogInvalid e)
      | Inr roster \<Rightarrow>
          Inr \<lparr>hv_room = h, hv_epoch = ros_epoch roster, hv_history = ros_history roster,
               hv_members = fmmap hm_role (ros_members roster)\<rparr>)"

section \<open>Member links\<close>

definition hubLinkNetwork :: "hub_service \<Rightarrow> string \<Rightarrow> string \<Rightarrow> string option" where
  "hubLinkNetwork z globalRoomID pairingID =
     map_option hl_network_id (find (\<lambda>l. hl_pairing_id l = pairingID) (Links globalRoomID (hz_invites z)))"

definition claimed_network :: "request_context \<Rightarrow> string" where
  "claimed_network ctx = (case rx_claims ctx of None \<Rightarrow> [] | Some c \<Rightarrow> trim_space (cl_network c))"

definition hubPeerNetwork :: "hub_service \<Rightarrow> request_context \<Rightarrow> string \<Rightarrow> pairing \<Rightarrow> string option" where
  "hubPeerNetwork z ctx globalRoomID p =
     (case hubLinkNetwork z globalRoomID (pr_id p) of
        None \<Rightarrow> None
      | Some network \<Rightarrow>
          if claimed_network ctx \<noteq> [] \<and> claimed_network ctx \<noteq> network then None else Some network)"

definition hubLinkSpeaksFor :: "hub_service \<Rightarrow> request_context \<Rightarrow> string \<Rightarrow> pairing \<Rightarrow> string \<Rightarrow> bool" where
  "hubLinkSpeaksFor z ctx globalRoomID p network \<longleftrightarrow> hubPeerNetwork z ctx globalRoomID p = Some network"

definition recordHubLink :: "string \<Rightarrow> string \<Rightarrow> string \<Rightarrow> hub_service \<Rightarrow> hub_service" where
  "recordHubLink globalRoomID pairingID network z =
     z\<lparr>hz_invites := SetLink \<lparr>hl_pairing_id = pairingID, hl_global_room_id = globalRoomID, hl_network_id = network\<rparr>
                       (hz_invites z)\<rparr>"

definition pairingNetworkID :: "service \<Rightarrow> pairing \<Rightarrow> string option" where
  "pairingNetworkID s p =
     (if trim_space (pr_remote_network_id p) \<noteq> [] then Some (trim_space (pr_remote_network_id p))
      else (case PairingNetworks (pr_id p) (sv_key_pins s) of [only] \<Rightarrow> Some only | _ \<Rightarrow> None))"

definition checkAdmissionCredential ::
  "hub_service \<Rightarrow> request_context \<Rightarrow> pairing \<Rightarrow> string \<Rightarrow> home_error option" where
  "checkAdmissionCredential z ctx p network =
     (let s = hz_service z; forbidden = (\<lambda>m. Some (HomeRefused (HubForbidden m)))
      in if claimed_network ctx \<noteq> [] \<and> claimed_network ctx \<noteq> network
         then forbidden ''this pairing is bound to another network''
         else if list_ex (\<lambda>other. other \<noteq> network) (PairingNetworks (pr_id p) (sv_key_pins s))
         then forbidden ''this pairing already speaks for another network''
         else if sv_deliveries s \<and>
           (let known = ps_remote_network_id (PairingDeliveryStateContext (pr_id p) (sv_store s))
            in known \<noteq> [] \<and> known \<noteq> network)
         then forbidden ''this pairing's peer reported another network in discovery''
         else if Lookup network (sv_key_pins s) = None \<and>
           (case findPairingByRemoteNetwork s network of Inl _ \<Rightarrow> False | Inr other \<Rightarrow> pr_id other \<noteq> pr_id p)
         then forbidden ''network is paired directly but has no pinned key yet''
         else None)"

section \<open>Changing the control log\<close>

record hub_control_request =
  hq_global_room_id :: string
  hq_kind :: string
  hq_pairing_id :: string
  hq_network_id :: string
  hq_role :: string
  hq_history :: string

definition service_create_hub_room ::
  "go_env \<Rightarrow> hub_clock \<Rightarrow> request_context \<Rightarrow> string \<Rightarrow> string \<Rightarrow> hub_service \<Rightarrow>
   (home_error + hub_room_view) \<times> hub_service" where
  "service_create_hub_room env clock ctx roomID history0 z =
     (let s = hz_service z;
          refused = (case requireHubOperator ctx of Some e \<Rightarrow> Some e | None \<Rightarrow> requireHubs z);
          history = (if history0 = [] then ''from_join'' else history0)
      in if refused \<noteq> None then (Inl (the refused), z)
         else if \<not> ValidRoomHistory history then (Inl (HomeRefused (HubInvalid ''unknown history policy'')), z)
         else case getRoom s (trim_space roomID) of
                None \<Rightarrow> (Inl (HomeRefused (UnknownRoom roomID)), z)
              | Some r \<Rightarrow>
                  if rm_follow r \<noteq> None \<or> fed_mode (NormalizeRoomFederation (rm_federation r)) \<noteq> RoomFederationNone
                  then (Inl (HomeRefused (HubInvalid ''a hub room must be a local room with federation none'')), z)
                  else
                    let identity = the (hz_identity z);
                        fingerprint = NetworkKeyFingerprint (id_public identity);
                        genesis = \<lparr>rc_v = RoomControlVersionV1, rc_global_room_id = GlobalRoomID fingerprint (rm_id r),
                          rc_seq = 1, rc_epoch = 1, rc_prev_hash = [], rc_kind = RoomControlGenesis,
                          rc_network_id = sv_network_id s, rc_fingerprint = fingerprint,
                          rc_public_key = EncodeNetworkPublicKey (id_public identity), rc_role = RoomRoleOwner,
                          rc_history = history, rc_created_at = hk_text clock\<rparr>
                    in case SignRoomControl env genesis (id_sign identity) of
                         Inl e \<Rightarrow> (Inl (HomeRefused (HubInvalid ''control event'')), z)
                       | Inr (stmt, digest) \<Rightarrow>
                           let g = rc_global_room_id genesis;
                               h = \<lparr>hr_global_room_id = g, hr_local_room_id = rm_id r, hr_home_network_id = sv_network_id s,
                                    hr_home_pairing_id = [], hr_created_at = hk_now clock\<rparr>
                           in case createHubRoomLocked h \<lparr>hc_global_room_id = g, hc_seq = 1, hc_digest = digest, hc_control = stmt\<rparr>
                                     (sv_store s) of
                                (Some (ErrHubRoomExists i), st) \<Rightarrow> (Inl (HubConflict (ErrHubRoomExists i)), hz_with_store st z)
                              | (Some e, st) \<Rightarrow> (Inl (HubStoreFailed e), hz_with_store st z)
                              | (None, st) \<Rightarrow> (hubRoomView env (hz_with_store st z) h, hz_with_store st z))"

definition fillHubAddSubject ::
  "hub_service \<Rightarrow> string \<Rightarrow> room_control_event \<Rightarrow> home_error + room_control_event" where
  "fillHubAddSubject z pairingID e =
     (let s = hz_service z; invalid = (\<lambda>m. Inl (HomeRefused (HubInvalid m)))
      in case findPairingByID s pairingID of
           Inl err \<Rightarrow> Inl (HomeRefused err)
         | Inr p \<Rightarrow>
             (case pairingNetworkID s p of
                None \<Rightarrow> invalid ''pairing has no single known network yet''
              | Some network \<Rightarrow>
                  if rc_network_id e \<noteq> [] \<and> rc_network_id e \<noteq> network
                  then invalid ''pairing speaks for another network''
                  else (case Lookup network (sv_key_pins s) of
                          None \<Rightarrow> invalid ''network has no key pinned over a pairing yet''
                        | Some pin \<Rightarrow>
                            if pin_public_key pin = [] \<or> pin_trust pin = KeyTrustIntroduced
                            then invalid ''network has no key pinned over a pairing yet''
                            else Inr (e\<lparr>rc_network_id := network, rc_fingerprint := pin_fingerprint pin,
                                        rc_public_key := pin_public_key pin,
                                        rc_role := (if rc_role e = [] then ''writer'' else rc_role e)\<rparr>))))"

text \<open>The event \<open>appendHubControl\<close> signs, before and after the subject of an addition is filled in.\<close>

definition next_control_event ::
  "hub_clock \<Rightarrow> hub_service \<Rightarrow> hub_room \<Rightarrow> hub_roster \<Rightarrow> hub_control_request \<Rightarrow> home_error + room_control_event" where
  "next_control_event clock z h roster request =
     (let e = \<lparr>rc_v = RoomControlVersionV1, rc_global_room_id = hr_global_room_id h, rc_seq = ros_epoch roster + 1,
               rc_epoch = ros_epoch roster + 1, rc_prev_hash = ros_head_digest roster, rc_kind = hq_kind request,
               rc_network_id = trim_space (hq_network_id request), rc_fingerprint = [], rc_public_key = [],
               rc_role = hq_role request, rc_history = hq_history request, rc_created_at = hk_text clock\<rparr>
      in if hq_kind request = RoomControlAdd then fillHubAddSubject z (hq_pairing_id request) e else Inr e)"

definition appendHubControl ::
  "go_env \<Rightarrow> hub_clock \<Rightarrow> hub_control_request \<Rightarrow> hub_service \<Rightarrow> (home_error + hub_room_view) \<times> hub_service" where
  "appendHubControl env clock request z =
     (case requireHubs z of
        Some e \<Rightarrow> (Inl e, z)
      | None \<Rightarrow>
          (case hubRoomByGlobal (hz_service z) (hq_global_room_id request) of
             None \<Rightarrow> (Inl (HomeRefused (HubForbidden ''only a room's home can change its control log'')), z)
           | Some h \<Rightarrow>
               if \<not> IsHome h
               then (Inl (HomeRefused (HubForbidden ''only a room's home can change its control log'')), z)
               else
                 let g = hr_global_room_id h;
                     records = HubControlLogContext g 0 (hz_store z)
                 in case hubRoster env (hz_service z) h 0 of
                      Inl e \<Rightarrow> (Inl (HubLogInvalid e), z)
                    | Inr roster \<Rightarrow>
                        (case next_control_event clock z h roster request of
                           Inl e \<Rightarrow> (Inl e, z)
                         | Inr event \<Rightarrow>
                             (case SignRoomControl env event (id_sign (the (hz_identity z))) of
                                Inl e \<Rightarrow> (Inl (HomeRefused (HubInvalid ''control event'')), z)
                              | Inr (stmt, digest) \<Rightarrow>
                                  let record = \<lparr>hc_global_room_id = g, hc_seq = rc_seq event, hc_digest = digest, hc_control = stmt\<rparr>
                                  in if isl (replayHubRoster env (records @ [record]) 0)
                                     then (Inl (HomeRefused (HubInvalid ''control event does not replay'')), z)
                                     else if hq_kind request = RoomControlAdd \<and> rc_network_id event |\<in>| fmdom (ros_members roster)
                                     then (Inl (HomeRefused (HubInvalid ''network is a current member; its member link stays'')), z)
                                     else
                                       let z1 = (if hq_kind request = RoomControlAdd
                                                 then recordHubLink g (hq_pairing_id request) (rc_network_id event) z else z)
                                       in case appendHubControlLocked [record] (hz_store z1) of
                                            (Some e, st) \<Rightarrow> (Inl (HubStoreFailed e), hz_with_store st z1)
                                          | (None, st) \<Rightarrow>
                                              (hubRoomView env (hz_with_store st z1) h, hz_with_store st z1)))))"

definition AppendHubControlContext ::
  "go_env \<Rightarrow> hub_clock \<Rightarrow> request_context \<Rightarrow> hub_control_request \<Rightarrow> hub_service \<Rightarrow>
   (home_error + hub_room_view) \<times> hub_service" where
  "AppendHubControlContext env clock ctx request z =
     (case requireHubOperator ctx of Some e \<Rightarrow> (Inl e, z) | None \<Rightarrow> appendHubControl env clock request z)"


section \<open>Serving the control log\<close>

record room_control_page =
  cp_global_room_id :: string
  cp_events :: "signed_room_control list"
  cp_more :: bool

text \<open>The JSON size of a signed control event and of a page without events.\<close>

definition control_size :: "signed_room_control \<Rightarrow> int" where
  "control_size c =
     int (length (''{'' @ json_string ''control'' @ '':'' @ json_string (src_control c) @ '','' @
                  json_string ''signature'' @ '':'' @ json_string (src_signature c) @ ''}''))"

definition control_page_size :: "string \<Rightarrow> int" where
  "control_page_size globalRoomID =
     int (length (''{'' @ json_string ''global_room_id'' @ '':'' @ json_string globalRoomID @ '','' @
                  json_string ''events'' @ '':[]}''))"

fun control_page_loop ::
  "int \<Rightarrow> int \<Rightarrow> int \<Rightarrow> hub_control_record list \<Rightarrow> int \<Rightarrow> signed_room_control list \<Rightarrow> signed_room_control list \<times> bool" where
  "control_page_loop afterSeq limit budget [] used events = (events, False)"
| "control_page_loop afterSeq limit budget (record # records) used events =
     (if hc_seq record \<le> max afterSeq 0 \<or> hc_seq record > limit
      then control_page_loop afterSeq limit budget records used events
      else
        let next = control_size (hc_control record) + 1
        in if events \<noteq> [] \<and> used + next > budget then (events, True)
           else control_page_loop afterSeq limit budget records (used + next) (events @ [hc_control record]))"

definition HubControlPageContext ::
  "go_env \<Rightarrow> int \<Rightarrow> hub_service \<Rightarrow> request_context \<Rightarrow> string \<Rightarrow> int \<Rightarrow> home_error + room_control_page" where
  "HubControlPageContext env budget z ctx globalRoomID afterSeq =
     (let s = hz_service z
      in if \<not> sv_hubs s then Inl (HubNotFound globalRoomID)
         else if hubRoomByGlobal s globalRoomID = None then Inl (HubNotFound globalRoomID)
         else
           let records = HubControlLogContext globalRoomID 0 (sv_store s);
               page = (\<lambda>limit.
                 let (events, more) =
                   control_page_loop afterSeq limit budget records (control_page_size globalRoomID) []
                 in Inr \<lparr>cp_global_room_id = globalRoomID, cp_events = events, cp_more = more\<rparr>)
           in case pairingForPairScopedContext s ctx of
                None \<Rightarrow> page (int (length records))
              | Some p \<Rightarrow>
                  (case hubPeerNetwork z ctx globalRoomID p of
                     None \<Rightarrow> Inl (HubNotFound globalRoomID)
                   | Some network \<Rightarrow>
                       if network = sv_network_id s then Inl (HubNotFound globalRoomID)
                       else (case hubAccessFor env records network of
                               Inl e \<Rightarrow> Inl (HubLogInvalid e)
                             | Inr access \<Rightarrow>
                                 if controlLimit access = 0 then Inl (HubNotFound globalRoomID)
                                 else page (controlLimit access))))"

section \<open>Admission and leaving\<close>

text \<open>The end of an admission: the key is pinned, the pairing bound, the add appended, the grant spent.\<close>

definition admit_new_member ::
  "go_env \<Rightarrow> int \<Rightarrow> hub_clock \<Rightarrow> request_context \<Rightarrow> pairing \<Rightarrow> hub_room \<Rightarrow> room_admission \<Rightarrow> hub_grant \<Rightarrow> hub_service \<Rightarrow>
   (home_error + room_control_page) \<times> hub_service" where
  "admit_new_member env budget clock ctx p h admission grant z =
     (let network = ra_network_id admission;
          trust = (if claimed_network ctx = network then KeyTrustVerified else KeyTrustUnconfirmed);
          (pinned, ps) = PinKeyCreated (hk_now clock)
            \<lparr>pin_network_id = network, pin_fingerprint = ra_fingerprint admission, pin_public_key = ra_public_key admission,
             pin_trust = trust, pin_source = PinSourcePairing, pin_source_id = pr_id p, pin_introduced_by = [],
             pin_pinned_at = 0\<rparr> (sv_key_pins (hz_service z));
          z1 = hz_with_pins ps z
      in case pinned of
           Inl (ErrPinConflict a b c) \<Rightarrow> (Inl (HomeRefused (SignatureRejected ''network is pinned to a different key'')), z1)
         | Inl e \<Rightarrow> (Inl (HubPinRefused e), z1)
         | Inr (pin, _) \<Rightarrow>
             if pin_fingerprint pin \<noteq> ra_fingerprint admission
             then (Inl (HomeRefused (SignatureRejected ''network is pinned to a different key'')), z1)
             else
               let z2 = hz_with_pins (BindPairing (pr_id p) network ps) z1
               in case appendHubControl env clock
                         \<lparr>hq_global_room_id = hr_global_room_id h, hq_kind = RoomControlAdd, hq_pairing_id = pr_id p,
                          hq_network_id = network, hq_role = hg_role grant, hq_history = []\<rparr> z2 of
                    (Inl e, z3) \<Rightarrow> (Inl e, z3)
                  | (Inr _, z3) \<Rightarrow>
                      let z4 = z3\<lparr>hz_invites := RemoveGrant (pr_id p) (hr_global_room_id h) (hz_invites z3)\<rparr>
                      in (HubControlPageContext env budget z4 ctx (hr_global_room_id h) 0, z4))"

definition AdmitHubMemberContext ::
  "go_env \<Rightarrow> int \<Rightarrow> hub_clock \<Rightarrow> request_context \<Rightarrow> signed_room_admission \<Rightarrow> hub_service \<Rightarrow>
   (home_error + room_control_page) \<times> hub_service" where
  "AdmitHubMemberContext env budget clock ctx stmt z =
     (let s = hz_service z; forbidden = (\<lambda>m. Inl (HomeRefused (HubForbidden m)))
      in case pairingForPairScopedContext s ctx of
           None \<Rightarrow> (forbidden ''room admission arrives over the invite's pairing'', z)
         | Some p \<Rightarrow>
             (case requireHubs z of
                Some e \<Rightarrow> (Inl e, z)
              | None \<Rightarrow>
                  (case VerifyRoomAdmission env stmt of
                     Inl e \<Rightarrow> (Inl (HomeRefused (SignatureRejected ''admission'')), z)
                   | Inr admission \<Rightarrow>
                       let g = ra_global_room_id admission; network = ra_network_id admission
                       in case hubRoomByGlobal s g of
                            None \<Rightarrow> (Inl (HubNotFound g), z)
                          | Some h \<Rightarrow>
                              if \<not> IsHome h \<or> network = sv_network_id s then (Inl (HubNotFound g), z)
                              else (case hubRoster env s h 0 of
                                      Inl e \<Rightarrow> (Inl (HubLogInvalid e), z)
                                    | Inr roster \<Rightarrow>
                                        (case fmlookup (ros_members roster) network of
                                           Some member \<Rightarrow>
                                             if hm_fingerprint member \<noteq> ra_fingerprint admission \<or>
                                                \<not> hubLinkSpeaksFor z ctx (hr_global_room_id h) p network
                                             then (forbidden ''this network is already a member under another key or pairing'', z)
                                             else (HubControlPageContext env budget z ctx (hr_global_room_id h) 0, z)
                                         | None \<Rightarrow>
                                             (case Grant (pr_id p) (hr_global_room_id h) (hk_now clock) (hz_invites z) of
                                                None \<Rightarrow> (forbidden ''no live room invite for this pairing and room'', z)
                                              | Some grant \<Rightarrow>
                                                  (case checkAdmissionCredential z ctx p network of
                                                     Some e \<Rightarrow> (Inl e, z)
                                                   | None \<Rightarrow> admit_new_member env budget clock ctx p h admission grant z)))))))"

definition LeaveHubPeerContext ::
  "go_env \<Rightarrow> int \<Rightarrow> hub_clock \<Rightarrow> request_context \<Rightarrow> string \<Rightarrow> hub_service \<Rightarrow>
   (home_error + room_control_page) \<times> hub_service" where
  "LeaveHubPeerContext env budget clock ctx globalRoomID z =
     (let s = hz_service z
      in case pairingForPairScopedContext s ctx of
           None \<Rightarrow> (Inl (HomeRefused (HubForbidden ''a member leaves over its own room link'')), z)
         | Some p \<Rightarrow>
             (case requireHubs z of
                Some e \<Rightarrow> (Inl e, z)
              | None \<Rightarrow>
                  (case hubRoomByGlobal s globalRoomID of
                     None \<Rightarrow> (Inl (HubNotFound globalRoomID), z)
                   | Some h \<Rightarrow>
                       if \<not> IsHome h then (Inl (HubNotFound globalRoomID), z)
                       else (case hubPeerNetwork z ctx (hr_global_room_id h) p of
                               None \<Rightarrow> (Inl (HubNotFound globalRoomID), z)
                             | Some network \<Rightarrow>
                                 (case hubRoster env s h 0 of
                                    Inl e \<Rightarrow> (Inl (HubLogInvalid e), z)
                                  | Inr roster \<Rightarrow>
                                      if network |\<in>| fmdom (ros_members roster)
                                      then (case appendHubControl env clock
                                               \<lparr>hq_global_room_id = hr_global_room_id h, hq_kind = RoomControlLeave,
                                                hq_pairing_id = [], hq_network_id = network, hq_role = [], hq_history = []\<rparr> z of
                                              (Inl e, z1) \<Rightarrow> (Inl e, z1)
                                            | (Inr _, z1) \<Rightarrow> (HubControlPageContext env budget z1 ctx (hr_global_room_id h) 0, z1))
                                      else (HubControlPageContext env budget z ctx (hr_global_room_id h) 0, z))))))"

section \<open>Placing messages\<close>

abbreviation HubEpochV1 :: int where "HubEpochV1 \<equiv> 1"

text \<open>The receipt the home signs next for an event at a membership epoch.\<close>

definition next_room_receipt :: "memory_store \<Rightarrow> hub_room \<Rightarrow> int \<Rightarrow> string \<Rightarrow> room_receipt" where
  "next_room_receipt st h epoch eventID =
     (let r = \<lparr>rr_v = RoomReceiptVersionV1, rr_global_room_id = hr_global_room_id h, rr_hub_epoch = HubEpochV1,
               rr_membership_epoch = epoch, rr_room_seq = 1, rr_event_id = eventID, rr_prev_receipt_hash = []\<rparr>
      in case HubReceiptHeadContext (hr_global_room_id h) HubEpochV1 st of
           None \<Rightarrow> r
         | Some head \<Rightarrow> r\<lparr>rr_room_seq := hx_room_seq head + 1, rr_prev_receipt_hash := hx_digest head\<rparr>)"

definition nextHubReceipt ::
  "go_env \<Rightarrow> hub_service \<Rightarrow> hub_room \<Rightarrow> int \<Rightarrow> string \<Rightarrow> hub_error + hub_receipt_record" where
  "nextHubReceipt env z h epoch eventID =
     (let r = next_room_receipt (hz_store z) h epoch eventID
      in case SignRoomReceipt env r (id_sign (the (hz_identity z))) of
           Inl e \<Rightarrow> Inl e
         | Inr (stmt, digest) \<Rightarrow>
             Inr \<lparr>hx_global_room_id = hr_global_room_id h, hx_hub_epoch = rr_hub_epoch r,
                  hx_membership_epoch = rr_membership_epoch r, hx_room_seq = rr_room_seq r, hx_event_id = eventID,
                  hx_digest = digest, hx_prev_digest = rr_prev_receipt_hash r, hx_message_id = [], hx_receipt = stmt,
                  hx_withheld = []\<rparr>)"

definition relay_pairing_ids :: "service \<Rightarrow> strset" where
  "relay_pairing_ids s =
     fset_of_list (filter (\<lambda>i. i |\<notin>| revokedPairingIDs s) (map pr_id (sv_pairings s)))"

text \<open>The pairing a room goes to a member over: the last of its links.\<close>

definition member_link :: "hub_link list \<Rightarrow> string \<Rightarrow> string" where
  "member_link links network = fold (\<lambda>l found. if hl_network_id l = network then hl_pairing_id l else found) links []"

definition hubFanoutPairings :: "hub_service \<Rightarrow> hub_roster \<Rightarrow> string \<Rightarrow> string list" where
  "hubFanoutPairings z roster origin =
     (let links = Links (ros_global_room_id roster) (hz_invites z);
          live = relay_pairing_ids (hz_service z)
      in sort (List.map_filter (\<lambda>network.
           if network = ros_home_network_id roster \<or> network = origin then None
           else
             let pairingID = member_link links network
             in if pairingID = [] \<or> pairingID |\<notin>| live then None else Some pairingID) (networks roster)))"

end
