(* ===== verification/Inbound_Envelopes.thy ===== *)
theory Inbound_Envelopes
  imports Envelope_Binding Hub_Home
begin

text \<open>
  Messages over a direct pairing: the acceptance of a signed envelope and the pin of first contact
  (\<open>internal/rooms/envelope_verification.go\<close>), and what a network signs for the messages it sends
  (\<open>envelope_signing.go\<close>, \<open>relayRequest\<close> of \<open>relay.go\<close>). The text of a time is an argument.
  Shown: an accepted envelope states exactly the message that was delivered, signed by the key
  this network pinned; a network whose key is pinned cannot send unsigned; and what one network
  signs, the network it is paired with accepts.
\<close>

section \<open>Errors\<close>

text \<open>
  The errors of sending: of the checks, of the trust store, of the store (\<open>SendConflict\<close> is the 409),
  of the hub paths, and the 412 that names the current epoch.
\<close>

datatype send_error =
    SendRefused service_error
  | TrustStoreUnavailable pin_error
  | SendConflict store_error
  | SendFailed store_error
  | HubRefused home_error
  | StaleEpoch int

section \<open>Verifying\<close>

record inbound_envelope =
  in_record :: message_envelope_record
  in_first_contact :: "pin option"
  in_bind_pairing :: string

definition signatureStateForTrust :: "string \<Rightarrow> string option" where
  "signatureStateForTrust trust =
     (if trust = KeyTrustVerified then Some SignatureStateVerified
      else if trust = KeyTrustIntroduced then Some SignatureStateIntroduced
      else if trust = KeyTrustUnconfirmed then Some SignatureStateUnconfirmed else None)"

abbreviation rejected :: "string \<Rightarrow> send_error" where
  "rejected m \<equiv> SendRefused (SignatureRejected m)"

text \<open>The decision over an envelope that verified and states the delivered message.\<close>

definition accept_signed ::
  "request_context \<Rightarrow> pairing \<Rightarrow> pin option \<Rightarrow> string \<Rightarrow> signed_envelope \<Rightarrow> message_envelope \<Rightarrow> string \<Rightarrow>
   send_error + inbound_envelope" where
  "accept_signed ctx p pinned origin stmt e digest =
     (let record = \<lparr>env_message_id = [], env_origin_network_id = origin, env_origin_message_id = me_origin_message_id e,
                     env_digest = digest, env_state = [], env_fingerprint = me_origin_fingerprint e,
                     env_envelope = stmt\<rparr>;
          firstContactTrust = (if claimed_network ctx = origin then KeyTrustVerified else KeyTrustUnconfirmed);
          upgradable = (case pinned of
                          None \<Rightarrow> False
                        | Some pin \<Rightarrow> firstContactTrust = KeyTrustVerified \<and> pin_trust pin \<noteq> KeyTrustVerified);
          first_contact = Inr \<lparr>in_record = record\<lparr>env_state := (case signatureStateForTrust firstContactTrust of
                                                                     None \<Rightarrow> [] | Some state \<Rightarrow> state)\<rparr>,
             in_first_contact = Some \<lparr>pin_network_id = origin, pin_fingerprint = me_origin_fingerprint e,
               pin_public_key = se_public_key stmt, pin_trust = firstContactTrust, pin_source = PinSourcePairing,
               pin_source_id = pr_id p, pin_introduced_by = [], pin_pinned_at = 0\<rparr>,
             in_bind_pairing = []\<rparr>
      in case pinned of
           None \<Rightarrow> first_contact
         | Some pin \<Rightarrow>
             if pin_fingerprint pin = me_origin_fingerprint e \<and> \<not> upgradable
             then (case signatureStateForTrust (pin_trust pin) of
                     None \<Rightarrow> Inl (rejected ''pin with unknown trust'')
                   | Some state \<Rightarrow>
                       Inr \<lparr>in_record = record\<lparr>env_state := state\<rparr>, in_first_contact = None, in_bind_pairing = pr_id p\<rparr>)
             else if \<not> upgradable then Inl (rejected ''network is pinned to a different key'')
             else first_contact)"

definition verifyInboundEnvelope ::
  "go_env \<Rightarrow> service \<Rightarrow> request_context \<Rightarrow> send_message_request \<Rightarrow> send_error + inbound_envelope option" where
  "verifyInboundEnvelope env s ctx r =
     (let origin = trim_space (org_network_id (smr_origin r))
      in case pairingForPairScopedContext s ctx of
           None \<Rightarrow> Inr None
         | Some p \<Rightarrow>
             if origin = [] \<or> origin = sv_network_id s then Inr None
             else
               let pinned = Lookup origin (sv_key_pins s)
               in case smr_envelope r of
                    None \<Rightarrow>
                      if pinned \<noteq> None then Inl (rejected ''network has a pinned key; unsigned messages are refused'')
                      else Inr None
                  | Some stmt \<Rightarrow>
                      (case VerifySignedEnvelope env stmt of
                         Inl _ \<Rightarrow> Inl (rejected ''invalid message envelope'')
                       | Inr (e, digest) \<Rightarrow>
                           if me_origin_network_id e \<noteq> origin
                           then Inl (rejected ''message envelope origin does not match the message origin'')
                           else if act_fqid (smr_from r) \<noteq> [] \<and>
                             act_fqid (smr_from r) \<noteq> AgentFQID (me_origin_network_id e) (ea_id (me_author e))
                           then Inl (rejected ''author fqid does not match the signed origin and author'')
                           else if EnvelopeMatchesRequest env e r \<noteq> None
                           then Inl (rejected ''message envelope does not match the message'')
                           else map_sum id Some (accept_signed ctx p pinned origin stmt e digest)))"

definition bind_inbound :: "inbound_envelope \<Rightarrow> service \<Rightarrow> service" where
  "bind_inbound i s =
     (if in_bind_pairing i = [] then s
      else s\<lparr>sv_key_pins := BindPairing (in_bind_pairing i) (env_origin_network_id (in_record i)) (sv_key_pins s)\<rparr>)"

definition commitFirstContactPin ::
  "time \<Rightarrow> inbound_envelope option \<Rightarrow> service \<Rightarrow> (send_error + inbound_envelope option) \<times> service" where
  "commitFirstContactPin now inbound s =
     (case inbound of
        None \<Rightarrow> (Inr None, s)
      | Some i \<Rightarrow>
          let s1 = bind_inbound i s
          in case in_first_contact i of
               None \<Rightarrow> (Inr (Some i), s1)
             | Some proposed \<Rightarrow>
                 (case PinKeyCreated now proposed (sv_key_pins s1) of
                    (Inl (ErrPinConflict a b c), ps) \<Rightarrow>
                      (Inl (rejected ''network is pinned to a different key''), s1\<lparr>sv_key_pins := ps\<rparr>)
                  | (Inl e, ps) \<Rightarrow> (Inl (TrustStoreUnavailable e), s1\<lparr>sv_key_pins := ps\<rparr>)
                  | (Inr (pin, _), ps) \<Rightarrow>
                      (Inr (Some (case signatureStateForTrust (pin_trust pin) of
                                    None \<Rightarrow> i
                                  | Some state \<Rightarrow> i\<lparr>in_record := (in_record i)\<lparr>env_state := state\<rparr>\<rparr>)),
                       s1\<lparr>sv_key_pins := ps\<rparr>)))"

section \<open>Signing\<close>

definition canonicalDMParticipantIDs :: "string \<Rightarrow> actor \<Rightarrow> string list \<Rightarrow> string list" where
  "canonicalDMParticipantIDs defaultNetworkID a participantIDs =
     (let identities = map (\<lambda>participantID.
            if ActorMatches (act_network_id a) (act_id a) participantID
            then normalizedAgentIdentity (act_network_id a) (act_id a)
            else normalizedAgentIdentity defaultNetworkID participantID) (UniqueTrimmedStrings participantIDs);
          allLocal = list_all (\<lambda>(networkID, _). networkID = defaultNetworkID) identities
      in SortedUniqueTrimmedStrings
           (map (\<lambda>(networkID, agentID). if allLocal then agentID else ScopedAgentID networkID agentID) identities))"

definition relayRequest :: "message \<Rightarrow> send_message_request option" where
  "relayRequest m =
     (let t = msg_target m;
          t' = (if tgt_kind t = TargetKindDM
                then t\<lparr>tgt_participant_ids :=
                         canonicalDMParticipantIDs (msg_network_id m) (msg_from m) (tgt_participant_ids t)\<rparr>
                else t)
      in if tgt_kind t = TargetKindDM \<and> length (tgt_participant_ids t') < 2 then None
         else Some \<lparr>smr_id = msg_id m, smr_origin = (msg_origin m)\<lparr>org_received_via := []\<rparr>, smr_target = t',
                    smr_from = msg_from m, smr_parts = msg_parts m, smr_mentions = msg_mentions m,
                    smr_cause_event_ids = [], smr_envelope = None, smr_receipt = None\<rparr>)"

definition withOutboundEnvelope ::
  "go_env \<Rightarrow> (time \<Rightarrow> string) \<Rightarrow> string \<Rightarrow> home_identity option \<Rightarrow> message_envelope_record option \<Rightarrow> message \<Rightarrow>
   send_error + message_envelope_record option" where
  "withOutboundEnvelope env text networkID identity envelope m =
     (case identity of
        None \<Rightarrow> Inr envelope
      | Some me \<Rightarrow>
          (case relayRequest m of
             None \<Rightarrow> Inr envelope
           | Some r \<Rightarrow>
               let e = EnvelopeFromRequest r (NetworkKeyFingerprint (id_public me)) (text (msg_created_at m))
               in case SignEnvelope env e (id_public me) (id_sign me) of
                    Inl _ \<Rightarrow> Inl (SendRefused (InvalidMessage ''message cannot be signed for paired delivery''))
                  | Inr (stmt, digest) \<Rightarrow>
                      Inr (Some \<lparr>env_message_id = [], env_origin_network_id = networkID,
                                 env_origin_message_id = me_origin_message_id e, env_digest = digest,
                                 env_state = SignatureStateVerified, env_fingerprint = me_origin_fingerprint e,
                                 env_envelope = stmt\<rparr>)))"

section \<open>What is accepted is what was signed\<close>

lemma signatureState_verified:
  "signatureStateForTrust trust = Some SignatureStateVerified \<longleftrightarrow> trust = KeyTrustVerified"
  by (simp add: signatureStateForTrust_def)

lemma accept_signed_cases:
  assumes "accept_signed ctx p pinned origin stmt e digest = Inr i"
  shows "env_origin_network_id (in_record i) = origin \<and> env_origin_message_id (in_record i) = me_origin_message_id e \<and>
    env_digest (in_record i) = digest \<and> env_fingerprint (in_record i) = me_origin_fingerprint e \<and>
    env_envelope (in_record i) = stmt \<and>
    (\<forall>pin. pinned = Some pin \<longrightarrow> claimed_network ctx = origin \<and> pin_trust pin \<noteq> KeyTrustVerified \<or>
       pin_fingerprint pin = me_origin_fingerprint e \<and> in_first_contact i = None \<and>
       signatureStateForTrust (pin_trust pin) = Some (env_state (in_record i))) \<and>
    (env_state (in_record i) = SignatureStateVerified \<longrightarrow>
       claimed_network ctx = origin \<or>
       (\<exists>pin. pinned = Some pin \<and> pin_trust pin = KeyTrustVerified \<and> pin_fingerprint pin = me_origin_fingerprint e))"
  using assms
  by (cases pinned)
    (auto simp: accept_signed_def Let_def signatureStateForTrust_def split: if_splits option.splits)

lemma verify_inbound_signed:
  assumes "verifyInboundEnvelope env s ctx r = Inr (Some i)"
  obtains p stmt e digest where "pairingForPairScopedContext s ctx = Some p" "smr_envelope r = Some stmt"
    "VerifySignedEnvelope env stmt = Inr (e, digest)"
    "me_origin_network_id e = trim_space (org_network_id (smr_origin r))"
    "act_fqid (smr_from r) = [] \<or> act_fqid (smr_from r) = AgentFQID (me_origin_network_id e) (ea_id (me_author e))"
    "EnvelopeMatchesRequest env e r = None"
    "accept_signed ctx p (Lookup (me_origin_network_id e) (sv_key_pins s)) (me_origin_network_id e) stmt e digest = Inr i"
proof -
  have id_right: "map_sum id Some x = Inr (Some y) \<longleftrightarrow> x = Inr y" for x :: "send_error + inbound_envelope" and y
    by (cases x) auto
  show thesis
    using assms
    by (auto simp: verifyInboundEnvelope_def Let_def id_right split: option.splits if_splits sum.splits intro!: that)
qed


section \<open>What one network signs, the other accepts\<close>

text \<open>The request as the receiver checks it.\<close>

definition received_request :: "send_message_request \<Rightarrow> signed_envelope \<Rightarrow> send_message_request" where
  "received_request q stmt =
     stripPeerTestimony (q\<lparr>smr_origin := canonicalOriginIDs (smr_origin q), smr_envelope := Some stmt\<rparr>)"

lemma relayRequest_fields:
  assumes "relayRequest m = Some q"
  shows "smr_from q = msg_from m" "smr_parts q = msg_parts m" "smr_origin q = (msg_origin m)\<lparr>org_received_via := []\<rparr>"
  using assms by (auto simp: relayRequest_def Let_def split: if_splits)

lemma signed_fields_valid:
  assumes "SignEnvelope env e key sign = Inr (stmt, digest)"
  shows "validateEnvelopeFields e = None" "me_origin_fingerprint e = NetworkKeyFingerprint key"
    "EnvelopeCanonicalBytes env e \<noteq> None"
  using assms by (auto simp: SignEnvelope_def split: if_splits option.splits)

lemma valid_fields_trimmed:
  assumes "validateEnvelopeFields e = None"
  shows "trim_space (me_origin_network_id e) = me_origin_network_id e"
    "trim_space (me_origin_message_id e) = me_origin_message_id e" "me_origin_network_id e \<noteq> []"
  using assms by (auto simp: validateEnvelopeFields_def Let_def split: if_splits)

lemma expected_received:
  fixes q :: send_message_request and fingerprint created :: string
  defines "e \<equiv> EnvelopeFromRequest q fingerprint created"
  assumes "validateEnvelopeFields e = None"
  shows "expected_envelope e (received_request q stmt) = e"
  using valid_fields_trimmed [OF assms(2)]
  by (simp add: e_def expected_envelope_def EnvelopeFromRequest_def received_request_def stripPeerTestimony_def
      canonicalOriginIDs_def)

lemma relayed_verifies:
  assumes sent: "withOutboundEnvelope env text n (Some me) None m = Inr (Some record)" and relay: "relayRequest m = Some q"
    and signer: "signer_for env (id_public me) (id_sign me)" and data: "data_canonical (msg_parts m)"
    and origin: "org_network_id (msg_origin m) = n"
      "act_fqid (msg_from m) = [] \<or> act_fqid (msg_from m) = AgentFQID n (act_id (msg_from m))"
    and peer: "pairingForPairScopedContext s ctx = Some p" "sv_network_id s \<noteq> n"
    and known: "\<And>pin. Lookup n (sv_key_pins s) = Some pin \<Longrightarrow>
      pin_fingerprint pin = NetworkKeyFingerprint (id_public me) \<and> signatureStateForTrust (pin_trust pin) \<noteq> None"
  shows "\<exists>i. verifyInboundEnvelope env s ctx (received_request q (env_envelope record)) = Inr (Some i) \<and>
    env_digest (in_record i) = env_digest record \<and> env_origin_message_id (in_record i) = env_origin_message_id record \<and>
    env_fingerprint (in_record i) = env_fingerprint record"
proof -
  define e where "e = EnvelopeFromRequest q (NetworkKeyFingerprint (id_public me)) (text (msg_created_at m))"
  obtain stmt digest where sig: "SignEnvelope env e (id_public me) (id_sign me) = Inr (stmt, digest)"
    and rec: "record = \<lparr>env_message_id = [], env_origin_network_id = n, env_origin_message_id = me_origin_message_id e,
      env_digest = digest, env_state = SignatureStateVerified, env_fingerprint = me_origin_fingerprint e, env_envelope = stmt\<rparr>"
    using sent by (auto simp: withOutboundEnvelope_def relay Let_def e_def split: sum.splits)
  note fields = relayRequest_fields [OF relay]
  have parts: "me_parts e = msg_parts m" by (simp add: e_def EnvelopeFromRequest_def fields)
  note ok = signed_fields_valid [OF sig]
  have verified: "VerifySignedEnvelope env stmt = Inr (e, digest)"
    by (rule envelope_verifies [OF sig signer]) (simp add: parts data)
  have net: "me_origin_network_id e = n" "ea_id (me_author e) = act_id (msg_from m)"
    by (simp_all add: e_def EnvelopeFromRequest_def fields origin)
  let ?r = "received_request q stmt"
  have r: "trim_space (org_network_id (smr_origin ?r)) = n" "smr_envelope ?r = Some stmt" "smr_from ?r = msg_from m"
    using valid_fields_trimmed(1) [OF ok(1)]
    by (simp_all add: received_request_def stripPeerTestimony_def canonicalOriginIDs_def fields origin net)
  have "EnvelopeMatchesRequest env e ?r = None"
    using expected_received [of q "NetworkKeyFingerprint (id_public me)" "text (msg_created_at m)" stmt] ok(1,3)
    by (auto simp: EnvelopeMatchesRequest_def simp flip: e_def)
  moreover have "\<exists>i. accept_signed ctx p (Lookup n (sv_key_pins s)) n stmt e digest = Inr i"
    using known ok(2) by (cases "Lookup n (sv_key_pins s)") (auto simp: accept_signed_def Let_def)
  ultimately obtain i where "verifyInboundEnvelope env s ctx ?r = Inr (Some i)"
      "accept_signed ctx p (Lookup n (sv_key_pins s)) n stmt e digest = Inr i"
    using peer valid_fields_trimmed(3) [OF ok(1)] verified origin(2)
    by (auto simp: verifyInboundEnvelope_def Let_def r net)
  then show ?thesis using accept_signed_cases [of ctx p _ n stmt e digest i] by (auto simp: rec)
qed


section \<open>Samples\<close>

abbreviation sample_text :: "time \<Rightarrow> string" where
  "sample_text \<equiv> \<lambda>_. ''2026-01-02T00:00:00Z''"

definition sample_sender :: home_identity where
  "sample_sender = \<lparr>id_public = replicate 32 (CHR ''k''), id_sign = (\<lambda>_. replicate 64 (CHR ''s''))\<rparr>"

definition sample_relayed :: message where
  "sample_relayed =
     \<lparr>msg_id = ''m1'', msg_network_id = ''net-b'',
      msg_origin = \<lparr>org_claimed_author = None, org_claimed_network_id = [], org_claimed_message_id = [],
        org_claimed_discovery_network_id = [], org_network_id = ''net-b'', org_message_id = ''m1'', org_received_via = []\<rparr>,
      msg_target = sample_target, msg_from = sample_actor,
      msg_parts = [zero_part\<lparr>part_kind := ''text'', part_text := ''hi''\<rparr>], msg_mentions = [], msg_created_at = 7\<rparr>"

definition sample_relay_request :: send_message_request where
  "sample_relay_request =
     \<lparr>smr_id = ''m1'', smr_origin = msg_origin sample_relayed, smr_target = sample_target, smr_from = sample_actor,
      smr_parts = msg_parts sample_relayed, smr_mentions = [], smr_cause_event_ids = [], smr_envelope = None,
      smr_receipt = None\<rparr>"

definition sample_envelope :: message_envelope where
  "sample_envelope =
     EnvelopeFromRequest sample_relay_request (NetworkKeyFingerprint (id_public sample_sender)) (sample_text 7)"

lemma sample_relays: "relayRequest sample_relayed = Some sample_relay_request"
  by (simp add: relayRequest_def sample_relayed_def sample_target_def sample_relay_request_def)

lemma sample_data: "data_canonical (msg_parts sample_relayed)"
  by (simp add: data_canonical_def sample_relayed_def zero_part_def)

lemma sample_sender_signs: "signer_for sample_env (id_public sample_sender) (id_sign sample_sender)"
  using sample_signer by (simp add: sample_sender_def)

lemma sample_envelope_bytes: "EnvelopeCanonicalBytes sample_env sample_envelope \<noteq> None"
  by (simp add: EnvelopeCanonicalBytes_def envelopeCanonicalValue_def sample_envelope_def EnvelopeFromRequest_def
      sample_relay_request_def sample_relayed_def sample_target_def sample_actor_def zero_part_def envelopePartValue_def
      envelopeActorValue_def envelopeTargetValue_def putString_def put_strings_def put_int_def CanonicalJSONBytes_def
      CanonicalJSONString_def valid_string ascii_valid byte_in_def fingerprint_chars Let_def)

lemma sample_envelope_fields: "validateEnvelopeFields sample_envelope = None"
proof -
  have "trim_space ''net-b'' = ''net-b''" "trim_space ''m1'' = ''m1''"
    by (rule trim_space_graphic; simp add: graphic_def less_eq_char_def)+
  then show ?thesis
    using fingerprint_chars(1) [of "id_public sample_sender"]
    by (simp add: validateEnvelopeFields_def sample_envelope_def EnvelopeFromRequest_def sample_relay_request_def
        sample_relayed_def sample_target_def sample_actor_def canonical_fingerprint_iff)
qed

lemma sample_sent:
  obtains rec where
    "withOutboundEnvelope sample_env sample_text ''net-b'' (Some sample_sender) None sample_relayed = Inr (Some rec)"
proof -
  have "EnvelopeFromRequest sample_relay_request (NetworkKeyFingerprint (id_public sample_sender))
      (sample_text (msg_created_at sample_relayed)) = sample_envelope" by (simp add: sample_envelope_def)
  moreover obtain stmt digest where
    "SignEnvelope sample_env sample_envelope (id_public sample_sender) (id_sign sample_sender) = Inr (stmt, digest)"
  proof -
    have "me_origin_fingerprint sample_envelope = NetworkKeyFingerprint (id_public sample_sender)"
      by (simp add: sample_envelope_def EnvelopeFromRequest_def)
    with sample_envelope_bytes sample_envelope_fields that show ?thesis
      by (cases "EnvelopeCanonicalBytes sample_env sample_envelope") (simp_all add: SignEnvelope_def Let_def)
  qed
  ultimately show thesis
    using that by (simp add: withOutboundEnvelope_def sample_relays Let_def)
qed

lemma sample_unpinned: "Lookup n (sv_key_pins sample_service) = None"
  by (simp add: Lookup_def sample_service_def NewMemoryPinStore_def)

lemma sample_sides:
  "org_network_id (msg_origin sample_relayed) = ''net-b''"
  "act_fqid (msg_from sample_relayed) = [] \<or> act_fqid (msg_from sample_relayed) = AgentFQID ''net-b'' (act_id (msg_from sample_relayed))"
  "pairingForPairScopedContext sample_service sample_peer = Some sample_pairing"
  "sv_network_id sample_service \<noteq> ''net-b''"
  "Lookup ''net-b'' (sv_key_pins sample_service) = Some pin \<Longrightarrow>
    pin_fingerprint pin = NetworkKeyFingerprint (id_public sample_sender) \<and> signatureStateForTrust (pin_trust pin) \<noteq> None"
proof -
  show "pairingForPairScopedContext sample_service sample_peer = Some sample_pairing" by code_simp
qed (simp_all add: sample_relayed_def sample_actor_def sample_service_def Lookup_def NewMemoryPinStore_def)



end
