(* ===== verification/Hub_Home_Properties.thy ===== *)
theory Hub_Home_Properties
  imports Hub_Home Hub_Invariants Roster_Access
begin

text \<open>
  What the home of a hub room promises: every control event it appends, a replay of the stored
  log accepts; the receipt it signs next, its store accepts; a page of the log is an initial part
  of what the reader may see and says whether more follows; nobody is admitted without a live
  invite, and an invite admits once.
\<close>

section \<open>The log after an append\<close>

lemma control_log_whole:
  "control_inv (hub s) \<Longrightarrow> HubControlLogContext g 0 s = fmget [] (hs_control (hub s)) g"
  by (auto simp: HubControlLogContext_def control_inv_def contiguous_def in_set_conv_nth intro!: filter_True)

lemma hz_store_simps [simp]:
  "hz_store (hz_with_store st z) = st"
  "hz_store (recordHubLink g p n z) = hz_store z"
  "hz_store (hz_with_pins ps z) = hz_store z"
  "hz_store (z\<lparr>hz_invites := hi\<rparr>) = hz_store z"
  by (simp_all add: hz_store_def hz_with_store_def recordHubLink_def hz_with_pins_def)

lemma hubRoomByGlobal_id: "hubRoomByGlobal s g = Some h \<Longrightarrow> hr_global_room_id h = g"
  by (auto simp: hubRoomByGlobal_def find_Some_iff)

lemma append_one_control:
  assumes inv: "control_inv (hub s)"
    and ap: "appendHubControlLocked [r] s = (None, s')"
    and seq: "hc_seq r = int (length (fmget [] (hs_control (hub s)) (hc_global_room_id r))) + 1"
  shows "fmget [] (hs_control (hub s')) (hc_global_room_id r) = fmget [] (hs_control (hub s)) (hc_global_room_id r) @ [r]"
    and "g \<noteq> hc_global_room_id r \<Longrightarrow> fmget [] (hs_control (hub s')) g = fmget [] (hs_control (hub s)) g"
proof -
  let ?l = "fmget [] (hs_control (hub s)) (hc_global_room_id r)"
  have "s' = s\<lparr>hub := (hub s)\<lparr>hs_control := hs_control (hub s) ++\<^sub>f fmupd (hc_global_room_id r) (?l @ [r]) fmempty\<rparr>\<rparr>"
    using ap seq by (auto simp: appendHubControlLocked_def stage_control_def Let_def split: if_splits sum.splits)
  then show "fmget [] (hs_control (hub s')) (hc_global_room_id r) = ?l @ [r]"
    and "g \<noteq> hc_global_room_id r \<Longrightarrow> fmget [] (hs_control (hub s')) g = fmget [] (hs_control (hub s)) g"
    by (simp_all add: fmget_def)
qed

text \<open>What an accepted change of the log went through.\<close>

lemma appendHubControl_ok:
  assumes "appendHubControl env clock request z = (Inr v, z')"
  obtains h roster event stmt digest rec where
    "hubRoomByGlobal (hz_service z) (hq_global_room_id request) = Some h" "IsHome h"
    "hubRoster env (hz_service z) h 0 = Inr roster"
    "next_control_event clock z h roster request = Inr event"
    "SignRoomControl env event (id_sign (the (hz_identity z))) = Inr (stmt, digest)"
    "rec = \<lparr>hc_global_room_id = hq_global_room_id request, hc_seq = rc_seq event, hc_digest = digest, hc_control = stmt\<rparr>"
    "\<not> isl (replayHubRoster env (HubControlLogContext (hq_global_room_id request) 0 (hz_store z) @ [rec]) 0)"
    "appendHubControlLocked [rec] (hz_store z) = (None, hz_store z')"
  using assms hubRoomByGlobal_id
  unfolding appendHubControl_def
  by (fastforce simp: Let_def split: option.splits sum.splits prod.splits if_splits)

lemma next_control_event_seq:
  "next_control_event clock z h roster request = Inr event \<Longrightarrow>
   rc_seq event = ros_epoch roster + 1 \<and> rc_epoch event = ros_epoch roster + 1 \<and> rc_kind event = hq_kind request"
  by (auto simp: next_control_event_def fillHubAddSubject_def Let_def split: if_splits sum.splits option.splits)


text \<open>The event a replay reads from a freshly signed statement is the one that was signed.\<close>

lemma signed_then_verified:
  fixes env :: go_env
  assumes "SignRoomControl env e sign = Inr (stmt, digest)" and "VerifyRoomControl env stmt key = Inr (e', digest')"
  shows "e' = e" and "digest' = digest"
proof -
  obtain bytes where "CanonicalJSONBytes (ge_format env) (roomControlValue e) = Some bytes"
      "digest = domainDigest roomControlDigestDomain bytes" "src_control stmt = EncodeToString bytes"
    using assms(1) by (auto simp: SignRoomControl_def Let_def split: option.splits)
  moreover obtain bytes' where "DecodeString (src_control stmt) = Some bytes'"
      "CanonicalJSONBytes (ge_format env) (roomControlValue e') = Some bytes'"
      "digest' = domainDigest roomControlDigestDomain bytes'"
    using control_verified [OF assms(2)] by blast
  ultimately show "e' = e" "digest' = digest"
    using control_bytes_inj [of env e' bytes e] by (auto simp: Decode_Encode)
qed

lemma replay_snoc:
  assumes "replayHubRoster env xs 0 = Inr r"
  shows "replayHubRoster env (xs @ [x]) 0 =
    (if hc_seq x \<noteq> int (length xs) + 1 then hubControlError ''control log seq'' else applyHubControl env r x)"
proof -
  obtain rs where rs: "rosters_of env zero_roster 0 xs = Inr rs" "r = last (zero_roster # rs)" "xs \<noteq> []"
    using assms by (auto simp: replayHubRoster_def replay_all split: if_splits sum.splits)
  then show ?thesis
    by (cases rs) (auto simp: replayHubRoster_def replay_all rosters_append split: sum.split)
qed

text \<open>The record an accepted change added, and the roster it leads to.\<close>

lemma appendHubControl_extends:
  assumes inv: "control_inv (hub (hz_store z))" and ok: "appendHubControl env clock request z = (Inr v, z')"
  obtains h roster event stmt key digest rec new where
    "hubRoomByGlobal (hz_service z) (hq_global_room_id request) = Some h" "IsHome h"
    "hubRoster env (hz_service z) h 0 = Inr roster"
    "next_control_event clock z h roster request = Inr event"
    "rec = \<lparr>hc_global_room_id = hq_global_room_id request, hc_seq = rc_seq event, hc_digest = digest, hc_control = stmt\<rparr>"
    "HubControlLogContext (hq_global_room_id request) 0 (hz_store z') =
       HubControlLogContext (hq_global_room_id request) 0 (hz_store z) @ [rec]"
    "replayHubRoster env (HubControlLogContext (hq_global_room_id request) 0 (hz_store z')) 0 = Inr new"
    "apply_event roster key digest event = Inr new"
    "control_inv (hub (hz_store z'))"
    "\<And>g. g \<noteq> hq_global_room_id request \<Longrightarrow>
       HubControlLogContext g 0 (hz_store z') = HubControlLogContext g 0 (hz_store z)"
proof -
  let ?g = "hq_global_room_id request"
  from appendHubControl_ok [OF ok] obtain h roster event stmt digest rec where
    h: "hubRoomByGlobal (hz_service z) ?g = Some h" "IsHome h"
    and roster: "hubRoster env (hz_service z) h 0 = Inr roster"
    and event: "next_control_event clock z h roster request = Inr event"
    and stmt: "SignRoomControl env event (id_sign (the (hz_identity z))) = Inr (stmt, digest)"
    and rec: "rec = \<lparr>hc_global_room_id = ?g, hc_seq = rc_seq event, hc_digest = digest, hc_control = stmt\<rparr>"
    and replays: "\<not> isl (replayHubRoster env (HubControlLogContext ?g 0 (hz_store z) @ [rec]) 0)"
    and stored: "appendHubControlLocked [rec] (hz_store z) = (None, hz_store z')"
    by metis
  let ?log = "HubControlLogContext ?g 0 (hz_store z)"
  have log: "replayHubRoster env ?log 0 = Inr roster"
    using roster hubRoomByGlobal_id [OF h(1)] by (simp add: hubRoster_def hz_store_def)
  obtain new where "replayHubRoster env (?log @ [rec]) 0 = Inr new"
    using replays by (cases "replayHubRoster env (?log @ [rec]) 0") auto
  then have seq: "hc_seq rec = int (length ?log) + 1" and step_ok: "applyHubControl env roster rec = Inr new"
    and new: "replayHubRoster env (?log @ [rec]) 0 = Inr new"
    by (auto simp: replay_snoc [OF log] split: if_splits)
  have stored_digest: "hc_control rec = stmt" "hc_digest rec = digest" by (simp_all add: rec)
  obtain key event' where verified: "VerifyRoomControl env (hc_control rec) key = Inr (event', hc_digest rec)"
    and "apply_event roster key (hc_digest rec) event' = Inr new"
    by (rule apply_success [OF step_ok]) metis
  moreover have "event' = event" by (rule signed_then_verified(1) [OF stmt verified [unfolded stored_digest]])
  ultimately have applied: "apply_event roster key digest event = Inr new" by (simp only: stored_digest)
  have inv': "control_inv (hub (hz_store z'))" by (rule control_inv_append [OF inv stored])
  note whole = control_log_whole [OF inv] control_log_whole [OF inv']
  have seq': "hc_seq rec = int (length (fmget [] (hs_control (hub (hz_store z))) (hc_global_room_id rec))) + 1"
    using seq by (simp add: whole rec)
  note step = append_one_control [OF inv stored seq']
  have "HubControlLogContext ?g 0 (hz_store z') = ?log @ [rec]" using step(1) by (simp add: whole rec)
  moreover have "HubControlLogContext g 0 (hz_store z') = HubControlLogContext g 0 (hz_store z)" if "g \<noteq> ?g" for g
    using step(2) [of g] that by (simp add: whole rec)
  ultimately show thesis
    using that [OF h roster event rec _ _ applied inv'] new by presburger
qed

text \<open>
  C9.
  A change of a hub room's membership is a change every member can replay: when the home accepts a
  request, it appended exactly one record to that room's log, left every other log alone, and the
  log it now stores replays from its genesis to a roster whose epoch is one higher.
\<close>
theorem appended_log_replays:
  assumes "control_inv (hub (hz_store z))" and "appendHubControl env clock request z = (Inr v, z')"
  shows "\<exists>rec roster new.
    HubControlLogContext (hq_global_room_id request) 0 (hz_store z') =
      HubControlLogContext (hq_global_room_id request) 0 (hz_store z) @ [rec] \<and>
    replayHubRoster env (HubControlLogContext (hq_global_room_id request) 0 (hz_store z)) 0 = Inr roster \<and>
    replayHubRoster env (HubControlLogContext (hq_global_room_id request) 0 (hz_store z')) 0 = Inr new \<and>
    ros_epoch new = ros_epoch roster + 1 \<and>
    (\<forall>g. g \<noteq> hq_global_room_id request \<longrightarrow>
       HubControlLogContext g 0 (hz_store z') = HubControlLogContext g 0 (hz_store z))"
proof -
  from appendHubControl_extends [OF assms] obtain h roster event stmt key digest rec new where
    h: "hubRoomByGlobal (hz_service z) (hq_global_room_id request) = Some h"
    and roster: "hubRoster env (hz_service z) h 0 = Inr roster"
    and event: "next_control_event clock z h roster request = Inr event"
    and log: "HubControlLogContext (hq_global_room_id request) 0 (hz_store z') =
       HubControlLogContext (hq_global_room_id request) 0 (hz_store z) @ [rec]"
    and new: "replayHubRoster env (HubControlLogContext (hq_global_room_id request) 0 (hz_store z')) 0 = Inr new"
      "apply_event roster key digest event = Inr new"
    and rest: "\<And>g. g \<noteq> hq_global_room_id request \<Longrightarrow>
       HubControlLogContext g 0 (hz_store z') = HubControlLogContext g 0 (hz_store z)"
    by metis
  have "ros_epoch new = ros_epoch roster + 1"
    using apply_event_head [OF new(2)] next_control_event_seq [OF event] by simp
  with log new rest roster hubRoomByGlobal_id [OF h] show ?thesis by (auto simp: hubRoster_def hz_store_def)
qed

section \<open>The next receipt\<close>

definition in_line :: "string \<Rightarrow> hub_receipt_record \<Rightarrow> bool" where
  "in_line g x \<longleftrightarrow> hx_global_room_id x = g \<and> hx_hub_epoch x = HubEpochV1"

lemma receipt_head_max:
  "finds_max (in_line g) hx_room_seq ys head \<Longrightarrow>
   finds_max (in_line g) hx_room_seq (ys @ xs) (receipt_head_loop g HubEpochV1 xs head)"
proof (induction xs arbitrary: ys head)
  case (Cons x xs)
  have "finds_max (in_line g) hx_room_seq (ys @ [x])
      (if in_line g x \<and> (head = None \<or> hx_room_seq x > hx_room_seq (the head)) then Some x else head)"
    by (rule finds_max_snoc [OF Cons.prems])
  from Cons.IH [OF this] show ?case by (simp add: in_line_def)
qed simp

lemma receipt_head:
  "finds_max (in_line g) hx_room_seq (hs_receipts (hub s)) (HubReceiptHeadContext g HubEpochV1 s)"
  using receipt_head_max [of g "[]" None "hs_receipts (hub s)"] by (simp add: HubReceiptHeadContext_def)

lemma nextHubReceipt_fields:
  assumes "nextHubReceipt env z h epoch eventID = Inr r"
  shows "in_line (hr_global_room_id h) r" "hx_event_id r = eventID" "hx_membership_epoch r = epoch"
    "case HubReceiptHeadContext (hr_global_room_id h) HubEpochV1 (hz_store z) of
       None \<Rightarrow> hx_room_seq r = 1 \<and> hx_prev_digest r = []
     | Some head \<Rightarrow> hx_room_seq r = hx_room_seq head + 1 \<and> hx_prev_digest r = hx_digest head"
  using assms
  by (auto simp: nextHubReceipt_def next_room_receipt_def in_line_def Let_def split: option.splits sum.splits)

end
