(* ===== verification/Hub_Home_Admission.thy ===== *)
theory Hub_Home_Admission
  imports Hub_Home_Properties
begin

text \<open>
  The receipt chain the home signs, the pages of the control log it serves, and what admission
  and leaving can and cannot change.
\<close>

section \<open>The receipt chain\<close>

lemma next_receipt_fits:
  assumes inv: "receipts_inv (hs_receipts (hub (hz_store z)))"
    and fresh: "HubReceiptForEventContext (hr_global_room_id h) eventID (hz_store z) = None"
    and epochs: "list_all (\<lambda>x. hx_global_room_id x = hr_global_room_id h \<longrightarrow> hx_membership_epoch x \<le> epoch)
      (hs_receipts (hub (hz_store z)))"
    and new: "nextHubReceipt env z h epoch eventID = Inr r"
    and x: "x \<in> set (hs_receipts (hub (hz_store z)))"
  shows "compatible x r" "compatible r x" "place x \<noteq> place r"
proof -
  let ?g = "hr_global_room_id h"
  note r = nextHubReceipt_fields [OF new]
  have line: "same_line x r \<longleftrightarrow> in_line ?g x" using r(1) by (auto simp: same_line_def in_line_def)
  have event: "\<not> (hx_global_room_id x = ?g \<and> hx_event_id x = hx_event_id r)"
    using fresh x r(2) by (auto simp: HubReceiptForEventContext_def find_None_iff)
  have epoch: "hx_global_room_id x = ?g \<Longrightarrow> hx_membership_epoch x \<le> hx_membership_epoch r"
    using epochs x r(3) by (simp add: list_all_iff)
  have seq: "hx_room_seq x < hx_room_seq r" if "in_line ?g x"
    using receipt_head [of ?g "hz_store z"] r(4) that x
    by (auto simp: finds_max_def finds_def split: option.splits)
  have chain: "hx_prev_digest r = hx_digest x" if at: "in_line ?g x" "hx_room_seq r = hx_room_seq x + 1"
  proof (cases "HubReceiptHeadContext ?g HubEpochV1 (hz_store z)")
    case None
    with receipt_head [of ?g "hz_store z"] x at show ?thesis by (auto simp: finds_max_def finds_def)
  next
    case (Some y)
    with receipt_head [of ?g "hz_store z"] have y: "y \<in> set (hs_receipts (hub (hz_store z)))" "in_line ?g y"
      by (auto simp: finds_max_def finds_def)
    have "x = y" using place_unique [OF inv x y(1)] y at r(4) Some by (simp add: place_def in_line_def)
    with Some r(4) show ?thesis by simp
  qed
  have g: "hx_global_room_id r = ?g" "hx_hub_epoch r = HubEpochV1" using r(1) by (simp_all add: in_line_def)
  have in_g: "in_line ?g x \<Longrightarrow> hx_global_room_id x = ?g" by (simp add: in_line_def)
  show "compatible x r"
    unfolding compatible_def g(1) line using event epoch chain in_g by blast
  show "compatible r x"
    unfolding compatible_def same_line_sym [of r x] g(1) line using event seq
    by (metis add.commute add_le_same_cancel2 not_less not_one_le_zero order_less_imp_le)
  show "place x \<noteq> place r"
    unfolding place_eq using seq line by force
qed

text \<open>
  The receipt the home signs for an event it has not placed yet is one its own store accepts, as
  the next of the room's chain: however many messages the home places, it never forks the chain it
  signs, takes a sequence number twice, or steps back in membership epoch.
\<close>
lemma next_receipt_checked:
  assumes "receipts_inv (hs_receipts (hub (hz_store z)))"
    and "HubReceiptForEventContext (hr_global_room_id h) eventID (hz_store z) = None"
    and "list_all (\<lambda>x. hx_global_room_id x = hr_global_room_id h \<longrightarrow> hx_membership_epoch x \<le> epoch)
      (hs_receipts (hub (hz_store z)))"
    and "nextHubReceipt env z h epoch eventID = Inr r"
  shows "checkHubReceiptLocked r (hz_store z) = Inr False"
proof -
  note fits = next_receipt_fits [OF assms]
  have "place r \<notin> place ` set (hs_receipts (hub (hz_store z)))" using fits(3) by fastforce
  with check_accepts [OF neighbours_fold] fits(1,2) show ?thesis
    by (simp add: checkHubReceiptLocked_def Let_def)
qed

section \<open>Pages of the control log\<close>

definition served :: "int \<Rightarrow> int \<Rightarrow> hub_control_record list \<Rightarrow> signed_room_control list" where
  "served afterSeq limit records =
     map hc_control (filter (\<lambda>r. max afterSeq 0 < hc_seq r \<and> hc_seq r \<le> limit) records)"

lemma control_page_loop_served:
  assumes "control_page_loop afterSeq limit budget records used events = (page, remains)"
  obtains rest where "events @ served afterSeq limit records = page @ rest" "remains \<longleftrightarrow> rest \<noteq> []"
    "prefix events page" "page = [] \<longleftrightarrow> events @ served afterSeq limit records = []"
proof -
  have "\<exists>rest. events @ served afterSeq limit records = page @ rest \<and> (remains \<longleftrightarrow> rest \<noteq> []) \<and>
    prefix events page \<and> (page = [] \<longleftrightarrow> events @ served afterSeq limit records = [])"
    using assms
  proof (induction afterSeq limit budget records used events rule: control_page_loop.induct)
    case (1 afterSeq limit budget used events)
    then show ?case by (simp add: served_def)
  next
    case (2 afterSeq limit budget r records used events)
    show ?case
    proof (cases "hc_seq r \<le> max afterSeq 0 \<or> hc_seq r > limit")
      case True
      then have "served afterSeq limit (r # records) = served afterSeq limit records" by (auto simp: served_def)
      with "2.IH"(1) [OF True] "2.prems" True show ?thesis by simp
    next
      case False
      let ?used = "used + (control_size (hc_control r) + 1)"
      have step: "served afterSeq limit (r # records) = hc_control r # served afterSeq limit records"
        using False by (auto simp: served_def)
      show ?thesis
      proof (cases "events \<noteq> [] \<and> ?used > budget")
        case True
        with "2.prems" False have "page = events" "remains" by (auto simp: Let_def)
        with True step show ?thesis by simp
      next
        case remains: False
        with "2.prems" False have
          "control_page_loop afterSeq limit budget records ?used (events @ [hc_control r]) = (page, remains)"
          by (auto simp: Let_def split: if_splits)
        from "2.IH"(2) [OF False refl remains this] step show ?thesis
          by (auto simp: prefix_def)
      qed
    qed
  qed
  then show thesis using that by blast
qed

text \<open>
  C39.
  A page of the control log is exact: it is an initial part of the events after the cursor up to
  the reader's limit, never empty while there are such events, and it says more follows exactly
  when some are left, whatever the byte budget. A peer's limit is where its own membership allows:
  a page is served to a peer only over the pairing linked to a network that was admitted to this
  room, and a removed network reads no event after its removal.
\<close>
theorem control_page_exact:
  assumes "HubControlPageContext env budget z ctx g afterSeq = Inr page"
  shows "\<exists>limit rest. served afterSeq limit (HubControlLogContext g 0 (hz_store z)) = cp_events page @ rest \<and>
    (cp_more page \<longleftrightarrow> rest \<noteq> []) \<and> (cp_events page = [] \<longrightarrow> rest = []) \<and>
    (case pairingForPairScopedContext (hz_service z) ctx of
       None \<Rightarrow> limit = int (length (HubControlLogContext g 0 (hz_store z)))
     | Some p \<Rightarrow> \<exists>network access. hubLinkNetwork z g (pr_id p) = Some network \<and>
         hubAccessFor env (HubControlLogContext g 0 (hz_store z)) network = Inr access \<and>
         limit = controlLimit access \<and> limit \<noteq> 0)"
proof -
  let ?log = "HubControlLogContext g 0 (hz_store z)"
  obtain limit where loop: "control_page_loop afterSeq limit budget ?log (control_page_size g) [] =
      (cp_events page, cp_more page)"
    and limit: "case pairingForPairScopedContext (hz_service z) ctx of
       None \<Rightarrow> limit = int (length ?log)
     | Some p \<Rightarrow> \<exists>network access. hubLinkNetwork z g (pr_id p) = Some network \<and>
         hubAccessFor env ?log network = Inr access \<and> limit = controlLimit access \<and> limit \<noteq> 0"
    using assms
    by (auto simp: HubControlPageContext_def Let_def hz_store_def hubPeerNetwork_def
        split: if_splits option.splits sum.splits prod.splits)
  from control_page_loop_served [OF loop] obtain rest where
    "served afterSeq limit ?log = cp_events page @ rest" "cp_more page \<longleftrightarrow> rest \<noteq> []"
    "cp_events page = [] \<longrightarrow> rest = []" by auto
  with limit show ?thesis by blast
qed

end
