(* ===== verification/Hub_Messages.thy ===== *)
theory Hub_Messages
  imports Inbound_Envelopes Hub_Home_Admission Message_Events
begin

text \<open>
  Messages in hub rooms: the control log a member pulls from its home (\<open>internal/rooms/hub_member.go\<close>),
  the home signing, placing and fanning out messages (\<open>hub_place.go\<close>), and what home and members
  accept from each other (\<open>hub_ingest.go\<close>). The record \<open>send_config\<close> is what a call is given from
  outside: the clock, fresh ids, the platform, and what the process was configured with. What the
  home answers over the network is the argument \<open>pull\<close>: the control events after a sequence number.
  Each operation runs under the locks the code holds (\<open>hubMu\<close>, \<open>deliveryMu\<close>).
\<close>

section \<open>Configuration\<close>

record send_config =
  sc_env :: go_env
  sc_url_parse :: "string \<Rightarrow> (string \<times> string) option"
  sc_time_text :: "time \<Rightarrow> string"
  sc_now :: time
  sc_durable_events :: bool
  sc_pairing_client :: bool
  sc_new_message_id :: string

definition with_pins :: "(pin_store \<Rightarrow> pin_store) \<Rightarrow> hub_service \<Rightarrow> hub_service" where
  "with_pins f z = hz_with_pins (f (sv_key_pins (hz_service z))) z"

abbreviation hub_forbidden :: "string \<Rightarrow> send_error" where
  "hub_forbidden m \<equiv> HubRefused (HomeRefused (HubForbidden m))"
abbreviation hub_invalid :: "string \<Rightarrow> send_error" where
  "hub_invalid m \<equiv> HubRefused (HomeRefused (HubInvalid m))"

section \<open>A member's copy of the control log\<close>

fun controlRecords ::
  "go_env \<Rightarrow> string \<Rightarrow> int \<Rightarrow> signed_room_control list \<Rightarrow> hub_control_record list option" where
  "controlRecords env g start [] = Some []"
| "controlRecords env g start (stmt # rest) =
     (case ParseRoomControlUnverified env stmt of
        Inl _ \<Rightarrow> None
      | Inr (event, digest) \<Rightarrow>
          if rc_seq event \<noteq> start then None
          else map_option ((#) \<lparr>hc_global_room_id = g, hc_seq = rc_seq event, hc_digest = digest, hc_control = stmt\<rparr>)
                 (controlRecords env g (start + 1) rest))"

text \<open>Where the events the home sent start: they may repeat what is stored.\<close>

definition pulled_start :: "go_env \<Rightarrow> int \<Rightarrow> signed_room_control list \<Rightarrow> int" where
  "pulled_start env epoch events =
     (case events of
        [] \<Rightarrow> epoch + 1
      | stmt # _ \<Rightarrow>
          (case ParseRoomControlUnverified env stmt of
             Inl _ \<Rightarrow> epoch + 1
           | Inr (event, _) \<Rightarrow> if rc_seq event < epoch + 1 \<and> 1 \<le> rc_seq event then rc_seq event else epoch + 1))"

definition append_records ::
  "hub_control_record list \<Rightarrow> hub_service \<Rightarrow> send_error option \<times> hub_service" where
  "append_records records z =
     (case appendHubControlLocked records (hz_store z) of
        (Some e, st) \<Rightarrow> (Some (HubRefused (HubStoreFailed e)), hz_with_store st z)
      | (None, st) \<Rightarrow> (None, hz_with_store st z))"

definition applyPulledControl ::
  "go_env \<Rightarrow> hub_room \<Rightarrow> signed_room_control list \<Rightarrow> hub_service \<Rightarrow> (send_error + hub_roster) \<times> hub_service" where
  "applyPulledControl env h events z =
     (let g = hr_global_room_id h; records = HubControlLogContext g 0 (hz_store z)
      in case hubRoster env (hz_service z) h 0 of
           Inl e \<Rightarrow> (Inl (HubRefused (HubLogInvalid e)), z)
         | Inr before \<Rightarrow>
             let start = pulled_start env (ros_epoch before) events
             in case controlRecords env g start events of
                  None \<Rightarrow> (Inl (hub_invalid ''control page''), z)
                | Some pulled \<Rightarrow>
                    let overlap = nat (min (int (length pulled)) (ros_epoch before - start + 1));
                        (refused, z1) = (if overlap > 0 then append_records (take overlap pulled) z else (None, z));
                        new = drop overlap pulled
                    in case refused of
                         Some e \<Rightarrow> (Inl e, z1)
                       | None \<Rightarrow>
                           if new = [] then (Inr before, z1)
                           else (case replayHubRoster env (records @ new) 0 of
                                   Inl _ \<Rightarrow> (Inl (hub_invalid ''control log does not verify''), z1)
                                 | Inr after \<Rightarrow>
                                     (case append_records new z1 of
                                        (Some e, z2) \<Rightarrow> (Inl e, z2)
                                      | (None, z2) \<Rightarrow> (Inr after, z2))))"

type_synonym control_pull = "string \<Rightarrow> string \<Rightarrow> int \<Rightarrow> send_error + signed_room_control list"

definition syncHubControl ::
  "go_env \<Rightarrow> control_pull \<Rightarrow> hub_room \<Rightarrow> hub_service \<Rightarrow> (send_error + hub_roster) \<times> hub_service" where
  "syncHubControl env pull h z =
     (case hubRoster env (hz_service z) h 0 of
        Inl e \<Rightarrow> (Inl (HubRefused (HubLogInvalid e)), z)
      | Inr before \<Rightarrow>
          if IsHome h then (Inr before, z)
          else (case findPairingByID (hz_service z) (hr_home_pairing_id h) of
                  Inl e \<Rightarrow> (Inl (SendRefused e), z)
                | Inr p \<Rightarrow>
                    (case pull (pr_id p) (hr_global_room_id h) (ros_epoch before) of
                       Inl e \<Rightarrow> (Inl e, z)
                     | Inr events \<Rightarrow> applyPulledControl env h events z)))"

section \<open>Signing and committing\<close>

definition zero_target :: target where
  "zero_target = \<lparr>tgt_kind = [], tgt_room_id = [], tgt_thread_id = [], tgt_parent_message_id = [], tgt_dm_id = [],
     tgt_participant_ids = []\<rparr>"

definition zero_origin :: message_origin where
  "zero_origin = \<lparr>org_claimed_author = None, org_claimed_network_id = [], org_claimed_message_id = [],
     org_claimed_discovery_network_id = [], org_network_id = [], org_message_id = [], org_received_via = []\<rparr>"

definition zero_actor :: actor where
  "zero_actor = \<lparr>act_type = [], act_id = [], act_name = [], act_network_id = [], act_fqid = [],
     act_credential_bound = False\<rparr>"

definition zero_send_request :: send_message_request where
  "zero_send_request = \<lparr>smr_id = [], smr_origin = zero_origin, smr_target = zero_target, smr_from = zero_actor,
     smr_parts = [], smr_mentions = [], smr_cause_event_ids = [], smr_envelope = None, smr_receipt = None\<rparr>"

definition hubRelayRequest :: "message \<Rightarrow> hub_room \<Rightarrow> send_message_request option" where
  "hubRelayRequest m h =
     (case ParseGlobalRoomID (hr_global_room_id h) of
        Inl _ \<Rightarrow> None
      | Inr (_, canonicalRoom) \<Rightarrow>
          let r = (case relayRequest m of None \<Rightarrow> zero_send_request | Some r \<Rightarrow> r)
          in Some (r\<lparr>smr_target := zero_target\<lparr>tgt_kind := TargetKindRoom, tgt_room_id := canonicalRoom\<rparr>\<rparr>))"

definition signHubEnvelope ::
  "go_env \<Rightarrow> hub_service \<Rightarrow> message \<Rightarrow> hub_room \<Rightarrow> int \<Rightarrow> int \<Rightarrow> string \<Rightarrow> send_error + message_envelope_record" where
  "signHubEnvelope env z m h epoch originSeq createdAt =
     (case hubRelayRequest m h of
        None \<Rightarrow> Inl (hub_invalid ''global room id'')
      | Some r \<Rightarrow>
          let me = the (hz_identity z);
              e = (EnvelopeFromRequest r (NetworkKeyFingerprint (id_public me)) createdAt)
                    \<lparr>me_global_room_id := hr_global_room_id h, me_membership_epoch := Some epoch,
                     me_origin_seq := Some originSeq\<rparr>
          in case SignEnvelope env e (id_public me) (id_sign me) of
               Inl _ \<Rightarrow> Inl (SendRefused (InvalidMessage ''message cannot be signed for a hub room''))
             | Inr (stmt, digest) \<Rightarrow>
                 Inr \<lparr>env_message_id = [], env_origin_network_id = sv_network_id (hz_service z),
                      env_origin_message_id = me_origin_message_id e, env_digest = digest,
                      env_state = SignatureStateVerified, env_fingerprint = me_origin_fingerprint e,
                      env_envelope = stmt\<rparr>)"

abbreviation second :: int where "second \<equiv> 1000000000"

text \<open>A multiplication of 64-bit integers.\<close>

definition times64 :: "int \<Rightarrow> int \<Rightarrow> int" where
  "times64 a b = (a * b + 2 ^ 63) mod 2 ^ 64 - 2 ^ 63"

definition deliveryBounds :: "pairing \<Rightarrow> duration \<times> int" where
  "deliveryBounds p =
     (let default = (7 * 24 * 3600 * second, 10000)
      in case pr_delivery_limits p of
           None \<Rightarrow> default
         | Some limits \<Rightarrow>
             (if plc_max_age_seconds limits > 0 then times64 (plc_max_age_seconds limits) second else fst default,
              if plc_max_pending limits > 0 then plc_max_pending limits else snd default))"

definition snapshotRelayPairings :: "service \<Rightarrow> pairing list" where
  "snapshotRelayPairings s = filter (\<lambda>p. pr_id p |\<notin>| revokedPairingIDs s) (sv_pairings s)"

definition delivery_limits :: "service \<Rightarrow> pairing_delivery_limits strmap" where
  "delivery_limits s =
     fold (\<lambda>p. fmupd (pr_id p) \<lparr>pdl_remote_network_id = pr_remote_network_id p, pdl_max_age = fst (deliveryBounds p),
                               pdl_max_pending = snd (deliveryBounds p)\<rparr>) (snapshotRelayPairings s) fmempty"

definition appendHub ::
  "send_config \<Rightarrow> message \<Rightarrow> event \<Rightarrow> message_envelope_record \<Rightarrow> hub_receipt_record option \<Rightarrow> string list \<Rightarrow> hub_service \<Rightarrow>
   (send_error + append_lifecycle) \<times> hub_service" where
  "appendHub cfg m ev envelope placing pairingIDs z =
     (if \<not> sv_deliveries (hz_service z)
      then (Inl (HubRefused (HubUnavailable ''this message store does not support hub rooms'')), z)
      else case AppendMessageWithPairingDeliveriesContext placing (Some envelope) (delivery_limits (hz_service z)) (sc_now cfg) m
                  (if sc_durable_events cfg then Some ev else None) pairingIDs (hz_store z) of
             (Inl e, st) \<Rightarrow> (Inl (SendFailed e), hz_with_store st z)
           | (Inr lifecycle, st) \<Rightarrow> (Inr lifecycle, hz_with_store st z))"

record message_accepted =
  ma_message_id :: string
  ma_event_id :: string
  ma_accepted :: bool
  ma_thread_created :: bool
  ma_dm_created :: bool
  ma_receipt :: "signed_room_receipt option"

definition accepted_as :: "string \<Rightarrow> message_accepted" where
  "accepted_as i = \<lparr>ma_message_id = i, ma_event_id = eventIDForMessage i, ma_accepted = True, ma_thread_created = False,
     ma_dm_created = False, ma_receipt = None\<rparr>"

definition is_history_conflict :: "store_error \<Rightarrow> bool" where
  "is_history_conflict e =
     (case e of ErrHubReceiptConflict _ \<Rightarrow> True | ErrEnvelopeConflict _ _ _ \<Rightarrow> True | ErrMessageIDConflict \<Rightarrow> True | _ \<Rightarrow> False)"

definition appendHubMessage ::
  "send_config \<Rightarrow> message \<Rightarrow> message_envelope_record \<Rightarrow> hub_receipt_record option \<Rightarrow> string list \<Rightarrow> hub_service \<Rightarrow>
   (send_error + message_accepted) \<times> hub_service" where
  "appendHubMessage cfg m envelope placing pairingIDs z =
     (case appendHub cfg m (message_event (sv_network_id (hz_service z)) m (msg_created_at m)) envelope placing pairingIDs z of
        (Inr lifecycle, z1) \<Rightarrow> (Inr (accepted_as (msg_id m)), z1)
      | (Inl (SendFailed e), z1) \<Rightarrow>
          (if is_duplicate e then (Inr (accepted_as (msg_id m)), z1)
           else if is_history_conflict e then (Inl (SendConflict e), z1)
           else (Inl (SendFailed e), z1))
      | (Inl e, z1) \<Rightarrow> (Inl e, z1))"

section \<open>The home places messages\<close>

definition appendLocalHubMessage ::
  "send_config \<Rightarrow> message \<Rightarrow> event \<Rightarrow> hub_room \<Rightarrow> hub_service \<Rightarrow> (send_error + append_lifecycle) \<times> hub_service" where
  "appendLocalHubMessage cfg m ev h z =
     (case requireHubs z of
        Some e \<Rightarrow> (Inl (HubRefused e), z)
      | None \<Rightarrow>
          (case hubRoster (sc_env cfg) (hz_service z) h 0 of
             Inl e \<Rightarrow> (Inl (HubRefused (HubLogInvalid e)), z)
           | Inr roster \<Rightarrow>
               let (originSeq, st) = NextHubOriginSeqContext (hr_global_room_id h) (hz_store z);
                   z1 = hz_with_store st z
               in case signHubEnvelope (sc_env cfg) z1 m h (ros_epoch roster) originSeq (sc_time_text cfg (msg_created_at m)) of
                    Inl e \<Rightarrow> (Inl e, z1)
                  | Inr envelope \<Rightarrow>
                      if \<not> IsHome h then appendHub cfg m ev envelope None [hr_home_pairing_id h] z1
                      else (case nextHubReceipt (sc_env cfg) z1 h (ros_epoch roster) (env_digest envelope) of
                              Inl e \<Rightarrow> (Inl (HubRefused (HubLogInvalid e)), z1)
                            | Inr placing \<Rightarrow>
                                appendHub cfg m ev envelope (Some placing)
                                  (hubFanoutPairings z1 roster (sv_network_id (hz_service z1))) z1)))"

definition placed_already :: "hub_receipt_record \<Rightarrow> message_accepted" where
  "placed_already r = (accepted_as (hx_message_id r))\<lparr>ma_receipt := Some (hx_receipt r)\<rparr>"

definition placeHubMessage ::
  "send_config \<Rightarrow> hub_room \<Rightarrow> int \<Rightarrow> message \<Rightarrow> message_envelope_record \<Rightarrow> hub_service \<Rightarrow>
   (send_error + message_accepted) \<times> hub_service" where
  "placeHubMessage cfg h signedEpoch m envelope z =
     (case HubReceiptForEventContext (hr_global_room_id h) (env_digest envelope) (hz_store z) of
        Some existing \<Rightarrow> (Inr (placed_already existing), z)
      | None \<Rightarrow>
          (case hubRoster (sc_env cfg) (hz_service z) h 0 of
             Inl e \<Rightarrow> (Inl (HubRefused (HubLogInvalid e)), z)
           | Inr roster \<Rightarrow>
               if ros_epoch roster \<noteq> signedEpoch then (Inl (StaleEpoch (ros_epoch roster)), z)
               else (case nextHubReceipt (sc_env cfg) z h (ros_epoch roster) (env_digest envelope) of
                       Inl e \<Rightarrow> (Inl (HubRefused (HubLogInvalid e)), z)
                     | Inr placing \<Rightarrow>
                         (case appendHubMessage cfg m envelope (Some placing)
                                 (hubFanoutPairings z roster (env_origin_network_id envelope)) z of
                            (Inl e, z1) \<Rightarrow> (Inl e, z1)
                          | (Inr accepted, z1) \<Rightarrow> (Inr (accepted\<lparr>ma_receipt := Some (hx_receipt placing)\<rparr>), z1)))))"

section \<open>What a hub message over a pairing must be\<close>

record hub_ingress =
  ig_pairing :: pairing
  ig_hub :: hub_room
  ig_envelope :: message_envelope
  ig_digest :: string
  ig_request :: send_message_request

definition isHubRequest :: "go_env \<Rightarrow> send_message_request \<Rightarrow> bool" where
  "isHubRequest env r =
     (if smr_receipt r \<noteq> None then True
      else case smr_envelope r of
             None \<Rightarrow> False
           | Some stmt \<Rightarrow>
               (case ParseSignedEnvelope env stmt of Inl _ \<Rightarrow> False | Inr (e, _) \<Rightarrow> me_global_room_id e \<noteq> []))"

text \<open>The checks of \<open>checkHubIngressFrom\<close> on a verified envelope of a known room.\<close>

definition hub_ingress_error ::
  "go_env \<Rightarrow> string \<Rightarrow> message_envelope \<Rightarrow> send_message_request \<Rightarrow> send_error option" where
  "hub_ingress_error env networkID e r =
     (let canonicalRoom = (case ParseGlobalRoomID (me_global_room_id e) of Inl _ \<Rightarrow> [] | Inr (_, room) \<Rightarrow> room);
          origin = org_network_id (smr_origin r);
          refused = (\<lambda>m. Some (rejected m))
      in if me_origin_network_id e \<noteq> origin \<or> origin = [] \<or> origin = networkID
         then refused ''hub message origin does not match its signed origin''
         else if me_membership_epoch e = None \<or> me_origin_seq e = None \<or> the (me_origin_seq e) < 1
         then refused ''hub message envelope lacks membership_epoch or origin_seq''
         else if et_kind (me_target e) \<noteq> TargetKindRoom \<or> et_room_id (me_target e) \<noteq> canonicalRoom \<or>
           tgt_room_id (smr_target r) \<noteq> canonicalRoom
         then refused ''hub message target is not this hub room''
         else if \<not> actorHasExplicitConsistentNetworkID (smr_from r) origin
         then refused ''hub message author is not of its origin network''
         else if act_fqid (smr_from r) \<noteq> [] \<and> act_fqid (smr_from r) \<noteq> AgentFQID origin (ea_id (me_author e))
         then refused ''author fqid does not match the signed origin and author''
         else if EnvelopeMatchesRequest env e r \<noteq> None
         then refused ''message envelope does not match the message''
         else None)"

definition checkHubIngressFrom ::
  "go_env \<Rightarrow> hub_service \<Rightarrow> pairing \<Rightarrow> send_message_request \<Rightarrow> send_error + hub_ingress" where
  "checkHubIngressFrom env z p r =
     (let s = hz_service z
      in if \<not> sv_hubs s \<or> smr_envelope r = None
         then Inl (hub_forbidden ''hub room messages arrive only signed, over a pairing'')
         else case VerifySignedEnvelope env (the (smr_envelope r)) of
                Inl _ \<Rightarrow> Inl (rejected ''invalid message envelope'')
              | Inr (e, digest) \<Rightarrow>
                  (case hubRoomByGlobal s (me_global_room_id e) of
                     None \<Rightarrow> Inl (HubRefused (HubNotFound (me_global_room_id e)))
                   | Some h \<Rightarrow>
                       (case hub_ingress_error env (sv_network_id s) e r of
                          Some err \<Rightarrow> Inl err
                        | None \<Rightarrow>
                            Inr \<lparr>ig_pairing = p, ig_hub = h, ig_envelope = e, ig_digest = digest, ig_request = r\<rparr>)))"

definition hubOriginState :: "service \<Rightarrow> string \<Rightarrow> hub_member \<Rightarrow> bool \<Rightarrow> send_error + string" where
  "hubOriginState s origin member allowIntroduce =
     (case Lookup origin (sv_key_pins s) of
        None \<Rightarrow>
          if \<not> allowIntroduce then Inl (rejected ''network has no pinned key on this home'')
          else Inr SignatureStateIntroduced
      | Some pin \<Rightarrow>
          if pin_fingerprint pin \<noteq> hm_fingerprint member
          then Inl (rejected ''network is pinned to a different key than the room introduces'')
          else (case signatureStateForTrust (pin_trust pin) of
                  None \<Rightarrow> Inl (rejected ''network has a pin with unknown trust'')
                | Some state \<Rightarrow> Inr state))"

definition hubMessageID :: "string \<Rightarrow> string" where
  "hubMessageID eventID = ''fed-'' @ eventID"

definition hubMessage :: "send_config \<Rightarrow> service \<Rightarrow> request_context \<Rightarrow> hub_ingress \<Rightarrow> send_error + message" where
  "hubMessage cfg s ctx i =
     (let e = ig_envelope i; r = ig_request i; author = me_author e; origin = me_origin_network_id e;
          i' = hubMessageID (ig_digest i)
      in if (ea_type author = ''human'' \<or> act_type (smr_from r) = ''human'') \<and> \<not> sv_allow_human_ingress s
         then Inl (SendRefused HumanIngressDisabled)
         else case ValidateSendMessageRequest (sc_url_parse cfg) r of
                Some _ \<Rightarrow> Inl (SendRefused (InvalidMessage ''invalid message''))
              | None \<Rightarrow>
                  let received = normalize_origin s ctx
                        (zero_origin\<lparr>org_network_id := origin, org_message_id := me_origin_message_id e\<rparr>) i'
                  in Inr \<lparr>msg_id = i', msg_network_id = sv_network_id s,
                          msg_origin = received\<lparr>org_received_via := pr_id (ig_pairing i)\<rparr>,
                          msg_target = zero_target\<lparr>tgt_kind := TargetKindRoom, tgt_room_id := hr_local_room_id (ig_hub i)\<rparr>,
                          msg_from = NormalizeActor origin (zero_actor\<lparr>act_type := ea_type author, act_id := ea_id author,
                            act_name := ea_name author, act_network_id := origin\<rparr>),
                          msg_parts = smr_parts r, msg_mentions = me_mentions e, msg_created_at = sc_now cfg\<rparr>)"

definition hub_envelope_record :: "hub_ingress \<Rightarrow> string \<Rightarrow> message_envelope_record" where
  "hub_envelope_record i state =
     \<lparr>env_message_id = [], env_origin_network_id = me_origin_network_id (ig_envelope i),
      env_origin_message_id = me_origin_message_id (ig_envelope i), env_digest = ig_digest i, env_state = state,
      env_fingerprint = me_origin_fingerprint (ig_envelope i), env_envelope = the (smr_envelope (ig_request i))\<rparr>"

section \<open>The home accepts a submission\<close>

definition acceptHubSubmission ::
  "send_config \<Rightarrow> request_context \<Rightarrow> hub_ingress \<Rightarrow> hub_service \<Rightarrow> (send_error + message_accepted) \<times> hub_service" where
  "acceptHubSubmission cfg ctx i z =
     (let h = ig_hub i; g = hr_global_room_id h; e = ig_envelope i; origin = me_origin_network_id e
      in if smr_receipt (ig_request i) \<noteq> None
         then (Inl (hub_forbidden ''members submit messages; only the home issues receipts''), z)
         else if \<not> hubLinkSpeaksFor z ctx g (ig_pairing i) origin
         then (Inl (hub_forbidden ''this pairing does not speak for the message's origin network in this room''), z)
         else case HubReceiptForEventContext g (ig_digest i) (hz_store z) of
                Some existing \<Rightarrow> (Inr (placed_already existing), z)
              | None \<Rightarrow>
                  (case hubRoster (sc_env cfg) (hz_service z) h 0 of
                     Inl err \<Rightarrow> (Inl (HubRefused (HubLogInvalid err)), z)
                   | Inr roster \<Rightarrow>
                       let (member, writer) = canWrite roster origin
                       in if \<not> writer then (Inl (hub_forbidden ''network may not write in this hub room''), z)
                          else if hm_fingerprint member \<noteq> me_origin_fingerprint e
                          then (Inl (rejected ''hub message is not signed by the member's key''), z)
                          else (case hubOriginState (hz_service z) origin member False of
                                  Inl err \<Rightarrow> (Inl err, z)
                                | Inr state \<Rightarrow>
                                    if the (me_membership_epoch e) \<noteq> ros_epoch roster
                                    then (Inl (StaleEpoch (ros_epoch roster)), z)
                                    else (case hubMessage cfg (hz_service z) ctx i of
                                            Inl err \<Rightarrow> (Inl err, z)
                                          | Inr m \<Rightarrow>
                                              placeHubMessage cfg h (the (me_membership_epoch e)) m (hub_envelope_record i state)
                                                (with_pins (BindPairing (pr_id (ig_pairing i)) origin) z)))))"

section \<open>A member accepts a forward\<close>

definition checkCursorSuccessor :: "hub_room \<Rightarrow> room_receipt \<Rightarrow> hub_service \<Rightarrow> send_error option" where
  "checkCursorSuccessor h receipt z =
     (let cursor = HubSyncCursorContext (hr_global_room_id h) (hz_store z)
      in if cur_seq cursor > 0 \<and> rr_room_seq receipt = cur_seq cursor + 1 \<and>
           rr_prev_receipt_hash receipt \<noteq> cur_digest cursor
         then Some (HubRefused (HubConflict (ErrHubReceiptConflict PrevChain))) else None)"

definition notePlacement :: "hub_room \<Rightarrow> hub_receipt_record \<Rightarrow> hub_service \<Rightarrow> hub_service" where
  "notePlacement h placing z =
     (let cursor = HubSyncCursorContext (hr_global_room_id h) (hz_store z)
      in if hx_room_seq placing = cur_seq cursor + 1 \<and> (cur_seq cursor = 0 \<or> hx_prev_digest placing = cur_digest cursor)
         then hz_with_store (snd (advanceHubSyncCursorLocked
                \<lparr>cur_global_room_id = hr_global_room_id h, cur_seq = hx_room_seq placing, cur_digest = hx_digest placing,
                 cur_membership_epoch = hx_membership_epoch placing\<rparr> (hz_store z))) z
         else z)"

definition introducedPin :: "hub_roster \<Rightarrow> hub_member \<Rightarrow> pin" where
  "introducedPin roster member =
     \<lparr>pin_network_id = hm_network_id member, pin_fingerprint = hm_fingerprint member,
      pin_public_key = hm_public_key member, pin_trust = KeyTrustIntroduced, pin_source = PinSourceRoom,
      pin_source_id = ros_global_room_id roster, pin_introduced_by = ros_home_network_id roster, pin_pinned_at = 0\<rparr>"

definition receipt_record :: "room_receipt \<Rightarrow> string \<Rightarrow> signed_room_receipt \<Rightarrow> hub_receipt_record" where
  "receipt_record r digest stmt =
     \<lparr>hx_global_room_id = rr_global_room_id r, hx_hub_epoch = rr_hub_epoch r,
      hx_membership_epoch = rr_membership_epoch r, hx_room_seq = rr_room_seq r, hx_event_id = rr_event_id r,
      hx_digest = digest, hx_prev_digest = rr_prev_receipt_hash r, hx_message_id = [], hx_receipt = stmt,
      hx_withheld = []\<rparr>"

definition storeHubForward ::
  "send_config \<Rightarrow> message \<Rightarrow> message_envelope_record \<Rightarrow> hub_receipt_record \<Rightarrow> pin option \<Rightarrow> hub_service \<Rightarrow>
   (send_error + message_accepted) \<times> hub_service" where
  "storeHubForward cfg m envelope placing introduce z =
     (case introduce of
        None \<Rightarrow> appendHubMessage cfg m envelope (Some placing) [] z
      | Some proposed \<Rightarrow>
          (case PinKeyCreated (sc_now cfg) proposed (sv_key_pins (hz_service z)) of
             (Inl (ErrPinConflict a b c), ps) \<Rightarrow>
               (Inl (rejected ''network is pinned to a different key''), hz_with_pins ps z)
           | (Inl e, ps) \<Rightarrow> (Inl (TrustStoreUnavailable e), hz_with_pins ps z)
           | (Inr _, ps) \<Rightarrow> appendHubMessage cfg m envelope (Some placing) [] (hz_with_pins ps z)))"

text \<open>The rest of \<open>acceptHubForward\<close>, with the roster that holds the home's key.\<close>

definition accept_forward_at ::
  "send_config \<Rightarrow> request_context \<Rightarrow> hub_ingress \<Rightarrow> bool \<Rightarrow> hub_roster \<Rightarrow> hub_service \<Rightarrow>
   (send_error + message_accepted) \<times> hub_service" where
  "accept_forward_at cfg ctx i live roster z =
     (let h = ig_hub i; e = ig_envelope i; epoch = the (me_membership_epoch e); origin = me_origin_network_id e;
          stmt = the (smr_receipt (ig_request i))
      in case VerifyRoomReceipt (sc_env cfg) stmt (ros_home_key roster) of
           Inl _ \<Rightarrow> (Inl (rejected ''invalid room receipt''), z)
         | Inr (receipt, digest) \<Rightarrow>
             if rr_global_room_id receipt \<noteq> hr_global_room_id h \<or> rr_event_id receipt \<noteq> ig_digest i \<or>
                rr_membership_epoch receipt \<noteq> epoch \<or> rr_hub_epoch receipt \<noteq> HubEpochV1
             then (Inl (rejected ''room receipt does not place this message''), z)
             else if live \<and> checkCursorSuccessor h receipt z \<noteq> None
             then (Inl (the (checkCursorSuccessor h receipt z)), z)
             else case hubRoster (sc_env cfg) (hz_service z) h epoch of
                    Inl err \<Rightarrow> (Inl (HubRefused (HubLogInvalid err)), z)
                  | Inr then_roster \<Rightarrow>
                      let (member, writer) = canWrite then_roster origin
                      in if \<not> writer \<or> hm_fingerprint member \<noteq> me_origin_fingerprint e
                         then (Inl (hub_forbidden ''network could not write with this key at its epoch''), z)
                         else (case hubOriginState (hz_service z) origin member True of
                                 Inl err \<Rightarrow> (Inl err, z)
                               | Inr state \<Rightarrow>
                                   (case hubMessage cfg (hz_service z) ctx i of
                                      Inl err \<Rightarrow> (Inl err, z)
                                    | Inr m \<Rightarrow>
                                        let placing = receipt_record receipt digest stmt;
                                            introduce = (if state = SignatureStateIntroduced \<and>
                                                            Lookup origin (sv_key_pins (hz_service z)) = None
                                                         then Some (introducedPin then_roster member) else None)
                                        in case storeHubForward cfg m (hub_envelope_record i state) placing introduce z of
                                             (Inl err, z1) \<Rightarrow> (Inl err, z1)
                                           | (Inr accepted, z1) \<Rightarrow>
                                               (Inr accepted, if live then notePlacement h placing z1 else z1))))"

definition acceptHubForward ::
  "send_config \<Rightarrow> control_pull \<Rightarrow> request_context \<Rightarrow> hub_ingress \<Rightarrow> bool \<Rightarrow> hub_service \<Rightarrow>
   (send_error + message_accepted) \<times> hub_service" where
  "acceptHubForward cfg pull ctx i live z =
     (let h = ig_hub i; epoch = the (me_membership_epoch (ig_envelope i))
      in if pr_id (ig_pairing i) \<noteq> hr_home_pairing_id h
         then (Inl (hub_forbidden ''hub room messages are accepted only from the room's home''), z)
         else if smr_receipt (ig_request i) = None
         then (Inl (hub_forbidden ''home-forwarded hub messages carry a receipt''), z)
         else case hubRoster (sc_env cfg) (hz_service z) h 0 of
                Inl err \<Rightarrow> (Inl (HubRefused (HubLogInvalid err)), z)
              | Inr roster \<Rightarrow>
                  if epoch \<le> ros_epoch roster then accept_forward_at cfg ctx i live roster z
                  else (case syncHubControl (sc_env cfg) pull h z of
                          (Inl err, z1) \<Rightarrow> (Inl err, z1)
                        | (Inr synced, z1) \<Rightarrow>
                            if epoch > ros_epoch synced
                            then (Inl (HubRefused (HubUnavailable ''hub room control log has not reached the epoch yet'')), z1)
                            else accept_forward_at cfg ctx i live synced z1))"

definition receiveHubMessage ::
  "send_config \<Rightarrow> control_pull \<Rightarrow> request_context \<Rightarrow> send_message_request \<Rightarrow> hub_service \<Rightarrow>
   (send_error + message_accepted) \<times> hub_service" where
  "receiveHubMessage cfg pull ctx r z =
     (case pairingForPairScopedContext (hz_service z) ctx of
        None \<Rightarrow> (Inl (hub_forbidden ''hub room messages arrive only signed, over a pairing''), z)
      | Some p \<Rightarrow>
          (case checkHubIngressFrom (sc_env cfg) z p r of
             Inl e \<Rightarrow> (Inl e, z)
           | Inr i \<Rightarrow>
               if IsHome (ig_hub i) then acceptHubSubmission cfg ctx i z
               else acceptHubForward cfg pull ctx i True z))"

end
