(* ===== verification/Hub_Sync.thy ===== *)
theory Hub_Sync
  imports Hub_Messages
begin

text \<open>
  Catching up: the page a home serves (\<open>internal/rooms/hub_sync_home.go\<close>) and what a member does
  with it (\<open>hub_sync_member.go\<close>). The encoded sizes that decide where a page ends are an argument,
  \<open>page_sizes\<close>, so what is shown holds wherever pages are cut. What the home answers over the
  network is an argument.
\<close>

section \<open>Pages\<close>

record room_sync_entry =
  ye_receipt :: signed_room_receipt
  ye_message :: "send_message_request option"
  ye_withheld :: string

record room_sync_page =
  yp_global_room_id :: string
  yp_control :: "signed_room_control list"
  yp_entries :: "room_sync_entry list"
  yp_through_seq :: int
  yp_more :: bool

abbreviation MaxRoomSyncPage :: int where "MaxRoomSyncPage \<equiv> 200"
abbreviation RoomSyncWithheldTooLarge :: string where "RoomSyncWithheldTooLarge \<equiv> ''too_large''"

record page_sizes =
  pz_page :: "room_sync_page \<Rightarrow> int"
  pz_control :: "signed_room_control \<Rightarrow> int"
  pz_entry :: "room_sync_entry \<Rightarrow> int"
  pz_budget :: int
  pz_transport :: int

section \<open>The home serves a page\<close>

text \<open>The control events of a page: the page so far, its size, and whether the page is full.\<close>

fun sync_control_loop ::
  "page_sizes \<Rightarrow> int \<Rightarrow> int \<Rightarrow> hub_control_record list \<Rightarrow> room_sync_page \<Rightarrow> int \<Rightarrow> room_sync_page \<times> int \<times> bool" where
  "sync_control_loop sizes controlAfter limit [] page used = (page, used, False)"
| "sync_control_loop sizes controlAfter limit (x # xs) page used =
     (if hc_seq x \<le> max controlAfter 0 \<or> hc_seq x > limit
      then sync_control_loop sizes controlAfter limit xs page used
      else
        let more = pz_control sizes (hc_control x) + 1
        in if yp_control page \<noteq> [] \<and> used + more > pz_budget sizes then (page\<lparr>yp_more := True\<rparr>, used, True)
           else sync_control_loop sizes controlAfter limit xs
                  (page\<lparr>yp_control := yp_control page @ [hc_control x]\<rparr>) (used + more))"

text \<open>The receipts a page may carry: a removed member's view ends with its last membership.\<close>

fun served_receipts ::
  "hub_access option \<Rightarrow> hub_receipt_record list \<Rightarrow> hub_receipt_record list \<times> bool" where
  "served_receipts access [] = ([], False)"
| "served_receipts access (x # xs) =
     (if (case access of None \<Rightarrow> False
          | Some a \<Rightarrow> \<not> current_member a \<and> hx_membership_epoch x > lastMemberEpoch a)
      then ([], True)
      else let (served, stopped) = served_receipts access xs in (x # served, stopped))"

definition sync_visible :: "hub_access option \<Rightarrow> hub_receipt_record \<Rightarrow> bool" where
  "sync_visible access x = (case access of None \<Rightarrow> True | Some a \<Rightarrow> messageVisible a (hx_membership_epoch x))"

text \<open>The request the home fans out for a placed message, or nothing when its stored copy is incomplete.\<close>

definition hubSyncMessage ::
  "memory_store \<Rightarrow> hub_room \<Rightarrow> hub_receipt_record list \<Rightarrow> hub_access option \<Rightarrow> string \<Rightarrow>
   (send_message_request option) option" where
  "hubSyncMessage st h receipts access i =
     (let shown = filter (sync_visible access) receipts; ids = map hx_message_id shown
      in if i \<notin> set ids then Some None
         else
           let x = last (filter (\<lambda>x. hx_message_id x = i) shown)
           in case (fmlookup (HubMessagesContext ids st) i, fmlookup (MessageEnvelopesContext ids st) i) of
                (Some m, Some envelope) \<Rightarrow>
                  if env_digest envelope \<noteq> hx_event_id x then Some None
                  else (case hubRelayRequest m h of
                          None \<Rightarrow> None
                        | Some r \<Rightarrow> Some (Some (r\<lparr>smr_envelope := Some (env_envelope envelope), smr_receipt := None\<rparr>)))
              | _ \<Rightarrow> Some None)"

definition fitsTransportAlone :: "page_sizes \<Rightarrow> room_sync_page \<Rightarrow> room_sync_entry \<Rightarrow> int \<Rightarrow> bool" where
  "fitsTransportAlone sizes page entry n \<longleftrightarrow>
     pz_page sizes (page\<lparr>yp_entries := [entry], yp_through_seq := n, yp_more := False\<rparr>) \<le> pz_transport sizes - 1"

fun sync_entry_loop ::
  "page_sizes \<Rightarrow> (string \<Rightarrow> send_message_request option) \<Rightarrow> hub_receipt_record list \<Rightarrow> room_sync_page \<Rightarrow> int \<Rightarrow>
   room_sync_page" where
  "sync_entry_loop sizes messages [] page used = page"
| "sync_entry_loop sizes messages (x # xs) page used =
     (let full = \<lparr>ye_receipt = hx_receipt x, ye_message = messages (hx_message_id x), ye_withheld = []\<rparr>;
          first = (yp_entries page = [] \<and> yp_control page = []);
          entry = (if first \<and> ye_message full \<noteq> None \<and> \<not> fitsTransportAlone sizes page full (hx_room_seq x)
                   then full\<lparr>ye_message := None, ye_withheld := RoomSyncWithheldTooLarge\<rparr> else full);
          more = pz_entry sizes entry + 1
      in if \<not> first \<and> used + more > pz_budget sizes then page\<lparr>yp_more := True\<rparr>
         else sync_entry_loop sizes messages xs
                (page\<lparr>yp_entries := yp_entries page @ [entry], yp_through_seq := hx_room_seq x\<rparr>) (used + more))"

text \<open>The entries of a page: the receipts after the cursor, with the messages the reader may see.\<close>

definition sync_entries ::
  "page_sizes \<Rightarrow> memory_store \<Rightarrow> hub_room \<Rightarrow> hub_access option \<Rightarrow> room_sync_page \<Rightarrow> int \<Rightarrow> send_error + room_sync_page" where
  "sync_entries sizes st h access page used =
     (let receipts = HubReceiptsAfterContext (hr_global_room_id h) HubEpochV1 (yp_through_seq page) (MaxRoomSyncPage + 1) st;
          long = int (length receipts) > MaxRoomSyncPage;
          (served, stopped) = served_receipts access (take (nat MaxRoomSyncPage) receipts);
          messages = hubSyncMessage st h served access
      in if list_ex (\<lambda>x. messages (hx_message_id x) = None) served then Inl (hub_invalid ''global room id'')
         else Inr (sync_entry_loop sizes (\<lambda>i. the (messages i)) served (page\<lparr>yp_more := long \<and> \<not> stopped\<rparr>) used))"

definition HubSyncPageContext ::
  "go_env \<Rightarrow> page_sizes \<Rightarrow> request_context \<Rightarrow> string \<Rightarrow> int \<Rightarrow> int \<Rightarrow> hub_service \<Rightarrow> send_error + room_sync_page" where
  "HubSyncPageContext env sizes ctx g afterSeq controlAfter z =
     (let s = hz_service z; missing = Inl (HubRefused (HubNotFound g));
          records = HubControlLogContext g 0 (hz_store z);
          empty = \<lparr>yp_global_room_id = g, yp_control = [], yp_entries = [], yp_through_seq = max afterSeq 0, yp_more = False\<rparr>;
          serve = (\<lambda>h access limit.
            case sync_control_loop sizes controlAfter limit records empty (pz_page sizes empty) of
              (page, used, True) \<Rightarrow> Inr page
            | (page, used, False) \<Rightarrow> sync_entries sizes (hz_store z) h access page used)
      in if \<not> sv_hubs s then missing
         else case hubRoomByGlobal s g of
                None \<Rightarrow> missing
              | Some h \<Rightarrow>
                  if \<not> IsHome h then missing
                  else (case pairingForPairScopedContext s ctx of
                          None \<Rightarrow>
                            (case requireHubOperator ctx of
                               Some e \<Rightarrow> Inl (HubRefused e)
                             | None \<Rightarrow>
                                 (case replayHubRoster env records 0 of
                                    Inl e \<Rightarrow> Inl (HubRefused (HubLogInvalid e))
                                  | Inr _ \<Rightarrow> serve h None (int (length records))))
                        | Some p \<Rightarrow>
                            (case replayHubRoster env records 0 of
                               Inl e \<Rightarrow> Inl (HubRefused (HubLogInvalid e))
                             | Inr _ \<Rightarrow>
                                 (case hubPeerNetwork z ctx g p of
                                    None \<Rightarrow> missing
                                  | Some network \<Rightarrow>
                                      if network = sv_network_id s then missing
                                      else (case hubAccessFor env records network of
                                              Inl e \<Rightarrow> Inl (HubRefused (HubLogInvalid e))
                                            | Inr access \<Rightarrow>
                                                if controlLimit access = 0 then missing
                                                else serve h (Some access) (controlLimit access))))))"

section \<open>The member verifies a page\<close>

datatype sync_refusal = ShortHead | OtherRoom | WrongSeq | BrokenChain | EpochOutOfOrder | OtherReceipt | Unaccounted

datatype sync_error = SyncRewrites sync_refusal | SyncStatement hub_error | SyncFailed send_error

text \<open>The floor of the epochs: the cursor's, or that of the stored receipt at the cursor.\<close>

definition sync_epoch_floor :: "memory_store \<Rightarrow> string \<Rightarrow> hub_sync_cursor \<Rightarrow> int" where
  "sync_epoch_floor st g cursor =
     (if cur_seq cursor > 0
      then (case HubReceiptsAfterContext g HubEpochV1 (cur_seq cursor - 1) 1 st of
              [x] \<Rightarrow> if hx_room_seq x = cur_seq cursor then max (cur_membership_epoch cursor) (hx_membership_epoch x)
                     else cur_membership_epoch cursor
            | _ \<Rightarrow> cur_membership_epoch cursor)
      else cur_membership_epoch cursor)"

fun sync_chain_loop ::
  "go_env \<Rightarrow> string \<Rightarrow> hub_roster \<Rightarrow> int \<Rightarrow> hub_sync_cursor \<Rightarrow> room_sync_entry list \<Rightarrow> sync_error + hub_sync_cursor" where
  "sync_chain_loop env g roster epoch cursor [] = Inr cursor"
| "sync_chain_loop env g roster epoch cursor (entry # entries) =
     (case VerifyRoomReceipt env (ye_receipt entry) (ros_home_key roster) of
        Inl e \<Rightarrow> Inl (SyncStatement e)
      | Inr (receipt, digest) \<Rightarrow>
          if rr_global_room_id receipt \<noteq> g \<or> rr_hub_epoch receipt \<noteq> HubEpochV1 then Inl (SyncRewrites OtherRoom)
          else if rr_room_seq receipt \<noteq> cur_seq cursor + 1 then Inl (SyncRewrites WrongSeq)
          else if cur_seq cursor > 0 \<and> rr_prev_receipt_hash receipt \<noteq> cur_digest cursor then Inl (SyncRewrites BrokenChain)
          else if rr_membership_epoch receipt < epoch \<or> rr_membership_epoch receipt > ros_epoch roster
          then Inl (SyncRewrites EpochOutOfOrder)
          else if (case ye_message entry of
                     None \<Rightarrow> False
                   | Some r \<Rightarrow> (case smr_receipt r of None \<Rightarrow> False | Some stmt \<Rightarrow> stmt \<noteq> ye_receipt entry))
          then Inl (SyncRewrites OtherReceipt)
          else sync_chain_loop env g roster (rr_membership_epoch receipt)
                 \<lparr>cur_global_room_id = g, cur_seq = rr_room_seq receipt, cur_digest = digest,
                  cur_membership_epoch = rr_membership_epoch receipt\<rparr> entries)"

definition verifySyncChain ::
  "go_env \<Rightarrow> hub_service \<Rightarrow> hub_room \<Rightarrow> hub_sync_cursor \<Rightarrow> room_sync_page \<Rightarrow> sync_error + hub_sync_cursor" where
  "verifySyncChain env z h cursor page =
     (let g = hr_global_room_id h
      in if yp_through_seq page < cur_seq cursor then Inl (SyncRewrites ShortHead)
         else case hubRoster env (hz_service z) h 0 of
                Inl e \<Rightarrow> Inl (SyncStatement e)
              | Inr roster \<Rightarrow>
                  (case sync_chain_loop env g roster (sync_epoch_floor (hz_store z) g cursor) cursor (yp_entries page) of
                     Inl e \<Rightarrow> Inl e
                   | Inr reached \<Rightarrow>
                       if cur_seq reached \<noteq> yp_through_seq page then Inl (SyncRewrites Unaccounted) else Inr reached))"

section \<open>The member stores a page\<close>

definition attachOwnReceipt ::
  "go_env \<Rightarrow> hub_room \<Rightarrow> string \<Rightarrow> signed_room_receipt \<Rightarrow> hub_service \<Rightarrow> send_error option \<times> hub_service" where
  "attachOwnReceipt env h messageID stmt z =
     (case hubRoster env (hz_service z) h 0 of
        Inl e \<Rightarrow> (Some (HubRefused (HubLogInvalid e)), z)
      | Inr roster \<Rightarrow>
          (case VerifyRoomReceipt env stmt (ros_home_key roster) of
             Inl _ \<Rightarrow> (Some (rejected ''invalid room receipt''), z)
           | Inr (receipt, digest) \<Rightarrow>
               (case fmlookup (envelopes (hz_store z)) messageID of
                  None \<Rightarrow> (Some (hub_invalid ''no signed envelope for own message''), z)
                | Some own \<Rightarrow>
                    if (case ParseSignedEnvelope env (env_envelope own) of
                          Inl _ \<Rightarrow> True | Inr (_, eventID) \<Rightarrow> rr_event_id receipt \<noteq> eventID) \<or>
                       rr_global_room_id receipt \<noteq> hr_global_room_id h
                    then (Some (HubRefused (HubConflict (ErrHubReceiptConflict EventPlaced))), z)
                    else (case attachHubReceiptLocked ((receipt_record receipt digest stmt)\<lparr>hx_message_id := messageID\<rparr>)
                                 (hz_store z) of
                            (Some e, st) \<Rightarrow> (Some (SendFailed e), hz_with_store st z)
                          | (None, st) \<Rightarrow> (None, hz_with_store st z)))))"

definition attachOwnSyncReceipt ::
  "go_env \<Rightarrow> hub_room \<Rightarrow> send_message_request \<Rightarrow> signed_room_receipt \<Rightarrow> hub_service \<Rightarrow> send_error option \<times> hub_service" where
  "attachOwnSyncReceipt env h r stmt z =
     (let networkID = sv_network_id (hz_service z)
      in case smr_envelope r of
           None \<Rightarrow> (Some (hub_invalid ''own hub message in sync carries no envelope''), z)
         | Some envelope \<Rightarrow>
             (case ParseSignedEnvelope env envelope of
                Inl _ \<Rightarrow> (Some (rejected ''own hub message in sync has an unusable envelope''), z)
              | Inr (e, _) \<Rightarrow>
                  if me_origin_network_id e \<noteq> networkID
                  then (Some (rejected ''own hub message in sync has an unusable envelope''), z)
                  else (case EnvelopeForOriginContext networkID (me_origin_message_id e) (hz_store z) of
                          None \<Rightarrow> (Some (hub_invalid ''no stored copy of own message''), z)
                        | Some own \<Rightarrow> attachOwnReceipt env h (env_message_id own) stmt z)))"

definition storeSyncMessage ::
  "send_config \<Rightarrow> control_pull \<Rightarrow> request_context \<Rightarrow> hub_room \<Rightarrow> pairing \<Rightarrow> send_message_request \<Rightarrow> signed_room_receipt \<Rightarrow>
   hub_service \<Rightarrow> send_error option \<times> hub_service" where
  "storeSyncMessage cfg pull ctx h p m stmt z =
     (let r0 = stripPeerTestimony m;
          r1 = r0\<lparr>smr_origin := canonicalOriginIDs (smr_origin r0)\<rparr>;
          r = (if smr_receipt r1 = None then r1\<lparr>smr_receipt := Some stmt\<rparr> else r1)
      in if org_network_id (smr_origin r) = sv_network_id (hz_service z)
         then attachOwnSyncReceipt (sc_env cfg) h r stmt z
         else case checkHubIngressFrom (sc_env cfg) z p r of
                Inl e \<Rightarrow> (Some e, z)
              | Inr i \<Rightarrow>
                  (case acceptHubForward cfg pull ctx i False z of
                     (Inl e, z1) \<Rightarrow> (Some e, z1) | (Inr _, z1) \<Rightarrow> (None, z1)))"

text \<open>A 4xx error of the service that is not a contradiction of the receipt history.\<close>

definition service_refusal :: "service_error \<Rightarrow> bool" where
  "service_refusal e = (case e of HubControl _ \<Rightarrow> False | StoreFailed _ \<Rightarrow> False | _ \<Rightarrow> True)"

definition contradicts_receipts :: "store_error \<Rightarrow> bool" where
  "contradicts_receipts e = (case e of ErrHubReceiptConflict _ \<Rightarrow> True | ErrHubSyncRollback _ \<Rightarrow> True | _ \<Rightarrow> False)"

definition syncContentRefusal :: "send_error \<Rightarrow> bool" where
  "syncContentRefusal e =
     (case e of
        SendRefused e' \<Rightarrow> service_refusal e'
      | SendConflict e' \<Rightarrow> \<not> contradicts_receipts e'
      | StaleEpoch _ \<Rightarrow> True
      | HubRefused (HomeRefused e') \<Rightarrow> service_refusal e'
      | HubRefused (HubNotFound _) \<Rightarrow> True
      | HubRefused (HubConflict e') \<Rightarrow> \<not> contradicts_receipts e'
      | _ \<Rightarrow> False)"

fun storeSyncEntries ::
  "send_config \<Rightarrow> control_pull \<Rightarrow> request_context \<Rightarrow> hub_room \<Rightarrow> pairing \<Rightarrow> hub_roster \<Rightarrow> room_sync_entry list \<Rightarrow>
   hub_service \<Rightarrow> send_error option \<times> hub_service" where
  "storeSyncEntries cfg pull ctx h p roster [] z = (None, z)"
| "storeSyncEntries cfg pull ctx h p roster (entry # entries) z =
     (case VerifyRoomReceipt (sc_env cfg) (ye_receipt entry) (ros_home_key roster) of
        Inl _ \<Rightarrow> (Some (rejected ''invalid room receipt''), z)
      | Inr (receipt, digest) \<Rightarrow>
          let (failed, z1) =
                (case ye_message entry of
                   None \<Rightarrow> (None, z)
                 | Some m \<Rightarrow> storeSyncMessage cfg pull ctx h p m (ye_receipt entry) z)
          in if ye_message entry \<noteq> None \<and> failed = None
             then storeSyncEntries cfg pull ctx h p roster entries z1
             else if failed \<noteq> None \<and> \<not> syncContentRefusal (the failed) then (failed, z1)
             else
               let x = (receipt_record receipt digest (ye_receipt entry))
                         \<lparr>hx_withheld := (if ye_message entry = None then ye_withheld entry else [])\<rparr>
               in case storeHubReceiptLocked x (hz_store z1) of
                    (Some (ErrHubReceiptConflict c), st) \<Rightarrow>
                      (Some (HubRefused (HubConflict (ErrHubReceiptConflict c))), hz_with_store st z1)
                  | (Some e, st) \<Rightarrow> (Some (SendFailed e), hz_with_store st z1)
                  | (None, st) \<Rightarrow> storeSyncEntries cfg pull ctx h p roster entries (hz_with_store st z1))"

text \<open>One round of \<open>syncHubRoom\<close>: a page is applied, and whether to ask for the next one.\<close>

definition sync_round ::
  "send_config \<Rightarrow> control_pull \<Rightarrow> request_context \<Rightarrow> hub_room \<Rightarrow> pairing \<Rightarrow> room_sync_page \<Rightarrow> hub_service \<Rightarrow>
   (sync_error + bool) \<times> hub_service" where
  "sync_round cfg pull ctx h p page z =
     (let env = sc_env cfg; g = hr_global_room_id h
      in case hubRoster env (hz_service z) h 0 of
           Inl e \<Rightarrow> (Inl (SyncStatement e), z)
         | Inr roster \<Rightarrow>
             let cursor = HubSyncCursorContext g (hz_store z)
             in if yp_global_room_id page \<noteq> g
                then (Inl (SyncFailed (hub_invalid ''home answered for a different hub room'')), z)
                else case applyPulledControl env h (yp_control page) z of
                       (Inl e, z1) \<Rightarrow> (Inl (SyncFailed e), z1)
                     | (Inr after, z1) \<Rightarrow>
                         (case verifySyncChain env z1 h cursor page of
                            Inl e \<Rightarrow> (Inl e, z1)
                          | Inr reached \<Rightarrow>
                              (case hubRoster env (hz_service z1) h 0 of
                                 Inl e \<Rightarrow> (Inl (SyncStatement e), z1)
                               | Inr current \<Rightarrow>
                                   (case storeSyncEntries cfg pull ctx h p current (yp_entries page) z1 of
                                      (Some e, z2) \<Rightarrow> (Inl (SyncFailed e), z2)
                                    | (None, z2) \<Rightarrow>
                                        (case (if cur_seq reached > cur_seq cursor
                                               then advanceHubSyncCursorLocked reached (hz_store z2) else (None, hz_store z2)) of
                                           (Some e, st) \<Rightarrow> (Inl (SyncFailed (SendFailed e)), hz_with_store st z2)
                                         | (None, st) \<Rightarrow>
                                             (Inr (yp_more page \<and>
                                                   \<not> (cur_seq reached = cur_seq cursor \<and> ros_epoch after = ros_epoch roster)),
                                              hz_with_store st z2))))))"

text \<open>The rounds of a catch-up, one for each answer of the home.\<close>

fun sync_rounds ::
  "send_config \<Rightarrow> control_pull \<Rightarrow> request_context \<Rightarrow> hub_room \<Rightarrow> pairing \<Rightarrow> (send_error + room_sync_page) list \<Rightarrow>
   hub_service \<Rightarrow> sync_error option \<times> hub_service" where
  "sync_rounds cfg pull ctx h p [] z = (None, z)"
| "sync_rounds cfg pull ctx h p (Inl e # answers) z = (Some (SyncFailed e), z)"
| "sync_rounds cfg pull ctx h p (Inr page # answers) z =
     (case sync_round cfg pull ctx h p page z of
        (Inl e, z1) \<Rightarrow> (Some e, z1)
      | (Inr again, z1) \<Rightarrow> if again then sync_rounds cfg pull ctx h p answers z1 else (None, z1))"

definition syncHubRoom ::
  "send_config \<Rightarrow> control_pull \<Rightarrow> request_context \<Rightarrow> hub_room \<Rightarrow> (send_error + room_sync_page) list \<Rightarrow> hub_service \<Rightarrow>
   sync_error option \<times> hub_service" where
  "syncHubRoom cfg pull ctx h answers z =
     (if IsHome h then (None, z)
      else case findPairingByID (hz_service z) (hr_home_pairing_id h) of
             Inl e \<Rightarrow> (Some (SyncFailed (SendRefused e)), z)
           | Inr p \<Rightarrow> sync_rounds cfg pull ctx h p answers z)"

end
