(* ===== verification/Hub_Sync_Properties.thy ===== *)
theory Hub_Sync_Properties
  imports Hub_Sync
begin

text \<open>
  A page of a hub room's history between the two ends: what a member knows once it verified one,
  and that it verifies every page an honest home serves.
\<close>

section \<open>What a verified page shows\<close>

text \<open>
  The receipts of the entries under a key, with their digests: each the next of the room after a
  sequence number, chained to the digest before it, in epoch order up to a limit.
\<close>

definition receipts_chained ::
  "string \<Rightarrow> hub_sync_cursor \<Rightarrow> int \<Rightarrow> (room_receipt \<times> string) list \<Rightarrow> bool" where
  "receipts_chained g cursor limit rs \<longleftrightarrow>
     (\<forall>i < length rs.
        let r = fst (rs ! i)
        in rr_global_room_id r = g \<and> rr_hub_epoch r = HubEpochV1 \<and> rr_room_seq r = cur_seq cursor + 1 + int i \<and>
           (0 < cur_seq cursor + int i \<longrightarrow>
              rr_prev_receipt_hash r = (if i = 0 then cur_digest cursor else snd (rs ! (i - 1)))) \<and>
           cur_membership_epoch cursor \<le> rr_membership_epoch r \<and> rr_membership_epoch r \<le> limit) \<and>
     sorted (map (rr_membership_epoch \<circ> fst) rs)"

lemma receipts_chained_Nil: "receipts_chained g cursor limit []"
  by (simp add: receipts_chained_def)

definition cursor_after :: "string \<Rightarrow> room_receipt \<times> string \<Rightarrow> hub_sync_cursor" where
  "cursor_after g x = \<lparr>cur_global_room_id = g, cur_seq = rr_room_seq (fst x), cur_digest = snd x,
     cur_membership_epoch = rr_membership_epoch (fst x)\<rparr>"

lemma receipts_chained_Cons:
  assumes head: "rr_global_room_id (fst x) = g" "rr_hub_epoch (fst x) = HubEpochV1" "rr_room_seq (fst x) = cur_seq cursor + 1"
      "0 < cur_seq cursor \<longrightarrow> rr_prev_receipt_hash (fst x) = cur_digest cursor"
      "cur_membership_epoch cursor \<le> rr_membership_epoch (fst x)" "rr_membership_epoch (fst x) \<le> limit"
    and rest: "receipts_chained g (cursor_after g x) limit rs" and start: "0 \<le> cur_seq cursor"
  shows "receipts_chained g cursor limit (x # rs)"
proof -
  have ge: "rr_membership_epoch (fst x) \<le> rr_membership_epoch (fst y)" if "y \<in> set rs" for y
    using rest that by (auto simp: receipts_chained_def Let_def cursor_after_def in_set_conv_nth)
  have "let r = fst ((x # rs) ! i)
        in rr_global_room_id r = g \<and> rr_hub_epoch r = HubEpochV1 \<and> rr_room_seq r = cur_seq cursor + 1 + int i \<and>
           (0 < cur_seq cursor + int i \<longrightarrow>
              rr_prev_receipt_hash r = (if i = 0 then cur_digest cursor else snd ((x # rs) ! (i - 1)))) \<and>
           cur_membership_epoch cursor \<le> rr_membership_epoch r \<and> rr_membership_epoch r \<le> limit"
    if "i < length (x # rs)" for i
  proof (cases i)
    case 0
    with head show ?thesis by simp
  next
    case (Suc j)
    with that have "j < length rs" by simp
    with rest head(3,5) start Suc show ?thesis
      by (cases j) (auto simp: receipts_chained_def Let_def cursor_after_def)
  qed
  moreover have "sorted (map (rr_membership_epoch \<circ> fst) (x # rs))"
    using rest ge by (simp add: receipts_chained_def)
  ultimately show ?thesis unfolding receipts_chained_def by blast
qed

lemma sync_chain_loop_verified:
  assumes "sync_chain_loop env g roster epoch cursor entries = Inr reached" "0 \<le> cur_seq cursor"
    "cur_membership_epoch cursor \<le> epoch"
  shows "\<exists>rs. map (\<lambda>e. VerifyRoomReceipt env (ye_receipt e) (ros_home_key roster)) entries = map Inr rs \<and>
    receipts_chained g cursor (ros_epoch roster) rs \<and> reached = (if rs = [] then cursor else cursor_after g (last rs))"
  using assms
proof (induction entries arbitrary: epoch cursor)
  case Nil
  then show ?case by (auto simp: receipts_chained_Nil intro: exI [of _ "[]"])
next
  case (Cons e entries)
  obtain receipt digest where v: "VerifyRoomReceipt env (ye_receipt e) (ros_home_key roster) = Inr (receipt, digest)"
    using Cons.prems(1) by (auto split: sum.splits)
  let ?next = "cursor_after g (receipt, digest)"
  have head: "rr_global_room_id receipt = g" "rr_hub_epoch receipt = HubEpochV1" "rr_room_seq receipt = cur_seq cursor + 1"
      "0 < cur_seq cursor \<longrightarrow> rr_prev_receipt_hash receipt = cur_digest cursor"
      "epoch \<le> rr_membership_epoch receipt" "rr_membership_epoch receipt \<le> ros_epoch roster"
    and loop: "sync_chain_loop env g roster (rr_membership_epoch receipt) ?next entries = Inr reached"
    using Cons.prems(1) by (auto simp: v cursor_after_def split: if_splits)
  have "0 \<le> cur_seq ?next" "cur_membership_epoch ?next \<le> rr_membership_epoch receipt"
    using head(3) Cons.prems(2) by (simp_all add: cursor_after_def)
  from Cons.IH [OF loop this] obtain rs where rs:
      "map (\<lambda>e. VerifyRoomReceipt env (ye_receipt e) (ros_home_key roster)) entries = map Inr rs"
      "receipts_chained g ?next (ros_epoch roster) rs" "reached = (if rs = [] then ?next else cursor_after g (last rs))"
    by blast
  have "receipts_chained g cursor (ros_epoch roster) ((receipt, digest) # rs)"
    using head Cons.prems(2,3) by (intro receipts_chained_Cons rs(2)) auto
  then show ?case using v rs(1,3) by (intro exI [of _ "(receipt, digest) # rs"]) auto
qed

lemma receipts_chained_last:
  assumes "receipts_chained g cursor limit rs" "rs \<noteq> []"
  shows "rr_room_seq (fst (last rs)) = cur_seq cursor + int (length rs)"
    "cur_membership_epoch cursor \<le> rr_membership_epoch (fst (last rs))"
proof -
  have "int (length rs - 1) = int (length rs) - 1" using assms(2) by (cases rs) simp_all
  with assms show "rr_room_seq (fst (last rs)) = cur_seq cursor + int (length rs)"
    "cur_membership_epoch cursor \<le> rr_membership_epoch (fst (last rs))"
    by (auto simp: receipts_chained_def last_conv_nth Let_def)
qed

lemma epoch_floor: "cur_membership_epoch cursor \<le> sync_epoch_floor st g cursor"
  by (auto simp: sync_epoch_floor_def split: list.splits)

lemma verify_chain:
  assumes "verifySyncChain env z h cursor page = Inr reached" "0 \<le> cur_seq cursor"
  obtains roster rs where "hubRoster env (hz_service z) h 0 = Inr roster"
    "map (\<lambda>e. VerifyRoomReceipt env (ye_receipt e) (ros_home_key roster)) (yp_entries page) = map Inr rs"
    "receipts_chained (hr_global_room_id h) cursor (ros_epoch roster) rs"
    "reached = (if rs = [] then cursor else cursor_after (hr_global_room_id h) (last rs))"
    "cur_seq reached = yp_through_seq page"
proof -
  obtain roster where r: "hubRoster env (hz_service z) h 0 = Inr roster"
      "sync_chain_loop env (hr_global_room_id h) roster (sync_epoch_floor (hz_store z) (hr_global_room_id h) cursor) cursor
        (yp_entries page) = Inr reached" "cur_seq reached = yp_through_seq page"
    using assms(1) by (auto simp: verifySyncChain_def Let_def split: if_splits sum.splits)
  from sync_chain_loop_verified [OF r(2) assms(2) epoch_floor] that r(1,3) show ?thesis by blast
qed

text \<open>
  C4.
  A page of history a member accepts carries the room as the home signed it, with nothing left
  out: every entry's receipt verifies under the home's key of the member's own control log, the
  receipts continue the chain from the member's cursor without a gap, each naming the digest of the
  one before, their membership epochs never step back nor run ahead of the log, the page accounts
  for every sequence number it claims, and the cursor it reaches is one the store takes.
\<close>
theorem verified_page_extends_chain:
  assumes "verifySyncChain env z h cursor page = Inr reached" and "0 \<le> cur_seq cursor"
  shows "\<exists>roster rs. hubRoster env (hz_service z) h 0 = Inr roster \<and>
    map (\<lambda>e. VerifyRoomReceipt env (ye_receipt e) (ros_home_key roster)) (yp_entries page) = map Inr rs \<and>
    receipts_chained (hr_global_room_id h) cursor (ros_epoch roster) rs \<and>
    yp_through_seq page = cur_seq cursor + int (length rs) \<and> cur_seq reached = yp_through_seq page \<and>
    checkCursorAdvance cursor reached = Inr (rs \<noteq> [])"
proof -
  obtain roster rs where r: "hubRoster env (hz_service z) h 0 = Inr roster"
    "map (\<lambda>e. VerifyRoomReceipt env (ye_receipt e) (ros_home_key roster)) (yp_entries page) = map Inr rs"
    "receipts_chained (hr_global_room_id h) cursor (ros_epoch roster) rs"
    "reached = (if rs = [] then cursor else cursor_after (hr_global_room_id h) (last rs))"
    "cur_seq reached = yp_through_seq page"
    by (rule verify_chain [OF assms])
  have "cur_seq reached = cur_seq cursor + int (length rs)" "cur_membership_epoch cursor \<le> cur_membership_epoch reached"
      "rs = [] \<Longrightarrow> reached = cursor"
    using receipts_chained_last [OF r(3)] r(4) by (cases "rs = []"; simp add: cursor_after_def)+
  with r show ?thesis by (auto simp: checkCursorAdvance_def)
qed

end
