(* ===== verification/Receipt_Statements.thy ===== *)
theory Receipt_Statements
  imports Hub_Statements
begin

text \<open>
  Room receipts and admissions as signed statements (\<open>pkg/protocol/hub_signing.go\<close>,
  \<open>hub_admission.go\<close>): what the signer signs is what every verifier reads.
\<close>

section \<open>Flat statements\<close>

text \<open>An object whose keys are among sorted ones, once it has canonical bytes, is canonical.\<close>

lemma flat_bytes_canonical:
  assumes "CanonicalJSONBytes fmt (JObj fs) = Some bytes" and "flat fs"
    and "subseq (map fst fs) ks" and "sorted_wrt utf16Less ks"
  shows "canonical (JObj fs)"
proof -
  have "normalize_fields fs \<noteq> None"
    using assms(1) by (auto simp: CanonicalJSONBytes_def CanonicalJSONString_def)
  with assms(2-4) show ?thesis by (simp add: flat_canonical subseq_sorted_wrt)
qed

lemma receipt_canonical:
  assumes "CanonicalJSONBytes fmt (roomReceiptValue r) = Some bytes"
  shows "canonical (roomReceiptValue r)"
  unfolding roomReceiptValue_def
  by (rule flat_bytes_canonical [OF assms [unfolded roomReceiptValue_def], where
      ks = "[''event_id'', ''global_room_id'', ''hub_epoch'', ''membership_epoch'', ''prev_receipt_hash'', ''room_seq'', ''v'']"])
    (simp_all add: putString_def utf16Less_def utf16_units_ascii byte_in_def)

lemma admission_canonical:
  assumes "CanonicalJSONBytes fmt (roomAdmissionValue a) = Some bytes"
  shows "canonical (roomAdmissionValue a)"
  unfolding roomAdmissionValue_def
  by (rule flat_bytes_canonical [OF assms [unfolded roomAdmissionValue_def], where
      ks = "[''created_at'', ''fingerprint'', ''global_room_id'', ''network_id'', ''public_key'', ''v'']"])
    (simp_all add: utf16Less_def utf16_units_ascii byte_in_def)

lemma receipt_named: "plain_name k \<Longrightarrow> field_named receipt_fields k = find (\<lambda>f. fst f = k) receipt_fields"
  by (rule field_named_plain) (simp_all add: receipt_fields_def plain_name_def byte_in_def)

lemma receipt_decoded:
  assumes "int64 (rr_hub_epoch r)" "int64 (rr_membership_epoch r)" "int64 (rr_room_seq r)"
  shows "\<exists>m. decode_struct receipt_fields (roomReceiptValue r) = Some m \<and> receipt_of m = r"
proof -
  have names: "field_named receipt_fields ''event_id'' = Some (''event_id'', TextField)"
    "field_named receipt_fields ''global_room_id'' = Some (''global_room_id'', TextField)"
    "field_named receipt_fields ''hub_epoch'' = Some (''hub_epoch'', IntField)"
    "field_named receipt_fields ''membership_epoch'' = Some (''membership_epoch'', IntField)"
    "field_named receipt_fields ''prev_receipt_hash'' = Some (''prev_receipt_hash'', TextField)"
    "field_named receipt_fields ''room_seq'' = Some (''room_seq'', IntField)"
    "field_named receipt_fields ''v'' = Some (''v'', TextField)"
    by (subst receipt_named; simp add: plain_name_def byte_in_def receipt_fields_def)+
  show ?thesis
    unfolding roomReceiptValue_def decode_struct_def
    by (simp add: names decode_put decode_known assms receipt_of_def del: decode_fields.simps(2))
qed

lemma admission_named: "plain_name k \<Longrightarrow> field_named admission_fields k = find (\<lambda>f. fst f = k) admission_fields"
  by (rule field_named_plain) (simp_all add: admission_fields_def plain_name_def byte_in_def)

lemma admission_decoded:
  "\<exists>m. decode_struct admission_fields (roomAdmissionValue a) = Some m \<and> admission_of m = a"
proof -
  have names: "field_named admission_fields ''created_at'' = Some (''created_at'', TextField)"
    "field_named admission_fields ''fingerprint'' = Some (''fingerprint'', TextField)"
    "field_named admission_fields ''global_room_id'' = Some (''global_room_id'', TextField)"
    "field_named admission_fields ''network_id'' = Some (''network_id'', TextField)"
    "field_named admission_fields ''public_key'' = Some (''public_key'', TextField)"
    "field_named admission_fields ''v'' = Some (''v'', TextField)"
    by (subst admission_named; simp add: plain_name_def byte_in_def admission_fields_def)+
  show ?thesis
    unfolding roomAdmissionValue_def decode_struct_def
    by (simp add: names decode_known admission_of_def del: decode_fields.simps(2))
qed

section \<open>Signing and verifying\<close>

text \<open>
  A receipt the home signs with its key is a receipt every member that knows the key verifies, and
  it reads the very place in the room's order, epoch and chain hash that were signed, together with
  the digest the home chains the next receipt to.
\<close>
lemma receipt_sign_verify:
  assumes "SignRoomReceipt env r sign = Inr (stmt, digest)" and "signer_for env key sign"
  shows "VerifyRoomReceipt env stmt key = Inr (r, digest)"
proof -
  obtain bytes where shape: "validateRoomReceiptShape r = None"
    and bytes: "CanonicalJSONBytes (ge_format env) (roomReceiptValue r) = Some bytes"
    and digest: "digest = domainDigest roomReceiptDigestDomain bytes"
    and stmt: "stmt = \<lparr>srr_receipt = EncodeToString bytes,
      srr_signature = EncodeToString (sign (roomReceiptSignatureDomain @ digest))\<rparr>"
    using assms(1) by (auto simp: SignRoomReceipt_def Let_def split: option.splits)
  have can: "canonical (roomReceiptValue r)" by (rule receipt_canonical [OF bytes])
  have written: "bytes = writeCanonicalJSONValue (ge_format env) (roomReceiptValue r)"
    using bytes canonical_read(1) [OF can] by simp
  have "int64 (rr_hub_epoch r)" "int64 (rr_membership_epoch r)" "int64 (rr_room_seq r)"
    using can by (auto simp: roomReceiptValue_def intro!: safe_int64)
  then obtain m where m: "decode_struct receipt_fields (roomReceiptValue r) = Some m" "receipt_of m = r"
    using receipt_decoded by blast
  have "parseStrictCanonical env receipt_fields (EncodeToString bytes) = Some (bytes, m)"
    using parse_encoded [OF can m(1), of env] by (simp add: written)
  then show ?thesis using verify_signed [OF assms(2)]
    by (simp add: VerifyRoomReceipt_def stmt m(2) shape bytes digest Let_def)
qed

lemma admission_sign_verify:
  assumes "SignRoomAdmission env a sign = Inr stmt"
    and "ParseNetworkPublicKey (ra_public_key a) = Some key" and "signer_for env key sign"
  shows "VerifyRoomAdmission env stmt = Inr a"
proof -
  obtain bytes where shape: "validateRoomAdmission a = None"
    and bytes: "CanonicalJSONBytes (ge_format env) (roomAdmissionValue a) = Some bytes"
    and stmt: "stmt = \<lparr>sra_admission = EncodeToString bytes,
      sra_signature = EncodeToString (sign (roomAdmissionSignatureDomain @ domainDigest roomAdmissionDigestDomain bytes))\<rparr>"
    using assms(1) by (auto simp: SignRoomAdmission_def Let_def split: option.splits)
  have can: "canonical (roomAdmissionValue a)" by (rule admission_canonical [OF bytes])
  have written: "bytes = writeCanonicalJSONValue (ge_format env) (roomAdmissionValue a)"
    using bytes canonical_read(1) [OF can] by simp
  obtain m where m: "decode_struct admission_fields (roomAdmissionValue a) = Some m" "admission_of m = a"
    using admission_decoded by blast
  have "parseStrictCanonical env admission_fields (EncodeToString bytes) = Some (bytes, m)"
    using parse_encoded [OF can m(1), of env] by (simp add: written)
  then show ?thesis using verify_signed [OF assms(3)]
    by (simp add: VerifyRoomAdmission_def stmt m(2) shape bytes assms(2) Let_def)
qed

definition sample_room_receipt :: room_receipt where
  "sample_room_receipt =
     \<lparr>rr_v = RoomReceiptVersionV1, rr_global_room_id = ''sha256:'' @ replicate 64 (CHR ''0'') @ ''/research'',
      rr_hub_epoch = 1, rr_membership_epoch = 2, rr_room_seq = 1, rr_event_id = replicate 64 (CHR ''a''),
      rr_prev_receipt_hash = []\<rparr>"

lemma sample_receipt_signed: "\<exists>stmt digest. SignRoomReceipt sample_env sample_room_receipt sign = Inr (stmt, digest)"
proof -
  have "canonical (roomReceiptValue sample_room_receipt)"
    by (simp add: roomReceiptValue_def putString_def sample_room_receipt_def ascii_valid utf16Less_def utf16_units_ascii
        byte_in_def list_all_replicate)
  moreover have "validateRoomReceiptShape sample_room_receipt = None"
    using sample_room by (simp add: validateRoomReceiptShape_def sample_room_receipt_def Let_def list_all_replicate hex_digit_def)
  ultimately show ?thesis
    using canonical_read(1) by (simp add: SignRoomReceipt_def Let_def)
qed

lemma sample_receipt_verifies:
  "case SignRoomReceipt sample_env sample_room_receipt (\<lambda>_. replicate 64 (CHR ''s'')) of
     Inl _ \<Rightarrow> False
   | Inr (stmt, digest) \<Rightarrow> VerifyRoomReceipt sample_env stmt (replicate 32 (CHR ''k'')) = Inr (sample_room_receipt, digest)"
  using sample_receipt_signed [of "\<lambda>_. replicate 64 (CHR ''s'')"] receipt_sign_verify [OF _ sample_signer] by force

end
