(* ===== verification/Hub_Sync_Service.thy ===== *)
theory Hub_Sync_Service
  imports Hub_Sync_Properties Receipt_Statements
begin

text \<open>
  The pages an honest home serves are the pages a member verifies: the receipts of the home as a
  signed chain, the part of it a page carries, and the checks of the member on that part.
\<close>

section \<open>The chain a home signed\<close>

definition home_signed :: "go_env \<Rightarrow> string \<Rightarrow> hub_receipt_record \<Rightarrow> bool" where
  "home_signed env key x \<longleftrightarrow>
     (\<exists>r. VerifyRoomReceipt env (hx_receipt x) key = Inr (r, hx_digest x) \<and>
        rr_global_room_id r = hx_global_room_id x \<and> rr_hub_epoch r = hx_hub_epoch x \<and>
        rr_membership_epoch r = hx_membership_epoch x \<and> rr_room_seq r = hx_room_seq x \<and>
        rr_prev_receipt_hash r = hx_prev_digest x)"

definition home_chain :: "go_env \<Rightarrow> string \<Rightarrow> string \<Rightarrow> hub_receipt_record list \<Rightarrow> bool" where
  "home_chain env key g xs \<longleftrightarrow>
     receipts_inv xs \<and>
     (\<forall>x \<in> set xs. in_line g x \<longrightarrow> home_signed env key x \<and>
        (hx_room_seq x = 1 \<or> (\<exists>y \<in> set xs. in_line g y \<and> hx_room_seq y = hx_room_seq x - 1)))"

lemma verified_shape: "VerifyRoomReceipt env stmt key = Inr (r, d) \<Longrightarrow> validateRoomReceiptShape r = None"
  by (auto simp: VerifyRoomReceipt_def Let_def split: option.splits if_splits)

lemma home_signed_positive:
  assumes "home_signed env key x" shows "1 \<le> hx_room_seq x" "1 \<le> hx_membership_epoch x"
proof -
  obtain r where "VerifyRoomReceipt env (hx_receipt x) key = Inr (r, hx_digest x)"
    and r: "rr_membership_epoch r = hx_membership_epoch x" "rr_room_seq r = hx_room_seq x"
    using assms by (auto simp: home_signed_def)
  then have "validateRoomReceiptShape r = None" by (auto intro: verified_shape)
  with r show "1 \<le> hx_room_seq x" "1 \<le> hx_membership_epoch x"
    by (auto simp: validateRoomReceiptShape_def Let_def split: if_splits)
qed

lemma compatible_message_id [simp]:
  "compatible (x\<lparr>hx_message_id := i\<rparr>) y = compatible x y" "compatible x (y\<lparr>hx_message_id := i\<rparr>) = compatible x y"
  "place (x\<lparr>hx_message_id := i\<rparr>) = place x"
  by (simp_all add: compatible_def same_line_def place_def)

lemma nextHubReceipt_verifies:
  assumes new: "nextHubReceipt env z h epoch eventID = Inr r" and signer: "signer_for env key (id_sign (the (hz_identity z)))"
  shows "VerifyRoomReceipt env (hx_receipt r) key = Inr (next_room_receipt (hz_store z) h epoch eventID, hx_digest r)"
proof -
  let ?r = "next_room_receipt (hz_store z) h epoch eventID"
  obtain stmt digest where s: "SignRoomReceipt env ?r (id_sign (the (hz_identity z))) = Inr (stmt, digest)"
    and "hx_receipt r = stmt" "hx_digest r = digest"
    using new by (auto simp: nextHubReceipt_def Let_def split: sum.splits)
  with receipt_sign_verify [OF s signer] show ?thesis by simp
qed

lemma nextHubReceipt_signed:
  assumes new: "nextHubReceipt env z h epoch eventID = Inr r" and signer: "signer_for env key (id_sign (the (hz_identity z)))"
  shows "home_signed env key r"
proof -
  let ?r = "next_room_receipt (hz_store z) h epoch eventID"
  have "rr_global_room_id ?r = hr_global_room_id h"
    by (simp add: next_room_receipt_def Let_def split: option.splits)
  moreover have "hx_global_room_id r = hr_global_room_id h" "hx_hub_epoch r = rr_hub_epoch ?r"
    "hx_membership_epoch r = rr_membership_epoch ?r" "hx_room_seq r = rr_room_seq ?r" "hx_prev_digest r = rr_prev_receipt_hash ?r"
    using new by (auto simp: nextHubReceipt_def Let_def split: sum.splits)
  ultimately show ?thesis using nextHubReceipt_verifies [OF new signer] by (simp add: home_signed_def)
qed

text \<open>Placing the next message keeps the chain.\<close>

lemma home_chain_next:
  assumes chain: "home_chain env key g (hs_receipts (hub (hz_store z)))"
    and h: "hr_global_room_id h = g" and new: "nextHubReceipt env z h epoch eventID = Inr r"
    and signer: "signer_for env key (id_sign (the (hz_identity z)))"
    and inv: "receipts_inv (hs_receipts (hub (hz_store z)) @ [r\<lparr>hx_message_id := i\<rparr>])"
  shows "home_chain env key g (hs_receipts (hub (hz_store z)) @ [r\<lparr>hx_message_id := i\<rparr>])"
proof -
  note f = nextHubReceipt_fields [OF new]
  have signed: "home_signed env key (r\<lparr>hx_message_id := i\<rparr>)"
    using nextHubReceipt_signed [OF new signer] by (simp add: home_signed_def)
  have "hx_room_seq r = 1 \<or> (\<exists>y \<in> set (hs_receipts (hub (hz_store z))). in_line g y \<and> hx_room_seq y = hx_room_seq r - 1)"
    using f(4) receipt_head [of g "hz_store z"] h
    by (auto simp: finds_max_def finds_def split: option.splits)
  with chain inv signed show ?thesis unfolding home_chain_def by auto
qed

section \<open>The receipts after a cursor\<close>

lemma consecutive:
  assumes "sorted (map f xs)" "distinct (map f xs)" "\<And>x. x \<in> set xs \<Longrightarrow> a < f x"
    "\<And>x. x \<in> set xs \<Longrightarrow> f x = a + 1 \<or> (\<exists>y \<in> set xs. f y = f x - (1 :: int))"
  shows "map f xs = [a + 1..a + int (length xs)]"
  using assms
proof (induction xs arbitrary: a)
  case Nil
  then show ?case by simp
next
  case (Cons x xs)
  have least: "f x \<le> f y" if "y \<in> set xs" for y using Cons.prems(1) that by simp
  have fx: "f x = a + 1"
  proof (rule ccontr)
    assume "f x \<noteq> a + 1"
    with Cons.prems(4) [of x] obtain y where "y \<in> set (x # xs)" "f y = f x - 1" by auto
    with least [of y] show False by auto
  qed
  have "map f xs = [(a + 1) + 1..(a + 1) + int (length xs)]"
  proof (rule Cons.IH)
    show "sorted (map f xs)" "distinct (map f xs)" using Cons.prems(1,2) by simp_all
    show above: "a + 1 < f y" if "y \<in> set xs" for y
      using least [OF that] Cons.prems(2) that fx by (metis distinct.simps(2) image_eqI le_less list.set_map list.simps(9))
    show "f y = a + 1 + 1 \<or> (\<exists>z \<in> set xs. f z = f y - 1)" if "y \<in> set xs" for y
      using Cons.prems(4) [of y] above [OF that] that fx by auto
  qed
  then show ?case using fx upto_rec1 [of "a + 1" "a + int (length (x # xs))"] by (simp add: algebra_simps)
qed

lemma take_consecutive: "take n [a + 1..a + int k] = [a + 1..a + int (min n k)]"
proof -
  have same: "take n [a + 1..a + int k] ! i = [a + 1..a + int (min n k)] ! i" if i: "i < min n k" for i
  proof -
    have le: "(a + 1) + int i \<le> a + int k" "(a + 1) + int i \<le> a + int (min n k)" "i < n" using i by linarith+
    show ?thesis unfolding nth_take [OF le(3)] nth_upto [OF le(1)] nth_upto [OF le(2)] ..
  qed
  show ?thesis by (rule nth_equalityI) (simp, rule same, simp)
qed

lemma limited_take: "\<exists>n. (let r = xs in if P r then take m r else r) = take n xs"
  by (cases "P xs") (auto intro: exI [of _ m] exI [of _ "length xs"])

text \<open>A cursor on the home's chain: before its first receipt, or at one of them.\<close>

definition cursor_of :: "hub_receipt_record \<Rightarrow> hub_sync_cursor" where
  "cursor_of x = \<lparr>cur_global_room_id = hx_global_room_id x, cur_seq = hx_room_seq x, cur_digest = hx_digest x,
     cur_membership_epoch = hx_membership_epoch x\<rparr>"

definition cursor_on :: "string \<Rightarrow> hub_receipt_record list \<Rightarrow> hub_sync_cursor \<Rightarrow> bool" where
  "cursor_on g xs cursor \<longleftrightarrow>
     cursor = zero_cursor\<lparr>cur_global_room_id := g\<rparr> \<or> (\<exists>x \<in> set xs. in_line g x \<and> cursor = cursor_of x)"

lemma zero_cursor_simps [simp]: "cur_seq zero_cursor = 0" "cur_membership_epoch zero_cursor = 0"
  by (simp_all add: zero_cursor_def)

lemma cursor_on_seq:
  assumes "cursor_on g xs cursor" "home_chain env key g xs" shows "0 \<le> cur_seq cursor"
  using assms home_signed_positive(1) by (fastforce simp: cursor_on_def home_chain_def cursor_of_def)

lemma receipts_after:
  fixes limit :: int
  assumes chain: "home_chain env key g (hs_receipts (hub st))" and cursor: "cursor_on g (hs_receipts (hub st)) cursor"
  defines "ys \<equiv> HubReceiptsAfterContext g HubEpochV1 (cur_seq cursor) limit st"
  shows "map hx_room_seq ys = [cur_seq cursor + 1..cur_seq cursor + int (length ys)]"
    "set ys \<subseteq> {x \<in> set (hs_receipts (hub st)). in_line g x}"
proof -
  let ?rs = "hs_receipts (hub st)"
  let ?all = "sort_key hx_room_seq (filter (\<lambda>x. hx_global_room_id x = g \<and> hx_hub_epoch x = 1 \<and> hx_room_seq x > cur_seq cursor) ?rs)"
  have set_all: "set ?all = {x \<in> set ?rs. in_line g x \<and> cur_seq cursor < hx_room_seq x}"
    by (auto simp: in_line_def)
  have inv: "receipts_inv ?rs" using chain by (simp add: home_chain_def)
  have seqs: "map hx_room_seq ?all = [cur_seq cursor + 1..cur_seq cursor + int (length ?all)]"
  proof (rule consecutive)
    show "sorted (map hx_room_seq ?all)" by simp
    have "distinct (map place ?rs)" using inv by (simp add: receipts_inv_def)
    then have "distinct ?all" by (auto simp: distinct_map)
    moreover have "inj_on hx_room_seq (set ?all)"
    proof (rule inj_onI)
      fix x y assume "x \<in> set ?all" "y \<in> set ?all" and s: "hx_room_seq x = hx_room_seq y"
      then have "x \<in> set ?rs" "y \<in> set ?rs" "place x = place y"
        unfolding set_all using s by (auto simp: in_line_def place_def)
      then show "x = y" using place_unique [OF inv] by blast
    qed
    ultimately show "distinct (map hx_room_seq ?all)" by (simp add: distinct_map)
    show "cur_seq cursor < hx_room_seq x" if "x \<in> set ?all" for x using that by simp
    show "hx_room_seq x = cur_seq cursor + 1 \<or> (\<exists>y \<in> set ?all. hx_room_seq y = hx_room_seq x - 1)" if "x \<in> set ?all" for x
    proof -
      have x: "x \<in> set ?rs" "in_line g x" "cur_seq cursor < hx_room_seq x" using that unfolding set_all by auto
      have ge: "0 \<le> cur_seq cursor" by (rule cursor_on_seq [OF cursor chain])
      show ?thesis
      proof (cases "hx_room_seq x = cur_seq cursor + 1")
        case False
        with x ge chain obtain y where "y \<in> set ?rs" "in_line g y" "hx_room_seq y = hx_room_seq x - 1"
          by (auto simp: home_chain_def)
        then show ?thesis unfolding set_all using False x(3) by auto
      qed simp
    qed
  qed
  have "\<exists>n. ys = take n ?all"
    unfolding ys_def HubReceiptsAfterContext_def by (rule limited_take)
  then obtain n where n: "ys = take n ?all" ..
  have "map hx_room_seq ys = take n (map hx_room_seq ?all)" unfolding n by (rule take_map [symmetric])
  also have "\<dots> = take n [cur_seq cursor + 1..cur_seq cursor + int (length ?all)]" by (rule arg_cong [OF seqs])
  also have "\<dots> = [cur_seq cursor + 1..cur_seq cursor + int (min n (length ?all))]" by (rule take_consecutive)
  also have "min n (length ?all) = length ys" unfolding n length_take by (rule min.commute)
  finally show "map hx_room_seq ys = [cur_seq cursor + 1..cur_seq cursor + int (length ys)]" .
  show "set ys \<subseteq> {x \<in> set ?rs. in_line g x}"
    using set_take_subset [of n ?all] unfolding n set_all by blast
qed

section \<open>The member's checks on such receipts\<close>

definition plain_entry :: "room_sync_entry \<Rightarrow> bool" where
  "plain_entry e \<longleftrightarrow> (case ye_message e of None \<Rightarrow> True | Some r \<Rightarrow> smr_receipt r = None)"

lemma chain_loop_accepts:
  assumes chain: "home_chain env (ros_home_key roster) g rs"
    and "map ye_receipt entries = map hx_receipt ys" "set ys \<subseteq> {x \<in> set rs. in_line g x}"
    "map hx_room_seq ys = [cur_seq cursor + 1..cur_seq cursor + int (length ys)]" "cursor_on g rs cursor"
    "epoch \<le> cur_membership_epoch cursor" "\<forall>x \<in> set ys. hx_membership_epoch x \<le> ros_epoch roster"
    "list_all plain_entry entries"
  shows "sync_chain_loop env g roster epoch cursor entries = Inr (if ys = [] then cursor else cursor_of (last ys))"
  using assms(2-)
proof (induction ys arbitrary: entries epoch cursor)
  case Nil
  then show ?case by simp
next
  case (Cons x ys)
  from Cons.prems(1) obtain e es where e: "entries = e # es" "ye_receipt e = hx_receipt x" "map ye_receipt es = map hx_receipt ys"
    by (cases entries) auto
  have x: "x \<in> set rs" "in_line g x" using Cons.prems(2) by auto
  with chain have inv: "receipts_inv rs" and signed: "home_signed env (ros_home_key roster) x" by (auto simp: home_chain_def)
  then obtain r where r: "VerifyRoomReceipt env (hx_receipt x) (ros_home_key roster) = Inr (r, hx_digest x)"
      "rr_global_room_id r = g" "rr_hub_epoch r = HubEpochV1" "rr_membership_epoch r = hx_membership_epoch x"
      "rr_room_seq r = hx_room_seq x" "rr_prev_receipt_hash r = hx_prev_digest x"
    using x(2) by (auto simp: home_signed_def in_line_def)
  have seqs: "hx_room_seq x = cur_seq cursor + 1" "map hx_room_seq ys = [hx_room_seq x + 1..hx_room_seq x + int (length ys)]"
    using Cons.prems(3) upto_rec1 [of "cur_seq cursor + 1" "cur_seq cursor + int (length (x # ys))"]
    by (simp_all add: algebra_simps)
  have links: "(0 < cur_seq cursor \<longrightarrow> hx_prev_digest x = cur_digest cursor) \<and> cur_membership_epoch cursor \<le> hx_membership_epoch x"
  proof (cases "cursor = zero_cursor\<lparr>cur_global_room_id := g\<rparr>")
    case True
    then show ?thesis using home_signed_positive(2) [OF signed] by simp
  next
    case False
    with Cons.prems(4) obtain y where y: "y \<in> set rs" "in_line g y" "cursor = cursor_of y" by (auto simp: cursor_on_def)
    with seqs(1) have "y \<noteq> x" "same_line y x" "hx_room_seq x = hx_room_seq y + 1"
      using x(2) by (auto simp: cursor_of_def in_line_def same_line_def)
    with inv x(1) y(1) have "hx_prev_digest x = hx_digest y" "hx_membership_epoch y \<le> hx_membership_epoch x"
      by (auto simp: receipts_inv_def compatible_def)
    then show ?thesis by (simp add: y(3) cursor_of_def)
  qed
  have plain: "\<not> (case ye_message e of None \<Rightarrow> False
      | Some q \<Rightarrow> (case smr_receipt q of None \<Rightarrow> False | Some stmt \<Rightarrow> stmt \<noteq> ye_receipt e))"
    using Cons.prems(7) by (auto simp: e(1) plain_entry_def split: option.splits)
  have "sync_chain_loop env g roster epoch cursor entries =
      sync_chain_loop env g roster (hx_membership_epoch x) (cursor_of x) es"
    using r seqs(1) links Cons.prems(5,6) plain x(2) by (auto simp: e(1,2) cursor_of_def in_line_def)
  also have "\<dots> = Inr (if ys = [] then cursor_of x else cursor_of (last ys))"
  proof (rule Cons.IH)
    show "map hx_room_seq ys = [cur_seq (cursor_of x) + 1..cur_seq (cursor_of x) + int (length ys)]"
      using seqs(2) by (simp add: cursor_of_def)
    show "cursor_on g rs (cursor_of x)" using x by (auto simp: cursor_on_def)
    show "hx_membership_epoch x \<le> cur_membership_epoch (cursor_of x)" by (simp add: cursor_of_def)
  qed (use e(3) Cons.prems in \<open>auto simp: e(1)\<close>)
  finally show ?case by simp
qed

section \<open>What the home puts on a page\<close>

lemma sync_control_loop_page:
  "sync_control_loop sizes after limit xs page used = (page', used', full) \<Longrightarrow>
     yp_entries page' = yp_entries page \<and> yp_through_seq page' = yp_through_seq page \<and>
     (full \<longrightarrow> yp_control page' \<noteq> []) \<and> (\<not> full \<longrightarrow> yp_more page' = yp_more page)"
proof (induction sizes after limit xs page used rule: sync_control_loop.induct)
  case (2 sizes after limit x xs page used)
  then show ?case by (fastforce simp: Let_def split: if_splits)
qed simp

lemma served_receipts_prefix:
  "served_receipts access xs = (ys, stopped) \<Longrightarrow> \<exists>n. ys = take n xs \<and> (\<not> stopped \<longrightarrow> ys = xs)"
proof (induction xs arbitrary: ys)
  case (Cons x xs)
  show ?case
  proof (cases "ys = []")
    case True
    with Cons.prems show ?thesis by (auto simp: Let_def split: if_splits prod.splits intro: exI [of _ 0])
  next
    case False
    with Cons.prems obtain zs where zs: "served_receipts access xs = (zs, stopped)" "ys = x # zs"
      by (auto simp: Let_def split: if_splits prod.splits)
    with Cons.IH obtain n where "zs = take n xs" "\<not> stopped \<longrightarrow> zs = xs" by blast
    with zs show ?thesis by (intro exI [of _ "Suc n"]) simp
  qed
qed simp

lemma sync_entry_loop_page:
  assumes "\<forall>i r. messages i = Some r \<longrightarrow> smr_receipt r = None" "list_all plain_entry (yp_entries page)"
  shows "\<exists>n. map ye_receipt (yp_entries (sync_entry_loop sizes messages xs page used)) =
       map ye_receipt (yp_entries page) @ map hx_receipt (take n xs) \<and>
     list_all plain_entry (yp_entries (sync_entry_loop sizes messages xs page used)) \<and>
     yp_through_seq (sync_entry_loop sizes messages xs page used) =
       (if take n xs = [] then yp_through_seq page else hx_room_seq (last (take n xs))) \<and>
     yp_control (sync_entry_loop sizes messages xs page used) = yp_control page \<and>
     (yp_entries page = [] \<and> yp_control page = [] \<and> xs \<noteq> [] \<longrightarrow> take n xs \<noteq> []) \<and>
     (xs = [] \<longrightarrow> yp_more (sync_entry_loop sizes messages xs page used) = yp_more page)"
  using assms(2)
proof (induction xs arbitrary: page used)
  case Nil
  then show ?case by simp
next
  case (Cons x xs)
  let ?full = "\<lparr>ye_receipt = hx_receipt x, ye_message = messages (hx_message_id x), ye_withheld = []\<rparr>"
  let ?first = "yp_entries page = [] \<and> yp_control page = []"
  let ?entry = "if ?first \<and> ye_message ?full \<noteq> None \<and> \<not> fitsTransportAlone sizes page ?full (hx_room_seq x)
    then ?full\<lparr>ye_message := None, ye_withheld := RoomSyncWithheldTooLarge\<rparr> else ?full"
  show ?case
  proof (cases "\<not> ?first \<and> used + (pz_entry sizes ?entry + 1) > pz_budget sizes")
    case True
    then have "sync_entry_loop sizes messages (x # xs) page used = page\<lparr>yp_more := True\<rparr>" by (simp add: Let_def)
    with True Cons.prems show ?thesis by (intro exI [of _ 0]) auto
  next
    case False
    define page1 where "page1 = page\<lparr>yp_entries := yp_entries page @ [?entry], yp_through_seq := hx_room_seq x\<rparr>"
    have step: "sync_entry_loop sizes messages (x # xs) page used =
        sync_entry_loop sizes messages xs page1 (used + (pz_entry sizes ?entry + 1))"
      unfolding page1_def sync_entry_loop.simps Let_def if_not_P [OF False] by (rule refl)
    have "plain_entry ?entry" using assms(1) by (auto simp: plain_entry_def split: option.splits)
    then have "list_all plain_entry (yp_entries page1)" using Cons.prems by (simp add: page1_def)
    from Cons.IH [OF this] obtain n where n:
      "map ye_receipt (yp_entries (sync_entry_loop sizes messages (x # xs) page used)) =
         map ye_receipt (yp_entries page1) @ map hx_receipt (take n xs)"
      "list_all plain_entry (yp_entries (sync_entry_loop sizes messages (x # xs) page used))"
      "yp_through_seq (sync_entry_loop sizes messages (x # xs) page used) =
         (if take n xs = [] then yp_through_seq page1 else hx_room_seq (last (take n xs)))"
      "yp_control (sync_entry_loop sizes messages (x # xs) page used) = yp_control page1"
      unfolding step by blast
    have "ye_receipt ?entry = hx_receipt x" by simp
    then show ?thesis
      using n by (intro exI [of _ "Suc n"]) (simp add: page1_def)
  qed
qed

definition empty_page :: "string \<Rightarrow> int \<Rightarrow> room_sync_page" where
  "empty_page g afterSeq =
     \<lparr>yp_global_room_id = g, yp_control = [], yp_entries = [], yp_through_seq = max afterSeq 0, yp_more = False\<rparr>"

definition served_page ::
  "page_sizes \<Rightarrow> hub_service \<Rightarrow> string \<Rightarrow> int \<Rightarrow> int \<Rightarrow> hub_room \<Rightarrow> hub_access option \<Rightarrow> int \<Rightarrow> send_error + room_sync_page" where
  "served_page sizes z g afterSeq controlAfter h access limit =
     (case sync_control_loop sizes controlAfter limit (HubControlLogContext g 0 (hz_store z)) (empty_page g afterSeq)
             (pz_page sizes (empty_page g afterSeq)) of
        (page, used, True) \<Rightarrow> Inr page
      | (page, used, False) \<Rightarrow> sync_entries sizes (hz_store z) h access page used)"

lemma sync_page_served:
  assumes "HubSyncPageContext env sizes ctx g afterSeq controlAfter z = Inr page"
  obtains h access limit where "hubRoomByGlobal (hz_service z) g = Some h"
    "served_page sizes z g afterSeq controlAfter h access limit = Inr page"
  using assms that unfolding HubSyncPageContext_def Let_def served_page_def [symmetric] empty_page_def [symmetric]
  by (auto split: if_splits option.splits sum.splits)

lemma hub_message_plain:
  "hubSyncMessage st h xs access i = Some (Some r) \<Longrightarrow> smr_receipt r = None"
  by (auto simp: hubSyncMessage_def Let_def split: if_splits option.splits)

lemma sync_entries_page:
  assumes page: "sync_entries sizes st h access page0 used = Inr page" and start: "yp_entries page0 = []" "\<not> yp_more page0"
  obtains n where
    "map ye_receipt (yp_entries page) = map hx_receipt (take n (HubReceiptsAfterContext (hr_global_room_id h) HubEpochV1
       (yp_through_seq page0) (MaxRoomSyncPage + 1) st))"
    "list_all plain_entry (yp_entries page)"
    "yp_through_seq page = (let xs = take n (HubReceiptsAfterContext (hr_global_room_id h) HubEpochV1 (yp_through_seq page0)
       (MaxRoomSyncPage + 1) st) in if xs = [] then yp_through_seq page0 else hx_room_seq (last xs))"
    "yp_more page \<Longrightarrow> yp_control page \<noteq> [] \<or> yp_entries page \<noteq> []"
proof -
  let ?xs = "HubReceiptsAfterContext (hr_global_room_id h) HubEpochV1 (yp_through_seq page0) (MaxRoomSyncPage + 1) st"
  obtain served stopped where served: "served_receipts access (take (nat MaxRoomSyncPage) ?xs) = (served, stopped)"
    by fastforce
  let ?messages = "\<lambda>i. the (hubSyncMessage st h served access i)"
  define page1 where "page1 = page0\<lparr>yp_more := int (length ?xs) > MaxRoomSyncPage \<and> \<not> stopped\<rparr>"
  have known: "list_all (\<lambda>x. hubSyncMessage st h served access (hx_message_id x) \<noteq> None) served"
    and loop: "page = sync_entry_loop sizes ?messages served page1 used"
    using page unfolding sync_entries_def Let_def served prod.case page1_def
    by (auto simp: list_ex_iff list_all_iff split: if_splits)
  have "smr_receipt r = None" if "?messages i = Some r" for i r
  proof (cases "hubSyncMessage st h served access i")
    case None
    then have "i \<in> hx_message_id ` set served"
      by (auto simp: hubSyncMessage_def Let_def split: if_splits option.splits)
    with known None show ?thesis by (auto simp: list_all_iff)
  next
    case (Some m)
    with that hub_message_plain show ?thesis by auto
  qed
  then have plain: "\<forall>i r. ?messages i = Some r \<longrightarrow> smr_receipt r = None" by blast
  have "list_all plain_entry (yp_entries page1)" by (simp add: page1_def start)
  from sync_entry_loop_page [OF plain this, of sizes served used] obtain n where n:
    "map ye_receipt (yp_entries page) = map ye_receipt (yp_entries page1) @ map hx_receipt (take n served)"
    "list_all plain_entry (yp_entries page)"
    "yp_through_seq page = (if take n served = [] then yp_through_seq page1 else hx_room_seq (last (take n served)))"
    "yp_control page = yp_control page1"
    "yp_entries page1 = [] \<and> yp_control page1 = [] \<and> served \<noteq> [] \<longrightarrow> take n served \<noteq> []"
    "served = [] \<longrightarrow> yp_more page = yp_more page1"
    unfolding loop by blast
  from served_receipts_prefix [OF served] obtain k where k: "served = take k (take (nat MaxRoomSyncPage) ?xs)"
      "\<not> stopped \<longrightarrow> served = take (nat MaxRoomSyncPage) ?xs" by blast
  have cut: "take n served = take (min n (min k (nat MaxRoomSyncPage))) ?xs" by (simp add: k(1) min.assoc)
  show thesis
  proof (rule that)
    show "map ye_receipt (yp_entries page) = map hx_receipt (take (min n (min k (nat MaxRoomSyncPage))) ?xs)"
      using n(1) unfolding cut by (simp add: page1_def start)
    show "list_all plain_entry (yp_entries page)" by (rule n(2))
    show "yp_through_seq page = (let xs = take (min n (min k (nat MaxRoomSyncPage))) ?xs
        in if xs = [] then yp_through_seq page0 else hx_room_seq (last xs))"
    proof -
      have "yp_through_seq page1 = yp_through_seq page0" by (simp add: page1_def)
      from n(3) [unfolded cut this] show ?thesis unfolding Let_def .
    qed
    show "yp_control page \<noteq> [] \<or> yp_entries page \<noteq> []" if "yp_more page"
    proof (rule ccontr)
      assume "\<not> ?thesis"
      then have e: "yp_control page1 = []" "yp_entries page = []" using n(4) by simp_all
      then have "take n served = []" using n(1) by simp
      with n(5) e(1) have "served = []" by (auto simp: page1_def start)
      with n(6) that have "\<not> stopped" "int (length ?xs) > MaxRoomSyncPage" by (simp_all add: page1_def)
      with k(2) \<open>served = []\<close> show False by auto
    qed
  qed
qed

section \<open>Every page of an honest home verifies\<close>

text \<open>A member that holds nothing but what this home signed: its cursor and its stored receipts.\<close>

definition follows_home :: "string \<Rightarrow> memory_store \<Rightarrow> memory_store \<Rightarrow> bool" where
  "follows_home g home st \<longleftrightarrow>
     cursor_on g (hs_receipts (hub home)) (HubSyncCursorContext g st) \<and>
     (\<forall>y \<in> set (hs_receipts (hub st)). in_line g y \<longrightarrow>
        (\<exists>x \<in> set (hs_receipts (hub home)). place x = place y \<and> hx_membership_epoch x = hx_membership_epoch y))"

lemma after_stored:
  fixes limit :: int
  assumes "y \<in> set (HubReceiptsAfterContext g HubEpochV1 n limit st)"
  shows "y \<in> set (hs_receipts (hub st))" "in_line g y"
proof -
  let ?all = "sort_key hx_room_seq (filter (\<lambda>x. hx_global_room_id x = g \<and> hx_hub_epoch x = 1 \<and> hx_room_seq x > n) (hs_receipts (hub st)))"
  have "\<exists>k. HubReceiptsAfterContext g HubEpochV1 n limit st = take k ?all"
    unfolding HubReceiptsAfterContext_def by (rule limited_take)
  then obtain k where "HubReceiptsAfterContext g HubEpochV1 n limit st = take k ?all" ..
  with assms have "y \<in> set ?all" by (metis in_set_takeD)
  then show "y \<in> set (hs_receipts (hub st))" "in_line g y" by (simp_all add: in_line_def)
qed

lemma honest_floor:
  assumes chain: "home_chain env key g (hs_receipts (hub home))" and copy: "follows_home g home st"
  shows "sync_epoch_floor st g (HubSyncCursorContext g st) \<le> cur_membership_epoch (HubSyncCursorContext g st)"
proof -
  let ?c = "HubSyncCursorContext g st"
  have "hx_membership_epoch y \<le> cur_membership_epoch ?c"
    if pos: "0 < cur_seq ?c" and y: "HubReceiptsAfterContext g HubEpochV1 (cur_seq ?c - 1) 1 st = [y]" "hx_room_seq y = cur_seq ?c" for y
  proof -
    have "y \<in> set (hs_receipts (hub st))" "in_line g y" using after_stored [of y g "cur_seq ?c - 1" 1 st] y(1) by simp_all
    with copy obtain x where x: "x \<in> set (hs_receipts (hub home))" "place x = place y" "hx_membership_epoch x = hx_membership_epoch y"
      by (auto simp: follows_home_def)
    from copy pos obtain x' where x': "x' \<in> set (hs_receipts (hub home))" "in_line g x'" "?c = cursor_of x'"
      by (auto simp: follows_home_def cursor_on_def)
    have "place x = place x'"
      using x(2) x'(2) y(2) \<open>in_line g y\<close> unfolding x'(3) by (simp add: place_def in_line_def cursor_of_def)
    then have "x = x'" using place_unique [of "hs_receipts (hub home)"] x(1) x'(1) chain by (auto simp: home_chain_def)
    then show ?thesis using x(3) x'(3) by (simp add: cursor_of_def)
  qed
  then show ?thesis by (auto simp: sync_epoch_floor_def split: list.splits)
qed

lemma served_page_chain:
  assumes page: "served_page sizes z g (cur_seq cursor) controlAfter h access limit = Inr page"
    and h: "hr_global_room_id h = g" and chain: "home_chain env key g (hs_receipts (hub (hz_store z)))"
    and cursor: "cursor_on g (hs_receipts (hub (hz_store z))) cursor"
  obtains ys where "map ye_receipt (yp_entries page) = map hx_receipt ys"
    "set ys \<subseteq> {x \<in> set (hs_receipts (hub (hz_store z))). in_line g x}"
    "map hx_room_seq ys = [cur_seq cursor + 1..cur_seq cursor + int (length ys)]" "list_all plain_entry (yp_entries page)"
    "yp_through_seq page = (if ys = [] then cur_seq cursor else hx_room_seq (last ys))"
    "yp_more page \<Longrightarrow> yp_control page \<noteq> [] \<or> ys \<noteq> []"
proof -
  let ?empty = "empty_page g (cur_seq cursor)"
  have start: "yp_entries ?empty = []" "yp_through_seq ?empty = cur_seq cursor" "\<not> yp_more ?empty"
    using cursor_on_seq [OF cursor chain] by (simp_all add: empty_page_def)
  obtain page0 used full where loop: "sync_control_loop sizes controlAfter limit (HubControlLogContext g 0 (hz_store z)) ?empty
      (pz_page sizes ?empty) = (page0, used, full)" by (metis prod_cases3)
  note control = sync_control_loop_page [OF loop]
  show thesis
  proof (cases full)
    case True
    with page loop have "page = page0" by (simp add: served_page_def)
    with control start True show thesis by (intro that [of "[]"]) simp_all
  next
    case False
    with page loop have entries: "sync_entries sizes (hz_store z) h access page0 used = Inr page" by (simp add: served_page_def)
    have start0: "yp_entries page0 = []" "\<not> yp_more page0" "yp_through_seq page0 = cur_seq cursor"
      using control start False by simp_all
    let ?after = "HubReceiptsAfterContext g HubEpochV1 (cur_seq cursor) (MaxRoomSyncPage + 1) (hz_store z)"
    obtain n where n: "map ye_receipt (yp_entries page) = map hx_receipt (take n ?after)"
        "list_all plain_entry (yp_entries page)"
        "yp_through_seq page = (let xs = take n ?after in if xs = [] then yp_through_seq page0 else hx_room_seq (last xs))"
        "yp_more page \<Longrightarrow> yp_control page \<noteq> [] \<or> yp_entries page \<noteq> []"
      using sync_entries_page [OF entries start0(1,2)] unfolding h start0(3) by metis
    note after = receipts_after [OF chain cursor, of "MaxRoomSyncPage + 1"]
    have seqs: "map hx_room_seq (take n ?after) = [cur_seq cursor + 1..cur_seq cursor + int (length (take n ?after))]"
    proof -
      have "map hx_room_seq (take n ?after) = take n (map hx_room_seq ?after)" by (rule take_map [symmetric])
      also have "\<dots> = take n [cur_seq cursor + 1..cur_seq cursor + int (length ?after)]" by (rule arg_cong [OF after(1)])
      also have "\<dots> = [cur_seq cursor + 1..cur_seq cursor + int (min n (length ?after))]" by (rule take_consecutive)
      also have "min n (length ?after) = length (take n ?after)" by (simp only: length_take min.commute)
      finally show ?thesis .
    qed
    show thesis
    proof (rule that [OF n(1) _ seqs n(2)])
      show "set (take n ?after) \<subseteq> {x \<in> set (hs_receipts (hub (hz_store z))). in_line g x}"
        using after(2) set_take_subset [of n ?after] by blast
      show "yp_through_seq page = (if take n ?after = [] then cur_seq cursor else hx_room_seq (last (take n ?after)))"
        using n(3) unfolding Let_def start0(3) .
      show "yp_control page \<noteq> [] \<or> take n ?after \<noteq> []" if "yp_more page"
        using n(4) [OF that] n(1) by (metis list.map_disc_iff)
    qed
  qed
qed

lemma honest_page:
  assumes page: "HubSyncPageContext env sizes ctx g (cur_seq (HubSyncCursorContext g (hz_store m))) controlAfter home = Inr page"
    and chain: "home_chain env (ros_home_key roster) g (hs_receipts (hub (hz_store home)))"
    and member: "hubRoster env (hz_service m) h 0 = Inr roster" "hr_global_room_id h = g"
    and copy: "follows_home g (hz_store home) (hz_store m)"
    and epochs: "list_all (\<lambda>x. in_line g x \<and> hx_receipt x \<in> ye_receipt ` set (yp_entries page) \<longrightarrow>
      hx_membership_epoch x \<le> ros_epoch roster) (hs_receipts (hub (hz_store home)))"
  shows "\<exists>reached. verifySyncChain env m h (HubSyncCursorContext g (hz_store m)) page = Inr reached \<and>
    cursor_on g (hs_receipts (hub (hz_store home))) reached \<and>
    (yp_more page \<longrightarrow> yp_control page \<noteq> [] \<or> cur_seq (HubSyncCursorContext g (hz_store m)) < cur_seq reached)"
proof -
  let ?c = "HubSyncCursorContext g (hz_store m)"
  obtain h' access limit where h': "hubRoomByGlobal (hz_service home) g = Some h'"
      "served_page sizes home g (cur_seq ?c) controlAfter h' access limit = Inr page"
    by (rule sync_page_served [OF page])
  have cursor: "cursor_on g (hs_receipts (hub (hz_store home))) ?c" using copy by (simp add: follows_home_def)
  obtain ys where ys: "map ye_receipt (yp_entries page) = map hx_receipt ys"
    "set ys \<subseteq> {x \<in> set (hs_receipts (hub (hz_store home))). in_line g x}"
    "map hx_room_seq ys = [cur_seq ?c + 1..cur_seq ?c + int (length ys)]" "list_all plain_entry (yp_entries page)"
    "yp_through_seq page = (if ys = [] then cur_seq ?c else hx_room_seq (last ys))"
    "yp_more page \<Longrightarrow> yp_control page \<noteq> [] \<or> ys \<noteq> []"
    using served_page_chain [OF h'(2) hubRoomByGlobal_id [OF h'(1)] chain cursor] by blast
  have "hx_receipt ` set ys = ye_receipt ` set (yp_entries page)"
    using arg_cong [OF ys(1), of set] by simp
  then have reach: "\<forall>x \<in> set ys. hx_membership_epoch x \<le> ros_epoch roster"
    using epochs ys(2) by (fastforce simp: list_all_iff)
  let ?reached = "if ys = [] then ?c else cursor_of (last ys)"
  have loop: "sync_chain_loop env g roster (sync_epoch_floor (hz_store m) g ?c) ?c (yp_entries page) = Inr ?reached"
    by (rule chain_loop_accepts [OF chain ys(1-3) cursor honest_floor [OF chain copy] reach ys(4)])
  have last: "hx_room_seq (last ys) = cur_seq ?c + int (length ys)" if "ys \<noteq> []"
  proof -
    have "cur_seq ?c + 1 \<le> cur_seq ?c + int (length ys)" using that by (cases ys) simp_all
    from arg_cong [OF ys(3) [unfolded upto_rec2 [OF this]], of last] that show ?thesis by (simp add: last_map)
  qed
  have "cur_seq ?c \<le> yp_through_seq page" "cur_seq ?reached = yp_through_seq page"
    using ys(5) last by (auto simp: cursor_of_def)
  then have "verifySyncChain env m h ?c page = Inr ?reached"
    using member loop by (simp add: verifySyncChain_def Let_def)
  moreover have "cursor_on g (hs_receipts (hub (hz_store home))) ?reached"
  proof (cases "ys = []")
    case False
    then have "last ys \<in> set (hs_receipts (hub (hz_store home)))" "in_line g (last ys)"
      using ys(2) last_in_set [of ys] by blast+
    with False show ?thesis by (auto simp: cursor_on_def)
  qed (simp add: cursor)
  moreover have "yp_more page \<longrightarrow> yp_control page \<noteq> [] \<or> cur_seq ?c < cur_seq ?reached"
    using ys(6) last by (auto simp: cursor_of_def)
  ultimately show ?thesis by blast
qed


end
