(* ===== verification/Pulled_Control.thy ===== *)
theory Pulled_Control
  imports Hub_Messages
begin

text \<open>
  The control log a member keeps: whatever its home answers, the stored log only grows, and what it
  holds after a pull is a log that replays from its genesis.
\<close>

section \<open>Records appended to a log\<close>

lemma stage_control_other:
  "stage_control s r staged = Inr staged' \<Longrightarrow> g \<noteq> hc_global_room_id r \<Longrightarrow> log_of s staged' g = log_of s staged g"
  by (auto simp: stage_control_def Let_def log_of_def split: if_splits)

lemma stage_controls_known:
  assumes "stage_controls s rs staged = Inr staged'"
    "\<forall>r \<in> set rs. hc_global_room_id r = g \<and> hc_seq r \<le> int (length (log_of s staged g))"
  shows "log_of s staged' g' = log_of s staged g'"
  using assms
proof (induction rs arbitrary: staged)
  case (Cons r rs)
  obtain st where st: "stage_control s r staged = Inr st" "stage_controls s rs st = Inr staged'"
    using Cons.prems(1) by (auto split: sum.splits)
  have same: "log_of s st g' = log_of s staged g'" for g'
    using stage_control_step(5) [OF st(1)] stage_control_other [OF st(1), of g'] Cons.prems(2)
    by (cases "g' = hc_global_room_id r") auto
  from Cons.IH [OF st(2)] Cons.prems(2) show ?case by (simp add: same)
qed simp

lemma stage_controls_next:
  "stage_controls s rs staged = Inr staged' \<Longrightarrow> \<forall>r \<in> set rs. hc_global_room_id r = g \<Longrightarrow>
   map hc_seq rs = [int (length (log_of s staged g)) + 1..int (length (log_of s staged g)) + int (length rs)] \<Longrightarrow>
   log_of s staged' g' = (if g' = g then log_of s staged g @ rs else log_of s staged g')"
proof (induction rs arbitrary: staged)
  case (Cons r rs)
  obtain st where st: "stage_control s r staged = Inr st" "stage_controls s rs st = Inr staged'"
    using Cons.prems(1) by (auto split: sum.splits)
  let ?n = "int (length (log_of s staged g))"
  have seqs: "hc_seq r = ?n + 1" "map hc_seq rs = [(?n + 1) + 1..(?n + 1) + int (length rs)]"
    using Cons.prems(3) upto_rec1 [of "?n + 1" "?n + int (length (r # rs))"] by (simp_all add: algebra_simps)
  have grown: "log_of s st g = log_of s staged g @ [r]"
    using stage_control_step(2,5) [OF st(1)] seqs(1) Cons.prems(2) by (auto simp: holds_at_def)
  have "map hc_seq rs = [int (length (log_of s st g)) + 1..int (length (log_of s st g)) + int (length rs)]"
    using seqs(2) by (simp add: grown algebra_simps)
  from Cons.IH [OF st(2) _ this] Cons.prems(2) grown stage_control_other [OF st(1), of g'] show ?case by simp
qed simp

lemma append_known:
  assumes "appendHubControlLocked rs s = (e, s')"
    and "\<forall>r \<in> set rs. hc_global_room_id r = g \<and> hc_seq r \<le> int (length (fmget [] (hs_control (hub s)) g))"
  shows "fmget [] (hs_control (hub s')) g' = fmget [] (hs_control (hub s)) g'"
proof (cases "stage_controls s rs fmempty")
  case (Inr staged)
  from assms(2) stage_controls_known [OF Inr, of g g'] have "log_of s staged g' = log_of s fmempty g'" by (simp add: log_of_def)
  with assms(1) Inr show ?thesis by (auto simp: appendHubControlLocked_def control_after_stage) (simp add: log_of_def)
qed (use assms(1) in \<open>simp add: appendHubControlLocked_def\<close>)

lemma append_next:
  assumes ap: "appendHubControlLocked rs s = (e, s')" and g: "\<forall>r \<in> set rs. hc_global_room_id r = g"
    and seqs: "map hc_seq rs = [int (length (fmget [] (hs_control (hub s)) g)) + 1..
      int (length (fmget [] (hs_control (hub s)) g)) + int (length rs)]"
  shows "fmget [] (hs_control (hub s')) g' =
    (if g' = g \<and> e = None then fmget [] (hs_control (hub s)) g @ rs else fmget [] (hs_control (hub s)) g')"
proof (cases "stage_controls s rs fmempty")
  case (Inr staged)
  have log: "log_of s fmempty h = fmget [] (hs_control (hub s)) h" for h by (simp add: log_of_def)
  from stage_controls_next [OF Inr g, of g'] seqs have "log_of s staged g' =
    (if g' = g then fmget [] (hs_control (hub s)) g @ rs else fmget [] (hs_control (hub s)) g')" by (simp add: log)
  with ap Inr show ?thesis by (auto simp: appendHubControlLocked_def control_after_stage)
qed (use ap in \<open>auto simp: appendHubControlLocked_def\<close>)

section \<open>The log of a roster\<close>

lemma replay_epoch:
  assumes "replayHubRoster env log 0 = Inr roster"
  shows "ros_epoch roster = int (length log)" "log \<noteq> []"
proof -
  show ne: "log \<noteq> []" using replay_head [OF assms] by blast
  obtain rs where rs: "rosters_of env zero_roster 0 log = Inr rs" "roster = last (zero_roster # rs)"
    using assms ne by (auto simp: replayHubRoster_def replay_all split: sum.splits)
  have len: "length rs = length log" by (rule rosters_length [OF rs(1)])
  with ne have "rs \<noteq> []" by auto
  with rosters_epoch [OF rs(1), of "length rs - 1"] len ne show "ros_epoch roster = int (length log)"
    by (cases rs) (auto simp: rs(2) last_conv_nth)
qed

lemma controlRecords_seqs:
  "controlRecords env g start events = Some rs \<Longrightarrow>
   (\<forall>r \<in> set rs. hc_global_room_id r = g) \<and> map hc_seq rs = [start..start + int (length rs) - 1]"
proof (induction events arbitrary: start rs)
  case (Cons e es)
  obtain event digest tail where t: "ParseRoomControlUnverified env e = Inr (event, digest)" "rc_seq event = start"
    "controlRecords env g (start + 1) es = Some tail"
    "rs = \<lparr>hc_global_room_id = g, hc_seq = rc_seq event, hc_digest = digest, hc_control = e\<rparr> # tail"
    using Cons.prems by (auto split: sum.splits prod.splits if_splits)
  from Cons.IH [OF t(3)] upto_rec1 [of start "start + int (length rs) - 1"] show ?case by (simp add: t(2,4))
qed simp

section \<open>A pull\<close>

text \<open>The two parts of what was pulled: what the log held already, and what extends it.\<close>

lemma pulled_split:
  assumes rs: "controlRecords env g (pulled_start env epoch events) events = Some rs" and pos: "0 \<le> epoch"
  defines "overlap \<equiv> nat (min (int (length rs)) (epoch - pulled_start env epoch events + 1))"
  shows "\<forall>r \<in> set (take overlap rs). hc_global_room_id r = g \<and> hc_seq r \<le> epoch"
    "\<forall>r \<in> set (drop overlap rs). hc_global_room_id r = g"
    "map hc_seq (drop overlap rs) = [epoch + 1..epoch + int (length (drop overlap rs))]"
proof -
  let ?start = "pulled_start env epoch events"
  have start: "?start \<le> epoch + 1"
    by (auto simp: pulled_start_def split: list.splits sum.splits if_splits)
  note r = controlRecords_seqs [OF rs]
  have nth: "hc_seq (rs ! k) = ?start + int k" if "k < length rs" for k
  proof -
    have "map hc_seq rs ! k = ?start + int k" using that by (simp add: conjunct2 [OF r] nth_upto)
    with that show ?thesis by simp
  qed
  show "\<forall>r \<in> set (take overlap rs). hc_global_room_id r = g \<and> hc_seq r \<le> epoch"
  proof
    fix r assume "r \<in> set (take overlap rs)"
    then obtain k where k: "k < overlap" "k < length rs" "r = rs ! k" by (auto simp: in_set_conv_nth)
    have "hc_seq r \<le> epoch" using nth [OF k(2)] k(1,3) by (simp add: overlap_def)
    moreover have "hc_global_room_id r = g" using r k(2,3) by simp
    ultimately show "hc_global_room_id r = g \<and> hc_seq r \<le> epoch" by simp
  qed
  show "\<forall>r \<in> set (drop overlap rs). hc_global_room_id r = g" using r by (auto dest: in_set_dropD)
  show "map hc_seq (drop overlap rs) = [epoch + 1..epoch + int (length (drop overlap rs))]"
  proof (rule nth_equalityI)
    fix k assume "k < length (map hc_seq (drop overlap rs))"
    then have k: "overlap + k < length rs" by simp
    then have "int overlap = epoch - ?start + 1" using start by (auto simp: overlap_def)
    with k nth [OF k] show "map hc_seq (drop overlap rs) ! k = [epoch + 1..epoch + int (length (drop overlap rs))] ! k"
      by (simp add: nth_upto)
  qed simp
qed

lemma append_records_store:
  "append_records rs z = (e, z') \<Longrightarrow>
   \<exists>e'. appendHubControlLocked rs (hz_store z) = (e', hz_store z') \<and> (e = None \<longleftrightarrow> e' = None) \<and> z' = hz_with_store (hz_store z') z"
  by (auto simp: append_records_def split: prod.splits option.splits)

lemma hz_with_store_store [simp]: "hz_with_store (hz_store z) z = z"
  by (simp add: hz_with_store_def hz_store_def)

lemma hz_with_store_twice [simp]: "hz_with_store st (hz_with_store st' z) = hz_with_store st z"
  by (simp add: hz_with_store_def)

lemma pulled_steps:
  assumes inv: "control_inv (hub (hz_store z))" and pull: "applyPulledControl env h events z = (res, z')"
  shows "control_inv (hub (hz_store z')) \<and> z' = hz_with_store (hz_store z') z \<and>
    (\<forall>g. g \<noteq> hr_global_room_id h \<or> isl res \<longrightarrow>
       fmget [] (hs_control (hub (hz_store z'))) g = fmget [] (hs_control (hub (hz_store z))) g) \<and>
    (\<forall>after. res = Inr after \<longrightarrow>
       prefix (fmget [] (hs_control (hub (hz_store z))) (hr_global_room_id h))
         (fmget [] (hs_control (hub (hz_store z'))) (hr_global_room_id h)) \<and>
       replayHubRoster env (fmget [] (hs_control (hub (hz_store z'))) (hr_global_room_id h)) 0 = Inr after)"
proof -
  let ?g = "hr_global_room_id h" and ?log = "\<lambda>z. fmget [] (hs_control (hub (hz_store z)))"
  have whole: "HubControlLogContext ?g 0 (hz_store z) = ?log z ?g" by (rule control_log_whole [OF inv])
  have roster: "hubRoster env (hz_service z) h 0 = replayHubRoster env (?log z ?g) 0"
    using whole by (simp add: hubRoster_def hz_store_def)
  show ?thesis
  proof (cases "replayHubRoster env (?log z ?g) 0")
    case (Inl e)
    with pull inv roster show ?thesis by (simp add: applyPulledControl_def Let_def) force
  next
    case (Inr before)
    let ?epoch = "ros_epoch before"
    note epoch = replay_epoch(1) [OF Inr]
    show ?thesis
    proof (cases "controlRecords env ?g (pulled_start env ?epoch events) events")
      case None
      with pull inv roster Inr show ?thesis by (simp add: applyPulledControl_def Let_def) force
    next
      case (Some rs)
      define overlap where "overlap = nat (min (int (length rs)) (?epoch - pulled_start env ?epoch events + 1))"
      have pos: "0 \<le> ?epoch" using epoch by simp
      note split = pulled_split [OF Some pos, folded overlap_def]
      obtain refused z1 where known: "(if overlap > 0 then append_records (take overlap rs) z else (None, z)) = (refused, z1)"
        by fastforce
      have z1: "?log z1 g = ?log z g" "control_inv (hub (hz_store z1))" "z1 = hz_with_store (hz_store z1) z" for g
      proof -
        have "?log z1 g = ?log z g \<and> control_inv (hub (hz_store z1)) \<and> z1 = hz_with_store (hz_store z1) z"
        proof (cases "overlap > 0")
          case True
          with known have "append_records (take overlap rs) z = (refused, z1)" by simp
          from append_records_store [OF this] obtain e' where
            e': "appendHubControlLocked (take overlap rs) (hz_store z) = (e', hz_store z1)" "z1 = hz_with_store (hz_store z1) z"
            by blast
          show ?thesis using append_known [OF e'(1), of ?g g] split(1) control_inv_append [OF inv e'(1)] e'(2)
            by (simp add: epoch)
        next
          case False
          with known inv show ?thesis by auto
        qed
        then show "?log z1 g = ?log z g" "control_inv (hub (hz_store z1))" "z1 = hz_with_store (hz_store z1) z" by blast+
      qed
      have rest: "(res, z') = (case refused of Some e \<Rightarrow> (Inl e, z1)
          | None \<Rightarrow> if drop overlap rs = [] then (Inr before, z1)
              else (case replayHubRoster env (?log z ?g @ drop overlap rs) 0 of
                      Inl _ \<Rightarrow> (Inl (hub_invalid ''control log does not verify''), z1)
                    | Inr after \<Rightarrow> (case append_records (drop overlap rs) z1 of
                        (Some e, z2) \<Rightarrow> (Inl e, z2) | (None, z2) \<Rightarrow> (Inr after, z2))))"
        using pull unfolding applyPulledControl_def Let_def roster Inr sum.case Some option.case
          overlap_def [symmetric] known prod.case whole by (rule sym)
      show ?thesis
      proof (cases "refused = None \<and> drop overlap rs \<noteq> [] \<and>
          \<not> isl (replayHubRoster env (?log z ?g @ drop overlap rs) 0)")
        case False
        with rest Inr z1 show ?thesis by (auto split: option.splits if_splits sum.splits)
      next
        case True
        then obtain after where after: "replayHubRoster env (?log z ?g @ drop overlap rs) 0 = Inr after"
          by (cases "replayHubRoster env (?log z ?g @ drop overlap rs) 0") auto
        obtain e z2 where ap: "append_records (drop overlap rs) z1 = (e, z2)" by fastforce
        from append_records_store [OF ap] obtain e' where
          e': "appendHubControlLocked (drop overlap rs) (hz_store z1) = (e', hz_store z2)" "(e = None) = (e' = None)"
            "z2 = hz_with_store (hz_store z2) z1" by blast
        have logs: "?log z2 g = (if g = ?g \<and> e' = None then ?log z ?g @ drop overlap rs else ?log z g)" for g
          using append_next [OF e'(1) split(2), of g] split(3) epoch by (simp add: z1(1))
        have "z2 = hz_with_store (hz_store z2) z" using e'(3) z1(3) by (metis hz_with_store_twice)
        moreover have "control_inv (hub (hz_store z2))" by (rule control_inv_append [OF z1(2) e'(1)])
        moreover have "(res, z') = (case e of Some err \<Rightarrow> (Inl err, z2) | None \<Rightarrow> (Inr after, z2))"
          using rest True after ap by (auto split: option.splits)
        ultimately show ?thesis using logs after e'(2) by (cases e) auto
      qed
    qed
  qed
qed

text \<open>
  C5.
  A member's copy of a room's control log is never corrupted by what its home sends: whatever the
  answer, an operation that fails leaves every log as it was, and one that succeeds keeps what was
  stored as the first part of a log that replays, from a genesis the home's key signed, to the very
  roster that is returned; the logs of other rooms are untouched.
\<close>
theorem pulled_log_replays:
  assumes "control_inv (hub (hz_store z))" and "applyPulledControl env h events z = (res, z')"
  shows "control_inv (hub (hz_store z')) \<and>
    (\<forall>g. g \<noteq> hr_global_room_id h \<or> isl res \<longrightarrow>
       HubControlLogContext g 0 (hz_store z') = HubControlLogContext g 0 (hz_store z)) \<and>
    (case res of Inl _ \<Rightarrow> True
     | Inr after \<Rightarrow>
         prefix (HubControlLogContext (hr_global_room_id h) 0 (hz_store z))
           (HubControlLogContext (hr_global_room_id h) 0 (hz_store z')) \<and>
         hubRoster env (hz_service z') h 0 = Inr after)"
proof -
  note steps = pulled_steps [OF assms]
  then have inv: "control_inv (hub (hz_store z'))" by blast
  have "hubRoster env (hz_service z') h 0 =
      replayHubRoster env (fmget [] (hs_control (hub (hz_store z'))) (hr_global_room_id h)) 0"
    using control_log_whole [OF inv] by (simp add: hubRoster_def hz_store_def)
  with steps show ?thesis
    by (auto simp: control_log_whole [OF assms(1)] control_log_whole [OF inv] split: sum.splits)
qed

end
