(* ===== verification/Hub_Message_Properties.thy ===== *)
theory Hub_Message_Properties
  imports Hub_Sync_Service Outbox_Properties Pulled_Control
begin

text \<open>
  What home and members of a hub room can rely on: the messages a home places, the forwards a
  member stores, and the control log a member keeps.
\<close>

section \<open>Placing\<close>

lemma check_message_id [simp]:
  "checkHubReceiptLocked (x\<lparr>hx_message_id := i\<rparr>) st = checkHubReceiptLocked x st"
proof -
  have same: "hx_global_room_id (x\<lparr>hx_message_id := i\<rparr>) = hx_global_room_id x"
    "hx_hub_epoch (x\<lparr>hx_message_id := i\<rparr>) = hx_hub_epoch x" "hx_event_id (x\<lparr>hx_message_id := i\<rparr>) = hx_event_id x"
    "hx_room_seq (x\<lparr>hx_message_id := i\<rparr>) = hx_room_seq x" "hx_digest (x\<lparr>hx_message_id := i\<rparr>) = hx_digest x"
    "hx_prev_digest (x\<lparr>hx_message_id := i\<rparr>) = hx_prev_digest x"
    "hx_membership_epoch (x\<lparr>hx_message_id := i\<rparr>) = hx_membership_epoch x" by simp_all
  have "visit_receipt (x\<lparr>hx_message_id := i\<rparr>) = visit_receipt x"
    unfolding fun_eq_iff visit_receipt_def same by blast
  then show ?thesis unfolding checkHubReceiptLocked_def checkHubReceipt_def same by (rule ssubst) (rule refl)
qed

lemma queue_only_hub: "queue_only s n s' \<Longrightarrow> hub s' = hub s"
proof -
  assume "queue_only s n s'"
  then have "hub (without_queue s') = hub (without_queue s)" by (simp add: queue_only_def)
  then show "hub s' = hub s" by (simp add: without_queue_def)
qed

text \<open>A commit with a receipt that is the next of its room adds it with the message's id, or changes nothing.\<close>

lemma commit_places:
  assumes commit: "AppendMessageWithPairingDeliveriesContext (Some x) e limits now m ev ps st = (res, st')"
    and check: "checkHubReceiptLocked x st = Inr False"
  shows "case res of
      Inl err \<Rightarrow> st' = st \<and> (is_duplicate err \<longrightarrow>
        msg_id m |\<in>| messageIDs st \<or> messageOriginReceipt m |\<in>| fmdom (originReceipts st))
    | Inr _ \<Rightarrow> hs_receipts (hub st') = hs_receipts (hub st) @ [x\<lparr>hx_message_id := msg_id m\<rparr>]"
proof (cases "appendMessageLocked m (envelopeForMessage e m) st")
  case (Pair res1 st1)
  show ?thesis
  proof (cases res1)
    case (Inl err)
    with Pair append_error have "st1 = st" by blast
    with Pair Inl commit check have "res = Inl err" "st' = st"
      by (auto simp: AppendMessageWithPairingDeliveriesContext_def appendWithHubReceiptLocked_def hubReceiptForMessage_def)
    moreover have "is_duplicate err \<longrightarrow>
        msg_id m |\<in>| messageIDs st \<or> messageOriginReceipt m |\<in>| fmdom (originReceipts st)"
      using Pair Inl
      by (auto simp: appendMessageLocked_def checkOriginReceiptLocked_def Let_def is_duplicate.simps
          topologyForDMMessage_def append_dm_message_def fmdomI
          split: if_splits option.splits sum.splits prod.splits store_error.splits)
    ultimately show ?thesis by simp
  next
    case (Inr l)
    with Pair append_hub have "hub st1 = hub st" by blast
    then have hub: "hs_receipts (hub (add_receipt (x\<lparr>hx_message_id := msg_id m\<rparr>) st1)) =
        hs_receipts (hub st) @ [x\<lparr>hx_message_id := msg_id m\<rparr>]" by (simp add: add_receipt_def)
    let ?s2 = "case ev of None \<Rightarrow> add_receipt (x\<lparr>hx_message_id := msg_id m\<rparr>) st1
      | Some v \<Rightarrow> (add_receipt (x\<lparr>hx_message_id := msg_id m\<rparr>) st1)\<lparr>deliveryEvents :=
          deliveryEvents (add_receipt (x\<lparr>hx_message_id := msg_id m\<rparr>) st1) @ [v]\<rparr>"
    obtain l' where l': "fold (enqueue_delivery limits now m) (UniqueTrimmedStrings ps) (l, ?s2) = (l', st')" "res = Inr l'"
      using commit Pair Inr check
      by (auto simp: AppendMessageWithPairingDeliveriesContext_def appendWithHubReceiptLocked_def hubReceiptForMessage_def
          Let_def split: prod.splits)
    from queue_only_hub [OF queue_only_enqueue_all [OF l'(1)]] hub have
      "hs_receipts (hub st') = hs_receipts (hub st) @ [x\<lparr>hx_message_id := msg_id m\<rparr>]"
      by (cases ev) simp_all
    with l'(2) show ?thesis by simp
  qed
qed

lemma appendHubMessage_places:
  assumes append: "appendHubMessage cfg m e (Some x) ps z = (Inr accepted, z')"
    and check: "checkHubReceiptLocked x (hz_store z) = Inr False"
  shows "hs_receipts (hub (hz_store z')) = hs_receipts (hub (hz_store z)) @ [x\<lparr>hx_message_id := msg_id m\<rparr>] \<or>
    hz_store z' = hz_store z \<and>
      (msg_id m |\<in>| messageIDs (hz_store z) \<or> messageOriginReceipt m |\<in>| fmdom (originReceipts (hz_store z)))"
proof -
  have "\<exists>ev limits res st'. AppendMessageWithPairingDeliveriesContext (Some x) (Some e) limits (sc_now cfg) m ev ps (hz_store z) = (res, st') \<and>
       hz_store z' = st' \<and> (case res of Inl err \<Rightarrow> is_duplicate err | Inr _ \<Rightarrow> True)"
    using append by (fastforce simp: appendHubMessage_def appendHub_def split: if_splits prod.splits sum.splits send_error.splits)
  then obtain ev limits res where res: "AppendMessageWithPairingDeliveriesContext (Some x) (Some e) limits (sc_now cfg) m ev ps (hz_store z) =
      (res, hz_store z')" "case res of Inl err \<Rightarrow> is_duplicate err | Inr _ \<Rightarrow> True" by blast
  from commit_places [OF res(1) check] res(2) show ?thesis by (cases res) auto
qed

section \<open>What arrived is what was signed\<close>

text \<open>The network of an envelope may write in a room as a roster has it, under the key that signed.\<close>

definition writes_as :: "hub_roster \<Rightarrow> message_envelope \<Rightarrow> bool" where
  "writes_as roster e \<longleftrightarrow>
     (\<exists>member. fmlookup (ros_members roster) (me_origin_network_id e) = Some member \<and>
        RoomRoleCanWrite (hm_role member) \<and> hm_fingerprint member = me_origin_fingerprint e)"

definition pinned_as :: "service \<Rightarrow> message_envelope \<Rightarrow> bool" where
  "pinned_as s e \<longleftrightarrow>
     (\<exists>pin. Lookup (me_origin_network_id e) (sv_key_pins s) = Some pin \<and> pin_fingerprint pin = me_origin_fingerprint e)"

lemma ingress_bound:
  assumes i: "checkHubIngressFrom env z p r = Inr i" and data: "data_canonical (smr_parts r)"
  obtains stmt where "smr_envelope r = Some stmt" "VerifySignedEnvelope env stmt = Inr (ig_envelope i, ig_digest i)"
    "ig_envelope i = expected_envelope (ig_envelope i) r" "ig_request i = r" "ig_pairing i = p"
    "hubRoomByGlobal (hz_service z) (me_global_room_id (ig_envelope i)) = Some (ig_hub i)"
    "me_membership_epoch (ig_envelope i) \<noteq> None" "me_origin_network_id (ig_envelope i) \<noteq> sv_network_id (hz_service z)"
proof -
  obtain stmt where s: "smr_envelope r = Some stmt" "VerifySignedEnvelope env stmt = Inr (ig_envelope i, ig_digest i)"
    "hub_ingress_error env (sv_network_id (hz_service z)) (ig_envelope i) r = None" "ig_request i = r" "ig_pairing i = p"
    "hubRoomByGlobal (hz_service z) (me_global_room_id (ig_envelope i)) = Some (ig_hub i)"
    using i by (auto simp: checkHubIngressFrom_def Let_def split: if_splits option.splits sum.splits prod.splits)
  have "EnvelopeMatchesRequest env (ig_envelope i) r = None" "me_membership_epoch (ig_envelope i) \<noteq> None"
      "me_origin_network_id (ig_envelope i) \<noteq> sv_network_id (hz_service z)"
    using s(3) by (auto simp: hub_ingress_error_def Let_def split: if_splits)
  with envelope_bound [OF s(2) _ data] that s show thesis by blast
qed

lemma canWrite_writes:
  assumes "canWrite roster (me_origin_network_id e) = (member, True)" "hm_fingerprint member = me_origin_fingerprint e"
  shows "writes_as roster e"
  using assms by (auto simp: canWrite_def writes_as_def split: option.splits)

section \<open>The home places a submission once\<close>

lemma with_pins_simps [simp]:
  "hz_store (with_pins f z) = hz_store z" "hubRoster env (hz_service (with_pins f z)) = hubRoster env (hz_service z)"
  "nextHubReceipt env (with_pins f z) = nextHubReceipt env z"
proof -
  show store: "hz_store (with_pins f z) = hz_store z" by (simp add: with_pins_def)
  have "sv_store (hz_service (with_pins f z)) = sv_store (hz_service z)" "hz_identity (with_pins f z) = hz_identity z"
    by (simp_all add: with_pins_def hz_with_pins_def)
  with store show "hubRoster env (hz_service (with_pins f z)) = hubRoster env (hz_service z)"
    "nextHubReceipt env (with_pins f z) = nextHubReceipt env z"
    by (auto simp: fun_eq_iff hubRoster_def nextHubReceipt_def)
qed

lemma submission_cases:
  assumes "acceptHubSubmission cfg ctx i z = (Inr accepted, z')"
  obtains
    (placed_before) x where "HubReceiptForEventContext (hr_global_room_id (ig_hub i)) (ig_digest i) (hz_store z) = Some x"
      "accepted = placed_already x" "z' = z"
      "hubLinkSpeaksFor z ctx (hr_global_room_id (ig_hub i)) (ig_pairing i) (me_origin_network_id (ig_envelope i))"
  | (placed_now) roster m e' x z0 a where "HubReceiptForEventContext (hr_global_room_id (ig_hub i)) (ig_digest i) (hz_store z) = None"
      "hubLinkSpeaksFor z ctx (hr_global_room_id (ig_hub i)) (ig_pairing i) (me_origin_network_id (ig_envelope i))"
      "hubRoster (sc_env cfg) (hz_service z) (ig_hub i) 0 = Inr roster" "writes_as roster (ig_envelope i)"
      "pinned_as (hz_service z) (ig_envelope i)" "the (me_membership_epoch (ig_envelope i)) = ros_epoch roster"
      "hubMessage cfg (hz_service z) ctx i = Inr m" "nextHubReceipt (sc_env cfg) z (ig_hub i) (ros_epoch roster) (ig_digest i) = Inr x"
      "hz_store z0 = hz_store z" "appendHubMessage cfg m e' (Some x) (hubFanoutPairings z0 roster (env_origin_network_id e')) z0 = (Inr a, z')"
      "accepted = a\<lparr>ma_receipt := Some (hx_receipt x)\<rparr>"
proof -
  let ?g = "hr_global_room_id (ig_hub i)" and ?o = "me_origin_network_id (ig_envelope i)"
  have link: "hubLinkSpeaksFor z ctx ?g (ig_pairing i) ?o"
    using assms by (auto simp: acceptHubSubmission_def Let_def split: if_splits)
  show thesis
  proof (cases "HubReceiptForEventContext ?g (ig_digest i) (hz_store z)")
    case (Some x)
    with assms link have "accepted = placed_already x" "z' = z"
      by (auto simp: acceptHubSubmission_def Let_def split: if_splits)
    with Some link placed_before show ?thesis by blast
  next
    case None
    with assms link obtain roster member state m where r: "hubRoster (sc_env cfg) (hz_service z) (ig_hub i) 0 = Inr roster"
      "canWrite roster ?o = (member, True)" "hm_fingerprint member = me_origin_fingerprint (ig_envelope i)"
      "hubOriginState (hz_service z) ?o member False = Inr state" "the (me_membership_epoch (ig_envelope i)) = ros_epoch roster"
      "hubMessage cfg (hz_service z) ctx i = Inr m"
      and place: "placeHubMessage cfg (ig_hub i) (the (me_membership_epoch (ig_envelope i))) m (hub_envelope_record i state)
         (with_pins (BindPairing (pr_id (ig_pairing i)) ?o) z) = (Inr accepted, z')"
      by (auto simp: acceptHubSubmission_def Let_def split: if_splits sum.splits prod.splits)
    let ?z0 = "with_pins (BindPairing (pr_id (ig_pairing i)) ?o) z"
    have digest: "env_digest (hub_envelope_record i state) = ig_digest i" by (simp add: hub_envelope_record_def)
    obtain x a where "nextHubReceipt (sc_env cfg) z (ig_hub i) (ros_epoch roster) (ig_digest i) = Inr x"
      "appendHubMessage cfg m (hub_envelope_record i state) (Some x)
         (hubFanoutPairings ?z0 roster (env_origin_network_id (hub_envelope_record i state))) ?z0 = (Inr a, z')"
      "accepted = a\<lparr>ma_receipt := Some (hx_receipt x)\<rparr>"
      using place None r(1) by (auto simp: placeHubMessage_def digest split: if_splits sum.splits prod.splits)
    moreover have "pinned_as (hz_service z) (ig_envelope i)"
      using r(3,4) by (auto simp: hubOriginState_def pinned_as_def split: option.splits if_splits)
    ultimately show ?thesis
      using placed_now [OF None link r(1) canWrite_writes [OF r(2,3)] _ r(5,6)] with_pins_simps(1) by blast
  qed
qed

lemma hub_message_id: "hubMessage cfg s ctx i = Inr m \<Longrightarrow> msg_id m = hubMessageID (ig_digest i)"
  by (auto simp: hubMessage_def Let_def split: if_splits option.splits)


section \<open>A member stores a forward\<close>

lemma sync_control_roster:
  assumes inv: "control_inv (hub (hz_store z))" and sync: "syncHubControl env pull h z = (Inr synced, z')"
  shows "hubRoster env (hz_service z') h 0 = Inr synced" "z' = hz_with_store (hz_store z') z"
proof -
  have "hubRoster env (hz_service z') h 0 = Inr synced \<and> z' = hz_with_store (hz_store z') z"
  proof (cases "z' = z \<and> hubRoster env (hz_service z) h 0 = Inr synced")
    case False
    with sync obtain events where a: "applyPulledControl env h events z = (Inr synced, z')"
      by (auto simp: syncHubControl_def split: sum.splits if_splits)
    note steps = pulled_steps [OF inv a]
    have "HubControlLogContext (hr_global_room_id h) 0 (hz_store z') =
        fmget [] (hs_control (hub (hz_store z'))) (hr_global_room_id h)"
      using control_log_whole steps by blast
    with steps show ?thesis by (simp add: hubRoster_def hz_store_def)
  qed simp
  then show "hubRoster env (hz_service z') h 0 = Inr synced" "z' = hz_with_store (hz_store z') z" by blast+
qed

text \<open>The receipt of a forward, under the home's key, places the very event at the epoch it was signed under.\<close>

definition placed_by :: "go_env \<Rightarrow> hub_roster \<Rightarrow> hub_ingress \<Rightarrow> signed_room_receipt \<Rightarrow> bool" where
  "placed_by env roster i stmt \<longleftrightarrow>
     (\<exists>receipt digest. VerifyRoomReceipt env stmt (ros_home_key roster) = Inr (receipt, digest) \<and>
        rr_global_room_id receipt = hr_global_room_id (ig_hub i) \<and> rr_event_id receipt = ig_digest i \<and>
        rr_membership_epoch receipt = the (me_membership_epoch (ig_envelope i)) \<and> rr_hub_epoch receipt = HubEpochV1)"

lemma forward_at_checks:
  assumes "accept_forward_at cfg ctx i live roster z = (Inr accepted, z')"
  obtains then_roster where "placed_by (sc_env cfg) roster i (the (smr_receipt (ig_request i)))"
    "hubRoster (sc_env cfg) (hz_service z) (ig_hub i) (the (me_membership_epoch (ig_envelope i))) = Inr then_roster"
    "writes_as then_roster (ig_envelope i)"
    "Lookup (me_origin_network_id (ig_envelope i)) (sv_key_pins (hz_service z)) = None \<or> pinned_as (hz_service z) (ig_envelope i)"
proof -
  let ?o = "me_origin_network_id (ig_envelope i)" and ?epoch = "the (me_membership_epoch (ig_envelope i))"
  obtain receipt digest where receipt: "VerifyRoomReceipt (sc_env cfg) (the (smr_receipt (ig_request i))) (ros_home_key roster) =
      Inr (receipt, digest)"
    using assms by (auto simp: accept_forward_at_def Let_def split: sum.splits)
  with assms obtain then_roster where
    ok: "rr_global_room_id receipt = hr_global_room_id (ig_hub i)" "rr_event_id receipt = ig_digest i"
      "rr_membership_epoch receipt = ?epoch" "rr_hub_epoch receipt = HubEpochV1"
      "hubRoster (sc_env cfg) (hz_service z) (ig_hub i) ?epoch = Inr then_roster"
    by (auto simp: accept_forward_at_def Let_def split: if_splits sum.splits prod.splits)
  obtain member state where w: "canWrite then_roster ?o = (member, True)" "hm_fingerprint member = me_origin_fingerprint (ig_envelope i)"
      "hubOriginState (hz_service z) ?o member True = Inr state"
    using assms receipt ok by (auto simp: accept_forward_at_def Let_def split: if_splits sum.splits prod.splits)
  have "placed_by (sc_env cfg) roster i (the (smr_receipt (ig_request i)))"
    using receipt ok(1-4) by (auto simp: placed_by_def)
  moreover have "Lookup ?o (sv_key_pins (hz_service z)) = None \<or> pinned_as (hz_service z) (ig_envelope i)"
    using w(2,3) by (auto simp: hubOriginState_def pinned_as_def split: option.splits if_splits)
  ultimately show thesis using that ok(5) canWrite_writes [OF w(1,2)] by blast
qed

lemma forward_cases:
  assumes "acceptHubForward cfg pull ctx i live z = (Inr accepted, z')" and inv: "control_inv (hub (hz_store z))"
  obtains z1 roster where "z1 = hz_with_store (hz_store z1) z"
    "z1 = z \<or> (\<exists>synced. syncHubControl (sc_env cfg) pull (ig_hub i) z = (Inr synced, z1))" "hubRoster (sc_env cfg) (hz_service z1) (ig_hub i) 0 = Inr roster"
    "the (me_membership_epoch (ig_envelope i)) \<le> ros_epoch roster" "pr_id (ig_pairing i) = hr_home_pairing_id (ig_hub i)"
    "smr_receipt (ig_request i) \<noteq> None" "accept_forward_at cfg ctx i live roster z1 = (Inr accepted, z')"
proof -
  let ?epoch = "the (me_membership_epoch (ig_envelope i))"
  obtain roster where r: "pr_id (ig_pairing i) = hr_home_pairing_id (ig_hub i)" "smr_receipt (ig_request i) \<noteq> None"
      "hubRoster (sc_env cfg) (hz_service z) (ig_hub i) 0 = Inr roster"
    using assms(1) by (auto simp: acceptHubForward_def Let_def split: if_splits sum.splits)
  show thesis
  proof (cases "?epoch \<le> ros_epoch roster")
    case True
    with assms(1) r have "accept_forward_at cfg ctx i live roster z = (Inr accepted, z')"
      by (simp add: acceptHubForward_def Let_def)
    then show thesis using that [of z roster] r True by simp
  next
    case False
    with assms(1) r obtain synced z1 where s: "syncHubControl (sc_env cfg) pull (ig_hub i) z = (Inr synced, z1)"
      "?epoch \<le> ros_epoch synced" "accept_forward_at cfg ctx i live synced z1 = (Inr accepted, z')"
      by (auto simp: acceptHubForward_def Let_def not_less split: if_splits sum.splits prod.splits)
    from sync_control_roster [OF inv s(1)] show thesis using that [of z1 synced] r s by blast
  qed
qed


end
