(* ===== verification/Hub_Home_Samples.thy ===== *)
theory Hub_Home_Samples
  imports Hub_Admission Receipt_Statements
begin

text \<open>
  A home with one room, on which the properties of \<open>Hub_Home_Properties\<close>, \<open>Hub_Home_Admission\<close> and
  \<open>Hub_Admission\<close> are applied: its operator changes the history policy, its peer redeems an invite.
  Both go through the lemma that a well-formed change is accepted.
\<close>

section \<open>When a change is accepted\<close>

lemma appendHubControl_accepts:
  assumes inv: "control_inv (hub (hz_store z))"
    and home: "requireHubs z = None" "hubRoomByGlobal (hz_service z) (hq_global_room_id request) = Some h" "IsHome h"
    and roster: "hubRoster env (hz_service z) h 0 = Inr roster"
      "ros_global_room_id roster = hr_global_room_id h" "ros_global_room_id roster \<noteq> []"
      "ros_epoch roster = int (length (HubControlLogContext (hq_global_room_id request) 0 (hz_store z)))"
      "1 \<le> ros_epoch roster"
    and event: "next_control_event clock z h roster request = Inr event"
      "validateRoomControlShape event = None" "canonical (roomControlValue event)"
      "rc_global_room_id event = hr_global_room_id h" "rc_prev_hash event = ros_head_digest roster"
    and signer: "signer_for env (ros_home_key roster) (id_sign (the (hz_identity z)))"
    and applied: "\<And>key digest. \<not> isl (apply_event roster key digest event)"
    and new: "hq_kind request = RoomControlAdd \<Longrightarrow> rc_network_id event |\<notin>| fmdom (ros_members roster)"
  obtains v z' where "appendHubControl env clock request z = (Inr v, z')"
proof -
  let ?g = "hq_global_room_id request"
  let ?log = "HubControlLogContext ?g 0 (hz_store z)"
  have g: "hr_global_room_id h = ?g" by (rule hubRoomByGlobal_id [OF home(2)])
  obtain stmt digest where signed: "SignRoomControl env event (id_sign (the (hz_identity z))) = Inr (stmt, digest)"
    using canonical_read(1) [OF event(3), of "ge_format env"] event(2) by (simp add: SignRoomControl_def Let_def)
  have verified: "VerifyRoomControl env stmt (ros_home_key roster) = Inr (event, digest)"
    by (rule control_verifies [OF signed signer])
  define r where "r = \<lparr>hc_global_room_id = ?g, hc_seq = rc_seq event, hc_digest = digest, hc_control = stmt\<rparr>"
  note seq = next_control_event_seq [OF event(1)]
  have log: "replayHubRoster env ?log 0 = Inr roster"
    using roster(1) g by (simp add: hubRoster_def hz_store_def)
  have "control_key env roster r = Inr (ros_home_key roster)"
    using seq roster(5) by (simp add: control_key_def r_def)
  then have step: "applyHubControl env roster r = apply_event roster (ros_home_key roster) digest event"
    using verified roster(2) event(4,5) by (simp add: applyHubControl_def r_def)
  have replays: "\<not> isl (replayHubRoster env (?log @ [r]) 0)"
    using seq roster(4) applied by (simp add: replay_snoc [OF log] step) (simp add: r_def)
  obtain s where stored: "appendHubControlLocked [r] (hz_store z) = (None, s)"
  proof -
    have "h \<in> set (hubRooms (hz_service z))"
      using home(2) by (auto simp: hubRoomByGlobal_def find_Some_iff)
    then obtain k where "fmlookup (hs_rooms (hub (hz_store z))) k = Some h"
      by (auto simp: hubRooms_def HubRoomsContext_def hz_store_def set_fmvalues split: if_splits)
    then have "?g |\<in>| fmdom (hs_rooms (hub (hz_store z)))"
      using inv g by (auto simp: control_inv_def keyed_by_def intro: fmdomI)
    then show thesis using that seq roster(4) inv
      by (simp add: appendHubControlLocked_def stage_control_def Let_def r_def control_log_whole)
  qed
  define z1 where "z1 = (if hq_kind request = RoomControlAdd
    then recordHubLink ?g (hq_pairing_id request) (rc_network_id event) z else z)"
  have store1: "hz_store z1 = hz_store z" by (simp add: z1_def)
  have refresh: "\<not> (hq_kind request = RoomControlAdd \<and> rc_network_id event |\<in>| fmdom (ros_members roster))"
    using new by blast
  have call: "appendHubControl env clock request z = (hubRoomView env (hz_with_store s z1) h, hz_with_store s z1)"
    using home roster(1) event(1) signed replays stored
    by (simp add: appendHubControl_def Let_def g store1 refresh flip: r_def z1_def)
  have seq': "hc_seq r = int (length (fmget [] (hs_control (hub (hz_store z))) (hc_global_room_id r))) + 1"
    using seq roster(4) by (simp add: control_log_whole [OF inv] r_def)
  have "HubControlLogContext ?g 0 s = ?log @ [r]"
    using append_one_control(1) [OF inv stored seq']
    by (simp add: control_log_whole [OF inv] control_log_whole [OF control_inv_append [OF inv stored]] r_def)
  with replays obtain new where "replayHubRoster env (HubControlLogContext ?g 0 s) 0 = Inr new"
    by (cases "replayHubRoster env (?log @ [r]) 0") auto
  then have "hubRoster env (hz_service (hz_with_store s z1)) h 0 = Inr new"
    by (simp add: hubRoster_def g hz_with_store_def)
  then obtain v where "hubRoomView env (hz_with_store s z1) h = Inr v" by (simp add: hubRoomView_def)
  with call that show thesis by simp
qed

lemma appended_changes:
  assumes "control_inv (hub (hz_store z))" and "appendHubControl env clock request z = (Inr v, z')"
  shows "hz_store z' \<noteq> hz_store z"
proof -
  obtain rec where "HubControlLogContext (hq_global_room_id request) 0 (hz_store z') =
      HubControlLogContext (hq_global_room_id request) 0 (hz_store z) @ [rec]"
    by (rule appendHubControl_extends [OF assms]) simp
  then show ?thesis by auto
qed

lemma pairings_cong:
  assumes "sv_pairings s = sv_pairings s'"
  shows "findPairingByID s i = findPairingByID s' i"
    "findPairingByRemoteNetwork s n = findPairingByRemoteNetwork s' n"
    "pairingForPairScopedContext s ctx = pairingForPairScopedContext s' ctx"
  unfolding pairingForPairScopedContext_def findPairingByID_def findPairingByRemoteNetwork_def assms
  by (rule refl)+

section \<open>A home with one room\<close>

abbreviation sample_global_room :: string where
  "sample_global_room \<equiv> GlobalRoomID (NetworkKeyFingerprint sample_key) ''research''"

definition sample_hub :: hub_room where
  "sample_hub = \<lparr>hr_global_room_id = sample_global_room, hr_local_room_id = ''research'', hr_home_network_id = ''home'',
     hr_home_pairing_id = [], hr_created_at = 1\<rparr>"

definition sample_hub_store :: memory_store where
  "sample_hub_store = NewMemoryStore\<lparr>hub := newHubState\<lparr>hs_rooms := fmupd sample_global_room sample_hub fmempty,
     hs_control := fmupd sample_global_room [sample_record] fmempty\<rparr>\<rparr>"

definition sample_hub_home :: hub_service where
  "sample_hub_home =
     \<lparr>hz_service = sample_service\<lparr>sv_network_id := ''home'', sv_store := sample_hub_store\<rparr>,
      hz_invites = \<lparr>hi_grants = [\<lparr>hg_pairing_id = ''pair-b'', hg_global_room_id = sample_global_room,
                       hg_role = ''writer'', hg_exp = 9\<rparr>], hi_joins = [], hi_links = []\<rparr>,
      hz_identity = Some \<lparr>id_public = sample_key, id_sign = (\<lambda>_. replicate 64 (CHR ''s''))\<rparr>\<rparr>"

definition sample_clock :: hub_clock where
  "sample_clock = \<lparr>hk_now = 5, hk_text = ''2026-01-02T00:00:00Z''\<rparr>"

definition sample_roster :: hub_roster where
  "sample_roster =
     \<lparr>ros_global_room_id = sample_global_room, ros_room_id = ''research'', ros_home_network_id = ''home'',
      ros_home_fingerprint = NetworkKeyFingerprint sample_key, ros_home_key = sample_key, ros_history = ''from_join'',
      ros_epoch = 1, ros_head_digest = hc_digest sample_record,
      ros_members = fmupd ''home'' (event_member sample_genesis RoomRoleOwner) fmempty, ros_ever = {|''home''|}\<rparr>"

lemma sample_record_fields [simp]:
  "hc_seq sample_record = 1" "hc_global_room_id sample_record = sample_global_room"
  by (simp_all add: sample_signed_record_def sample_genesis_def)

lemma sample_genesis_applied: "applyHubControl sample_env zero_roster sample_record = Inr sample_roster"
proof -
  have key: "control_key sample_env zero_roster sample_record = Inr sample_key"
    using sample_record_verified(1) by (simp add: control_key_def) (simp add: sample_genesis_def sample_parse)
  have "apply_event zero_roster sample_key (hc_digest sample_record) sample_genesis = Inr sample_roster"
    by (simp add: apply_event_def Let_def sample_genesis_def research_room sample_roster_def zero_roster_def
        event_member_def)
  moreover have "rc_seq sample_genesis = 1" "ros_global_room_id zero_roster = []"
      "rc_prev_hash sample_genesis = ros_head_digest zero_roster"
    by (simp_all add: sample_genesis_def zero_roster_def)
  ultimately show ?thesis using sample_record_verified(2)
    by (simp add: applyHubControl_def key)
qed

lemma sample_hub_home_store [simp]: "hz_store sample_hub_home = sample_hub_store"
  by (simp add: sample_hub_home_def hz_store_def)

lemma sample_log: "HubControlLogContext sample_global_room 0 sample_hub_store = [sample_record]"
  by (simp add: HubControlLogContext_def sample_hub_store_def fmget_def)

lemma sample_control_inv: "control_inv (hub sample_hub_store)"
  by (auto simp: control_inv_def sample_hub_store_def newHubState_def keyed_by_def set_fmvalues fmget_def contiguous_def
      sample_hub_def split: if_splits)

lemma sample_hub_room: "hubRoomByGlobal (hz_service sample_hub_home) sample_global_room = Some sample_hub"
proof -
  have "HubRoomsContext sample_hub_store = [sample_hub]"
    by (simp add: HubRoomsContext_def sample_hub_store_def fmvalues_def sorted_list_of_fmap_def sorted_list_of_fset.rep_eq)
  then show ?thesis
    by (simp add: hubRoomByGlobal_def hubRooms_def sample_hub_home_def sample_service_def) (simp add: sample_hub_def)
qed

lemma sample_hub_roster: "hubRoster sample_env (hz_service sample_hub_home) sample_hub 0 = Inr sample_roster"
proof -
  have "replayHubRoster sample_env [sample_record] 0 = Inr sample_roster"
    by (simp add: replayHubRoster_def sample_genesis_applied)
  moreover have "sv_store (hz_service sample_hub_home) = sample_hub_store" by (simp add: sample_hub_home_def)
  ultimately show ?thesis by (simp add: hubRoster_def sample_log) (simp add: sample_hub_def sample_log)
qed

lemma sample_hubs: "requireHubs sample_hub_home = None"
  by (simp add: requireHubs_def sample_hub_home_def sample_service_def)

lemma sample_hub_home_signer: "signer_for sample_env (ros_home_key sample_roster) (id_sign (the (hz_identity sample_hub_home)))"
  using sample_signer by (simp add: sample_roster_def sample_key_def sample_hub_home_def)

lemma digest_ascii: "list_all (byte_in 0 0x7F) (domainDigest d bytes)"
  using set_hex_encode [of "sha256 (d @ bytes)"] hex_digit_chars by (auto simp: domainDigest_def list_all_iff)

lemma digest_nonempty: "domainDigest d bytes \<noteq> []"
  using length_hex_encode [of "sha256 (d @ bytes)"] length_sha256 [of "d @ bytes"]
  by (auto simp: domainDigest_def simp del: length_hex_encode length_sha256)

section \<open>A change of the history policy\<close>

definition sample_change_request :: hub_control_request where
  "sample_change_request = \<lparr>hq_global_room_id = sample_global_room, hq_kind = RoomControlSetPolicy, hq_pairing_id = [],
     hq_network_id = [], hq_role = [], hq_history = ''full_history''\<rparr>"

definition sample_event :: room_control_event where
  "sample_event =
     \<lparr>rc_v = RoomControlVersionV1, rc_global_room_id = sample_global_room, rc_seq = 2, rc_epoch = 2,
      rc_prev_hash = hc_digest sample_record, rc_kind = RoomControlSetPolicy, rc_network_id = [], rc_fingerprint = [],
      rc_public_key = [], rc_role = [], rc_history = ''full_history'', rc_created_at = ''2026-01-02T00:00:00Z''\<rparr>"

lemma sample_change: obtains v z' where "appendHubControl sample_env sample_clock sample_change_request sample_hub_home = (Inr v, z')"
proof (rule appendHubControl_accepts)
  show "control_inv (hub (hz_store sample_hub_home))" by (simp add: sample_control_inv)
  show "requireHubs sample_hub_home = None" by (rule sample_hubs)
  show "hubRoomByGlobal (hz_service sample_hub_home) (hq_global_room_id sample_change_request) = Some sample_hub"
    by (simp add: sample_change_request_def sample_hub_room)
  show "next_control_event sample_clock sample_hub_home sample_hub sample_roster sample_change_request = Inr sample_event"
    by (simp add: next_control_event_def sample_change_request_def Let_def sample_event_def sample_hub_def sample_roster_def
        sample_clock_def)
  show "validateRoomControlShape sample_event = None"
    by (simp add: validateRoomControlShape_def sample_event_def Let_def research_room ValidRoomHistory_def
        sample_signed_record_def digest_nonempty)
  show "canonical (roomControlValue sample_event)"
    by (simp add: roomControlValue_def putString_def sample_event_def ascii_valid utf16Less_def utf16_units_ascii
        byte_in_def fingerprint_chars GlobalRoomID_def sample_signed_record_def digest_ascii)
  show "\<not> isl (apply_event sample_roster key digest sample_event)" for key digest
    by (simp add: apply_event_def sample_event_def Let_def)
  show "hubRoster sample_env (hz_service sample_hub_home) sample_hub 0 = Inr sample_roster" by (rule sample_hub_roster)
  show "signer_for sample_env (ros_home_key sample_roster) (id_sign (the (hz_identity sample_hub_home)))"
    by (rule sample_hub_home_signer)
qed (auto simp: sample_change_request_def sample_log sample_event_def sample_roster_def sample_hub_def IsHome_def
  GlobalRoomID_nonempty)

theorem appended_log_replays_witness:
  "\<exists>v z' rec. appendHubControl sample_env sample_clock sample_change_request sample_hub_home = (Inr v, z') \<and>
     HubControlLogContext sample_global_room 0 (hz_store z') = [sample_record, rec]"
proof -
  obtain v z' where ok: "appendHubControl sample_env sample_clock sample_change_request sample_hub_home = (Inr v, z')"
    by (rule sample_change)
  have "control_inv (hub (hz_store sample_hub_home))" by (simp add: sample_control_inv)
  from appended_log_replays [OF this ok] ok show ?thesis
    by (auto simp: sample_change_request_def sample_log)
qed


section \<open>A receipt and a page\<close>

lemma sample_placed:
  obtains r where "nextHubReceipt sample_env sample_hub_home sample_hub 1 (replicate 64 (CHR ''a'')) = Inr r"
proof -
  let ?r = "next_room_receipt sample_hub_store sample_hub 1 (replicate 64 (CHR ''a''))"
  have receipt: "?r = \<lparr>rr_v = RoomReceiptVersionV1, rr_global_room_id = sample_global_room, rr_hub_epoch = 1,
      rr_membership_epoch = 1, rr_room_seq = 1, rr_event_id = replicate 64 (CHR ''a''), rr_prev_receipt_hash = []\<rparr>"
    by (simp add: next_room_receipt_def HubReceiptHeadContext_def sample_hub_store_def newHubState_def sample_hub_def)
  have "canonical (roomReceiptValue ?r)"
    unfolding receipt
    by (simp add: roomReceiptValue_def putString_def ascii_valid utf16Less_def utf16_units_ascii byte_in_def
        list_all_replicate fingerprint_chars GlobalRoomID_def)
  moreover have "validateRoomReceiptShape ?r = None"
    unfolding receipt
    by (simp add: validateRoomReceiptShape_def Let_def list_all_replicate hex_digit_def research_room)
  ultimately obtain stmt digest where "SignRoomReceipt sample_env ?r (id_sign (the (hz_identity sample_hub_home))) = Inr (stmt, digest)"
    using canonical_read(1) by (simp add: SignRoomReceipt_def Let_def)
  then show thesis using that by (simp add: nextHubReceipt_def Let_def)
qed

lemma sample_placed_accepted:
  "\<exists>r. nextHubReceipt sample_env sample_hub_home sample_hub 1 (replicate 64 (CHR ''a'')) = Inr r \<and>
     checkHubReceiptLocked r sample_hub_store = Inr False"
proof -
  obtain r where r: "nextHubReceipt sample_env sample_hub_home sample_hub 1 (replicate 64 (CHR ''a'')) = Inr r"
    by (rule sample_placed)
  have "receipts_inv (hs_receipts (hub (hz_store sample_hub_home)))"
    "HubReceiptForEventContext (hr_global_room_id sample_hub) (replicate 64 (CHR ''a'')) (hz_store sample_hub_home) = None"
    "list_all (\<lambda>x. hx_global_room_id x = hr_global_room_id sample_hub \<longrightarrow> hx_membership_epoch x \<le> 1)
      (hs_receipts (hub (hz_store sample_hub_home)))"
    by (simp_all add: sample_hub_store_def newHubState_def receipts_inv_def HubReceiptForEventContext_def)
  from next_receipt_checked [OF this r] r show ?thesis by simp
qed

theorem control_page_exact_witness:
  "\<exists>page. HubControlPageContext sample_env 1000 sample_hub_home background sample_global_room 0 = Inr page \<and>
     cp_events page = [hc_control sample_record] \<and> \<not> cp_more page"
proof -
  let ?page = "\<lparr>cp_global_room_id = sample_global_room, cp_events = [hc_control sample_record], cp_more = False\<rparr>"
  have "sv_hubs (hz_service sample_hub_home)" "sv_store (hz_service sample_hub_home) = sample_hub_store"
      "pairingForPairScopedContext (hz_service sample_hub_home) background = None"
    by (simp_all add: sample_hub_home_def sample_service_def pairingForPairScopedContext_def background_def)
  then have page: "HubControlPageContext sample_env 1000 sample_hub_home background sample_global_room 0 = Inr ?page"
    by (simp add: HubControlPageContext_def sample_hub_room sample_log Let_def)
  from control_page_exact [OF page] page show ?thesis by auto
qed

section \<open>An admission\<close>

definition sample_admission :: room_admission where
  "sample_admission =
     \<lparr>ra_v = HubAdmissionVersionV1, ra_global_room_id = sample_global_room, ra_network_id = ''net-b'',
      ra_fingerprint = NetworkKeyFingerprint sample_key, ra_public_key = EncodeNetworkPublicKey sample_key,
      ra_created_at = ''2026-01-02T00:00:00Z''\<rparr>"

lemma key_ascii: "list_all (byte_in 0 0x7F) (EncodeToString sample_key)"
  using set_EncodeToString [of sample_key] alphabet_ascii by (auto simp: list_all_iff)

lemma sample_admission_verifies: obtains stmt where "VerifyRoomAdmission sample_env stmt = Inr sample_admission"
proof -
  have "canonical (roomAdmissionValue sample_admission)"
    by (simp add: roomAdmissionValue_def sample_admission_def ascii_valid utf16Less_def utf16_units_ascii byte_in_def
        fingerprint_chars GlobalRoomID_def EncodeNetworkPublicKey_def key_ascii)
  moreover have "validateRoomAdmission sample_admission = None"
    by (simp add: validateRoomAdmission_def sample_admission_def research_room sample_matches ValidateNetworkNamespace_def)
      code_simp
  ultimately obtain stmt where
    "SignRoomAdmission sample_env sample_admission (\<lambda>_. replicate 64 (CHR ''s'')) = Inr stmt"
    using canonical_read(1) by (simp add: SignRoomAdmission_def Let_def)
  then have "VerifyRoomAdmission sample_env stmt = Inr sample_admission"
    by (rule admission_sign_verify [where key = sample_key])
      (use sample_signer in \<open>simp_all add: sample_admission_def sample_parse\<close>, simp add: sample_key_def)
  then show thesis by (rule that)
qed

abbreviation sample_network_pin :: pin where
  "sample_network_pin \<equiv>
     \<lparr>pin_network_id = ''net-b'', pin_fingerprint = NetworkKeyFingerprint sample_key,
      pin_public_key = EncodeNetworkPublicKey sample_key, pin_trust = KeyTrustUnconfirmed, pin_source = PinSourcePairing,
      pin_source_id = ''pair-b'', pin_introduced_by = [], pin_pinned_at = 5\<rparr>"

lemma sample_pinned:
  obtains ps where "PinKeyCreated 5 (sample_network_pin\<lparr>pin_pinned_at := 0\<rparr>) NewMemoryPinStore = (Inr (sample_network_pin, True), ps)"
    "pins ps = fmupd ''net-b'' sample_network_pin fmempty"
proof -
  have "NormalizeFingerprint (NetworkKeyFingerprint sample_key) = Inr (NetworkKeyFingerprint sample_key)"
    using fingerprint_chars(1) canonical_fingerprint_iff by blast
  moreover have "validatePin (sample_network_pin\<lparr>pin_pinned_at := 0\<rparr>) = None"
    by (simp add: validatePin_None pin_key_ok_def pin_trust_ok_def sample_parse ValidateNetworkNamespace_def) code_simp
  ultimately show thesis using that
    by (simp add: PinKeyCreated_def Let_def pin_update_def NewMemoryPinStore_def)
qed

definition sample_add_event :: room_control_event where
  "sample_add_event =
     \<lparr>rc_v = RoomControlVersionV1, rc_global_room_id = sample_global_room, rc_seq = 2, rc_epoch = 2,
      rc_prev_hash = hc_digest sample_record, rc_kind = RoomControlAdd, rc_network_id = ''net-b'',
      rc_fingerprint = NetworkKeyFingerprint sample_key, rc_public_key = EncodeNetworkPublicKey sample_key,
      rc_role = ''writer'', rc_history = [], rc_created_at = ''2026-01-02T00:00:00Z''\<rparr>"

definition sample_add_request :: hub_control_request where
  "sample_add_request = \<lparr>hq_global_room_id = sample_global_room, hq_kind = RoomControlAdd, hq_pairing_id = ''pair-b'',
     hq_network_id = ''net-b'', hq_role = ''writer'', hq_history = []\<rparr>"

lemma sample_add_next:
  assumes "pins ps = fmupd ''net-b'' sample_network_pin fmempty"
  shows "next_control_event sample_clock (hz_with_pins ps sample_hub_home) sample_hub sample_roster sample_add_request =
    Inr sample_add_event"
proof -
  let ?z = "hz_with_pins ps sample_hub_home"
  have s: "hz_service ?z = (hz_service sample_hub_home)\<lparr>sv_key_pins := ps\<rparr>" by (simp add: hz_with_pins_def)
  have "findPairingByID sample_service ''pair-b'' = Inr sample_pairing" by code_simp
  then have p: "findPairingByID (hz_service ?z) ''pair-b'' = Inr sample_pairing"
    using pairings_cong(1) [of "hz_service ?z" sample_service] by (simp add: s) (simp add: sample_hub_home_def)
  have n: "pairingNetworkID (hz_service ?z) sample_pairing = Some ''net-b''"
    by (simp add: pairingNetworkID_def sample_pairing_def)
  have "Lookup ''net-b'' (sv_key_pins (hz_service ?z)) = Some sample_network_pin"
    using assms by (simp add: Lookup_def s)
  moreover have "EncodeNetworkPublicKey sample_key \<noteq> []"
  proof -
    have "DecodeString [] = Some []" by code_simp
    with Decode_Encode [of sample_key] show ?thesis by (auto simp: EncodeNetworkPublicKey_def sample_key_def)
  qed
  ultimately show ?thesis
    using p n
    by (simp add: next_control_event_def fillHubAddSubject_def sample_add_request_def Let_def sample_add_event_def
        sample_hub_def sample_roster_def sample_clock_def)
qed

lemma sample_added:
  assumes "pins ps = fmupd ''net-b'' sample_network_pin fmempty"
  obtains v z' where "appendHubControl sample_env sample_clock sample_add_request (hz_with_pins ps sample_hub_home) = (Inr v, z')"
proof (rule appendHubControl_accepts)
  let ?z = "hz_with_pins ps sample_hub_home"
  have s: "hz_service ?z = (hz_service sample_hub_home)\<lparr>sv_key_pins := ps\<rparr>" by (simp add: hz_with_pins_def)
  show "control_inv (hub (hz_store ?z))" by (simp add: sample_control_inv)
  show "requireHubs ?z = None" using sample_hubs by (auto simp: requireHubs_def hz_with_pins_def split: if_splits)
  show "hubRoomByGlobal (hz_service ?z) (hq_global_room_id sample_add_request) = Some sample_hub"
    using sample_hub_room by (auto simp: sample_add_request_def s hubRoomByGlobal_def hubRooms_def split: if_splits)
  show "hubRoster sample_env (hz_service ?z) sample_hub 0 = Inr sample_roster"
    using sample_hub_roster by (simp add: s hubRoster_def)
  show "signer_for sample_env (ros_home_key sample_roster) (id_sign (the (hz_identity ?z)))"
    using sample_hub_home_signer by (simp add: hz_with_pins_def)
  show "next_control_event sample_clock ?z sample_hub sample_roster sample_add_request = Inr sample_add_event"
    by (rule sample_add_next [OF assms])
  show "validateRoomControlShape sample_add_event = None"
    by (simp add: validateRoomControlShape_def sample_add_event_def Let_def research_room sample_matches
        ValidMemberRole_def ValidateNetworkNamespace_def sample_signed_record_def digest_nonempty) code_simp
  show "canonical (roomControlValue sample_add_event)"
    by (simp add: roomControlValue_def putString_def sample_add_event_def ascii_valid utf16Less_def utf16_units_ascii
        byte_in_def fingerprint_chars GlobalRoomID_def sample_signed_record_def digest_ascii EncodeNetworkPublicKey_def key_ascii)
  show "\<not> isl (apply_event sample_roster key digest sample_add_event)" for key digest
    by (simp add: apply_event_def sample_add_event_def sample_roster_def Let_def)
qed (auto simp: sample_add_request_def sample_log sample_add_event_def sample_roster_def sample_hub_def IsHome_def
  GlobalRoomID_nonempty)


lemma sample_checks:
  "pairingForPairScopedContext (hz_service sample_hub_home) sample_peer = Some sample_pairing"
  "claimed_network sample_peer = []"
  "checkAdmissionCredential sample_hub_home sample_peer sample_pairing ''net-b'' = None"
proof -
  let ?s = "sample_service\<lparr>sv_network_id := ''home'', sv_store := sample_hub_store\<rparr>"
  have s: "hz_service sample_hub_home = ?s" by (simp add: sample_hub_home_def)
  have "pairingForPairScopedContext sample_service sample_peer = Some sample_pairing" by code_simp
  moreover have "pairingForPairScopedContext ?s ctx = pairingForPairScopedContext sample_service ctx" for ctx
    by (rule pairings_cong) simp
  ultimately show "pairingForPairScopedContext (hz_service sample_hub_home) sample_peer = Some sample_pairing"
    by (simp only: s)
  show claimed: "claimed_network sample_peer = []"
    by (simp add: claimed_network_def sample_peer_def WithMode_def WithClaims_def background_def)
  have "findPairingByRemoteNetwork sample_service ''net-b'' = Inr sample_pairing" by code_simp
  then have remote: "findPairingByRemoteNetwork ?s ''net-b'' = Inr sample_pairing"
    using pairings_cong(2) [of ?s sample_service] by simp
  have "PairingNetworks (pr_id sample_pairing) NewMemoryPinStore = []" by code_simp
  then have nets: "PairingNetworks (pr_id sample_pairing) (sv_key_pins sample_service) = []" by (simp add: sample_service_def)
  have "ps_remote_network_id (PairingDeliveryStateContext (pr_id sample_pairing) NewMemoryStore) = []" by code_simp
  then have known: "ps_remote_network_id (PairingDeliveryStateContext (pr_id sample_pairing) sample_hub_store) = []"
    by (simp add: sample_hub_store_def PairingDeliveryStateContext_def)
  show "checkAdmissionCredential sample_hub_home sample_peer sample_pairing ''net-b'' = None"
    by (simp add: checkAdmissionCredential_def s claimed nets known remote Let_def)
qed

lemma sample_admitted:
  assumes "VerifyRoomAdmission sample_env stmt = Inr sample_admission"
  obtains res z' where "AdmitHubMemberContext sample_env 1000 sample_clock sample_peer stmt sample_hub_home = (res, z')"
    "hz_store z' \<noteq> hz_store sample_hub_home"
proof -
  obtain ps where ps: "PinKeyCreated 5 (sample_network_pin\<lparr>pin_pinned_at := 0\<rparr>) NewMemoryPinStore = (Inr (sample_network_pin, True), ps)"
      "pins ps = fmupd ''net-b'' sample_network_pin fmempty"
    by (rule sample_pinned)
  define ps2 where "ps2 = BindPairing ''pair-b'' ''net-b'' ps"
  have "pins ps2 = fmupd ''net-b'' sample_network_pin fmempty" using ps(2) by (simp add: ps2_def)
  from sample_added [OF this] obtain v z3 where
    added: "appendHubControl sample_env sample_clock sample_add_request (hz_with_pins ps2 sample_hub_home) = (Inr v, z3)"
    by blast
  have "control_inv (hub (hz_store (hz_with_pins ps2 sample_hub_home)))" by (simp add: sample_control_inv)
  from appended_changes [OF this added] have grown: "hz_store z3 \<noteq> sample_hub_store"
    by (auto simp: sample_add_request_def)
  define grant where "grant = \<lparr>hg_pairing_id = ''pair-b'', hg_global_room_id = sample_global_room, hg_role = ''writer'', hg_exp = 9\<rparr>"
  have grant: "Grant (pr_id sample_pairing) sample_global_room (hk_now sample_clock) (hz_invites sample_hub_home) = Some grant"
    by (simp add: Grant_def sample_hub_home_def sample_pairing_def sample_clock_def grant_def)
  have last: "admit_new_member sample_env 1000 sample_clock sample_peer sample_pairing sample_hub sample_admission grant sample_hub_home =
      (let z4 = z3\<lparr>hz_invites := RemoveGrant ''pair-b'' sample_global_room (hz_invites z3)\<rparr>
       in (HubControlPageContext sample_env 1000 z4 sample_peer sample_global_room 0, z4))"
  proof -
    have pins0: "sv_key_pins (hz_service sample_hub_home) = NewMemoryPinStore" "hk_now sample_clock = 5"
        "pr_id sample_pairing = ''pair-b''" "hr_global_room_id sample_hub = sample_global_room"
      by (simp_all add: sample_hub_home_def sample_service_def sample_clock_def sample_pairing_def sample_hub_def)
    have z2: "hz_with_pins ps2 (hz_with_pins ps sample_hub_home) = hz_with_pins ps2 sample_hub_home"
      by (simp add: hz_with_pins_def)
    show ?thesis
      using ps(1) added z2
      by (simp add: admit_new_member_def Let_def pins0 sample_checks(2) sample_admission_def grant_def sample_add_request_def
          flip: ps2_def)
  qed
  have sv: "sv_network_id (hz_service sample_hub_home) = ''home''" by (simp add: sample_hub_home_def)
  have nobody: "fmlookup (ros_members sample_roster) ''net-b'' = None" by (simp add: sample_roster_def)
  have fields: "ra_global_room_id sample_admission = sample_global_room" "ra_network_id sample_admission = ''net-b''"
      "hr_global_room_id sample_hub = sample_global_room" "IsHome sample_hub"
    by (simp_all add: sample_admission_def sample_hub_def IsHome_def)
  have "AdmitHubMemberContext sample_env 1000 sample_clock sample_peer stmt sample_hub_home =
      admit_new_member sample_env 1000 sample_clock sample_peer sample_pairing sample_hub sample_admission grant sample_hub_home"
    by (simp add: AdmitHubMemberContext_def Let_def sample_checks sample_hubs assms fields sample_hub_room sv
        sample_hub_roster nobody grant)
  with last that grown show thesis by (simp add: Let_def)
qed

theorem admission_spends_invite_witness:
  "\<exists>stmt z'. snd (AdmitHubMemberContext sample_env 1000 sample_clock sample_peer stmt sample_hub_home) = z' \<and>
     Grant ''pair-b'' sample_global_room 5 (hz_invites z') = None \<and>
     (\<exists>new. replayHubRoster sample_env (HubControlLogContext sample_global_room 0 (hz_store z')) 0 = Inr new \<and>
        ''net-b'' |\<in>| fmdom (ros_members new))"
proof -
  obtain stmt where stmt: "VerifyRoomAdmission sample_env stmt = Inr sample_admission" by (rule sample_admission_verifies)
  obtain res z' where ok: "AdmitHubMemberContext sample_env 1000 sample_clock sample_peer stmt sample_hub_home = (res, z')"
      and changed: "hz_store z' \<noteq> hz_store sample_hub_home"
    by (rule sample_admitted [OF stmt])
  have inv: "control_inv (hub (hz_store sample_hub_home))" by (simp add: sample_control_inv)
  have "trim_space ''net-b'' = ''net-b''" "ra_global_room_id sample_admission = sample_global_room"
      "ra_network_id sample_admission = ''net-b''" "pr_id sample_pairing = ''pair-b''"
    by (simp_all add: sample_admission_def sample_pairing_def)
  with admission_spends_invite [OF inv ok changed] stmt sample_checks(1) ok show ?thesis
    by (intro exI [of _ stmt] exI [of _ z']) (auto simp: Let_def fmdom_notI intro: fmdomI split: option.splits)
qed

end
