(* ===== verification/Hub_Sync_Samples.thy ===== *)
theory Hub_Sync_Samples
  imports Hub_Sync_Service Hub_Home_Samples
begin

text \<open>A home that placed one message and a member that has seen none, as an instance of the theorems on pages.\<close>

definition sample_sizes :: page_sizes where
  "sample_sizes = \<lparr>pz_page = (\<lambda>_. 10), pz_control = (\<lambda>_. 10), pz_entry = (\<lambda>_. 10), pz_budget = 1000, pz_transport = 1000\<rparr>"

definition placed_store :: "hub_receipt_record \<Rightarrow> memory_store" where
  "placed_store r = sample_hub_store\<lparr>hub := (hub sample_hub_store)\<lparr>hs_receipts := [r]\<rparr>\<rparr>"

definition placed_home :: "hub_receipt_record \<Rightarrow> hub_service" where
  "placed_home r = hz_with_store (placed_store r) sample_hub_home"

definition sample_member_room :: hub_room where
  "sample_member_room = sample_hub\<lparr>hr_home_pairing_id := ''pair-b''\<rparr>"

definition sample_member :: hub_service where
  "sample_member = sample_hub_home\<lparr>hz_service := (hz_service sample_hub_home)\<lparr>sv_network_id := ''net-b'',
     sv_store := sample_hub_store\<lparr>hub := (hub sample_hub_store)\<lparr>hs_rooms := fmupd sample_global_room sample_member_room fmempty\<rparr>\<rparr>\<rparr>\<rparr>"

definition sample_page :: "hub_receipt_record \<Rightarrow> room_sync_page" where
  "sample_page r = \<lparr>yp_global_room_id = sample_global_room, yp_control = [],
     yp_entries = [\<lparr>ye_receipt = hx_receipt r, ye_message = None, ye_withheld = []\<rparr>], yp_through_seq = 1, yp_more = False\<rparr>"

lemma sample_member_store: "hz_store sample_member =
   sample_hub_store\<lparr>hub := (hub sample_hub_store)\<lparr>hs_rooms := fmupd sample_global_room sample_member_room fmempty\<rparr>\<rparr>"
  by (simp add: sample_member_def hz_store_def)

lemma sample_member_cursor: "HubSyncCursorContext sample_global_room (hz_store sample_member) =
   zero_cursor\<lparr>cur_global_room_id := sample_global_room\<rparr>"
  by (simp add: sample_member_store HubSyncCursorContext_def sample_hub_store_def newHubState_def fmget_def)

lemma sample_member_roster: "hubRoster sample_env (hz_service sample_member) sample_member_room 0 = Inr sample_roster"
proof -
  have "HubControlLogContext sample_global_room 0 (sv_store (hz_service sample_member)) = [sample_record]"
    by (simp add: sample_member_def HubControlLogContext_def sample_hub_store_def fmget_def)
  moreover have "replayHubRoster sample_env [sample_record] 0 = Inr sample_roster"
    by (simp add: replayHubRoster_def sample_genesis_applied)
  ultimately show ?thesis by (simp add: hubRoster_def) (simp add: sample_member_room_def sample_hub_def)
qed

lemma placed_home_store: "hz_store (placed_home r) = placed_store r"
  by (simp add: placed_home_def)

lemma sample_next_fields:
  assumes "nextHubReceipt sample_env sample_hub_home sample_hub 1 (replicate 64 (CHR ''a'')) = Inr r"
  shows "in_line sample_global_room r" "hx_room_seq r = 1" "hx_membership_epoch r = 1" "hx_message_id r = []"
    "home_signed sample_env sample_key r"
proof -
  have "HubReceiptHeadContext sample_global_room HubEpochV1 sample_hub_store = None"
    by (simp add: HubReceiptHeadContext_def sample_hub_store_def newHubState_def)
  with nextHubReceipt_fields [OF assms] show "in_line sample_global_room r" "hx_room_seq r = 1" "hx_membership_epoch r = 1"
    by (simp_all add: sample_hub_def)
  show "hx_message_id r = []" using assms by (auto simp: nextHubReceipt_def Let_def split: sum.splits)
  show "home_signed sample_env sample_key r"
    using nextHubReceipt_signed [OF assms] sample_hub_home_signer by (simp add: sample_roster_def)
qed

lemma placed_chain:
  assumes "nextHubReceipt sample_env sample_hub_home sample_hub 1 (replicate 64 (CHR ''a'')) = Inr r"
  shows "home_chain sample_env (ros_home_key sample_roster) sample_global_room (hs_receipts (hub (hz_store (placed_home r))))"
  using sample_next_fields [OF assms]
  by (simp add: home_chain_def placed_home_store placed_store_def receipts_inv_def sample_roster_def)

lemma sample_page_served:
  assumes r: "nextHubReceipt sample_env sample_hub_home sample_hub 1 (replicate 64 (CHR ''a'')) = Inr r"
  shows "HubSyncPageContext sample_env sample_sizes background sample_global_room 0 1 (placed_home r) = Inr (sample_page r)"
proof -
  note f = sample_next_fields [OF r]
  have room: "hubRoomByGlobal (hz_service (placed_home r)) sample_global_room = Some sample_hub"
  proof -
    have "HubRoomsContext (placed_store r) = HubRoomsContext sample_hub_store"
      by (simp add: HubRoomsContext_def placed_store_def)
    moreover have "sv_hubs sample_service" by (simp add: sample_service_def)
    ultimately show ?thesis
      using sample_hub_room by (simp add: hubRoomByGlobal_def hubRooms_def placed_home_def hz_with_store_def sample_hub_home_def)
  qed
  have s: "sv_hubs (hz_service (placed_home r))" "sv_store (hz_service (placed_home r)) = placed_store r"
      "pairingForPairScopedContext (hz_service (placed_home r)) background = None"
    by (simp_all add: placed_home_def hz_with_store_def sample_hub_home_def sample_service_def pairingForPairScopedContext_def
        background_def)
  have log: "HubControlLogContext sample_global_room 0 (placed_store r) = [sample_record]"
    using sample_log by (simp add: HubControlLogContext_def placed_store_def)
  have roster: "replayHubRoster sample_env [sample_record] 0 = Inr sample_roster"
    by (simp add: replayHubRoster_def sample_genesis_applied)
  have operator: "requireHubOperator background = None" by (simp add: requireHubOperator_def ModeFromContext_def background_def)
  let ?empty = "\<lparr>yp_global_room_id = sample_global_room, yp_control = [], yp_entries = [], yp_through_seq = 0, yp_more = False\<rparr>"
  have control: "sync_control_loop sample_sizes 1 1 [sample_record] ?empty 10 = (?empty, 10, False)"
    by simp
  have after: "HubReceiptsAfterContext sample_global_room HubEpochV1 0 201 (placed_store r) = [r]"
    using f by (simp add: HubReceiptsAfterContext_def placed_store_def in_line_def)
  have message: "hubSyncMessage (placed_store r) sample_hub [r] None [] = Some None"
    using f by (simp add: hubSyncMessage_def sync_visible_def HubMessagesContext_def placed_store_def sample_hub_store_def
        NewMemoryStore_def fmvalues_def sorted_list_of_fmap_def sorted_list_of_fset.rep_eq Let_def)
  have "sync_entries sample_sizes (placed_store r) sample_hub None ?empty 10 = Inr (sample_page r)"
    using f after message
    by (simp add: sync_entries_def Let_def sample_page_def) (simp add: sample_hub_def Let_def)
  with room s log roster operator control show ?thesis
    by (simp add: HubSyncPageContext_def placed_home_store Let_def sample_hub_def IsHome_def sample_sizes_def)
qed

lemma sample_follows: "follows_home sample_global_room (hz_store (placed_home r)) (hz_store sample_member)"
  by (simp add: follows_home_def cursor_on_def sample_member_cursor)
    (simp add: sample_member_store sample_hub_store_def newHubState_def)

lemma sample_epochs:
  assumes r: "nextHubReceipt sample_env sample_hub_home sample_hub 1 (replicate 64 (CHR ''a'')) = Inr r"
  shows "list_all (\<lambda>x. in_line sample_global_room x \<and> hx_receipt x \<in> ye_receipt ` set (yp_entries (sample_page r)) \<longrightarrow>
    hx_membership_epoch x \<le> ros_epoch sample_roster) (hs_receipts (hub (hz_store (placed_home r))))"
  using sample_next_fields [OF r] by (simp add: placed_home_store placed_store_def sample_roster_def)

lemma sample_member_page:
  assumes r: "nextHubReceipt sample_env sample_hub_home sample_hub 1 (replicate 64 (CHR ''a'')) = Inr r"
  shows "HubSyncPageContext sample_env sample_sizes background sample_global_room
    (cur_seq (HubSyncCursorContext sample_global_room (hz_store sample_member))) 1 (placed_home r) = Inr (sample_page r)"
  using sample_page_served [OF r] by (simp add: sample_member_cursor)

lemma sample_member_room_id: "hr_global_room_id sample_member_room = sample_global_room"
  by (simp add: sample_member_room_def sample_hub_def)

theorem verified_page_extends_chain_witness:
  "\<exists>r reached. verifySyncChain sample_env sample_member sample_member_room
       (HubSyncCursorContext sample_global_room (hz_store sample_member)) (sample_page r) = Inr reached \<and>
     cur_seq reached = 1"
proof -
  obtain r where r: "nextHubReceipt sample_env sample_hub_home sample_hub 1 (replicate 64 (CHR ''a'')) = Inr r"
    by (rule sample_placed)
  have "\<exists>reached. verifySyncChain sample_env sample_member sample_member_room
       (HubSyncCursorContext sample_global_room (hz_store sample_member)) (sample_page r) = Inr reached"
    using honest_page [OF sample_member_page [OF r] placed_chain [OF r] sample_member_roster sample_member_room_id
      sample_follows sample_epochs [OF r]] by blast
  then obtain reached where reached: "verifySyncChain sample_env sample_member sample_member_room
       (HubSyncCursorContext sample_global_room (hz_store sample_member)) (sample_page r) = Inr reached" ..
  have "0 \<le> cur_seq (HubSyncCursorContext sample_global_room (hz_store sample_member))" by (simp add: sample_member_cursor)
  from verified_page_extends_chain [OF reached this] have "cur_seq reached = 1" by (auto simp: sample_page_def)
  with reached show ?thesis by blast
qed


end
