(* ===== verification/Hub_Message_Samples.thy ===== *)
theory Hub_Message_Samples
  imports Hub_Message_Properties Hub_Sync_Samples
begin

text \<open>
  A room with two members: the home that receives a submission, and the member that pulls the
  control log and receives a forward, as instances of the theorems on hub messages.
\<close>

section \<open>The log with both members\<close>

lemma verified_is_read:
  "VerifyRoomControl env stmt key = Inr (e, d) \<Longrightarrow> ParseRoomControlUnverified env stmt = Inr (e, d)"
  by (auto simp: VerifyRoomControl_def ParseRoomControlUnverified_def Let_def split: sum.splits prod.splits option.splits if_splits)

lemma sample_two:
  obtains r new where "hc_seq r = 2" "hc_global_room_id r = sample_global_room"
    "replayHubRoster sample_env [sample_record, r] 0 = Inr new" "ros_epoch new = 2" "ros_home_key new = sample_key"
    "fmlookup (ros_members new) ''net-b'' = Some (event_member sample_add_event ''writer'')"
    "\<exists>event. ParseRoomControlUnverified sample_env (hc_control r) = Inr (event, hc_digest r) \<and> rc_seq event = 2"
proof -
  define ps where "ps = NewMemoryPinStore\<lparr>pins := fmupd ''net-b'' sample_network_pin fmempty\<rparr>"
  then have ps: "pins ps = fmupd ''net-b'' sample_network_pin fmempty" by simp
  let ?z = "hz_with_pins ps sample_hub_home"
  obtain v z' where ok: "appendHubControl sample_env sample_clock sample_add_request ?z = (Inr v, z')"
    by (rule sample_added [OF ps])
  have inv: "control_inv (hub (hz_store ?z))" by (simp add: sample_control_inv)
  have g: "hq_global_room_id sample_add_request = sample_global_room" by (simp add: sample_add_request_def)
  have room: "hubRoomByGlobal (hz_service ?z) sample_global_room = Some sample_hub"
    using sample_hub_room by (auto simp: hz_with_pins_def hubRoomByGlobal_def hubRooms_def split: if_splits)
  have roster: "hubRoster sample_env (hz_service ?z) sample_hub 0 = Inr sample_roster"
    using sample_hub_roster by (simp add: hz_with_pins_def hubRoster_def)
  obtain h ros event stmt key digest r new where e:
    "hubRoomByGlobal (hz_service ?z) sample_global_room = Some h" "IsHome h" "hubRoster sample_env (hz_service ?z) h 0 = Inr ros"
    "next_control_event sample_clock ?z h ros sample_add_request = Inr event"
    "r = \<lparr>hc_global_room_id = sample_global_room, hc_seq = rc_seq event, hc_digest = digest, hc_control = stmt\<rparr>"
    "HubControlLogContext sample_global_room 0 (hz_store z') = HubControlLogContext sample_global_room 0 (hz_store ?z) @ [r]"
    "replayHubRoster sample_env (HubControlLogContext sample_global_room 0 (hz_store z')) 0 = Inr new"
    "apply_event ros key digest event = Inr new" "control_inv (hub (hz_store z'))"
    by (rule appendHubControl_extends [OF inv ok, unfolded g])
  have "h = sample_hub" "ros = sample_roster" using e(1,3) room roster by simp_all
  with e(4) sample_add_next [OF ps] have event: "event = sample_add_event" by simp
  have log: "HubControlLogContext sample_global_room 0 (hz_store z') = [sample_record, r]"
    using e(6) sample_log by simp
  have r: "hc_seq r = 2" "hc_global_room_id r = sample_global_room" by (simp_all add: e(5) event sample_add_event_def)
  have new: "ros_epoch new = 2" "ros_home_key new = sample_key"
    "fmlookup (ros_members new) ''net-b'' = Some (event_member sample_add_event ''writer'')"
    using e(8) \<open>ros = sample_roster\<close>
    by (auto simp: event apply_event_def sample_add_event_def sample_roster_def Let_def split: if_splits)
  have "applyHubControl sample_env sample_roster r = Inr new"
    using e(7) replay_snoc [of sample_env "[sample_record]" sample_roster r] sample_genesis_applied r(1)
    by (simp add: log replayHubRoster_def split: if_splits)
  then obtain event' where "ParseRoomControlUnverified sample_env (hc_control r) = Inr (event', hc_digest r)" "rc_seq event' = 2"
    using apply_success r(1) verified_is_read by metis
  with that [OF r e(7) [unfolded log] new] show thesis by blast
qed

section \<open>The member pulls the log\<close>

theorem pulled_log_replays_witness:
  "\<exists>stmt z' after. applyPulledControl sample_env sample_member_room [stmt] sample_member = (Inr after, z') \<and>
     HubControlLogContext sample_global_room 0 (hz_store sample_member) = [sample_record] \<and>
     ros_epoch after = 2 \<and> hubRoster sample_env (hz_service z') sample_member_room 0 = Inr after"
proof -
  obtain r new where r: "hc_seq r = 2" "hc_global_room_id r = sample_global_room"
    "replayHubRoster sample_env [sample_record, r] 0 = Inr new" "ros_epoch new = 2"
    "\<exists>event. ParseRoomControlUnverified sample_env (hc_control r) = Inr (event, hc_digest r) \<and> rc_seq event = 2"
    by (metis sample_two)
  obtain event where event: "ParseRoomControlUnverified sample_env (hc_control r) = Inr (event, hc_digest r)" "rc_seq event = 2"
    using r(5) by blast
  have log: "HubControlLogContext sample_global_room 0 (hz_store sample_member) = [sample_record]"
    by (simp add: sample_member_store HubControlLogContext_def sample_hub_store_def fmget_def)
  have stored: "fmget [] (hs_control (hub (hz_store sample_member))) sample_global_room = [sample_record]"
    by (simp add: sample_member_store sample_hub_store_def fmget_def)
  have same: "\<lparr>hc_global_room_id = sample_global_room, hc_seq = 2, hc_digest = hc_digest r, hc_control = hc_control r\<rparr> = r"
    using r(1,2) by simp
  have pulled: "controlRecords sample_env sample_global_room 2 [hc_control r] = Some [r]"
    using event same by simp
  have start: "pulled_start sample_env 1 [hc_control r] = 2" using event by (simp add: pulled_start_def)
  have epoch: "ros_epoch sample_roster = 1" by (simp add: sample_roster_def)
  have "\<exists>st. appendHubControlLocked [r] (hz_store sample_member) = (None, st)"
    using r(1,2) stored
    by (simp add: appendHubControlLocked_def stage_control_def Let_def)
      (simp add: sample_member_store sample_hub_store_def)
  then obtain z' where "append_records [r] sample_member = (None, z')" by (auto simp: append_records_def)
  then have pull: "applyPulledControl sample_env sample_member_room [hc_control r] sample_member = (Inr new, z')"
    using sample_member_roster pulled start log r(3)
    by (simp add: applyPulledControl_def sample_member_room_id epoch Let_def)
  have "control_inv (hub (hz_store sample_member))"
    by (auto simp: control_inv_def sample_member_store sample_hub_store_def newHubState_def keyed_by_def set_fmvalues fmget_def
        contiguous_def sample_member_room_id split: if_splits)
  from pulled_log_replays [OF this pull] have "hubRoster sample_env (hz_service z') sample_member_room 0 = Inr new" by simp
  with pull log r(4) show ?thesis by blast
qed

section \<open>A signed message\<close>

definition sample_config :: send_config where
  "sample_config = \<lparr>sc_env = sample_env, sc_url_parse = (\<lambda>_. None), sc_time_text = sample_text, sc_now = 7,
     sc_durable_events = False, sc_pairing_client = False, sc_new_message_id = ''m''\<rparr>"

definition sample_hub_request :: "string \<Rightarrow> send_message_request" where
  "sample_hub_request n = sample_relay_request\<lparr>smr_origin := (smr_origin sample_relay_request)\<lparr>org_network_id := n\<rparr>,
     smr_from := sample_actor\<lparr>act_network_id := n\<rparr>, smr_target := zero_target\<lparr>tgt_kind := TargetKindRoom, tgt_room_id := ''research''\<rparr>\<rparr>"

definition sample_hub_envelope :: "string \<Rightarrow> int \<Rightarrow> message_envelope" where
  "sample_hub_envelope n epoch =
     (EnvelopeFromRequest (sample_hub_request n) (NetworkKeyFingerprint sample_key) (sample_text 7))
       \<lparr>me_global_room_id := sample_global_room, me_membership_epoch := Some epoch, me_origin_seq := Some 1\<rparr>"

lemma sample_hub_bytes:
  assumes "n = ''net-b'' \<or> n = ''home''" "epoch = 1 \<or> epoch = 2"
  shows "EnvelopeCanonicalBytes sample_env (sample_hub_envelope n epoch) \<noteq> None"
  using assms
  by (elim disjE)
    (simp_all add: EnvelopeCanonicalBytes_def envelopeCanonicalValue_def sample_hub_envelope_def EnvelopeFromRequest_def
      sample_hub_request_def sample_relay_request_def sample_relayed_def zero_target_def sample_actor_def zero_part_def
      envelopePartValue_def envelopeActorValue_def envelopeTargetValue_def putString_def put_strings_def put_int_def
      CanonicalJSONBytes_def CanonicalJSONString_def valid_string ascii_valid byte_in_def fingerprint_chars GlobalRoomID_def validateCanonicalNumber_def Let_def)

lemma sample_hub_fields:
  assumes "n = ''net-b'' \<or> n = ''home''"
  shows "validateEnvelopeFields (sample_hub_envelope n epoch) = None"
proof -
  have "trim_space ''net-b'' = ''net-b''" "trim_space ''m1'' = ''m1''" "trim_space ''home'' = ''home''"
    by (rule trim_space_graphic; simp add: graphic_def less_eq_char_def)+
  with assms show ?thesis
    using fingerprint_chars(1) [of sample_key]
    by (auto simp: validateEnvelopeFields_def sample_hub_envelope_def EnvelopeFromRequest_def sample_hub_request_def
        sample_relay_request_def sample_relayed_def sample_actor_def zero_target_def canonical_fingerprint_iff)
qed

lemma sample_hub_signed:
  assumes "n = ''net-b'' \<or> n = ''home''" "epoch = 1 \<or> epoch = 2"
  obtains stmt digest where "VerifySignedEnvelope sample_env stmt = Inr (sample_hub_envelope n epoch, digest)"
    "length digest = 64" "list_all hex_digit digest" "list_all (byte_in 0 0x7F) digest"
proof -
  obtain bytes where bytes: "EnvelopeCanonicalBytes sample_env (sample_hub_envelope n epoch) = Some bytes"
    using sample_hub_bytes [OF assms] by auto
  have "me_origin_fingerprint (sample_hub_envelope n epoch) = NetworkKeyFingerprint sample_key"
    by (simp add: sample_hub_envelope_def EnvelopeFromRequest_def)
  then obtain stmt where stmt: "SignEnvelope sample_env (sample_hub_envelope n epoch) sample_key (\<lambda>_. replicate 64 (CHR ''s'')) =
      Inr (stmt, EnvelopeDigest bytes)"
    using sample_hub_fields [OF assms(1)] bytes by (simp add: SignEnvelope_def Let_def)
  have "me_parts (sample_hub_envelope n epoch) = msg_parts sample_relayed"
    by (simp add: sample_hub_envelope_def EnvelopeFromRequest_def sample_hub_request_def sample_relay_request_def)
  then have "VerifySignedEnvelope sample_env stmt = Inr (sample_hub_envelope n epoch, EnvelopeDigest bytes)"
    by (intro envelope_verifies [OF stmt]) (use sample_signer sample_data in \<open>simp_all add: sample_key_def\<close>)
  moreover have "length (EnvelopeDigest bytes) = 64"
    by (simp add: EnvelopeDigest_def)
  moreover have "list_all hex_digit (EnvelopeDigest bytes)" "list_all (byte_in 0 0x7F) (EnvelopeDigest bytes)"
    using set_hex_encode [of "sha256 (envelopeDigestDomain @ bytes)"] hex_digit_chars
    by (auto simp: EnvelopeDigest_def list_all_iff lower_hex_def hex_digit_def)
  ultimately show thesis by (rule that)
qed

definition delivered :: "string \<Rightarrow> signed_envelope \<Rightarrow> signed_room_receipt option \<Rightarrow> send_message_request" where
  "delivered n stmt receipt = (sample_hub_request n)\<lparr>smr_envelope := Some stmt, smr_receipt := receipt\<rparr>"

lemma delivered_valid:
  assumes "n = ''net-b'' \<or> n = ''home''"
  shows "ValidateSendMessageRequest (\<lambda>_. None) (delivered n stmt receipt) = None"
proof -
  have same: "smr_from (delivered n stmt receipt) = smr_from (sample_hub_request n)"
    "smr_parts (delivered n stmt receipt) = smr_parts (sample_hub_request n)"
    "smr_id (delivered n stmt receipt) = smr_id (sample_hub_request n)"
    "smr_target (delivered n stmt receipt) = smr_target (sample_hub_request n)"
    by (simp_all add: delivered_def)
  have "ValidateSendMessageRequest u (delivered n stmt receipt) = ValidateSendMessageRequest u (sample_hub_request n)" for u
    unfolding ValidateSendMessageRequest_def same by (rule refl)
  moreover have "ValidateSendMessageRequest (\<lambda>_. None) (sample_hub_request ''net-b'') = None"
    "ValidateSendMessageRequest (\<lambda>_. None) (sample_hub_request ''home'') = None" by code_simp+
  ultimately show ?thesis using assms by auto
qed

lemma delivered_expected:
  "expected_envelope (sample_hub_envelope n epoch) (delivered n stmt receipt) = sample_hub_envelope n epoch"
  by (simp add: expected_envelope_def sample_hub_envelope_def EnvelopeFromRequest_def delivered_def)

lemma delivered_data: "data_canonical (smr_parts (delivered n stmt receipt))"
  using sample_data by (simp add: delivered_def sample_hub_request_def sample_relay_request_def)

lemma delivered_ingress:
  assumes n: "n = ''net-b'' \<or> n = ''home''" "epoch = 1 \<or> epoch = 2"
    and e: "VerifySignedEnvelope sample_env stmt = Inr (sample_hub_envelope n epoch, digest)"
    and z: "sv_hubs (hz_service z)" "hubRoomByGlobal (hz_service z) sample_global_room = Some h" "sv_network_id (hz_service z) \<noteq> n"
  shows "checkHubIngressFrom sample_env z p (delivered n stmt receipt) =
    Inr \<lparr>ig_pairing = p, ig_hub = h, ig_envelope = sample_hub_envelope n epoch, ig_digest = digest,
         ig_request = delivered n stmt receipt\<rparr>"
proof -
  have "actorHasExplicitConsistentNetworkID (sample_actor\<lparr>act_network_id := ''net-b''\<rparr>) ''net-b''"
    "actorHasExplicitConsistentNetworkID (sample_actor\<lparr>act_network_id := ''home''\<rparr>) ''home''" by code_simp+
  with n(1) have actor: "actorHasExplicitConsistentNetworkID (sample_actor\<lparr>act_network_id := n\<rparr>) n" by auto
  have "EnvelopeMatchesRequest sample_env (sample_hub_envelope n epoch) (delivered n stmt receipt) = None"
    using sample_hub_bytes [OF n] by (auto simp: EnvelopeMatchesRequest_def delivered_expected)
  moreover have "n \<noteq> []" using n(1) by auto
  ultimately have "hub_ingress_error sample_env (sv_network_id (hz_service z)) (sample_hub_envelope n epoch) (delivered n stmt receipt) = None"
    using actor z(3) research_room
    by (simp add: hub_ingress_error_def Let_def)
      (simp add: sample_hub_envelope_def EnvelopeFromRequest_def delivered_def sample_hub_request_def sample_relay_request_def
        sample_relayed_def zero_target_def sample_actor_def)
  moreover have "me_global_room_id (sample_hub_envelope n epoch) = sample_global_room" by (simp add: sample_hub_envelope_def)
  ultimately show ?thesis
    using e z by (simp add: checkHubIngressFrom_def Let_def delivered_def)
qed

lemma delivered_message:
  assumes n: "n = ''net-b'' \<or> n = ''home''"
  shows "\<exists>m. hubMessage sample_config s ctx \<lparr>ig_pairing = p, ig_hub = h, ig_envelope = sample_hub_envelope n epoch,
      ig_digest = digest, ig_request = delivered n stmt receipt\<rparr> = Inr m \<and> tgt_kind (msg_target m) = TargetKindRoom"
proof -
  have "ea_type (me_author (sample_hub_envelope n epoch)) = ''agent''" "act_type (smr_from (delivered n stmt receipt)) = ''agent''"
    by (simp_all add: sample_hub_envelope_def EnvelopeFromRequest_def delivered_def sample_hub_request_def sample_actor_def)
  then show ?thesis
    using delivered_valid [OF n] by (simp add: hubMessage_def Let_def sample_config_def)
qed

lemma empty_store_appends:
  assumes "originReceipts st = fmempty" "messageIDs st = {||}" "tgt_kind (msg_target m) = TargetKindRoom"
    and "checkHubReceiptLocked x st = Inr False"
  shows "\<exists>l st'. AppendMessageWithPairingDeliveriesContext (Some x) e limits now m ev ps st = (Inr l, st')"
  using assms
  by (simp add: AppendMessageWithPairingDeliveriesContext_def appendWithHubReceiptLocked_def hubReceiptForMessage_def
      appendMessageLocked_def checkOriginReceiptLocked_def Let_def split: prod.splits)

lemma sample_next:
  assumes z: "HubReceiptHeadContext sample_global_room HubEpochV1 (hz_store z) = None" "hr_global_room_id h = sample_global_room"
    and ev: "length ev = 64" "list_all hex_digit ev" "list_all (byte_in 0 0x7F) ev" and epoch: "epoch = 1 \<or> epoch = 2"
  obtains x where "nextHubReceipt sample_env z h epoch ev = Inr x"
proof -
  let ?r = "next_room_receipt (hz_store z) h epoch ev"
  have receipt: "?r = \<lparr>rr_v = RoomReceiptVersionV1, rr_global_room_id = sample_global_room, rr_hub_epoch = 1,
      rr_membership_epoch = epoch, rr_room_seq = 1, rr_event_id = ev, rr_prev_receipt_hash = []\<rparr>"
    using z by (simp add: next_room_receipt_def)
  have "canonical (roomReceiptValue ?r)"
    unfolding receipt using ev epoch
    by (auto simp: roomReceiptValue_def putString_def ascii_valid utf16Less_def utf16_units_ascii byte_in_def
        fingerprint_chars GlobalRoomID_def)
  moreover have "validateRoomReceiptShape ?r = None"
    unfolding receipt using ev epoch
    by (auto simp: validateRoomReceiptShape_def Let_def research_room)
  ultimately obtain stmt digest where "SignRoomReceipt sample_env ?r (id_sign (the (hz_identity z))) = Inr (stmt, digest)"
    using canonical_read(1) by (simp add: SignRoomReceipt_def Let_def)
  then show thesis using that by (simp add: nextHubReceipt_def Let_def)
qed

section \<open>The home places a submission\<close>

definition two_home :: "hub_control_record \<Rightarrow> hub_service" where
  "two_home r = sample_hub_home\<lparr>hz_service := (hz_service sample_hub_home)\<lparr>
       sv_store := sample_hub_store\<lparr>hub := (hub sample_hub_store)\<lparr>hs_control := fmupd sample_global_room [sample_record, r] fmempty\<rparr>\<rparr>,
       sv_key_pins := NewMemoryPinStore\<lparr>pins := fmupd ''net-b'' sample_network_pin fmempty\<rparr>\<rparr>,
     hz_invites := SetLink \<lparr>hl_pairing_id = ''pair-b'', hl_global_room_id = sample_global_room, hl_network_id = ''net-b''\<rparr>
       (hz_invites sample_hub_home)\<rparr>"

lemma two_home_store: "hz_store (two_home r) =
   sample_hub_store\<lparr>hub := (hub sample_hub_store)\<lparr>hs_control := fmupd sample_global_room [sample_record, r] fmempty\<rparr>\<rparr>"
  by (simp add: two_home_def hz_store_def)

lemma two_home_parts:
  "hs_receipts (hub (hz_store (two_home r))) = []" "originReceipts (hz_store (two_home r)) = fmempty"
  "messageIDs (hz_store (two_home r)) = {||}"
  by (simp_all add: two_home_store sample_hub_store_def newHubState_def NewMemoryStore_def)

lemma two_home_service:
  "sv_hubs (hz_service (two_home r))" "sv_deliveries (hz_service (two_home r))"
  "hubRoomByGlobal (hz_service (two_home r)) sample_global_room = Some sample_hub"
  "sv_network_id (hz_service (two_home r)) = ''home''"
  "pairingForPairScopedContext (hz_service (two_home r)) sample_peer = Some sample_pairing"
  "Lookup ''net-b'' (sv_key_pins (hz_service (two_home r))) = Some sample_network_pin"
  "hubLinkSpeaksFor (two_home r) sample_peer sample_global_room sample_pairing ''net-b''"
  "hz_identity (two_home r) = hz_identity sample_hub_home"
proof -
  show "sv_hubs (hz_service (two_home r))" "sv_deliveries (hz_service (two_home r))"
    "sv_network_id (hz_service (two_home r)) = ''home''" "hz_identity (two_home r) = hz_identity sample_hub_home"
    by (simp_all add: two_home_def sample_hub_home_def sample_service_def)
  have "HubRoomsContext (sv_store (hz_service (two_home r))) = HubRoomsContext sample_hub_store"
    by (simp add: HubRoomsContext_def two_home_def)
  moreover have "sv_hubs (hz_service (two_home r)) = sv_hubs (hz_service sample_hub_home)" "sv_hubs (hz_service sample_hub_home)"
      "sv_store (hz_service sample_hub_home) = sample_hub_store"
    by (simp_all add: two_home_def) (simp_all add: sample_hub_home_def sample_service_def)
  ultimately show "hubRoomByGlobal (hz_service (two_home r)) sample_global_room = Some sample_hub"
    using sample_hub_room by (simp add: hubRoomByGlobal_def hubRooms_def)
  show "pairingForPairScopedContext (hz_service (two_home r)) sample_peer = Some sample_pairing"
    using sample_checks(1) pairings_cong(3) [of "hz_service (two_home r)" "hz_service sample_hub_home"]
    by (simp add: two_home_def)
  show "Lookup ''net-b'' (sv_key_pins (hz_service (two_home r))) = Some sample_network_pin"
    by (simp add: two_home_def Lookup_def)
  show "hubLinkSpeaksFor (two_home r) sample_peer sample_global_room sample_pairing ''net-b''"
    using sample_checks(2)
    by (simp add: hubLinkSpeaksFor_def hubPeerNetwork_def hubLinkNetwork_def two_home_def SetLink_def Links_def
        sample_pairing_def sample_hub_home_def)
qed

lemma two_home_roster:
  assumes "replayHubRoster sample_env [sample_record, r] 0 = Inr new" "hc_seq r = 2"
  shows "hubRoster sample_env (hz_service (two_home r)) sample_hub 0 = Inr new"
proof -
  have "HubControlLogContext sample_global_room 0 (sv_store (hz_service (two_home r))) = [sample_record, r]"
    using assms(2) by (simp add: two_home_def HubControlLogContext_def fmget_def)
  moreover have "hr_global_room_id sample_hub = sample_global_room" by (simp add: sample_hub_def)
  ultimately show ?thesis using assms(1) unfolding hubRoster_def by simp
qed

lemma empty_check: "hs_receipts (hub st) = [] \<Longrightarrow> checkHubReceiptLocked x st = Inr False"
  by (simp add: checkHubReceiptLocked_def checkHubReceipt_def no_neighbours_def Let_def)

lemma appendHubMessage_empty:
  assumes "sv_deliveries (hz_service z)" "originReceipts (hz_store z) = fmempty" "messageIDs (hz_store z) = {||}"
    "hs_receipts (hub (hz_store z)) = []" "tgt_kind (msg_target m) = TargetKindRoom"
  shows "\<exists>accepted z'. appendHubMessage cfg m e (Some x) ps z = (Inr accepted, z')"
proof -
  obtain l st' where "AppendMessageWithPairingDeliveriesContext (Some x) (Some e) (delivery_limits (hz_service z)) (sc_now cfg) m
      (if sc_durable_events cfg then Some (message_event (sv_network_id (hz_service z)) m (msg_created_at m)) else None) ps
      (hz_store z) = (Inr l, st')"
    using empty_store_appends [OF assms(2,3,5) empty_check [OF assms(4)]] by metis
  with assms(1) show ?thesis by (simp add: appendHubMessage_def appendHub_def)
qed

text \<open>The home after the pairing was bound to the origin, as it is when the message is placed.\<close>

definition bound_home :: "hub_control_record \<Rightarrow> hub_service" where
  "bound_home r = with_pins (BindPairing (pr_id sample_pairing) ''net-b'') (two_home r)"

lemma bound_home_store: "hz_store (bound_home r) = hz_store (two_home r)"
  unfolding bound_home_def by (rule with_pins_simps(1))

lemma bound_home_deliveries: "sv_deliveries (hz_service (bound_home r))"
  by (simp add: bound_home_def with_pins_def hz_with_pins_def two_home_service(2))

lemma bound_home_appends:
  "tgt_kind (msg_target m) = TargetKindRoom \<Longrightarrow>
   \<exists>a z'. appendHubMessage sample_config m e (Some x) (hubFanoutPairings (bound_home r) roster n) (bound_home r) = (Inr a, z')"
  by (rule appendHubMessage_empty) (simp_all add: bound_home_store bound_home_deliveries two_home_parts)

lemma bound_home_same:
  "hubRoster sample_env (hz_service (bound_home r)) = hubRoster sample_env (hz_service (two_home r))"
  "nextHubReceipt sample_env (bound_home r) = nextHubReceipt sample_env (two_home r)"
  unfolding bound_home_def by (rule with_pins_simps)+


section \<open>The member stores a forward\<close>

definition pinned_member :: hub_service where
  "pinned_member = sample_member\<lparr>hz_service := (hz_service sample_member)\<lparr>sv_key_pins :=
     NewMemoryPinStore\<lparr>pins := fmupd ''home'' (sample_network_pin\<lparr>pin_network_id := ''home''\<rparr>) fmempty\<rparr>\<rparr>\<rparr>"

lemma pinned_member_store: "hz_store pinned_member = hz_store sample_member"
  by (simp add: pinned_member_def hz_store_def)

lemma pinned_member_parts:
  "hs_receipts (hub (hz_store pinned_member)) = []" "originReceipts (hz_store pinned_member) = fmempty"
  "messageIDs (hz_store pinned_member) = {||}" "control_inv (hub (hz_store pinned_member))"
proof -
  show "hs_receipts (hub (hz_store pinned_member)) = []" "originReceipts (hz_store pinned_member) = fmempty"
    "messageIDs (hz_store pinned_member) = {||}"
    by (simp_all add: pinned_member_store sample_member_store sample_hub_store_def newHubState_def NewMemoryStore_def)
  show "control_inv (hub (hz_store pinned_member))"
    by (auto simp: pinned_member_store control_inv_def sample_member_store sample_hub_store_def newHubState_def keyed_by_def
        set_fmvalues fmget_def contiguous_def sample_member_room_id split: if_splits)
qed

lemma pinned_member_roster:
  "hubRoster sample_env (hz_service pinned_member) sample_member_room 0 = Inr sample_roster"
  "hubRoster sample_env (hz_service pinned_member) sample_member_room 1 = Inr sample_roster"
proof -
  have "sv_store (hz_service pinned_member) = sv_store (hz_service sample_member)" by (simp add: pinned_member_def)
  then have same: "hubRoster sample_env (hz_service pinned_member) sample_member_room n =
      replayHubRoster sample_env [sample_record] n" for n
    using sample_log
    by (simp add: hubRoster_def sample_member_room_id) (simp add: sample_member_def HubControlLogContext_def sample_hub_store_def)
  have "ros_epoch sample_roster = 1" by (simp add: sample_roster_def)
  then show "hubRoster sample_env (hz_service pinned_member) sample_member_room 0 = Inr sample_roster"
    "hubRoster sample_env (hz_service pinned_member) sample_member_room 1 = Inr sample_roster"
    unfolding same by (simp_all add: replayHubRoster_def sample_genesis_applied)
qed

lemma pinned_member_service:
  "sv_hubs (hz_service pinned_member)" "sv_deliveries (hz_service pinned_member)"
  "sv_network_id (hz_service pinned_member) = ''net-b''"
  "hubRoomByGlobal (hz_service pinned_member) sample_global_room = Some sample_member_room"
  "pairingForPairScopedContext (hz_service pinned_member) sample_peer = Some sample_pairing"
  "Lookup ''home'' (sv_key_pins (hz_service pinned_member)) = Some (sample_network_pin\<lparr>pin_network_id := ''home''\<rparr>)"
proof -
  show hubs: "sv_hubs (hz_service pinned_member)" and "sv_deliveries (hz_service pinned_member)"
    "sv_network_id (hz_service pinned_member) = ''net-b''"
    by (simp_all add: pinned_member_def sample_member_def sample_hub_home_def sample_service_def)
  have "HubRoomsContext (sv_store (hz_service pinned_member)) = [sample_member_room]"
    by (simp add: HubRoomsContext_def pinned_member_def sample_member_def fmvalues_def sorted_list_of_fmap_def
        sorted_list_of_fset.rep_eq)
  with hubs show "hubRoomByGlobal (hz_service pinned_member) sample_global_room = Some sample_member_room"
    by (simp add: hubRoomByGlobal_def hubRooms_def sample_member_room_id)
  have "sv_pairings (hz_service pinned_member) = sv_pairings (hz_service sample_hub_home)"
    by (simp add: pinned_member_def sample_member_def)
  then show "pairingForPairScopedContext (hz_service pinned_member) sample_peer = Some sample_pairing"
    using sample_checks(1) pairings_cong(3) by metis
  have "trim_space ''home'' = ''home''" by (rule trim_space_graphic) (simp add: graphic_def less_eq_char_def)
  then show "Lookup ''home'' (sv_key_pins (hz_service pinned_member)) = Some (sample_network_pin\<lparr>pin_network_id := ''home''\<rparr>)"
    by (simp add: pinned_member_def Lookup_def)
qed


end
