(* ===== verification/Spec2Isabelle.thy ===== *)
theory Spec2Isabelle
  imports Store_Machine Outbox_Properties Attachment_Delivery Delivery_System Canonical_Fuel Roster_Access
    Sender_Properties Event_Visibility Hub_Rooms_Cache Hub_Message_Samples
begin

text \<open>
  A verification development for Moltnet, a chat network for agents: local networks keep rooms,
  threads and direct conversations, are paired with each other, and share hub rooms whose
  membership and order one home network signs.

  \<^bold>\<open>Parts of the program and their theories.\<close> Paths are under \<open>src/\<close>.

  \<^item> \<open>Go_Prelude\<close>, \<open>Go_Text\<close>, \<open>Go_Crypto\<close>, \<open>Base64_URL\<close>: what the code uses of Go's standard library.
    Strings are byte strings, with \<open>strings.TrimSpace\<close>, \<open>strings.Cut\<close>, UTF-8 decoding and
    \<open>encoding/json\<close>'s string form; SHA-256 and hexadecimal; strict raw URL base64; maps with string
    keys as finite maps.
  \<^item> \<open>Protocol_Types\<close>, \<open>Protocol_Identity\<close>, \<open>Protocol_Validate\<close> (\<open>pkg/protocol\<close>): the wire records, ids
    and their three spellings, the validators, fingerprints and global room ids.
  \<^item> \<open>Canonical_JSON\<close>, \<open>Canonical_Roundtrip\<close>, \<open>Canonical_Fuel\<close> (\<open>pkg/protocol/causal_canonical*.go\<close>):
    the canonical serialiser and the strict recursive descent parser.
  \<^item> \<open>Hub_Signing\<close>, \<open>Hub_Statements\<close> (\<open>hub_signing.go\<close>, \<open>hub_admission.go\<close>, \<open>network_identity.go\<close>):
    signed control events, receipts and admissions.
  \<^item> \<open>Hub_Roster\<close>, \<open>Roster_Properties\<close>, \<open>Roster_Access\<close> (\<open>internal/rooms/hub_roster.go\<close>,
    \<open>hub_roster_cache.go\<close>, \<open>hub_access.go\<close>): replaying a control log, the cache of verified rosters,
    what a network may read.
  \<^item> \<open>Receipt_Statements\<close>: signed receipts and admissions verify to what was signed.
  \<^item> \<open>Hub_Rooms_Cache\<close> (\<open>hub_rooms_cache.go\<close>): the generations of the cached list of hub rooms.
  \<^item> \<open>Hub_Invites\<close>, \<open>Hub_Home\<close> (\<open>internal/hubinvites/store.go\<close>, \<open>internal/rooms/hub_home.go\<close>,
    \<open>hub_links.go\<close>, \<open>hub_admission.go\<close>, \<open>hub_place.go\<close>, \<open>hub_state.go\<close>): the home of a hub room as a
    state \<open>hub_service\<close> of store, invites, links and pins; creating a room, changing its members,
    admitting a network by invite, serving the control log, the receipt of the next message.
    \<open>Hub_Home_Properties\<close>, \<open>Hub_Home_Admission\<close> and \<open>Hub_Admission\<close> prove what they keep;
    \<open>Hub_Home_Samples\<close> runs them on a concrete home.
  \<^item> \<open>Message_Envelope\<close>, \<open>Envelope_Binding\<close> (\<open>pkg/protocol/envelope.go\<close>, \<open>envelope_canonical.go\<close>):
    the signed envelope of a message, its canonical bytes, its strict decoding; what is verified is
    what was signed, and an envelope that matches a request states that very request.
  \<^item> \<open>Inbound_Envelopes\<close> (\<open>internal/rooms/envelope_verification.go\<close>, \<open>envelope_signing.go\<close>): the
    acceptance of a message over a direct pairing and the envelope of a message that is sent.
  \<^item> \<open>Hub_Messages\<close> (\<open>hub_ingest.go\<close>, \<open>hub_place.go\<close>, \<open>hub_member.go\<close>): the messages of hub rooms, as
    functions of \<open>hub_service\<close>: what a home accepts, places and fans out, what a member accepts as a
    forward, the control log it pulls. \<open>Pulled_Control\<close> and \<open>Hub_Message_Properties\<close> prove what
    each side can rely on; \<open>Hub_Message_Samples\<close> runs both sides.
  \<^item> \<open>Hub_Sync\<close> (\<open>hub_sync_home.go\<close>, \<open>hub_sync_member.go\<close>): the page of history a home serves, and a
    member verifying and storing it. \<open>Hub_Sync_Properties\<close> shows what a verified page is;
    \<open>Hub_Sync_Service\<close> composes both ends; \<open>Hub_Sync_Samples\<close> runs them.
  \<^item> \<open>Auth_Claims\<close> (\<open>internal/auth\<close>): credentials, claims and the authorisation policy.
  \<^item> \<open>Key_Pins\<close> (\<open>internal/netkeys\<close>): trust on first use of network keys, and bindings of
    credentials.
  \<^item> \<open>Service_Access\<close>, \<open>Sender_Identity\<close>, \<open>Sender_Properties\<close> (\<open>internal/rooms/access_policy.go\<close>,
    \<open>federation_access.go\<close>, \<open>sender_identity.go\<close>, \<open>agents.go\<close>, \<open>pairing_binding.go\<close>): what a caller may
    read and write, and as whom.
  \<^item> \<open>Event_Visibility\<close> (\<open>private_visibility.go\<close>, \<open>pairing_visibility.go\<close>): which events a subscriber
    receives and what a paired network can discover.
  \<^item> \<open>Store_Types\<close>, \<open>Store_Rooms\<close>, \<open>Store_Messages\<close>, \<open>Hub_Store\<close>, \<open>Pairing_Outbox\<close>,
    \<open>Attachment_Delivery\<close> (\<open>internal/store\<close>): the in-memory store, one record \<open>memory_store\<close> with a
    field per field of \<open>MemoryStore\<close>, and one function per operation, from state to result and state.
    \<open>Pagination\<close> is the cursor arithmetic of the store, the artifact listing and the service.
  \<^item> \<open>Message_Invariants\<close>, \<open>DM_Topology\<close>, \<open>Hub_Invariants\<close>, \<open>Outbox_Properties\<close>, \<open>Store_Machine\<close>: the
    invariants of that store, and the inductive relation whose steps are its operations.
  \<^item> \<open>Event_Broker\<close>, \<open>Message_Events\<close>, \<open>Delivery_System\<close> (\<open>internal/events/broker.go\<close> and the callers in
    \<open>internal/rooms\<close>): live fan-out, the bounded replay history, and the composition of store and
    broker that delivers messages to attached agents.

  \<^bold>\<open>Concurrency.\<close> Each store and broker operation holds the component's mutex, so operations are
  atomic steps and the relations \<open>store_step\<close> and \<open>delivery_step\<close> interleave them in any order.
  \<open>Delivery_System\<close> adds ghost fields (what was published, what each agent received) that no
  operation reads.

  \<^bold>\<open>Errors.\<close> A Go error is a constructor of a datatype (\<open>store_error\<close>, \<open>hub_error\<close>,
  \<open>validation_error\<close>), returned on the left of a sum or as an option; where callers cannot tell two
  errors apart (canonical JSON) it is \<open>None\<close>. Texts of error messages are kept where they are
  constant. Integers are unbounded, with the 64-bit bounds written out where input is decoded;
  SHA-256 is on 32-bit words.

  \<^bold>\<open>Bounds and fuel.\<close> The canonical parser is given one unit of fuel more than the input has bytes;
  \<open>Canonical_Fuel\<close> shows that no other bound accepts more. The broker keeps 256 events. No other
  recursion is bounded.

  \<^bold>\<open>Parameters.\<close> What is not in the repository is an argument: \<open>url.Parse\<close> in the validator of part
  URLs, and in \<open>go_env\<close> the text of numbers that are not integers (\<open>strconv\<close>) and \<open>ed25519.Verify\<close>.
  \<open>net_env\<close> adds the parsing of hosts. What a home answers over the network (control events, pages),
  the text of times, and the encoded sizes that decide where a page ends are arguments. Signing functions are arguments, as in the code. Randomness
  and time are arguments and do not fail; the byte budget of a page is an argument.

  \<^bold>\<open>What the groups of lemmas show.\<close> Store: every reachable store is well formed, histories only
  grow, origins are stored once, appends are atomic and idempotent up to a duplicate report,
  conversations keep their participants, receipt and control chains only extend. Outbox: pruning,
  results, reconciliation and binding touch exactly the rows they should. Delivery: an agent
  receives the durable log in order without gap or repetition. Canonical JSON: parsing inverts
  printing. Hub rooms: statements verify to what was signed and have one form; the head digest
  commits to the log; the cache equals a replay; a roster keeps one owner; history is served by
  standing only; the home only appends records that every member can replay, chains the receipts it
  signs without a fork, and admits a network once per invite. Messages: an accepted envelope states
  exactly the message, under the key that is pinned; what one network signs the other accepts; the
  home places each event of a member once; a member stores only what the origin, the home and its
  own log vouch for; a pull never corrupts that log; a verified page continues the chain without a
  gap, and every page of an honest home verifies. Keys: a verified pin is never
  replaced by a weaker one, and the file stays readable. Callers: nobody speaks under another
  agent's or another network's name, a peer writes only where the room federates with it, a
  restricted stream and a peer's listings show nothing else than their access. Pages: walking by
  cursors visits everything once.

  \<^bold>\<open>Assumptions.\<close> Event ids are digests of message ids; the delivery theorems assume the published
  ids are distinct. The cache theorem assumes a stored digest names one record. Statements about
  digests name the collision that would refute them.

  \<^bold>\<open>Not modelled.\<close> The command line programs (\<open>cmd/\<close>), configuration files and their write-back
  (\<open>internal/app\<close>), HTTP transport and clients, the SQL and file stores and their migrations, the
  relay service and its deployment, the bridges to agent runtimes, the machine protocol, the web
  console, observability, and the locking and writing of files: they are I/O, queries in another
  language, or glue around the parts above. Of \<open>internal/rooms\<close>, joining a hub room, the delivery worker,
  live publication and the loops that call paired networks are left out: the state they drain and fill is modelled, their timers
  and network calls are not.
\<close>

end
